(* ===== verification/Prelude.thy ===== *)
theory Prelude
  imports Complex_Main "HOL-Library.Word" "HOL-Library.Sublist" "HOL-Library.Char_ord" "HOL-Library.List_Lexorder"
begin

text \<open>
  What every component shares: the collections of facts the proofs are steered with, the
  machine integer of the Go code, decimal and hexadecimal rendering as
  \<^verbatim>\<open>fmt.Sprintf\<close> and \<^verbatim>\<open>strconv\<close> produce it, the few functions of package
  \<^verbatim>\<open>strings\<close> the sources call, and the lemmas about lists and maps more than one
  component needs. A string is a list of bytes, as in Go.
\<close>

section \<open>Collections\<close>

named_theorems inv_intros \<open>preservation of a component's invariant by its operations\<close>
named_theorems op_defs \<open>definitions of the operations a proof unfolds together\<close>
named_theorems frame_simps \<open>fields an operation leaves alone\<close>

text \<open>Go's \<^verbatim>\<open>int\<close> and \<^verbatim>\<open>int64\<close>: 64 bits, two's complement.\<close>

type_synonym i64 = "64 word"

section \<open>Decimal and hexadecimal rendering\<close>

definition digit_char :: "nat \<Rightarrow> char" where
  "digit_char d = ''0123456789ABCDEF'' ! d"

definition digit_val :: "char \<Rightarrow> nat" where
  "digit_val c = of_char c - 48"

definition is_digit :: "char \<Rightarrow> bool" where
  "is_digit c \<longleftrightarrow> 48 \<le> (of_char c :: nat) \<and> (of_char c :: nat) \<le> 57"

fun dec :: "nat \<Rightarrow> string" where
  "dec n = (if n < 10 then [digit_char n] else dec (n div 10) @ [digit_char (n mod 10)])"

declare dec.simps [simp del]

definition of_dec :: "string \<Rightarrow> nat" where
  "of_dec s = foldl (\<lambda>a c. 10 * a + digit_val c) 0 s"

fun hex_upper :: "nat \<Rightarrow> string" where
  "hex_upper n = (if n < 16 then [digit_char n] else hex_upper (n div 16) @ [digit_char (n mod 16)])"

declare hex_upper.simps [simp del]

definition pad_left :: "nat \<Rightarrow> string \<Rightarrow> string" where
  "pad_left w s = replicate (w - length s) CHR ''0'' @ s"

lemma less_ten_cases:
  fixes n :: nat
  shows "n < 10 \<Longrightarrow> n = 0 \<or> n = 1 \<or> n = 2 \<or> n = 3 \<or> n = 4 \<or> n = 5 \<or> n = 6 \<or> n = 7 \<or> n = 8 \<or> n = 9"
  by arith

lemma digit_char_val [simp]: "d < 10 \<Longrightarrow> digit_val (digit_char d) = d"
  by (drule less_ten_cases) (auto simp: digit_val_def digit_char_def)

lemma digit_char_is_digit [simp]: "d < 10 \<Longrightarrow> is_digit (digit_char d)"
  by (drule less_ten_cases) (auto simp: is_digit_def digit_char_def)

lemma of_dec_snoc: "of_dec (s @ [c]) = 10 * of_dec s + digit_val c"
  by (simp add: of_dec_def)

lemma of_dec_dec [simp]: "of_dec (dec n) = n"
proof (induction n rule: dec.induct)
  case (1 n)
  show ?case
  proof (cases "n < 10")
    case True
    then show ?thesis by (simp add: dec.simps [of n] of_dec_def)
  next
    case False
    with 1 have "of_dec (dec (n div 10)) = n div 10" by simp
    with False show ?thesis by (simp add: dec.simps [of n] of_dec_snoc)
  qed
qed

lemma dec_inj [simp]: "dec m = dec n \<longleftrightarrow> m = n"
  by (metis of_dec_dec)

lemma dec_digits: "c \<in> set (dec n) \<Longrightarrow> is_digit c"
proof (induction n rule: dec.induct)
  case (1 n)
  then show ?case by (auto simp: dec.simps [of n] split: if_splits)
qed

lemma dec_not_Nil [simp]: "dec n \<noteq> []"
  by (simp add: dec.simps [of n])

lemma dec_no_dot [simp]: "CHR ''.'' \<notin> set (dec n)"
  using dec_digits [of "CHR ''.''" n] by (auto simp: is_digit_def)

lemma dec_no_slash [simp]: "CHR ''/'' \<notin> set (dec n)"
  using dec_digits [of "CHR ''/''" n] by (auto simp: is_digit_def)

section \<open>Package strings\<close>

text \<open>\<^verbatim>\<open>strings.Split\<close> on a one-byte separator, and \<^verbatim>\<open>strings.Join\<close>.\<close>

fun split_on :: "char \<Rightarrow> string \<Rightarrow> string list" where
  "split_on sep [] = [[]]"
| "split_on sep (c # cs) =
     (if c = sep then [] # split_on sep cs
      else (case split_on sep cs of [] \<Rightarrow> [[c]] | w # ws \<Rightarrow> (c # w) # ws))"

fun join_with :: "string \<Rightarrow> string list \<Rightarrow> string" where
  "join_with sep [] = []"
| "join_with sep [w] = w"
| "join_with sep (w # v # ws) = w @ sep @ join_with sep (v # ws)"

lemma split_on_not_Nil [simp]: "split_on sep s \<noteq> []"
  by (induction s) (auto split: list.splits)

lemma split_on_plain: "sep \<notin> set w \<Longrightarrow> split_on sep w = [w]"
  by (induction w) auto

lemma split_on_append: "sep \<notin> set w \<Longrightarrow> split_on sep (w @ sep # s) = w # split_on sep s"
  by (induction w) auto

lemma split_join:
  "ws \<noteq> [] \<Longrightarrow> \<forall>w \<in> set ws. sep \<notin> set w \<Longrightarrow> split_on sep (join_with [sep] ws) = ws"
  by (induction "[sep]" ws rule: join_with.induct) (auto simp: split_on_plain split_on_append)

text \<open>\<^verbatim>\<open>strings.Cut\<close> at the first occurrence of a byte: what is before, what is after.\<close>

fun cut_at :: "char \<Rightarrow> string \<Rightarrow> (string \<times> string) option" where
  "cut_at sep [] = None"
| "cut_at sep (c # cs) =
     (if c = sep then Some ([], cs)
      else map_option (\<lambda>(a, b). (c # a, b)) (cut_at sep cs))"

lemma cut_at_append: "sep \<notin> set a \<Longrightarrow> cut_at sep (a @ sep # b) = Some (a, b)"
  by (induction a) auto

lemma cut_at_Some: "cut_at sep s = Some (a, b) \<Longrightarrow> s = a @ sep # b \<and> sep \<notin> set a"
  by (induction s arbitrary: a) (auto split: if_splits)

lemma cut_at_None: "cut_at sep s = None \<longleftrightarrow> sep \<notin> set s"
  by (induction s) auto

text \<open>\<^verbatim>\<open>strings.Contains\<close>.\<close>

definition contains_str :: "string \<Rightarrow> string \<Rightarrow> bool" where
  "contains_str s t \<longleftrightarrow> sublist t s"

lemma contains_str_code [code]: "contains_str s t = (\<exists>u \<in> set (suffixes s). prefix t u)"
  by (force simp: contains_str_def sublist_altdef' suffix_def prefix_def)

text \<open>\<^verbatim>\<open>strings.TrimSpace\<close> and \<^verbatim>\<open>strings.ToLower\<close>, on ASCII.\<close>

definition is_space :: "char \<Rightarrow> bool" where
  "is_space c \<longleftrightarrow> c \<in> {CHR '' '', CHR 0x09, CHR 0x0A, CHR 0x0B, CHR 0x0C, CHR 0x0D}"

definition trim_with :: "(char \<Rightarrow> bool) \<Rightarrow> string \<Rightarrow> string" where
  "trim_with p s = rev (dropWhile p (rev (dropWhile p s)))"

definition to_lower :: "char \<Rightarrow> char" where
  "to_lower c = (if 65 \<le> (of_char c :: nat) \<and> (of_char c :: nat) \<le> 90
                 then char_of ((of_char c :: nat) + 32) else c)"

text \<open>\<^verbatim>\<open>strings.Fields\<close>: the maximal runs of non-space bytes.\<close>

function fields_of :: "string \<Rightarrow> string list" where
  "fields_of s =
     (let r = dropWhile is_space s in
      if r = [] then []
      else takeWhile (\<lambda>c. \<not> is_space c) r # fields_of (dropWhile (\<lambda>c. \<not> is_space c) r))"
  by pat_completeness auto
termination
proof (relation "measure length")
  fix s :: string and r :: string
  assume r: "r = dropWhile is_space s" and ne: "r \<noteq> []"
  then have "\<not> is_space (hd r)" using hd_dropWhile by blast
  with ne have "length (dropWhile (\<lambda>c. \<not> is_space c) r) < length r"
    by (cases r) (auto simp: le_imp_less_Suc length_dropWhile_le)
  also have "length r \<le> length s" using r by (simp add: length_dropWhile_le)
  finally show "(dropWhile (\<lambda>c. \<not> is_space c) r, s) \<in> measure length" by simp
qed simp

declare fields_of.simps [simp del]

lemma fields_of_Nil [simp]: "fields_of [] = []"
  by (simp add: fields_of.simps [of "[]"])

lemma fields_of_word:
  assumes "w \<noteq> []" "\<forall>c \<in> set w. \<not> is_space c"
  shows "fields_of (w @ CHR '' '' # s) = w # fields_of (CHR '' '' # s)"
    and "fields_of w = [w]"
proof -
  obtain c cs where w: "w = c # cs" and c: "\<not> is_space c" using assms by (cases w) auto
  have "dropWhile is_space (w @ t) = w @ t" for t using w c by simp
  moreover have "takeWhile (\<lambda>c. \<not> is_space c) (w @ CHR '' '' # s) = w"
    using assms(2) by (simp add: is_space_def takeWhile_tail)
  moreover have "dropWhile (\<lambda>c. \<not> is_space c) (w @ CHR '' '' # s) = CHR '' '' # s"
    using assms(2) by (simp add: dropWhile_append is_space_def)
  ultimately show "fields_of (w @ CHR '' '' # s) = w # fields_of (CHR '' '' # s)"
    using assms(1) by (simp add: fields_of.simps [of "w @ CHR '' '' # s"] Let_def)
  have "dropWhile is_space w = w" using w c by simp
  moreover have "takeWhile (\<lambda>c. \<not> is_space c) w = w" "dropWhile (\<lambda>c. \<not> is_space c) w = []"
    using assms(2) by auto
  ultimately show "fields_of w = [w]"
    using assms(1) by (simp only: fields_of.simps [of w] Let_def fields_of_Nil if_False)
qed

lemma fields_of_space [simp]: "fields_of (CHR '' '' # s) = fields_of s"
  by (simp add: fields_of.simps [of "CHR '' '' # s"] fields_of.simps [of s] is_space_def)

text \<open>Words joined by single spaces come back apart.\<close>

lemma fields_of_join:
  "\<forall>w \<in> set ws. w \<noteq> [] \<and> (\<forall>c \<in> set w. \<not> is_space c) \<Longrightarrow> fields_of (join_with '' '' ws) = ws"
proof (induction "'' ''" ws rule: join_with.induct)
  case (3 w v ws)
  then show ?case by (simp add: fields_of_word(1))
qed (simp_all add: fields_of_word(2))

section \<open>Lists and maps\<close>

text \<open>\<^verbatim>\<open>slices.Index\<close>: the first position of a value.\<close>

fun index_of :: "'a \<Rightarrow> 'a list \<Rightarrow> nat option" where
  "index_of x [] = None"
| "index_of x (y # ys) = (if x = y then Some 0 else map_option Suc (index_of x ys))"

lemma index_of_SomeD:
  "index_of x xs = Some i \<Longrightarrow> i < length xs \<and> xs ! i = x \<and> (\<forall>j < i. xs ! j \<noteq> x)"
proof (induction xs arbitrary: i)
  case (Cons y ys)
  then show ?case by (auto simp: nth_Cons split: if_splits nat.splits)
qed simp

lemma index_of_None [simp]: "index_of x xs = None \<longleftrightarrow> x \<notin> set xs"
  by (induction xs) auto

lemma sorted_wrt_less_distinct:
  fixes xs :: "'a :: linorder list"
  shows "sorted_wrt (<) xs \<Longrightarrow> distinct xs"
  by (induction xs) auto

end
