(* ===== verification/Hostnet.thy ===== *)
theory Hostnet
  imports Prelude
begin

text \<open>
  Package \<^verbatim>\<open>internal/hostnet\<close>: what a slot number derives (tap name, host and guest
  address, MAC), the way back from a guest address to its slot, and the tap commands. The
  \<^verbatim>\<open>ip\<close> program is a parameter: a function from its arguments and the state of the
  network to an error (if it failed), its output and the new state.
\<close>

section \<open>Addressing\<close>

definition tap_name :: "nat \<Rightarrow> string" where
  "tap_name slot = ''tap'' @ dec slot"

definition dotted :: "nat \<Rightarrow> nat \<Rightarrow> nat \<Rightarrow> nat \<Rightarrow> string" where
  "dotted a b c d = join_with ''.'' [dec a, dec b, dec c, dec d]"

definition slot_addrs :: "nat \<Rightarrow> string \<times> string \<times> string" where
  "slot_addrs slot =
     (let h = 4 * slot + 1; g = 4 * slot + 2 in
      (dotted 172 16 (h div 256) (h mod 256),
       dotted 172 16 (g div 256) (g mod 256),
       ''02:FC:00:00:'' @ pad_left 2 (hex_upper (slot div 256)) @ '':'' @
         pad_left 2 (hex_upper (slot mod 256))))"

text \<open>\<^verbatim>\<open>netip.Addr\<close>, as far as it is looked at: an IPv4 address of four bytes, or not one.\<close>

datatype netip_addr = Addr4 "8 word" "8 word" "8 word" "8 word" | AddrOther

definition slot_of :: "netip_addr \<Rightarrow> nat option" where
  "slot_of addr =
     (case addr of
        AddrOther \<Rightarrow> None
      | Addr4 o0 o1 o2 o3 \<Rightarrow>
          if o0 \<noteq> 172 \<or> o1 \<noteq> 16 then None
          else (let n = unat o2 * 256 + unat o3 in
                if n mod 4 \<noteq> 2 then None else Some ((n - 2) div 4)))"

text \<open>\<^verbatim>\<open>netip.ParseAddr\<close> on the dotted form: four decimal bytes, no leading zeros.\<close>

definition octet_ok :: "string \<Rightarrow> bool" where
  "octet_ok s \<longleftrightarrow> s \<noteq> [] \<and> list_all is_digit s \<and> of_dec s < 256 \<and> (length s > 1 \<longrightarrow> hd s \<noteq> CHR ''0'')"

definition parse_ipv4 :: "string \<Rightarrow> netip_addr option" where
  "parse_ipv4 s =
     (case split_on CHR ''.'' s of
        [a, b, c, d] \<Rightarrow>
          if list_all octet_ok [a, b, c, d]
          then Some (Addr4 (of_nat (of_dec a)) (of_nat (of_dec b)) (of_nat (of_dec c)) (of_nat (of_dec d)))
          else None
      | _ \<Rightarrow> None)"

section \<open>Taps\<close>

type_synonym 'n ip_command = "string list \<Rightarrow> 'n \<Rightarrow> string option \<times> string \<times> 'n"

definition wrap_err :: "string option \<Rightarrow> string \<Rightarrow> string option" where
  "wrap_err err out = map_option (\<lambda>e. e @ '': '' @ trim_with is_space out) err"

definition run_ip :: "'n ip_command \<Rightarrow> string list \<Rightarrow> 'n \<Rightarrow> string option \<times> 'n" where
  "run_ip ip args n = (case ip args n of (err, out, n') \<Rightarrow> (wrap_err err out, n'))"

definition delete_tap :: "'n ip_command \<Rightarrow> string \<Rightarrow> 'n \<Rightarrow> string option \<times> 'n" where
  "delete_tap ip name n =
     (case ip [''ip'', ''link'', ''del'', name] n of
        (err, out, n') \<Rightarrow>
          if err \<noteq> None \<and> contains_str out ''Cannot find device'' then (None, n')
          else (wrap_err err out, n'))"

definition create_tap :: "'n ip_command \<Rightarrow> string \<Rightarrow> string \<Rightarrow> string \<Rightarrow> 'n \<Rightarrow> string option \<times> 'n" where
  "create_tap ip name host_ip user n =
     (case delete_tap ip name n of (_, n0) \<Rightarrow>
      (case run_ip ip [''ip'', ''tuntap'', ''add'', name, ''mode'', ''tap'', ''user'', user] n0 of
         (Some e, n1) \<Rightarrow> (Some e, n1)
       | (None, n1) \<Rightarrow>
          (case run_ip ip [''ip'', ''addr'', ''add'', host_ip @ ''/30'', ''dev'', name] n1 of
             (Some e, n2) \<Rightarrow> (Some e, n2)
           | (None, n2) \<Rightarrow> run_ip ip [''ip'', ''link'', ''set'', name, ''up''] n2)))"

section \<open>The derived addresses\<close>

lemma tap_name_inj [simp]: "tap_name s = tap_name t \<longleftrightarrow> s = t"
  by (simp add: tap_name_def)

lemma dec_lead: "hd (dec n) \<noteq> CHR ''0'' \<or> n = 0"
proof (induction n rule: dec.induct)
  case (1 n)
  show ?case
  proof (cases "n < 10")
    case True
    then show ?thesis
      by (auto simp: dec.simps [of n] digit_char_def dest!: less_ten_cases)
  next
    case False
    with 1 show ?thesis by (auto simp: dec.simps [of n])
  qed
qed

lemma dec_octet_ok [simp]: "n < 256 \<Longrightarrow> octet_ok (dec n)"
  using dec_lead [of n]
  by (auto simp: octet_ok_def list_all_iff dec.simps [of 0] dest: dec_digits)

lemma parse_dotted:
  assumes "a < 256" "b < 256" "c < 256" "d < 256"
  shows "parse_ipv4 (dotted a b c d) = Some (Addr4 (of_nat a) (of_nat b) (of_nat c) (of_nat d))"
proof -
  have "split_on CHR ''.'' (dotted a b c d) = [dec a, dec b, dec c, dec d]"
    unfolding dotted_def by (rule split_join) auto
  with assms show ?thesis by (simp add: parse_ipv4_def)
qed

lemma slot_of_guest:
  assumes "s < 16384"
  shows "slot_of (Addr4 172 16 (of_nat ((4 * s + 2) div 256)) (of_nat ((4 * s + 2) mod 256))) = Some s"
proof -
  have "(4 * s + 2) div 256 < 256" using assms by simp
  then have "unat (of_nat ((4 * s + 2) div 256) :: 8 word) = (4 * s + 2) div 256"
    by (simp add: unat_of_nat)
  moreover have "unat (of_nat ((4 * s + 2) mod 256) :: 8 word) = (4 * s + 2) mod 256"
    by (simp add: unat_of_nat)
  ultimately have "unat (of_nat ((4 * s + 2) div 256) :: 8 word) * 256 +
      unat (of_nat ((4 * s + 2) mod 256) :: 8 word) = 4 * s + 2"
    by (simp add: div_mult_mod_eq)
  then show ?thesis by (simp add: slot_of_def Let_def) presburger
qed

text \<open>
  \<^verbatim>\<open>SlotOf\<close> is \<^verbatim>\<open>SlotAddrs\<close> run backwards: for every slot whose subnet fits
  172.16/16 the guest address parses and names that slot, and no host (tap) address names any.
\<close>

theorem slot_addrs_roundtrip:
  assumes "slot < 16384" and "slot_addrs slot = (host, guest, mac)"
  shows "map_option slot_of (parse_ipv4 guest) = Some (Some slot) \<and>
         map_option slot_of (parse_ipv4 host) = Some None"
proof
  have lt: "(4 * slot + 2) div 256 < 256" "(4 * slot + 1) div 256 < 256" using assms(1) by simp_all
  have g: "guest = dotted 172 16 ((4 * slot + 2) div 256) ((4 * slot + 2) mod 256)"
    and h: "host = dotted 172 16 ((4 * slot + 1) div 256) ((4 * slot + 1) mod 256)"
    using assms(2) by (simp_all add: slot_addrs_def Let_def)
  show "map_option slot_of (parse_ipv4 guest) = Some (Some slot)"
    using slot_of_guest [OF assms(1)] lt by (simp add: g parse_dotted)
  have "(unat (of_nat ((4 * slot + 1) div 256) :: 8 word) * 256 +
      unat (of_nat ((4 * slot + 1) mod 256) :: 8 word)) mod 4 \<noteq> 2"
    using lt by (simp add: unat_of_nat)
  then show "map_option slot_of (parse_ipv4 host) = Some None"
    using lt by (simp add: h parse_dotted slot_of_def Let_def)
qed

theorem slot_addrs_roundtrip_witness:
  "map_option slot_of (parse_ipv4 (fst (snd (slot_addrs 300)))) = Some (Some 300) \<and>
   map_option slot_of (parse_ipv4 (fst (slot_addrs 300))) = Some None"
  by (rule slot_addrs_roundtrip [of 300 _ _ "snd (snd (slot_addrs 300))"]) simp_all

text \<open>The answer names a machine: an address \<^verbatim>\<open>SlotOf\<close> accepts is that slot's guest address.\<close>

lemma slot_of_sound:
  assumes "slot_of a = Some s"
  shows "s < 16384 \<and> a = Addr4 172 16 (of_nat ((4 * s + 2) div 256)) (of_nat ((4 * s + 2) mod 256))"
proof (cases a)
  case (Addr4 o0 o1 o2 o3)
  let ?n = "unat o2 * 256 + unat o3"
  from assms Addr4 have o: "o0 = 172" "o1 = 16" and m: "?n mod 4 = 2" and s: "s = (?n - 2) div 4"
    by (auto simp: slot_of_def Let_def split: if_splits)
  have b: "unat o2 < 256" "unat o3 < 256"
    using unsigned_less [of o2, where 'a = nat] unsigned_less [of o3, where 'a = nat] by simp_all
  have undo: "4 * ((k - 2) div 4) + 2 = k" if "k mod 4 = 2" for k :: nat
    using that by presburger
  from undo [OF m] s have n: "4 * s + 2 = ?n" by simp
  have "?n div 256 = unat o2" "?n mod 256 = unat o3" using b by simp_all
  then have "o2 = of_nat ((4 * s + 2) div 256)" "o3 = of_nat ((4 * s + 2) mod 256)"
    unfolding n by (simp_all only: of_nat_unat ucast_id)
  moreover have "s < 16384" using n b by linarith
  ultimately show ?thesis using o Addr4 by (simp only: simp_thms)
qed (use assms in \<open>simp add: slot_of_def\<close>)

lemma slot_addrs_guest_inj:
  assumes "s < 16384" "t < 16384" and "fst (snd (slot_addrs s)) = fst (snd (slot_addrs t))"
  shows "s = t"
proof -
  have "map_option slot_of (parse_ipv4 (fst (snd (slot_addrs u)))) = Some (Some u)" if "u < 16384" for u
  proof -
    have "(4 * u + 2) div 256 < 256" using that by simp
    moreover have "fst (snd (slot_addrs u)) = dotted 172 16 ((4 * u + 2) div 256) ((4 * u + 2) mod 256)"
      by (simp only: slot_addrs_def Let_def fst_conv snd_conv)
    ultimately show ?thesis
      using parse_dotted [of 172 16 "(4 * u + 2) div 256" "(4 * u + 2) mod 256"] slot_of_guest [OF that]
      by (simp only: mod_less_divisor zero_less_numeral option.map of_nat_numeral)
  qed
  from this [OF assms(1)] this [OF assms(2)] assms(3) show ?thesis by (metis option.inject)
qed

section \<open>The tap commands\<close>

text \<open>A missing device is not an error to \<^verbatim>\<open>DeleteTap\<close>; any other failure is kept.\<close>

lemma delete_tap_missing:
  "ip [''ip'', ''link'', ''del'', name] n = (Some e, out, n') \<Longrightarrow>
   contains_str out ''Cannot find device'' \<Longrightarrow> delete_tap ip name n = (None, n')"
  by (simp add: delete_tap_def)

lemma delete_tap_other:
  "ip [''ip'', ''link'', ''del'', name] n = (Some e, out, n') \<Longrightarrow>
   \<not> contains_str out ''Cannot find device'' \<Longrightarrow> fst (delete_tap ip name n) \<noteq> None"
  by (simp add: delete_tap_def wrap_err_def)

end
