(* ===== verification/VmRegistry.thy ===== *)
theory VmRegistry
  imports Hostnet
begin

text \<open>
  The registry of package \<^verbatim>\<open>internal/vm\<close> (\<^verbatim>\<open>vm.go\<close>, \<^verbatim>\<open>registry.go\<close>): the one owner of
  all VM state, a table of \<^verbatim>\<open>MaxVMs\<close> slots and an index by id. The code keeps
  \<^verbatim>\<open>*VM\<close> pointers in both and compares pointers, so the model has an explicit heap: a
  pointer is a number, \<open>r_heap\<close> gives the record it points to. Each operation is the body of a
  method between taking and releasing \<^verbatim>\<open>mu\<close>.
\<close>

section \<open>States and sizes\<close>

datatype vm_state = Creating | Running | Paused | Stopping | Failed

definition max_vms :: nat where "max_vms = 5"
definition vcpus :: nat where "vcpus = 2"
definition mem_mib :: nat where "mem_mib = 4096"
definition host_mem_mib :: nat where "host_mem_mib = 28672"

fun legal_transitions :: "vm_state \<Rightarrow> vm_state list" where
  "legal_transitions Creating = [Running, Stopping, Failed]"
| "legal_transitions Running = [Paused, Stopping, Failed]"
| "legal_transitions Paused = [Running, Stopping, Failed]"
| "legal_transitions Stopping = []"
| "legal_transitions Failed = [Stopping]"

definition can_transition :: "vm_state \<Rightarrow> vm_state \<Rightarrow> bool" where
  "can_transition from to \<longleftrightarrow> to \<in> set (legal_transitions from)"

fun state_name :: "vm_state \<Rightarrow> string" where
  "state_name Creating = ''creating''"
| "state_name Running = ''running''"
| "state_name Paused = ''paused''"
| "state_name Stopping = ''stopping''"
| "state_name Failed = ''failed''"

section \<open>The registry\<close>

type_synonym vptr = nat

text \<open>
  \<^verbatim>\<open>VM\<close>. The command and the console are only ever compared with nil, so they are flags;
  the \<^verbatim>\<open>done\<close> channel is whether it is closed.
\<close>

record vm =
  vm_id :: string
  vm_slot :: nat
  vm_st :: vm_state
  vm_pid :: int
  created_at :: int
  vm_tap :: string
  host_ip :: string
  guest_ip :: string
  vm_mac :: string
  vm_cmd :: bool
  vm_done :: bool
  vm_stopping :: bool
  ws_new :: bool
  vm_console :: bool
  last_cpu :: rat
  last_sample :: "int option"

record registry =
  r_slots :: "vptr option list"
  r_byid :: "string \<rightharpoonup> vptr"
  r_heap :: "vptr \<Rightarrow> vm"
  r_fresh :: vptr

text \<open>The sentinel errors, each with what the wrapping \<^verbatim>\<open>fmt.Errorf\<close> adds to it.\<close>

datatype vm_error =
    ErrNotFound string
  | ErrDuplicate string
  | ErrNoSlots nat nat
  | ErrState string
  | ErrIO string

definition new_vm :: "int \<Rightarrow> string \<Rightarrow> nat \<Rightarrow> vm" where
  "new_vm now vid slot =
     (case slot_addrs slot of (host, guest, mac) \<Rightarrow>
        \<lparr>vm_id = vid, vm_slot = slot, vm_st = Creating, vm_pid = 0, created_at = now,
         vm_tap = tap_name slot, host_ip = host, guest_ip = guest, vm_mac = mac,
         vm_cmd = False, vm_done = False, vm_stopping = False, ws_new = False,
         vm_console = False, last_cpu = 0, last_sample = None\<rparr>)"

definition new_registry :: registry where
  "new_registry = \<lparr>r_slots = replicate max_vms None, r_byid = Map.empty,
     r_heap = (\<lambda>_. new_vm 0 [] 0), r_fresh = 0\<rparr>"

definition free_slot :: "registry \<Rightarrow> nat option" where
  "free_slot r = index_of None (r_slots r)"

definition allocate :: "int \<Rightarrow> string \<Rightarrow> registry \<Rightarrow> (vm_error + vptr) \<times> registry" where
  "allocate now vid r =
     (if r_byid r vid \<noteq> None then (Inl (ErrDuplicate vid), r)
      else (case free_slot r of
              None \<Rightarrow> (Inl (ErrNoSlots max_vms max_vms), r)
            | Some slot \<Rightarrow>
                let v = r_fresh r in
                (Inr v, r\<lparr>r_slots := (r_slots r)[slot := Some v], r_byid := (r_byid r)(vid \<mapsto> v),
                          r_heap := (r_heap r)(v := new_vm now vid slot), r_fresh := Suc v\<rparr>)))"

definition release_locked :: "vptr \<Rightarrow> registry \<Rightarrow> registry" where
  "release_locked v r =
     (let m = r_heap r v;
          r1 = (if r_slots r ! vm_slot m = Some v then r\<lparr>r_slots := (r_slots r)[vm_slot m := None]\<rparr> else r)
      in if r_byid r1 (vm_id m) = Some v then r1\<lparr>r_byid := (r_byid r1)(vm_id m := None)\<rparr> else r1)"

definition release :: "vptr \<Rightarrow> registry \<Rightarrow> registry" where
  "release v r = release_locked v r"

definition get_vm :: "string \<Rightarrow> registry \<Rightarrow> vm_error + vptr" where
  "get_vm vid r = (case r_byid r vid of None \<Rightarrow> Inl (ErrNotFound vid) | Some v \<Rightarrow> Inr v)"

definition list_vms :: "registry \<Rightarrow> vptr list" where
  "list_vms r = List.map_filter id (r_slots r)"

definition upd_vm :: "vptr \<Rightarrow> (vm \<Rightarrow> vm) \<Rightarrow> registry \<Rightarrow> registry" where
  "upd_vm v f r = r\<lparr>r_heap := (r_heap r)(v := f (r_heap r v))\<rparr>"

definition set_state :: "vptr \<Rightarrow> vm_state \<Rightarrow> registry \<Rightarrow> vm_error option \<times> registry" where
  "set_state v to r =
     (let from = vm_st (r_heap r v) in
      if from = to then (None, r)
      else if \<not> can_transition from to
        then (Some (ErrState (state_name from @ '' -> '' @ state_name to)), r)
      else (None, upd_vm v (\<lambda>m. m\<lparr>vm_st := to\<rparr>) r))"

definition snapshot :: "vptr \<Rightarrow> registry \<Rightarrow> vm_state" where
  "snapshot v r = vm_st (r_heap r v)"

record capacity_report =
  slots_total :: int
  slots_used :: int
  slots_free :: int
  vcpus_allocated :: int
  mem_total :: int
  mem_allocated :: int
  mem_free :: int

definition capacity :: "registry \<Rightarrow> capacity_report" where
  "capacity r =
     (let used = int (length (filter (\<lambda>s. s \<noteq> None) (r_slots r))) in
      \<lparr>slots_total = int max_vms, slots_used = used, slots_free = int max_vms - used,
       vcpus_allocated = used * int vcpus, mem_total = int host_mem_mib,
       mem_allocated = used * int mem_mib, mem_free = int host_mem_mib - used * int mem_mib\<rparr>)"

section \<open>The invariant\<close>

text \<open>
  The slot table and the index agree: they hold the same pointers, each under its own slot and
  its own id, and every derived field is the one its slot derives.
\<close>

definition derived_ok :: "vm \<Rightarrow> bool" where
  "derived_ok m \<longleftrightarrow> vm_tap m = tap_name (vm_slot m) \<and>
     (host_ip m, guest_ip m, vm_mac m) = slot_addrs (vm_slot m)"

definition slots_ok :: "registry \<Rightarrow> bool" where
  "slots_ok r \<longleftrightarrow> (\<forall>s v. s < max_vms \<longrightarrow> r_slots r ! s = Some v \<longrightarrow>
     vm_slot (r_heap r v) = s \<and> r_byid r (vm_id (r_heap r v)) = Some v)"

definition index_ok :: "registry \<Rightarrow> bool" where
  "index_ok r \<longleftrightarrow> (\<forall>i v. r_byid r i = Some v \<longrightarrow>
     vm_id (r_heap r v) = i \<and> r_slots r ! vm_slot (r_heap r v) = Some v \<and> v < r_fresh r)"

definition heap_ok :: "registry \<Rightarrow> bool" where
  "heap_ok r \<longleftrightarrow> (\<forall>v < r_fresh r. vm_slot (r_heap r v) < max_vms \<and> derived_ok (r_heap r v))"

definition reg_inv :: "registry \<Rightarrow> bool" where
  "reg_inv r \<longleftrightarrow> length (r_slots r) = max_vms \<and> slots_ok r \<and> index_ok r \<and> heap_ok r"

lemma reg_inv_length: "reg_inv r \<Longrightarrow> length (r_slots r) = max_vms"
  by (simp add: reg_inv_def)

lemma reg_inv_slotD:
  "reg_inv r \<Longrightarrow> s < max_vms \<Longrightarrow> r_slots r ! s = Some v \<Longrightarrow>
   vm_slot (r_heap r v) = s \<and> r_byid r (vm_id (r_heap r v)) = Some v"
  unfolding reg_inv_def slots_ok_def by blast

lemma reg_inv_byidD:
  "reg_inv r \<Longrightarrow> r_byid r i = Some v \<Longrightarrow>
   vm_id (r_heap r v) = i \<and> r_slots r ! vm_slot (r_heap r v) = Some v \<and> v < r_fresh r"
  unfolding reg_inv_def index_ok_def by blast

lemma reg_inv_heapD:
  "reg_inv r \<Longrightarrow> v < r_fresh r \<Longrightarrow> vm_slot (r_heap r v) < max_vms \<and> derived_ok (r_heap r v)"
  unfolding reg_inv_def heap_ok_def by blast

lemma new_vm_simps [simp]:
  "vm_id (new_vm t i s) = i" "vm_slot (new_vm t i s) = s" "vm_st (new_vm t i s) = Creating"
  "derived_ok (new_vm t i s)" "vm_tap (new_vm t i s) = tap_name s"
  "\<not> vm_cmd (new_vm t i s)" "\<not> vm_done (new_vm t i s)" "\<not> vm_stopping (new_vm t i s)"
  "\<not> ws_new (new_vm t i s)" "vm_pid (new_vm t i s) = 0"
  by (auto simp: new_vm_def derived_ok_def split: prod.splits)

lemma reg_inv_new [inv_intros]: "reg_inv new_registry"
  by (simp add: reg_inv_def slots_ok_def index_ok_def heap_ok_def new_registry_def)

lemma free_slot_SomeD:
  "reg_inv r \<Longrightarrow> free_slot r = Some s \<Longrightarrow> s < max_vms \<and> r_slots r ! s = None"
  using reg_inv_length [of r] by (auto simp: free_slot_def dest: index_of_SomeD)

lemma reg_inv_allocate [inv_intros]:
  assumes "reg_inv r"
  shows "reg_inv (snd (allocate now vid r))"
proof (cases "r_byid r vid \<noteq> None \<or> free_slot r = None")
  case True
  with assms show ?thesis by (auto simp: allocate_def)
next
  case False
  then obtain s where s: "free_slot r = Some s" and n: "r_byid r vid = None" by auto
  let ?v = "r_fresh r"
  let ?h = "(r_heap r)(?v := new_vm now vid s)"
  let ?r = "r\<lparr>r_slots := (r_slots r)[s := Some ?v], r_byid := (r_byid r)(vid \<mapsto> ?v),
             r_heap := ?h, r_fresh := Suc ?v\<rparr>"
  have a: "snd (allocate now vid r) = ?r"
    using s n by (simp add: allocate_def Let_def)
  note slot = free_slot_SomeD [OF assms s]
  have len: "s < length (r_slots r)" using slot reg_inv_length [OF assms] by simp
  have fresh: "v \<noteq> ?v" if "r_byid r i = Some v" for i v
    using reg_inv_byidD [OF assms that] by simp
  have "slots_ok ?r"
    unfolding slots_ok_def
  proof (intro allI impI)
    fix t w assume t: "t < max_vms" and w: "r_slots ?r ! t = Some w"
    show "vm_slot (r_heap ?r w) = t \<and> r_byid ?r (vm_id (r_heap ?r w)) = Some w"
    proof (cases "t = s")
      case True
      with w len show ?thesis by simp
    next
      case False
      with w have w': "r_slots r ! t = Some w" by simp
      from reg_inv_slotD [OF assms t w'] n fresh show ?thesis by (auto split: if_splits)
    qed
  qed
  moreover have "index_ok ?r"
    unfolding index_ok_def
  proof (intro allI impI)
    fix i w assume w: "r_byid ?r i = Some w"
    show "vm_id (r_heap ?r w) = i \<and> r_slots ?r ! vm_slot (r_heap ?r w) = Some w \<and> w < r_fresh ?r"
    proof (cases "i = vid")
      case True
      with w len show ?thesis by simp
    next
      case False
      with w have w': "r_byid r i = Some w" by simp
      from reg_inv_byidD [OF assms w'] slot have "vm_slot (r_heap r w) \<noteq> s" by auto
      with reg_inv_byidD [OF assms w'] fresh [OF w'] show ?thesis by simp
    qed
  qed
  moreover have "heap_ok ?r"
    using assms slot by (auto simp: reg_inv_def heap_ok_def less_Suc_eq)
  ultimately show ?thesis using reg_inv_length [OF assms] by (simp add: a reg_inv_def)
qed

text \<open>Releasing drops a VM from both tables, or from neither when it is no longer registered.\<close>

lemma release_locked_eq:
  assumes "reg_inv r" and "v < r_fresh r"
  shows "release_locked v r =
    (if r_byid r (vm_id (r_heap r v)) = Some v
     then r\<lparr>r_slots := (r_slots r)[vm_slot (r_heap r v) := None],
            r_byid := (r_byid r)(vm_id (r_heap r v) := None)\<rparr>
     else r)"
proof -
  have "r_slots r ! vm_slot (r_heap r v) = Some v \<longleftrightarrow> r_byid r (vm_id (r_heap r v)) = Some v"
    using reg_inv_slotD [OF assms(1)] reg_inv_byidD [OF assms(1)] reg_inv_heapD [OF assms] by blast
  then show ?thesis by (simp add: release_locked_def Let_def)
qed

lemma reg_inv_release [inv_intros]:
  assumes "reg_inv r" and "v < r_fresh r"
  shows "reg_inv (release_locked v r)"
proof (cases "r_byid r (vm_id (r_heap r v)) = Some v")
  case False
  with assms show ?thesis by (simp add: release_locked_eq)
next
  case True
  let ?r = "r\<lparr>r_slots := (r_slots r)[vm_slot (r_heap r v) := None],
            r_byid := (r_byid r)(vm_id (r_heap r v) := None)\<rparr>"
  have len: "vm_slot (r_heap r v) < length (r_slots r)"
    using reg_inv_heapD [OF assms] reg_inv_length [OF assms(1)] by simp
  have "slots_ok ?r"
    unfolding slots_ok_def
  proof (intro allI impI)
    fix t w assume t: "t < max_vms" and w: "r_slots ?r ! t = Some w"
    then have "t \<noteq> vm_slot (r_heap r v)" and w': "r_slots r ! t = Some w"
      using len by (auto simp: nth_list_update split: if_splits)
    with reg_inv_slotD [OF assms(1) t w'] True
    show "vm_slot (r_heap ?r w) = t \<and> r_byid ?r (vm_id (r_heap ?r w)) = Some w" by auto
  qed
  moreover have "index_ok ?r"
    unfolding index_ok_def
  proof (intro allI impI)
    fix i w assume "r_byid ?r i = Some w"
    then have i: "i \<noteq> vm_id (r_heap r v)" and w: "r_byid r i = Some w" by (auto split: if_splits)
    from reg_inv_byidD [OF assms(1) w] i reg_inv_byidD [OF assms(1) True]
    have "vm_slot (r_heap r w) \<noteq> vm_slot (r_heap r v)" by auto
    with reg_inv_byidD [OF assms(1) w]
    show "vm_id (r_heap ?r w) = i \<and> r_slots ?r ! vm_slot (r_heap ?r w) = Some w \<and> w < r_fresh ?r" by simp
  qed
  ultimately show ?thesis
    using assms True by (simp add: release_locked_eq reg_inv_def heap_ok_def)
qed

text \<open>An edit of a VM record that keeps its id and what its slot derives keeps the invariant.\<close>

definition keeps_identity :: "(vm \<Rightarrow> vm) \<Rightarrow> bool" where
  "keeps_identity f \<longleftrightarrow> (\<forall>m. vm_id (f m) = vm_id m \<and> vm_slot (f m) = vm_slot m \<and>
     vm_tap (f m) = vm_tap m \<and> host_ip (f m) = host_ip m \<and> guest_ip (f m) = guest_ip m \<and>
     vm_mac (f m) = vm_mac m)"

lemma reg_inv_upd [inv_intros]:
  assumes "reg_inv r" and "keeps_identity f"
  shows "reg_inv (upd_vm v f r)"
  using assms
  by (auto simp: reg_inv_def slots_ok_def index_ok_def heap_ok_def upd_vm_def keeps_identity_def
      derived_ok_def)

lemma reg_inv_set_state [inv_intros]: "reg_inv r \<Longrightarrow> reg_inv (snd (set_state v to r))"
  by (auto simp: set_state_def Let_def keeps_identity_def intro: reg_inv_upd)

lemma upd_vm_frame [frame_simps, simp]:
  "r_slots (upd_vm v f r) = r_slots r" "r_byid (upd_vm v f r) = r_byid r"
  "r_fresh (upd_vm v f r) = r_fresh r"
  "r_heap (upd_vm v f r) w = (if w = v then f (r_heap r v) else r_heap r w)"
  by (simp_all add: upd_vm_def)

lemma set_state_frame [frame_simps, simp]:
  "r_slots (snd (set_state v to r)) = r_slots r" "r_byid (snd (set_state v to r)) = r_byid r"
  "r_fresh (snd (set_state v to r)) = r_fresh r"
  by (simp_all add: set_state_def Let_def)

lemma release_frame [frame_simps, simp]:
  "r_heap (release_locked v r) = r_heap r" "r_fresh (release_locked v r) = r_fresh r"
  by (simp_all add: release_locked_def Let_def)

end
