(* ===== verification/VmLifecycle.thy ===== *)
theory VmLifecycle
  imports VmRegistry
begin

text \<open>
  The lifecycle of a VM (\<^verbatim>\<open>layout.go\<close>, \<^verbatim>\<open>create.go\<close>, \<^verbatim>\<open>teardown.go\<close>, \<^verbatim>\<open>control.go\<close>,
  \<^verbatim>\<open>fcconfig.go\<close> of package \<^verbatim>\<open>internal/vm\<close>) over a host: the registry, the paths that exist,
  the paths that cannot be removed, the network (abstract, driven by the \<^verbatim>\<open>ip\<close> program), the
  actions sent to firecracker and its process, and the guest configuration written for each id.
  What other programs answer (\<^verbatim>\<open>e2fsck\<close>, \<^verbatim>\<open>mkfs\<close>, the guest's port, the firecracker API) is
  part of an environment record the operations read.
\<close>

section \<open>Paths\<close>

definition path_join :: "string list \<Rightarrow> string" where
  "path_join ps = join_with ''/'' ps"

definition l_run_root :: "string \<Rightarrow> string" where
  "l_run_root base = path_join [base, ''run'']"

definition l_workspaces_dir :: "string \<Rightarrow> string" where
  "l_workspaces_dir base = path_join [base, ''workspaces'']"

definition l_run_dir :: "string \<Rightarrow> string \<Rightarrow> string" where
  "l_run_dir base vid = path_join [base, ''run'', vid]"

definition l_workspace :: "string \<Rightarrow> string \<Rightarrow> string" where
  "l_workspace base vid = path_join [base, ''workspaces'', vid @ ''.ext4'']"

definition l_sock :: "string \<Rightarrow> string \<Rightarrow> string" where
  "l_sock base vid = path_join [l_run_dir base vid, ''firecracker.sock'']"

definition l_config :: "string \<Rightarrow> string \<Rightarrow> string" where
  "l_config base vid = path_join [l_run_dir base vid, ''config.json'']"

definition l_console :: "string \<Rightarrow> string \<Rightarrow> string" where
  "l_console base vid = path_join [l_run_dir base vid, ''console.log'']"

definition l_state_file :: "string \<Rightarrow> string \<Rightarrow> string" where
  "l_state_file base vid = path_join [l_run_dir base vid, ''vm.json'']"

definition l_rootfs :: "string \<Rightarrow> string" where
  "l_rootfs base = path_join [base, ''images'', ''rootfs.ext4'']"

definition l_kernel :: "string \<Rightarrow> string" where
  "l_kernel base = path_join [base, ''images'', ''vmlinux-6.18'']"

definition id_start :: "char \<Rightarrow> bool" where
  "id_start c \<longleftrightarrow> is_digit c \<or> (97 \<le> (of_char c :: nat) \<and> (of_char c :: nat) \<le> 122)"

definition valid_id :: "string \<Rightarrow> bool" where
  "valid_id s \<longleftrightarrow> s \<noteq> [] \<and> length s \<le> 32 \<and> id_start (hd s) \<and>
     list_all (\<lambda>c. id_start c \<or> c = CHR ''-'') (tl s)"

section \<open>The guest configuration\<close>

record drive =
  drive_id :: string
  path_on_host :: string
  is_root_device :: bool
  is_read_only :: bool
  cache_type :: string
  io_engine :: string

record net_iface =
  iface_id :: string
  host_dev_name :: string
  guest_mac :: string

record fc_config =
  kernel_image_path :: string
  boot_args_line :: string
  fc_drives :: "drive list"
  vcpu_count :: nat
  mem_size :: nat
  track_dirty_pages :: bool
  fc_ifaces :: "net_iface list"

definition net_mask :: string where "net_mask = ''255.255.255.252''"

definition boot_args :: "vm \<Rightarrow> string" where
  "boot_args v =
     (let ip = ''ip='' @ guest_ip v @ ''::'' @ host_ip v @ '':'' @ net_mask @ ''::eth0:off'' in
      ''console=ttyS0 reboot=k panic=1 i8042.noaux i8042.nomux '' @
      ''random.trust_cpu=on '' @ ip @ '' init=/sbin/overlay-init overlay_root=vdb'')"

definition build_config :: "vm \<Rightarrow> string \<Rightarrow> fc_config" where
  "build_config v base =
     \<lparr>kernel_image_path = l_kernel base, boot_args_line = boot_args v,
      fc_drives =
        [\<lparr>drive_id = ''rootfs'', path_on_host = l_rootfs base, is_root_device = True,
          is_read_only = True, cache_type = [], io_engine = ''Sync''\<rparr>,
         \<lparr>drive_id = ''workspace'', path_on_host = l_workspace base (vm_id v), is_root_device = False,
          is_read_only = False, cache_type = ''Writeback'', io_engine = ''Sync''\<rparr>],
      vcpu_count = vcpus, mem_size = mem_mib, track_dirty_pages = False,
      fc_ifaces = [\<lparr>iface_id = ''eth0'', host_dev_name = vm_tap v, guest_mac = vm_mac v\<rparr>]\<rparr>"

section \<open>The host\<close>

datatype vm_action =
    ActResume vptr
  | ActCtrlAltDel vptr
  | SigTerm vptr
  | SigKill int

record 'n host =
  h_base :: string
  h_user :: string
  h_reg :: registry
  h_files :: "string set"
  h_stuck :: "string set"
  h_net :: 'n
  h_acts :: "vm_action list"
  h_config :: "string \<rightharpoonup> fc_config"

text \<open>
  \<^verbatim>\<open>os.MkdirAll\<close> and the writes add a path; \<^verbatim>\<open>os.Remove\<close> takes one away, says it is not
  there, or fails; \<^verbatim>\<open>os.RemoveAll\<close> takes a path and everything below it.
\<close>

datatype remove_result = Removed | NotExist | RemoveFailed

definition add_path :: "string \<Rightarrow> 'n host \<Rightarrow> 'n host" where
  "add_path p h = h\<lparr>h_files := insert p (h_files h)\<rparr>"

definition os_remove :: "string \<Rightarrow> 'n host \<Rightarrow> remove_result \<times> 'n host" where
  "os_remove p h =
     (if p \<notin> h_files h then (NotExist, h)
      else if p \<in> h_stuck h then (RemoveFailed, h)
      else (Removed, h\<lparr>h_files := h_files h - {p}\<rparr>))"

definition os_remove_all :: "string \<Rightarrow> 'n host \<Rightarrow> 'n host" where
  "os_remove_all p h =
     h\<lparr>h_files := {f \<in> h_files h. f \<in> h_stuck h \<or> \<not> (f = p \<or> prefix (p @ ''/'') f)}\<rparr>"

definition on_reg :: "(registry \<Rightarrow> registry) \<Rightarrow> 'n host \<Rightarrow> 'n host" where
  "on_reg f h = h\<lparr>h_reg := f (h_reg h)\<rparr>"

definition the_vm :: "'n host \<Rightarrow> vptr \<Rightarrow> vm" where
  "the_vm h v = r_heap (h_reg h) v"

definition act :: "vm_action \<Rightarrow> 'n host \<Rightarrow> 'n host" where
  "act a h = h\<lparr>h_acts := h_acts h @ [a]\<rparr>"

definition h_set_state :: "vptr \<Rightarrow> vm_state \<Rightarrow> 'n host \<Rightarrow> vm_error option \<times> 'n host" where
  "h_set_state v to h =
     (case set_state v to (h_reg h) of (e, r) \<Rightarrow> (e, h\<lparr>h_reg := r\<rparr>))"

definition h_allocate :: "int \<Rightarrow> string \<Rightarrow> 'n host \<Rightarrow> (vm_error + vptr) \<times> 'n host" where
  "h_allocate now vid h =
     (case allocate now vid (h_reg h) of (res, r) \<Rightarrow> (res, h\<lparr>h_reg := r\<rparr>))"

section \<open>Boot\<close>

text \<open>
  How \<^verbatim>\<open>e2fsck\<close> ended: \<^verbatim>\<open>ExitCode\<close> of a process a signal ended is -1, and a program that did
  not start gives an error that is no \<^verbatim>\<open>ExitError\<close>.
\<close>

datatype fsck_result = FsckExit nat | FsckSignalled | FsckNotStarted

definition fsck_exit_code :: "fsck_result \<Rightarrow> int option" where
  "fsck_exit_code f = (case f of FsckExit n \<Rightarrow> Some (int n) | FsckSignalled \<Rightarrow> Some (-1) | FsckNotStarted \<Rightarrow> None)"

definition fsck_workspace :: "fsck_result \<Rightarrow> string \<Rightarrow> vm_error option" where
  "fsck_workspace f path =
     (if f = FsckExit 0 then None
      else (case fsck_exit_code f of
              Some c \<Rightarrow> if c < 4 then None else Some (ErrIO (''e2fsck '' @ path))
            | None \<Rightarrow> Some (ErrIO (''e2fsck '' @ path))))"

datatype poll = PollDone | PollRefused | PollUp

record boot_env =
  e_mkdir_run :: bool
  e_mkdir_ws :: bool
  e_truncate :: bool
  e_mkfs :: bool
  e_fsck :: fsck_result
  e_write_config :: bool
  e_console :: bool
  e_start :: "int option"
  e_write_state :: bool
  e_polls :: "poll list"

definition prepare_workspace :: "boot_env \<Rightarrow> vptr \<Rightarrow> 'n host \<Rightarrow> vm_error option \<times> 'n host" where
  "prepare_workspace e v h =
     (let path = l_workspace (h_base h) (vm_id (the_vm h v)) in
      if path \<in> h_files h then (fsck_workspace (e_fsck e) path, h)
      else if \<not> e_mkdir_ws e then (Some (ErrIO ''mkdir''), h)
      else (let h1 = add_path (l_workspaces_dir (h_base h)) h in
        if \<not> e_truncate e then (Some (ErrIO ''truncate workspace''), h1)
        else (let h2 = add_path path h1 in
          if \<not> e_mkfs e then (Some (ErrIO ''mkfs workspace''), snd (os_remove path h2))
          else (None, on_reg (upd_vm v (\<lambda>m. m\<lparr>ws_new := True\<rparr>)) h2))))"

definition h_create_tap :: "'n ip_command \<Rightarrow> vptr \<Rightarrow> 'n host \<Rightarrow> vm_error option \<times> 'n host" where
  "h_create_tap ip v h =
     (case create_tap ip (vm_tap (the_vm h v)) (host_ip (the_vm h v)) (h_user h) (h_net h) of
        (err, n) \<Rightarrow> (map_option (\<lambda>e. ErrIO (''tap: '' @ e)) err, h\<lparr>h_net := n\<rparr>))"

definition write_config_json :: "boot_env \<Rightarrow> vptr \<Rightarrow> 'n host \<Rightarrow> vm_error option \<times> 'n host" where
  "write_config_json e v h =
     (let m = the_vm h v in
      if \<not> e_write_config e then (Some (ErrIO ''config''), h)
      else (None, add_path (l_config (h_base h) (vm_id m))
                   (h\<lparr>h_config := (h_config h)(vm_id m \<mapsto> build_config m (h_base h))\<rparr>)))"

definition write_state_file :: "boot_env \<Rightarrow> vptr \<Rightarrow> 'n host \<Rightarrow> 'n host" where
  "write_state_file e v h =
     (if e_write_state e then add_path (l_state_file (h_base h) (vm_id (the_vm h v))) h else h)"

definition spawn :: "boot_env \<Rightarrow> vptr \<Rightarrow> 'n host \<Rightarrow> vm_error option \<times> 'n host" where
  "spawn e v h =
     (let i = vm_id (the_vm h v);
          h1 = snd (os_remove (l_sock (h_base h) i) h) in
      if \<not> e_console e then (Some (ErrIO ''console''), h1)
      else (let h2 = add_path (l_console (h_base h) i) h1 in
        (case e_start e of
           None \<Rightarrow> (Some (ErrIO ''start firecracker''), h2)
         | Some pid \<Rightarrow>
             (None, write_state_file e v
                (on_reg (upd_vm v (\<lambda>m. m\<lparr>vm_cmd := True, vm_pid := pid, vm_console := True\<rparr>)) h2)))))"

fun wait_for_agent :: "poll list \<Rightarrow> vm_error option" where
  "wait_for_agent [] = Some (ErrIO ''did not come up'')"
| "wait_for_agent (PollDone # _) = Some (ErrIO ''exited during boot'')"
| "wait_for_agent (PollUp # _) = None"
| "wait_for_agent (PollRefused # ps) = wait_for_agent ps"

definition boot :: "'n ip_command \<Rightarrow> boot_env \<Rightarrow> vptr \<Rightarrow> 'n host \<Rightarrow> vm_error option \<times> 'n host" where
  "boot ip e v h =
     (if \<not> e_mkdir_run e then (Some (ErrIO ''mkdir''), h)
      else (let h1 = add_path (l_run_dir (h_base h) (vm_id (the_vm h v))) h in
        (case prepare_workspace e v h1 of
           (Some err, h2) \<Rightarrow> (Some err, h2)
         | (None, h2) \<Rightarrow>
        (case h_create_tap ip v h2 of
           (Some err, h3) \<Rightarrow> (Some err, h3)
         | (None, h3) \<Rightarrow>
        (case write_config_json e v h3 of
           (Some err, h4) \<Rightarrow> (Some err, h4)
         | (None, h4) \<Rightarrow>
        (case spawn e v h4 of
           (Some err, h5) \<Rightarrow> (Some err, h5)
         | (None, h5) \<Rightarrow> (wait_for_agent (e_polls e), h5)))))))"

section \<open>Teardown\<close>

text \<open>What the environment answers while a VM is taken down.\<close>

record stop_env =
  s_described_paused :: bool
  s_exits_graceful :: bool
  s_exits_term :: bool
  s_exits_kill :: bool

definition mark_done :: "vptr \<Rightarrow> 'n host \<Rightarrow> 'n host" where
  "mark_done v h = on_reg (upd_vm v (\<lambda>m. m\<lparr>vm_done := True\<rparr>)) h"

definition wait_exit :: "bool \<Rightarrow> vptr \<Rightarrow> 'n host \<Rightarrow> bool \<times> 'n host" where
  "wait_exit exits v h =
     (if vm_done (the_vm h v) then (True, h)
      else if exits then (True, mark_done v h) else (False, h))"

definition begin_stop :: "vptr \<Rightarrow> 'n host \<Rightarrow> (vm_error + vm_state) \<times> 'n host" where
  "begin_stop v h =
     (let prev = snapshot v (h_reg h) in
      (case h_set_state v Stopping h of
         (Some e, h1) \<Rightarrow> (Inl e, h1)
       | (None, h1) \<Rightarrow> (Inr prev, on_reg (upd_vm v (\<lambda>m. m\<lparr>vm_stopping := True\<rparr>)) h1)))"

definition escalate :: "stop_env \<Rightarrow> vptr \<Rightarrow> 'n host \<Rightarrow> 'n host" where
  "escalate s v h =
     (case wait_exit (s_exits_term s) v (act (SigTerm v) h) of
        (True, h1) \<Rightarrow> h1
      | (False, h1) \<Rightarrow> snd (wait_exit (s_exits_kill s) v (act (SigKill (- vm_pid (the_vm h1 v))) h1)))"

definition shutdown :: "stop_env \<Rightarrow> vptr \<Rightarrow> vm_state \<Rightarrow> 'n host \<Rightarrow> 'n host" where
  "shutdown s v prev h =
     (if \<not> vm_cmd (the_vm h v) then h
      else (let h1 = (if prev = Paused \<or> s_described_paused s then act (ActResume v) h else h) in
        (case wait_exit (s_exits_graceful s) v (act (ActCtrlAltDel v) h1) of
           (True, h2) \<Rightarrow> h2
         | (False, h2) \<Rightarrow> escalate s v h2)))"

definition reap :: "stop_env \<Rightarrow> vptr \<Rightarrow> 'n host \<Rightarrow> 'n host" where
  "reap s v h =
     (let m = the_vm h v in
      if \<not> vm_cmd m \<or> vm_pid m \<le> 0 then h
      else if vm_done m then h
      else snd (wait_exit (s_exits_kill s) v (act (SigKill (- vm_pid m)) h)))"

definition cleanup_locked :: "'n ip_command \<Rightarrow> vptr \<Rightarrow> bool \<Rightarrow> 'n host \<Rightarrow> vm_error option \<times> 'n host" where
  "cleanup_locked ip v purge h =
     (let i = vm_id (the_vm h v); base = h_base h in
      if (case r_byid (h_reg h) i of Some other \<Rightarrow> other \<noteq> v | None \<Rightarrow> False) then
        (if purge then Some (ErrState (i @ '' was replaced before it could be purged'')) else None,
         on_reg (release_locked v) h)
      else
        (let h1 = snd (os_remove (l_sock base i) h);
             h2 = h1\<lparr>h_net := snd (delete_tap ip (vm_tap (the_vm h v)) (h_net h1))\<rparr>;
             h3 = os_remove_all (l_run_dir base i) h2;
             removed = (if purge then os_remove (l_workspace base i) h3 else (Removed, h3))
         in (if purge \<and> fst removed = RemoveFailed
             then Some (ErrIO (''purge workspace '' @ i)) else None,
             on_reg (release_locked v) (snd removed))))"

definition cleanup :: "'n ip_command \<Rightarrow> stop_env \<Rightarrow> vptr \<Rightarrow> bool \<Rightarrow> 'n host \<Rightarrow> vm_error option \<times> 'n host" where
  "cleanup ip s v purge h = cleanup_locked ip v purge (reap s v h)"

definition delete_vm :: "'n ip_command \<Rightarrow> stop_env \<Rightarrow> vptr \<Rightarrow> bool \<Rightarrow> 'n host \<Rightarrow> vm_error option \<times> 'n host" where
  "delete_vm ip s v purge h =
     (case begin_stop v h of
        (Inl e, h1) \<Rightarrow> (Some e, h1)
      | (Inr prev, h1) \<Rightarrow> cleanup ip s v purge (shutdown s v prev h1))"

definition purge_workspace :: "string \<Rightarrow> 'n host \<Rightarrow> vm_error option \<times> 'n host" where
  "purge_workspace vid h =
     (if r_byid (h_reg h) vid \<noteq> None then (Some (ErrState (vid @ '' is running'')), h)
      else (case os_remove (l_workspace (h_base h) vid) h of
              (RemoveFailed, h1) \<Rightarrow> (Some (ErrIO (''purge workspace '' @ vid)), h1)
            | (_, h1) \<Rightarrow> (None, h1)))"

definition create_vm ::
  "'n ip_command \<Rightarrow> boot_env \<Rightarrow> stop_env \<Rightarrow> int \<Rightarrow> string \<Rightarrow> 'n host \<Rightarrow> (vm_error + vptr) \<times> 'n host" where
  "create_vm ip e s now vid h =
     (case h_allocate now vid h of
        (Inl err, h1) \<Rightarrow> (Inl err, h1)
      | (Inr v, h1) \<Rightarrow>
         (case boot ip e v h1 of
            (Some err, h2) \<Rightarrow> (Inl err, snd (cleanup ip s v (ws_new (the_vm h2 v)) h2))
          | (None, h2) \<Rightarrow>
             (case h_set_state v Running h2 of
                (Some err, h3) \<Rightarrow> (Inl err, snd (cleanup ip s v (ws_new (the_vm h3 v)) h3))
              | (None, h3) \<Rightarrow> (Inr v, h3))))"

definition watch_process :: "'n ip_command \<Rightarrow> stop_env \<Rightarrow> vptr \<Rightarrow> 'n host \<Rightarrow> 'n host" where
  "watch_process ip s v h =
     (let h1 = mark_done v h in
      if vm_stopping (the_vm h1 v) then h1
      else snd (cleanup ip s v False (snd (h_set_state v Failed h1))))"

definition kill_remaining :: "'n ip_command \<Rightarrow> stop_env \<Rightarrow> 'n host \<Rightarrow> 'n host" where
  "kill_remaining ip s h =
     fold (\<lambda>v h. snd (cleanup ip s v False
             (if vm_pid (the_vm h v) > 0 then act (SigKill (- vm_pid (the_vm h v))) h else h)))
       (list_vms (h_reg h)) h"

section \<open>Control\<close>

definition pause_vm :: "bool \<Rightarrow> vptr \<Rightarrow> 'n host \<Rightarrow> vm_error option \<times> 'n host" where
  "pause_vm patched v h =
     (if snapshot v (h_reg h) \<noteq> Running
      then (Some (ErrState (''cannot pause from '' @ state_name (snapshot v (h_reg h)))), h)
      else if \<not> patched then (Some (ErrIO ''firecracker''), h)
      else h_set_state v Paused h)"

definition resume_vm :: "bool \<Rightarrow> vptr \<Rightarrow> 'n host \<Rightarrow> vm_error option \<times> 'n host" where
  "resume_vm patched v h =
     (if snapshot v (h_reg h) \<noteq> Paused
      then (Some (ErrState (''cannot resume from '' @ state_name (snapshot v (h_reg h)))), h)
      else if \<not> patched then (Some (ErrIO ''firecracker''), h)
      else h_set_state v Running h)"

text \<open>\<^verbatim>\<open>Describe\<close>'s answer is \<open>None\<close> on an error, else firecracker's own word for the state.\<close>

definition inspect_vm :: "string option \<Rightarrow> vptr \<Rightarrow> 'n host \<Rightarrow> 'n host" where
  "inspect_vm info v h =
     (case info of
        None \<Rightarrow> h
      | Some st \<Rightarrow>
          if st = ''Running'' then snd (h_set_state v Running h)
          else if st = ''Paused'' then snd (h_set_state v Paused h)
          else h)"

definition refresh_vm :: "string option \<Rightarrow> vptr \<Rightarrow> 'n host \<Rightarrow> 'n host" where
  "refresh_vm info v h =
     (let s = snapshot v (h_reg h) in
      if s \<noteq> Running \<and> s \<noteq> Paused then h else inspect_vm info v h)"

definition cpu_percent :: "vptr \<Rightarrow> rat \<Rightarrow> int \<Rightarrow> registry \<Rightarrow> rat \<times> registry" where
  "cpu_percent v now sampled_at r =
     (let m = r_heap r v;
          r1 = upd_vm v (\<lambda>m. m\<lparr>last_cpu := now, last_sample := Some sampled_at\<rparr>) r in
      (case last_sample m of
         None \<Rightarrow> (0, r1)
       | Some prev_at \<Rightarrow>
           let elapsed = rat_of_int (sampled_at - prev_at) / 1000000000 in
           if elapsed \<le> 0 then (0, r1)
           else ((now - last_cpu m) / elapsed * 100, r1)))"

end
