(* ===== verification/VmHost.thy ===== *)
theory VmHost
  imports VmLifecycle
begin

text \<open>
  The rest of package \<^verbatim>\<open>internal/vm\<close>: what the API shows of a VM (\<^verbatim>\<open>View\<close>, \<^verbatim>\<open>Stats\<close>), the sweep of
  what an unclean exit left (\<^verbatim>\<open>control.go\<close>), the drain at shutdown (\<^verbatim>\<open>teardown.go\<close>), the capped
  console (\<^verbatim>\<open>capped.go\<close>) and the readers of \<^verbatim>\<open>/proc\<close> (package \<^verbatim>\<open>hoststat\<close>).
\<close>

section \<open>What is shown of a VM\<close>

record vm_view =
  vw_id :: string
  vw_state :: vm_state
  vw_slot :: nat
  vw_vcpus :: nat
  vw_mem :: nat
  vw_tap :: string
  vw_guest :: string
  vw_mac :: string
  vw_pid :: int
  vw_workspace :: string
  vw_new :: bool
  vw_vnc :: string
  vw_agent :: string
  vw_created :: int

definition view_vm :: "vptr \<Rightarrow> 'n host \<Rightarrow> vm_view" where
  "view_vm v h =
     (let m = the_vm h v in
      \<lparr>vw_id = vm_id m, vw_state = snapshot v (h_reg h), vw_slot = vm_slot m, vw_vcpus = vcpus, vw_mem = mem_mib,
       vw_tap = vm_tap m, vw_guest = guest_ip m, vw_mac = vm_mac m, vw_pid = vm_pid m,
       vw_workspace = l_workspace (h_base h) (vm_id m), vw_new = ws_new m,
       vw_vnc = ''/vms/'' @ vm_id m @ ''/vnc/vnc.html?path=vms/'' @ vm_id m @ ''/vnc/websockify'',
       vw_agent = ''/vms/'' @ vm_id m @ ''/agent/'', vw_created = created_at m\<rparr>)"

record vm_stats =
  vs_view :: vm_view
  vs_uptime :: int
  vs_cpu :: rat
  vs_percent :: rat
  vs_rss :: int
  vs_used :: int
  vs_cap :: int

text \<open>\<open>len\<close> is the length of the image, if it can be read, \<open>blocks\<close> its 512-byte blocks.\<close>

definition workspace_usage :: "int option \<Rightarrow> int option \<Rightarrow> int \<times> int" where
  "workspace_usage len blocks =
     (case len of
        None \<Rightarrow> (0, 0)
      | Some n \<Rightarrow> (case blocks of None \<Rightarrow> (0, n) | Some b \<Rightarrow> (b * 512, n)))"

definition stats_vm ::
  "int \<Rightarrow> int option \<Rightarrow> int option \<Rightarrow> int option \<Rightarrow> rat option \<Rightarrow> vptr \<Rightarrow> 'n host \<Rightarrow> vm_stats \<times> 'n host" where
  "stats_vm now len blocks rss cpu v h =
     (let u = workspace_usage len blocks;
          s = \<lparr>vs_view = view_vm v h, vs_uptime = now - created_at (the_vm h v), vs_cpu = 0, vs_percent = 0, vs_rss = 0,
               vs_used = fst u, vs_cap = snd u\<rparr> in
      if vm_pid (the_vm h v) \<le> 0 then (s, h)
      else (let s1 = (case rss of None \<Rightarrow> s | Some r \<Rightarrow> s\<lparr>vs_rss := r\<rparr>) in
        (case cpu of
           None \<Rightarrow> (s1, h)
         | Some c \<Rightarrow> (case cpu_percent v c now (h_reg h) of (p, r) \<Rightarrow> (s1\<lparr>vs_cpu := c, vs_percent := p\<rparr>, h\<lparr>h_reg := r\<rparr>)))))"

section \<open>The sweep at start\<close>

text \<open>\<^verbatim>\<open>stateFile\<close>, of which the sweep reads the id and the process.\<close>

record state_file =
  sf_id :: string
  sf_pid :: int

text \<open>\<open>cmdline\<close> is the text of \<^verbatim>\<open>/proc/<pid>/cmdline\<close>, where it can be read.\<close>

definition kill_if_ours :: "(int \<Rightarrow> string option) \<Rightarrow> int \<Rightarrow> string \<Rightarrow> vm_action list" where
  "kill_if_ours cmdline pid i =
     (if pid \<le> 0 then []
      else (case cmdline pid of
              None \<Rightarrow> []
            | Some b \<Rightarrow>
                (let args = List.map (\<lambda>c. if c = CHR 0x00 then CHR '' '' else c) b in
                 if \<not> contains_str args ''firecracker'' \<or> \<not> contains_str args i then [] else [SigKill (- pid)])))"

text \<open>The state files in the order of the glob, \<open>None\<close> for one that does not parse.\<close>

definition sweep_run_dirs :: "(int \<Rightarrow> string option) \<Rightarrow> state_file option list \<Rightarrow> vm_action list" where
  "sweep_run_dirs cmdline files =
     List.concat (List.map (\<lambda>f. case f of None \<Rightarrow> [] | Some s \<Rightarrow> kill_if_ours cmdline (sf_pid s) (sf_id s)) files)"

definition sweep_taps :: "'n ip_command \<Rightarrow> 'n \<Rightarrow> 'n" where
  "sweep_taps ip n = fold (\<lambda>i n. snd (delete_tap ip (tap_name i) n)) [0..<max_vms] n"

definition sweep_host :: "'n ip_command \<Rightarrow> (int \<Rightarrow> string option) \<Rightarrow> state_file option list \<Rightarrow> 'n host \<Rightarrow> 'n host" where
  "sweep_host ip cmdline files h =
     (let h1 = h\<lparr>h_acts := h_acts h @ sweep_run_dirs cmdline files\<rparr>;
          h2 = h1\<lparr>h_net := sweep_taps ip (h_net h1)\<rparr> in
      add_path (l_run_root (h_base h)) (os_remove_all (l_run_root (h_base h)) h2))"

section \<open>The drain at shutdown\<close>

text \<open>
  \<open>finished\<close> deletes are through when the budget ends, and the next has announced its stop; with all of them through there is
  nothing left to kill. \<open>env\<close> is how each machine answers its shutdown.
\<close>

definition drain_some :: "'n ip_command \<Rightarrow> (vptr \<Rightarrow> stop_env) \<Rightarrow> vptr list \<Rightarrow> 'n host \<Rightarrow> 'n host" where
  "drain_some ip env vs h = fold (\<lambda>v h. snd (delete_vm ip (env v) v False h)) vs h"

definition drain_all :: "'n ip_command \<Rightarrow> (vptr \<Rightarrow> stop_env) \<Rightarrow> stop_env \<Rightarrow> nat \<Rightarrow> 'n host \<Rightarrow> 'n host" where
  "drain_all ip env s finished h =
     (let vs = list_vms (h_reg h) in
      if vs = [] then h
      else if length vs \<le> finished then drain_some ip env vs h
      else kill_remaining ip s (snd (begin_stop (vs ! finished) (drain_some ip env (take finished vs) h))))"

section \<open>The capped console\<close>

record capped =
  cw_file :: string
  cw_written :: int
  cw_limit :: int

definition new_capped :: "string \<Rightarrow> int \<Rightarrow> capped" where
  "new_capped present limit = \<lparr>cw_file = present, cw_written = 0, cw_limit = limit\<rparr>"

text \<open>\<open>stored\<close> is how much of the text the file took; a short write is an error.\<close>

definition write_capped :: "nat \<Rightarrow> string \<Rightarrow> capped \<Rightarrow> (nat \<times> bool) \<times> capped" where
  "write_capped stored p c =
     (let room = cw_limit c - cw_written c in
      if room \<le> 0 then ((length p, True), c)
      else (let take_n = (if int (length p) < room then length p else nat room); n = min stored take_n in
        ((length p, n = take_n), c\<lparr>cw_file := cw_file c @ take n p, cw_written := cw_written c + int n\<rparr>)))"

section \<open>Reading \<^verbatim>\<open>/proc\<close>\<close>

text \<open>What follows the last closing parenthesis of a line, if there is one.\<close>

definition after_paren :: "string \<Rightarrow> string option" where
  "after_paren s =
     (if CHR '')'' \<in> set s then Some (rev (takeWhile (\<lambda>c. c \<noteq> CHR '')'') (rev s))) else None)"

text \<open>\<^verbatim>\<open>strconv.ParseUint\<close> and \<^verbatim>\<open>strconv.ParseInt\<close>, base 10 and 64 bits.\<close>

definition parse_uint :: "string \<Rightarrow> 64 word option" where
  "parse_uint s = (if s = [] \<or> \<not> list_all is_digit s \<or> of_dec s \<ge> 2 ^ 64 then None else Some (of_nat (of_dec s)))"

definition parse_int :: "string \<Rightarrow> 64 word option" where
  "parse_int s =
     (let neg = (s \<noteq> [] \<and> hd s = CHR ''-''); d = (if s \<noteq> [] \<and> hd s \<in> {CHR ''-'', CHR ''+''} then tl s else s) in
      if d = [] \<or> \<not> list_all is_digit d \<or> of_dec d > (if neg then 2 ^ 63 else 2 ^ 63 - 1) then None
      else Some (if neg then - of_nat (of_dec d) else of_nat (of_dec d)))"

definition parse_stat_jiffies :: "string \<Rightarrow> 64 word option" where
  "parse_stat_jiffies s =
     (case after_paren s of
        None \<Rightarrow> None
      | Some r \<Rightarrow>
          (let f = fields_of r in
           if length f < 13 then None
           else (case (parse_uint (f ! 11), parse_uint (f ! 12)) of
                   (Some u, Some k) \<Rightarrow> Some (u + k)
                 | _ \<Rightarrow> None)))"

fun field_in :: "string \<Rightarrow> string list \<Rightarrow> string option" where
  "field_in key [] = None"
| "field_in key (l # ls) =
     (if \<not> prefix key l then field_in key ls
      else (case fields_of (drop (length key) l) of [] \<Rightarrow> field_in key ls | f # fs \<Rightarrow> Some f))"

definition field_after :: "string \<Rightarrow> string \<Rightarrow> string option" where
  "field_after s key = field_in key (split_on (CHR 0x0A) s)"

definition parse_rss_kib :: "string \<Rightarrow> 64 word option" where
  "parse_rss_kib s = (case field_after s ''VmRSS:'' of None \<Rightarrow> None | Some v \<Rightarrow> parse_int v)"

definition proc_rss_bytes :: "string \<Rightarrow> 64 word option" where
  "proc_rss_bytes s = map_option (\<lambda>k. k * 1024) (parse_rss_kib s)"

definition parse_meminfo_bytes :: "string \<Rightarrow> string \<Rightarrow> 64 word" where
  "parse_meminfo_bytes s key =
     (case field_after s key of
        None \<Rightarrow> 0
      | Some v \<Rightarrow> (case parse_int v of None \<Rightarrow> 0 | Some kib \<Rightarrow> kib * 1024))"

end
