(* ===== verification/GoTime.thy ===== *)
theory GoTime
  imports Prelude
begin

text \<open>
  What the sources use of package \<^verbatim>\<open>time\<close>: the proleptic Gregorian calendar, locations with
  their offset changes, \<^verbatim>\<open>time.Date\<close> and \<^verbatim>\<open>Time.In\<close>, the layouts the sources parse and
  print, and \<^verbatim>\<open>time.ParseDuration\<close>. An instant is the integer number of nanoseconds since
  the Unix epoch; where the zero \<^verbatim>\<open>time.Time\<close> means "none" the model has an option. Which
  offsets a zone had is data of the machine: a location is a list of changes, any list.
\<close>

section \<open>Units\<close>

definition ns_per_sec :: int where "ns_per_sec = 1000000000"
definition minute_ns :: int where "minute_ns = 60 * ns_per_sec"
definition hour_ns :: int where "hour_ns = 3600 * ns_per_sec"
definition day_secs :: int where "day_secs = 86400"

section \<open>The calendar\<close>

text \<open>Day numbers count from 0001-01-01, a Monday; months from 1, week days from Sunday = 0.\<close>

definition is_leap :: "int \<Rightarrow> bool" where
  "is_leap y \<longleftrightarrow> y mod 4 = 0 \<and> (y mod 100 \<noteq> 0 \<or> y mod 400 = 0)"

definition month_lengths :: "int \<Rightarrow> int list" where
  "month_lengths y =
     [31, if is_leap y then 29 else 28, 31, 30, 31, 30, 31, 31, 30, 31, 30, 31]"

definition days_in :: "int \<Rightarrow> int \<Rightarrow> int" where
  "days_in y m = month_lengths y ! nat (m - 1)"

definition year_start :: "int \<Rightarrow> int" where
  "year_start y = 365 * (y - 1) + (y - 1) div 4 - (y - 1) div 100 + (y - 1) div 400"

definition month_start :: "int \<Rightarrow> int \<Rightarrow> int" where
  "month_start y m = sum_list (take (nat (m - 1)) (month_lengths y))"

text \<open>A month out of range rolls into the year, a day out of range into the month.\<close>

definition day_number :: "int \<Rightarrow> int \<Rightarrow> int \<Rightarrow> int" where
  "day_number y m d =
     (let y' = y + (m - 1) div 12; m' = (m - 1) mod 12 + 1 in
      year_start y' + month_start y' m' + d - 1)"

definition year_of :: "int \<Rightarrow> int" where
  "year_of n =
     (let y = 400 * n div 146097 + 1 in if year_start (y + 1) \<le> n then y + 1 else y)"

fun split_months :: "int list \<Rightarrow> int \<Rightarrow> int \<Rightarrow> int \<times> int" where
  "split_months [] m k = (m, k + 1)"
| "split_months (l # ls) m k = (if k < l then (m, k + 1) else split_months ls (m + 1) (k - l))"

definition civil :: "int \<Rightarrow> int \<times> int \<times> int" where
  "civil n =
     (let y = year_of n in
      case split_months (month_lengths y) 1 (n - year_start y) of (m, d) \<Rightarrow> (y, m, d))"

definition week_day :: "int \<Rightarrow> int" where
  "week_day n = (n + 1) mod 7"

definition valid_date :: "int \<Rightarrow> int \<Rightarrow> int \<Rightarrow> bool" where
  "valid_date y m d \<longleftrightarrow> 1 \<le> m \<and> m \<le> 12 \<and> 1 \<le> d \<and> d \<le> days_in y m"

lemma div_step:
  fixes y k :: int
  assumes "0 < k"
  shows "y div k = (y - 1) div k + (if y mod k = 0 then 1 else 0)"
proof -
  define q r where "q = (y - 1) div k" and "r = (y - 1) mod k"
  then have y: "y = k * q + (r + 1)" and r: "0 \<le> r" "r < k" using assms by auto
  show ?thesis
  proof (cases "r + 1 = k")
    case True
    then have "y = k * (q + 1)" by (simp add: y algebra_simps)
    moreover have "(y - 1) div k = q" by (simp add: q_def)
    ultimately show ?thesis using assms by simp
  next
    case False
    with r have "(k * q + (r + 1)) div k = q \<and> (k * q + (r + 1)) mod k = r + 1"
      by (simp add: div_pos_pos_trivial mod_pos_pos_trivial)
    with False r show ?thesis by (simp add: y [symmetric] q_def [symmetric])
  qed
qed

lemma year_sum:
  fixes y :: int
  shows "s = 365 * y + a - b + c \<Longrightarrow> a = a' + ea \<Longrightarrow> b = b' + eb \<Longrightarrow> c = c' + ec \<Longrightarrow>
    s - (365 * (y - 1) + a' - b' + c') = 365 + ea - eb + ec"
  by simp

lemma leap_days:
  "(b \<longrightarrow> a) \<Longrightarrow> (c \<longrightarrow> b) \<Longrightarrow>
   (365 :: int) + (if a then 1 else 0) - (if b then 1 else 0) + (if c then 1 else 0) =
   (if a \<and> (\<not> b \<or> c) then 366 else 365)"
  by (cases a; cases b; cases c; simp)

lemma year_length: "year_start (y + 1) - year_start y = (if is_leap y then 366 else 365)"
proof -
  have leap4: "y mod 100 = 0 \<longrightarrow> y mod 4 = 0"
    using mod_mod_cancel [of 4 100 y] mod_0 [of "4 :: int"] by (intro impI) simp
  have leap100: "y mod 400 = 0 \<longrightarrow> y mod 100 = 0"
    using mod_mod_cancel [of 100 400 y] mod_0 [of "100 :: int"] by (intro impI) simp
  have "year_start (y + 1) = 365 * y + y div 4 - y div 100 + y div 400"
    by (simp add: year_start_def)
  from year_sum [OF this div_step div_step div_step]
  have "year_start (y + 1) - year_start y = 365 + (if y mod 4 = 0 then 1 else 0) -
      (if y mod 100 = 0 then 1 else 0) + (if y mod 400 = 0 then 1 else 0)"
    unfolding year_start_def [of y] by simp
  then show ?thesis by (simp only: leap_days [OF leap4 leap100] is_leap_def)
qed

lemma sum_month_lengths: "sum_list (month_lengths y) = (if is_leap y then 366 else 365)"
  by (simp add: month_lengths_def)

lemma year_start_bounds:
  "400 * year_start y \<le> 146097 * (y - 1) + 396" "146097 * (y - 1) - 699 \<le> 400 * year_start y"
proof -
  define z where "z = y - 1"
  have b: "k * (z div k) \<le> z \<and> z \<le> k * (z div k) + (k - 1)" if "0 < k" for k :: int
    using that mult_div_mod_eq [of k z] pos_mod_bound [of k z] pos_mod_sign [of k z] by linarith
  show "400 * year_start y \<le> 146097 * (y - 1) + 396" "146097 * (y - 1) - 699 \<le> 400 * year_start y"
    unfolding year_start_def z_def [symmetric] using b [of 4] b [of 100] b [of 400] by simp_all
qed

lemma year_start_mono: "y \<le> z \<Longrightarrow> year_start y \<le> year_start z"
proof (induction z rule: int_ge_induct)
  case (step i)
  with year_length [of i] show ?case by (auto split: if_splits)
qed simp

lemma div_bounds:
  fixes k :: int
  assumes "0 < k"
  shows "k * (z div k) \<le> z \<and> z < k * (z div k + 1)"
  using assms mult_div_mod_eq [of k z] pos_mod_bound [of k z] pos_mod_sign [of k z]
  by (intro conjI; simp only: distrib_left mult_1_right; linarith)

lemma year_of_bounds: "year_start (year_of n) \<le> n \<and> n < year_start (year_of n + 1)"
proof -
  define q where "q = 400 * n div 146097"
  have q: "146097 * q \<le> 400 * n" "400 * n < 146097 * (q + 1)"
    unfolding q_def using div_bounds [of 146097 "400 * n"] by simp_all
  have "year_start (q + 1) \<le> n" using year_start_bounds(1) [of "q + 1"] q by simp
  moreover have "n < year_start (q + 3)" using year_start_bounds(2) [of "q + 3"] q by simp
  moreover have "q + 2 + 1 = q + 3" by simp
  ultimately show ?thesis
    unfolding year_of_def q_def [symmetric] Let_def by (auto simp: add.commute add.left_commute)
qed

lemma year_of_unique:
  assumes "year_start y \<le> n" "n < year_start (y + 1)"
  shows "year_of n = y"
proof (rule antisym; rule ccontr)
  assume "\<not> year_of n \<le> y"
  then have "year_start (y + 1) \<le> year_start (year_of n)" by (intro year_start_mono) simp
  with assms(2) year_of_bounds [of n] show False by linarith
next
  assume "\<not> y \<le> year_of n"
  then have "year_start (year_of n + 1) \<le> year_start y" by (intro year_start_mono) simp
  with assms(1) year_of_bounds [of n] show False by linarith
qed

lemma split_months_range:
  assumes "0 \<le> k" "k < sum_list ls" "split_months ls m k = (m', d)"
  shows "m \<le> m' \<and> m' < m + int (length ls) \<and> 1 \<le> d \<and> d \<le> ls ! nat (m' - m) \<and>
    sum_list (take (nat (m' - m)) ls) + d - 1 = k"
  using assms
proof (induction ls arbitrary: m k)
  case (Cons l ls)
  show ?case
  proof (cases "k < l")
    case True
    with Cons.prems show ?thesis by auto
  next
    case False
    with Cons.prems have "split_months ls (m + 1) (k - l) = (m', d)" "0 \<le> k - l" "k - l < sum_list ls"
      by auto
    from Cons.IH [OF this(2,3,1)]
    have ih: "m + 1 \<le> m'" "m' < m + 1 + int (length ls)" "1 \<le> d" "d \<le> ls ! nat (m' - (m + 1))"
      "sum_list (take (nat (m' - (m + 1))) ls) + d - 1 = k - l" by auto
    then have "nat (m' - m) = Suc (nat (m' - (m + 1)))" by simp
    with ih show ?thesis by simp
  qed
qed simp

lemma split_months_start:
  assumes "i < length ls" "1 \<le> d" "d \<le> ls ! i" "\<forall>l \<in> set ls. 0 \<le> l"
  shows "split_months ls m (sum_list (take i ls) + d - 1) = (m + int i, d)"
  using assms
proof (induction ls arbitrary: i m)
  case (Cons l ls)
  show ?case
  proof (cases i)
    case 0
    with Cons.prems show ?thesis by simp
  next
    case (Suc j)
    have "0 \<le> sum_list (take j ls)" using Cons.prems(4) by (intro sum_list_nonneg) (auto dest: in_set_takeD)
    with Suc Cons.prems Cons.IH [of j "m + 1"] show ?thesis by (simp add: algebra_simps)
  qed
qed simp

text \<open>The two directions of the calendar.\<close>

lemma civil_valid:
  assumes "civil n = (y, m, d)"
  shows "valid_date y m d \<and> day_number y m d = n"
proof -
  let ?y = "year_of n"
  note b = year_of_bounds [of n]
  from assms have sm: "split_months (month_lengths ?y) 1 (n - year_start ?y) = (m, d)" and y: "y = ?y"
    by (auto simp: civil_def Let_def split: prod.splits)
  have k: "0 \<le> n - year_start ?y" "n - year_start ?y < sum_list (month_lengths ?y)"
    using b year_length [of ?y] by (auto simp: sum_month_lengths split: if_splits)
  have len: "length (month_lengths ?y) = 12" by (simp add: month_lengths_def)
  from split_months_range [OF k sm] len y show ?thesis
    by (auto simp: valid_date_def days_in_def day_number_def month_start_def Let_def)
qed

lemma civil_day_number:
  assumes "valid_date y m d"
  shows "civil (day_number y m d) = (y, m, d)"
proof -
  have len: "length (month_lengths y) = 12" by (simp add: month_lengths_def)
  have pos: "\<forall>l \<in> set (month_lengths y). 0 \<le> l" by (simp add: month_lengths_def)
  from assms have m: "nat (m - 1) < 12" "1 \<le> d" "d \<le> month_lengths y ! nat (m - 1)" "1 \<le> m"
    by (auto simp: valid_date_def days_in_def)
  let ?k = "month_start y m + d - 1"
  have dn: "day_number y m d = year_start y + ?k"
    using assms by (simp add: day_number_def valid_date_def Let_def)
  have sm: "split_months (month_lengths y) 1 ?k = (m, d)"
    using split_months_start [of "nat (m - 1)" "month_lengths y" d 1] m len pos
    by (simp add: month_start_def)
  have "sum_list (take (nat (m - 1)) (month_lengths y)) + month_lengths y ! nat (m - 1) \<le> sum_list (month_lengths y)"
  proof -
    have "month_lengths y = take (nat (m - 1)) (month_lengths y) @
        month_lengths y ! nat (m - 1) # drop (Suc (nat (m - 1))) (month_lengths y)"
      using m(1) len by (intro id_take_nth_drop) simp
    then have "sum_list (month_lengths y) = sum_list (take (nat (m - 1)) (month_lengths y)) +
        (month_lengths y ! nat (m - 1) + sum_list (drop (Suc (nat (m - 1))) (month_lengths y)))"
      by (metis sum_list.Cons sum_list.append)
    moreover have "0 \<le> sum_list (drop (Suc (nat (m - 1))) (month_lengths y))"
      using pos by (intro sum_list_nonneg) (auto dest: in_set_dropD)
    ultimately show ?thesis by simp
  qed
  then have "?k < sum_list (month_lengths y)" using m by (simp add: month_start_def)
  moreover have "0 \<le> ?k"
  proof -
    have "0 \<le> sum_list (take (nat (m - 1)) (month_lengths y))"
      using pos by (intro sum_list_nonneg) (auto dest: in_set_takeD)
    with m(2) show ?thesis by (simp add: month_start_def)
  qed
  ultimately have "year_of (day_number y m d) = y"
    using year_length [of y] unfolding dn
    by (intro year_of_unique) (auto simp: sum_month_lengths split: if_splits)
  then show ?thesis using sm by (simp add: civil_def Let_def dn)
qed

section \<open>Locations\<close>

text \<open>
  A location is its name, the offset from UTC in seconds before its first change, and its
  changes: from which second which offset holds. \<^verbatim>\<open>lookup\<close> answers the offset in force at a
  second and the half-open span it is in force for (\<open>None\<close>: unbounded).
\<close>

record location =
  loc_name :: string
  loc_first :: int
  loc_changes :: "(int \<times> int) list"

definition utc :: location where
  "utc = \<lparr>loc_name = ''UTC'', loc_first = 0, loc_changes = []\<rparr>"

fun zone_at :: "int option \<Rightarrow> int \<Rightarrow> (int \<times> int) list \<Rightarrow> int \<Rightarrow> int \<times> int option \<times> int option" where
  "zone_at start off [] sec = (off, start, None)"
| "zone_at start off ((t, o') # cs) sec =
     (if sec < t then (off, start, Some t) else zone_at (Some t) o' cs sec)"

definition lookup :: "location \<Rightarrow> int \<Rightarrow> int \<times> int option \<times> int option" where
  "lookup loc sec = zone_at None (loc_first loc) (loc_changes loc) sec"

definition offset_at :: "location \<Rightarrow> int \<Rightarrow> int" where
  "offset_at loc sec = fst (lookup loc sec)"

text \<open>
  \<^verbatim>\<open>time.Date\<close>: the wall clock is read as if it were UTC, the offset found there is taken off,
  and if that leaves the span it was found in, the offset found at the result is taken instead.
\<close>

definition date_secs :: "location \<Rightarrow> int \<Rightarrow> int" where
  "date_secs loc wall =
     (case lookup loc wall of (off, start, fin) \<Rightarrow>
        if off = 0 then wall
        else (let u = wall - off in
          if (case start of Some s \<Rightarrow> u < s | None \<Rightarrow> False) \<or> (case fin of Some e \<Rightarrow> e \<le> u | None \<Rightarrow> False)
          then wall - offset_at loc u else u))"

definition unix_day :: int where "unix_day = 719162"

definition wall_secs :: "int \<Rightarrow> int \<Rightarrow> int \<Rightarrow> int \<Rightarrow> int \<Rightarrow> int" where
  "wall_secs y m d hh mm = (day_number y m d - unix_day) * day_secs + hh * 3600 + mm * 60"

definition go_date :: "location \<Rightarrow> int \<Rightarrow> int \<Rightarrow> int \<Rightarrow> int \<Rightarrow> int \<Rightarrow> int" where
  "go_date loc y m d hh mm = date_secs loc (wall_secs y m d hh mm) * ns_per_sec"

text \<open>What \<^verbatim>\<open>t.In(loc)\<close> reads: the wall clock's second, its day number and its time of day.\<close>

definition local_secs :: "location \<Rightarrow> int \<Rightarrow> int" where
  "local_secs loc t = t div ns_per_sec + offset_at loc (t div ns_per_sec)"

definition local_day :: "location \<Rightarrow> int \<Rightarrow> int" where
  "local_day loc t = local_secs loc t div day_secs + unix_day"

definition local_hour :: "location \<Rightarrow> int \<Rightarrow> int" where
  "local_hour loc t = local_secs loc t mod day_secs div 3600"

definition local_minute :: "location \<Rightarrow> int \<Rightarrow> int" where
  "local_minute loc t = local_secs loc t mod 3600 div 60"

definition local_date :: "location \<Rightarrow> int \<Rightarrow> int \<times> int \<times> int" where
  "local_date loc t = civil (local_day loc t)"

text \<open>Where the offset does not change around an instant, \<^verbatim>\<open>time.Date\<close> is plain arithmetic.\<close>

definition steady :: "location \<Rightarrow> int \<Rightarrow> int \<Rightarrow> int \<Rightarrow> bool" where
  "steady loc lo hi off \<longleftrightarrow> (\<forall>s. lo \<le> s \<longrightarrow> s \<le> hi \<longrightarrow> offset_at loc s = off)"

lemma steadyD: "steady loc lo hi off \<Longrightarrow> lo \<le> s \<Longrightarrow> s \<le> hi \<Longrightarrow> offset_at loc s = off"
  by (simp add: steady_def)

lemma steady_fixed: "loc_changes loc = [] \<Longrightarrow> steady loc lo hi (loc_first loc)"
  by (simp add: steady_def offset_at_def lookup_def)

lemma date_secs_steady:
  assumes "steady loc lo hi off" "lo \<le> w" "w \<le> hi" "lo \<le> w - off" "w - off \<le> hi"
  shows "date_secs loc w = w - off"
  using steadyD [OF assms(1), of w] steadyD [OF assms(1), of "w - off"] assms(2-5)
  by (auto simp: date_secs_def offset_at_def Let_def split: prod.splits)

section \<open>Layouts\<close>

function idec :: "int \<Rightarrow> string" where
  "idec n = (if n < 10 then [digit_char (nat n)] else idec (n div 10) @ [digit_char (nat (n mod 10))])"
  by auto
termination by (relation "measure nat") auto

declare idec.simps [simp del]

definition num_of :: "string \<Rightarrow> int" where
  "num_of s = foldl (\<lambda>a c. 10 * a + int (digit_val c)) 0 s"

definition signed_dec :: "int \<Rightarrow> string" where
  "signed_dec n = (if n < 0 then CHR ''-'' # idec (- n) else idec n)"

definition pad_dec :: "nat \<Rightarrow> int \<Rightarrow> string" where
  "pad_dec w n = (if n < 0 then CHR ''-'' # pad_left w (idec (- n)) else pad_left w (idec n))"

lemma num_of_of_dec: "num_of s = int (of_dec s)"
proof -
  have "foldl (\<lambda>a c. 10 * a + int (digit_val c)) (int b) s = int (foldl (\<lambda>a c. 10 * a + digit_val c) b s)" for b
  proof (induction s arbitrary: b)
    case (Cons a s)
    have "10 * int b + int (digit_val a) = int (10 * b + digit_val a)" by simp
    with Cons show ?case by (simp only: foldl_Cons)
  qed simp
  from this [of 0] show ?thesis by (simp add: num_of_def of_dec_def)
qed

lemma idec_dec: "0 \<le> n \<Longrightarrow> idec n = dec (nat n)"
proof (induction n rule: idec.induct)
  case (1 n)
  then show ?case
    by (cases "n < 10") (simp_all add: idec.simps [of n] dec.simps [of "nat n"] nat_div_distrib nat_mod_distrib)
qed

definition format_date :: "int \<times> int \<times> int \<Rightarrow> string" where
  "format_date = (\<lambda>(y, m, d). pad_dec 4 y @ ''-'' @ pad_dec 2 m @ ''-'' @ pad_dec 2 d)"

definition format_clock :: "int \<Rightarrow> int \<Rightarrow> string" where
  "format_clock hh mm = pad_dec 2 hh @ '':'' @ pad_dec 2 mm"

text \<open>\<^verbatim>\<open>time.Parse\<close> with layout \<^verbatim>\<open>2006-01-02\<close>.\<close>

definition parse_iso_date :: "string \<Rightarrow> (int \<times> int \<times> int) option" where
  "parse_iso_date s =
     (case s of
        [a, b, c, d, s1, e, f, s2, g, h] \<Rightarrow>
          if s1 = CHR ''-'' \<and> s2 = CHR ''-'' \<and> list_all is_digit [a, b, c, d, e, f, g, h] then
            (let y = num_of [a, b, c, d]; m = num_of [e, f]; dd = num_of [g, h] in
             if valid_date y m dd then Some (y, m, dd) else None)
          else None
      | _ \<Rightarrow> None)"

text \<open>\<^verbatim>\<open>getnum\<close>: one or two digits (two when fixed), then the rest.\<close>

definition getnum :: "bool \<Rightarrow> string \<Rightarrow> (nat \<times> string) option" where
  "getnum fixed s =
     (case s of
        [] \<Rightarrow> None
      | a # r \<Rightarrow>
          if \<not> is_digit a then None
          else (case r of
                  b # r' \<Rightarrow> if is_digit b then Some (10 * digit_val a + digit_val b, r')
                            else if fixed then None else Some (digit_val a, r)
                | [] \<Rightarrow> if fixed then None else Some (digit_val a, r)))"

definition parse_colon_minute :: "string \<Rightarrow> (nat \<times> string) option" where
  "parse_colon_minute s =
     (case s of
        c # r \<Rightarrow> if c = CHR '':'' then
                    (case getnum True r of Some (m, r') \<Rightarrow> if m < 60 then Some (m, r') else None | None \<Rightarrow> None)
                  else None
      | [] \<Rightarrow> None)"

definition apply_pm :: "nat \<Rightarrow> string \<Rightarrow> nat option" where
  "apply_pm h s =
     (if s = ''pm'' then Some (if h < 12 then h + 12 else h)
      else if s = ''am'' then Some (if h = 12 then 0 else h)
      else None)"

definition parse_24 :: "string \<Rightarrow> (nat \<times> nat) option" where
  "parse_24 s =
     (case getnum False s of
        Some (h, r) \<Rightarrow>
          if h < 24 then (case parse_colon_minute r of Some (m, []) \<Rightarrow> Some (h, m) | _ \<Rightarrow> None) else None
      | None \<Rightarrow> None)"

definition parse_12_minute :: "string \<Rightarrow> (nat \<times> nat) option" where
  "parse_12_minute s =
     (case getnum False s of
        Some (h, r) \<Rightarrow>
          if h \<le> 12 then
            (case parse_colon_minute r of
               Some (m, r') \<Rightarrow> map_option (\<lambda>h'. (h', m)) (apply_pm h r')
             | None \<Rightarrow> None)
          else None
      | None \<Rightarrow> None)"

definition parse_12 :: "string \<Rightarrow> (nat \<times> nat) option" where
  "parse_12 s =
     (case getnum False s of
        Some (h, r) \<Rightarrow> if h \<le> 12 then map_option (\<lambda>h'. (h', 0)) (apply_pm h r) else None
      | None \<Rightarrow> None)"

section \<open>Durations\<close>

text \<open>
  \<^verbatim>\<open>time.ParseDuration\<close>: an optional sign, then numbers with units. The sum is kept in 64
  bits: beyond \<open>2 ^ 63\<close> is an error. A fraction is taken exactly (Go goes through float64).
\<close>

definition duration_unit :: "string \<Rightarrow> int option" where
  "duration_unit u =
     (if u = ''ns'' then Some 1
      else if u = ''us'' \<or> u = [CHR 0xC2, CHR 0xB5, CHR ''s''] \<or> u = [CHR 0xCE, CHR 0xBC, CHR ''s''] then Some 1000
      else if u = ''ms'' then Some 1000000
      else if u = ''s'' then Some 1000000000
      else if u = ''m'' then Some 60000000000
      else if u = ''h'' then Some 3600000000000
      else None)"

definition unit_char :: "char \<Rightarrow> bool" where
  "unit_char c \<longleftrightarrow> c \<noteq> CHR ''.'' \<and> \<not> is_digit c"

function duration_terms :: "int \<Rightarrow> string \<Rightarrow> int option" where
  "duration_terms d s =
     (if s = [] then Some d
      else (let ds = takeWhile is_digit s; r = dropWhile is_digit s;
                frac = (case r of c # r' \<Rightarrow> c = CHR ''.'' | [] \<Rightarrow> False);
                fs = (if frac then takeWhile is_digit (tl r) else []);
                r2 = (if frac then dropWhile is_digit (tl r) else r);
                u = takeWhile unit_char r2; rest = dropWhile unit_char r2
            in if (ds = [] \<and> fs = []) \<or> u = [] then None
               else (case duration_unit u of
                       None \<Rightarrow> None
                     | Some k \<Rightarrow>
                        (let v = num_of ds * k + num_of fs * k div 10 ^ length fs in
                         if num_of ds > 2 ^ 63 \<or> num_of ds > 2 ^ 63 div k \<or> v > 2 ^ 63 \<or> d + v > 2 ^ 63 then None
                         else duration_terms (d + v) rest))))"
  by pat_completeness auto
termination
proof (relation "measure (\<lambda>(d, s). length s)")
  fix d :: int and s ds r fs r2 u rest :: string and frac :: bool and k v :: int
  assume "ds = takeWhile is_digit s" and r: "r = dropWhile is_digit s"
    and "frac = (case r of c # r' \<Rightarrow> c = CHR ''.'' | [] \<Rightarrow> False)"
    and r2: "r2 = (if frac then dropWhile is_digit (tl r) else r)"
    and u: "u = takeWhile unit_char r2" and rest: "rest = dropWhile unit_char r2"
    and ne: "\<not> ((ds = [] \<and> fs = []) \<or> u = [])"
  have "length rest < length r2"
  proof -
    from ne u have "0 < length (takeWhile unit_char r2)" by simp
    moreover have "length r2 = length (takeWhile unit_char r2) + length (dropWhile unit_char r2)"
      by (metis length_append takeWhile_dropWhile_id)
    ultimately show ?thesis using rest by simp
  qed
  also have "length r2 \<le> length r"
    unfolding r2 by (auto intro: order_trans [OF length_dropWhile_le])
  also have "length r \<le> length s" unfolding r by (rule length_dropWhile_le)
  finally show "((d + v, rest), (d, s)) \<in> measure (\<lambda>(d, s). length s)" by simp
qed simp

declare duration_terms.simps [simp del]

definition parse_duration :: "string \<Rightarrow> int option" where
  "parse_duration s =
     (let neg = (s \<noteq> [] \<and> hd s = CHR ''-'');
          r = (if s \<noteq> [] \<and> (hd s = CHR ''-'' \<or> hd s = CHR ''+'') then tl s else s) in
      if r = ''0'' then Some 0
      else if r = [] then None
      else (case duration_terms 0 r of
              None \<Rightarrow> None
            | Some d \<Rightarrow> if neg then Some (- d) else if d > 2 ^ 63 - 1 then None else Some d))"

text \<open>\<^verbatim>\<open>strconv.Atoi\<close>; on a number out of range Go answers the nearest bound with an error.\<close>

definition atoi_clamped :: "string \<Rightarrow> int \<times> bool" where
  "atoi_clamped s =
     (let neg = (s \<noteq> [] \<and> hd s = CHR ''-'');
          r = (if s \<noteq> [] \<and> (hd s = CHR ''-'' \<or> hd s = CHR ''+'') then tl s else s);
          n = num_of r in
      if r = [] \<or> \<not> list_all is_digit r then (0, False)
      else if neg then (if n > 2 ^ 63 then (- (2 ^ 63), False) else (- n, True))
      else (if n > 2 ^ 63 - 1 then (2 ^ 63 - 1, False) else (n, True)))"

definition atoi :: "string \<Rightarrow> int option" where
  "atoi s = (case atoi_clamped s of (n, ok) \<Rightarrow> if ok then Some n else None)"

end
