(* ===== verification/Tables.thy ===== *)
theory Tables
  imports Prelude "HOL-Library.AList" "HOL-Library.Multiset"
begin

text \<open>
  Tables by key, as the stores of package \<^verbatim>\<open>internal/agentd\<close> keep them in memory: a Go map is
  an association list with distinct keys, read out in the order of its keys. Two interfaces the
  stores and the loops over them rely on: a keyed table with an edit in place, and a pass over a
  snapshot of a table in which every step touches only the record it was taken for.
\<close>

section \<open>A keyed table\<close>

text \<open>\<open>look\<close> is the record under a key, \<open>edit\<close> changes it in place, \<open>rows\<close> lists them all.\<close>

locale keyed_table =
  fixes ok :: "'s \<Rightarrow> bool"
    and look :: "'s \<Rightarrow> 'k \<Rightarrow> 'v option"
    and edit :: "'k \<Rightarrow> ('v \<Rightarrow> 'v) \<Rightarrow> 's \<Rightarrow> 's"
    and rows :: "'s \<Rightarrow> 'v list"
    and key :: "'v \<Rightarrow> 'k"
  assumes look_edit: "ok s \<Longrightarrow> look (edit k f s) j = (if j = k then map_option f (look s k) else look s j)"
    and ok_edit: "ok s \<Longrightarrow> (\<And>v. key (f v) = key v) \<Longrightarrow> ok (edit k f s)"
    and rows_look: "ok s \<Longrightarrow> v \<in> set (rows s) \<longleftrightarrow> look s (key v) = Some v"
    and rows_distinct: "ok s \<Longrightarrow> distinct (List.map key (rows s))"
begin

lemma look_edit_other: "ok s \<Longrightarrow> j \<noteq> k \<Longrightarrow> look (edit k f s) j = look s j"
  by (simp add: look_edit)

lemma edit_idle: "ok s \<Longrightarrow> look s k = None \<Longrightarrow> look (edit k f s) = look s"
  by (rule ext) (simp add: look_edit)

lemma edit_twice:
  "ok s \<Longrightarrow> (\<And>v. key (f v) = key v) \<Longrightarrow> look (edit k g (edit k f s)) = look (edit k (g \<circ> f) s)"
  by (rule ext) (simp add: look_edit ok_edit option.map_comp)

lemma rows_edit:
  assumes "ok s" "\<And>v. key (f v) = key v"
  shows "v \<in> set (rows (edit k f s)) \<longleftrightarrow>
    (if key v = k then (\<exists>u. look s k = Some u \<and> v = f u) else v \<in> set (rows s))"
  using assms by (auto simp: rows_look ok_edit look_edit)

end

section \<open>A pass over a snapshot\<close>

text \<open>
  \<open>step v s\<close> handles the record \<open>v\<close> of the snapshot in state \<open>s\<close>; the law says it leaves every
  other key alone and keeps the state well formed.
\<close>

locale snapshot_pass =
  fixes ok :: "'s \<Rightarrow> bool"
    and look :: "'s \<Rightarrow> 'k \<Rightarrow> 'v option"
    and key :: "'v \<Rightarrow> 'k"
    and step :: "'v \<Rightarrow> 's \<Rightarrow> 's"
  assumes step_other: "ok s \<Longrightarrow> j \<noteq> key v \<Longrightarrow> look (step v s) j = look s j"
    and step_ok: "ok s \<Longrightarrow> ok (step v s)"
begin

lemma pass_ok: "ok s \<Longrightarrow> ok (fold step vs s)"
  by (induction vs arbitrary: s) (simp_all add: step_ok)

lemma pass_other: "ok s \<Longrightarrow> j \<notin> key ` set vs \<Longrightarrow> look (fold step vs s) j = look s j"
  by (induction vs arbitrary: s) (simp_all add: step_other step_ok)

text \<open>Every record of the snapshot is handled once, in a state where it is still what was read.\<close>

lemma pass_own:
  "ok s \<Longrightarrow> distinct (List.map key vs) \<Longrightarrow> (\<And>v. v \<in> set vs \<Longrightarrow> look s (key v) = Some v) \<Longrightarrow> v \<in> set vs \<Longrightarrow>
   \<exists>t. ok t \<and> look t (key v) = Some v \<and> look (fold step vs s) (key v) = look (step v t) (key v)"
proof (induction vs arbitrary: s)
  case (Cons w vs)
  show ?case
  proof (cases "v = w")
    case True
    have "look (fold step vs (step w s)) (key w) = look (step w s) (key w)"
      using Cons.prems(1,2) by (intro pass_other step_ok) (auto simp: image_iff)
    with True Cons.prems show ?thesis by (intro exI [of _ s]) simp
  next
    case False
    then have v: "v \<in> set vs" using Cons.prems(4) by simp
    have "look (step w s) (key u) = Some u" if "u \<in> set vs" for u
      using that Cons.prems(1-3) by (subst step_other) (auto simp: image_iff)
    with Cons.IH [OF step_ok [OF Cons.prems(1)] _ _ v] Cons.prems(2) show ?thesis by simp
  qed
qed simp

end

section \<open>Association lists\<close>

definition edit_entry :: "'k \<Rightarrow> ('v \<Rightarrow> 'v) \<Rightarrow> ('k \<times> 'v) list \<Rightarrow> ('k \<times> 'v) list" where
  "edit_entry k f al = List.map (\<lambda>(j, v). (j, if j = k then f v else v)) al"

lemma map_of_edit_entry:
  "map_of (edit_entry k f al) j = (if j = k then map_option f (map_of al k) else map_of al j)"
  by (induction al) (auto simp: edit_entry_def)

lemma keys_edit_entry [simp]: "List.map fst (edit_entry k f al) = List.map fst al"
  by (simp add: edit_entry_def comp_def case_prod_beta)

text \<open>The records of a table whose entries sit under their own key, in the order of their keys.\<close>

definition keyed :: "('v \<Rightarrow> 'k) \<Rightarrow> ('k \<times> 'v) list \<Rightarrow> bool" where
  "keyed key al \<longleftrightarrow> distinct (List.map fst al) \<and> list_all (\<lambda>(k, v). key v = k) al"

definition sorted_rows :: "('v \<Rightarrow> 'k :: linorder) \<Rightarrow> ('k \<times> 'v) list \<Rightarrow> 'v list" where
  "sorted_rows key al = sort_key key (List.map snd al)"

lemma keyed_map_of: "keyed key al \<Longrightarrow> v \<in> snd ` set al \<longleftrightarrow> map_of al (key v) = Some v"
  by (force simp: keyed_def list_all_iff map_of_eq_Some_iff)

lemma keyed_lookD: "keyed key al \<Longrightarrow> map_of al k = Some v \<Longrightarrow> key v = k"
  by (auto simp: keyed_def list_all_iff dest: map_of_SomeD)

lemma keyed_iff:
  "keyed key al \<longleftrightarrow> distinct (List.map fst al) \<and> (\<forall>k v. map_of al k = Some v \<longrightarrow> key v = k)"
  by (auto simp: keyed_def list_all_iff map_of_eq_Some_iff)

lemma keyed_edit: "keyed key al \<Longrightarrow> (\<And>v. key (f v) = key v) \<Longrightarrow> keyed key (edit_entry k f al)"
  by (auto simp: keyed_iff map_of_edit_entry)

lemma keyed_update: "keyed key al \<Longrightarrow> key v = k \<Longrightarrow> keyed key (AList.update k v al)"
  by (auto simp: keyed_iff update_conv' distinct_update)

lemma keyed_delete: "keyed key al \<Longrightarrow> keyed key (AList.delete k al)"
  by (auto simp: keyed_iff delete_conv' distinct_delete)

lemma keyed_keys:
  assumes "keyed key al"
  shows "List.map key (List.map snd al) = List.map fst al"
  using assms by (induction al) (auto simp: keyed_def)

lemma sorted_rows_distinct: "keyed key al \<Longrightarrow> distinct (List.map key (sorted_rows key al))"
proof -
  assume k: "keyed key al"
  have "mset (List.map key (sorted_rows key al)) = mset (List.map fst al)"
    unfolding sorted_rows_def keyed_keys [OF k, symmetric] by (simp add: multiset.map_comp)
  then show ?thesis using k by (metis keyed_def mset_eq_imp_distinct_iff)
qed

lemma set_sorted_rows: "keyed key al \<Longrightarrow> v \<in> set (sorted_rows key al) \<longleftrightarrow> map_of al (key v) = Some v"
  using keyed_map_of [of key al v] by (simp add: sorted_rows_def)

text \<open>Reading records with distinct keys into an empty table lays them out as they come.\<close>

lemma update_append: "k \<notin> fst ` set al \<Longrightarrow> AList.update k v al = al @ [(k, v)]"
  by (induction al) auto

lemma reload_rows_append:
  "distinct (List.map key vs) \<Longrightarrow> fst ` set al \<inter> key ` set vs = {} \<Longrightarrow>
   fold (\<lambda>v. AList.update (key v) v) vs al = al @ List.map (\<lambda>v. (key v, v)) vs"
proof (induction vs arbitrary: al)
  case (Cons v vs)
  then have "AList.update (key v) v al = al @ [(key v, v)]" by (intro update_append) auto
  with Cons show ?case by auto
qed simp

lemma reload_rows:
  "distinct (List.map key vs) \<Longrightarrow> fold (\<lambda>v. AList.update (key v) v) vs [] = List.map (\<lambda>v. (key v, v)) vs"
  by (simp add: reload_rows_append)

lemma keyed_reload: "distinct (List.map key vs) \<Longrightarrow> keyed key (fold (\<lambda>v. AList.update (key v) v) vs [])"
  by (simp add: reload_rows keyed_def comp_def list_all_iff)

end
