(* ===== verification/Meter.thy ===== *)
theory Meter
  imports GoTime Tables "HOL-Library.Product_Lexorder"
begin

text \<open>
  What the daemon has spent (\<^verbatim>\<open>meter.go\<close> of \<^verbatim>\<open>internal/agentd\<close>) and what the host makes of it
  in money (\<^verbatim>\<open>usage.go\<close> and \<^verbatim>\<open>pricing.go\<close> of \<^verbatim>\<open>internal/agent\<close>). Token counts are 64-bit words, as
  in Go, so sums wrap; money is a rational where Go has a float. The rows are a table under
  (agent, model, day); Go walks its map in no fixed order, and no result below depends on one.
\<close>

section \<open>Usage\<close>

datatype usage = Usage
  (cleared_input_tokens: i64) (cleared_tool_uses: i64)
  (input_tokens: i64) (output_tokens: i64)
  (cache_creation_input_tokens: i64) (cache_read_input_tokens: i64)
  (cost_usd: rat)

fun add_usage :: "usage \<Rightarrow> usage \<Rightarrow> usage" where
  "add_usage (Usage a b c d e f g) (Usage a' b' c' d' e' f' g') =
     Usage (a + a') (b + b') (c + c') (d + d') (e + e') (f + f') (g + g')"

text \<open>Usage blocks add up like numbers, so sums over rows are the library's.\<close>

fun sub_usage :: "usage \<Rightarrow> usage \<Rightarrow> usage" where
  "sub_usage (Usage a b c d e f g) (Usage a' b' c' d' e' f' g') =
     Usage (a - a') (b - b') (c - c') (d - d') (e - e') (f - f') (g - g')"

instantiation usage :: ab_group_add
begin

definition zero_usage :: usage where "0 = Usage 0 0 0 0 0 0 0"
definition plus_usage :: "usage \<Rightarrow> usage \<Rightarrow> usage" where "u + v = add_usage u v"
definition minus_usage :: "usage \<Rightarrow> usage \<Rightarrow> usage" where "u - v = sub_usage u v"
definition uminus_usage :: "usage \<Rightarrow> usage" where "- u = sub_usage 0 u"

instance
proof
  fix a b c :: usage
  show "a + b + c = a + (b + c)"
    by (cases a; cases b; cases c) (simp add: plus_usage_def add.assoc)
  show "a + b = b + a" by (cases a; cases b) (simp add: plus_usage_def add.commute)
  show "0 + a = a" by (cases a) (simp add: plus_usage_def zero_usage_def)
  show "- a + a = 0" by (cases a) (simp add: plus_usage_def uminus_usage_def zero_usage_def)
  show "a - b = a + - b"
    by (cases a; cases b) (simp add: plus_usage_def minus_usage_def uminus_usage_def zero_usage_def)
qed

end

section \<open>Rows\<close>

type_synonym row_key = "string \<times> string \<times> string"

record usage_row =
  u_agent :: string
  u_model :: string
  u_day :: string
  u_usage :: usage
  u_calls :: i64
  u_turns :: i64

definition row_key :: "usage_row \<Rightarrow> row_key" where
  "row_key r = (u_agent r, u_model r, u_day r)"

record meter_state =
  ms_duration :: i64
  ms_activity :: "int option"

record meter_file =
  mf_version :: nat
  mf_rows :: "usage_row list"
  mf_state :: meter_state

record meter =
  mt_rows :: "(row_key \<times> usage_row) list"
  mt_folded :: string
  mt_state :: meter_state
  mt_file :: "meter_file option"

definition meter_version :: nat where "meter_version = 2"
definition meter_keep_days :: int where "meter_keep_days = 400"

definition empty_row :: "string \<Rightarrow> string \<Rightarrow> string \<Rightarrow> usage_row" where
  "empty_row agent model day =
     \<lparr>u_agent = agent, u_model = model, u_day = day, u_usage = 0, u_calls = 0, u_turns = 0\<rparr>"

definition row_locked :: "string \<Rightarrow> string \<Rightarrow> string \<Rightarrow> (row_key \<times> usage_row) list \<Rightarrow> (row_key \<times> usage_row) list" where
  "row_locked agent model day rows =
     (if map_of rows (agent, model, day) = None
      then AList.update (agent, model, day) (empty_row agent model day) rows else rows)"

section \<open>Days\<close>

text \<open>A moment on somebody's clock is a location and an instant.\<close>

definition date_of :: "location \<Rightarrow> int \<Rightarrow> string" where
  "date_of loc t = format_date (local_date loc t)"

definition add_days :: "location \<Rightarrow> int \<Rightarrow> int \<Rightarrow> int" where
  "add_days loc t n =
     date_secs loc ((local_day loc t + n - unix_day) * day_secs + local_secs loc t mod day_secs) * ns_per_sec +
     t mod ns_per_sec"

definition monday_of :: "location \<Rightarrow> int \<Rightarrow> int" where
  "monday_of loc t =
     (let back = (week_day (local_day loc t) + 6) mod 7 in
      case local_date loc (add_days loc t (- back)) of (y, m, d) \<Rightarrow> go_date loc y m d 0 0)"

section \<open>Recording\<close>

definition fold_row ::
  "string \<Rightarrow> row_key \<Rightarrow> (row_key \<times> usage_row) list \<Rightarrow> (row_key \<times> usage_row) list" where
  "fold_row cutoff k rows =
     (case k of (agent, model, day) \<Rightarrow>
        if day = [] \<or> cutoff \<le> day then rows
        else (case map_of rows k of
                None \<Rightarrow> rows
              | Some row \<Rightarrow>
                  AList.delete k
                    (edit_entry (agent, model, [])
                      (\<lambda>c. c\<lparr>u_usage := add_usage (u_usage c) (u_usage row),
                             u_calls := u_calls c + u_calls row, u_turns := u_turns c + u_turns row\<rparr>)
                      (row_locked agent model [] rows))))"

definition fold_locked :: "location \<Rightarrow> int \<Rightarrow> meter \<Rightarrow> meter" where
  "fold_locked loc now m =
     (let today = date_of loc now in
      if today = mt_folded m then m
      else (let cutoff = date_of loc (add_days loc now (- meter_keep_days)) in
            m\<lparr>mt_folded := today,
              mt_rows := fold (fold_row cutoff) (List.map fst (mt_rows m)) (mt_rows m)\<rparr>))"

definition file_locked :: "meter \<Rightarrow> meter_file" where
  "file_locked m = \<lparr>mf_version = meter_version, mf_rows = sorted_rows row_key (mt_rows m), mf_state = mt_state m\<rparr>"

definition save_meter :: "bool \<Rightarrow> location \<Rightarrow> int \<Rightarrow> meter \<Rightarrow> meter" where
  "save_meter wrote loc now m =
     (let m1 = fold_locked loc now m in
      if wrote then m1\<lparr>mt_file := Some (file_locked m1)\<rparr> else m1)"

definition record_usage ::
  "bool \<Rightarrow> location \<Rightarrow> int \<Rightarrow> string \<Rightarrow> string \<Rightarrow> usage \<Rightarrow> meter \<Rightarrow> meter" where
  "record_usage wrote loc now agent model u m =
     (let day = date_of loc now;
          rows = edit_entry (agent, model, day)
                   (\<lambda>r. r\<lparr>u_usage := add_usage (u_usage r) u, u_calls := u_calls r + 1\<rparr>)
                   (row_locked agent model day (mt_rows m)) in
      save_meter wrote loc now
        (m\<lparr>mt_rows := rows, mt_state := (mt_state m)\<lparr>ms_activity := Some now\<rparr>\<rparr>))"

definition finish_turn :: "bool \<Rightarrow> location \<Rightarrow> int \<Rightarrow> string \<Rightarrow> i64 \<Rightarrow> meter \<Rightarrow> meter" where
  "finish_turn wrote loc now agent ms m =
     (let day = date_of loc now;
          rows = edit_entry (agent, [], day) (\<lambda>r. r\<lparr>u_turns := u_turns r + 1\<rparr>)
                   (row_locked agent [] day (mt_rows m)) in
      save_meter wrote loc now (m\<lparr>mt_rows := rows, mt_state := (mt_state m)\<lparr>ms_duration := ms\<rparr>\<rparr>))"

section \<open>Reports\<close>

record model_usage =
  mu_model :: string
  mu_usage :: usage
  mu_turns :: i64

record usage_report =
  ur_by_model :: "model_usage list"
  ur_turns :: i64
  ur_state :: meter_state

record usage_window =
  uw_by_model :: "model_usage list"
  uw_turns :: i64

record agent_usage =
  au_agent :: string
  au_name :: string
  au_retired :: bool
  au_today :: usage_window
  au_week :: usage_window
  au_lifetime :: usage_window

record agent_usage_report =
  ar_zone :: string
  ar_today :: string
  ar_week_start :: string
  ar_agents :: "agent_usage list"

definition add_model :: "usage_row \<Rightarrow> (string \<times> model_usage) list \<Rightarrow> (string \<times> model_usage) list" where
  "add_model row acc =
     edit_entry (u_model row) (\<lambda>s. s\<lparr>mu_usage := add_usage (mu_usage s) (u_usage row), mu_turns := mu_turns s + u_calls row\<rparr>)
       (if map_of acc (u_model row) = None
        then AList.update (u_model row) \<lparr>mu_model = u_model row, mu_usage = 0, mu_turns = 0\<rparr> acc else acc)"

definition sorted_models :: "(string \<times> model_usage) list \<Rightarrow> model_usage list" where
  "sorted_models acc = sorted_rows mu_model acc"

definition meter_report :: "meter \<Rightarrow> usage_report" where
  "meter_report m =
     (let rows = List.map snd (mt_rows m) in
      \<lparr>ur_by_model = sorted_models (fold add_model (filter (\<lambda>r. u_model r \<noteq> []) rows) []),
       ur_turns = sum_list (List.map u_turns rows), ur_state = mt_state m\<rparr>)"

definition in_window :: "string \<Rightarrow> string \<Rightarrow> string \<Rightarrow> bool" where
  "in_window day from until \<longleftrightarrow> (if from = [] then True else day \<noteq> [] \<and> from \<le> day \<and> day \<le> until)"

definition window_locked :: "meter \<Rightarrow> string \<Rightarrow> string \<Rightarrow> string \<Rightarrow> usage_window" where
  "window_locked m agent from until =
     (let rows = filter (\<lambda>((a, _, day), _). a = agent \<and> in_window day from until) (mt_rows m) in
      \<lparr>uw_by_model = sorted_models (fold add_model (List.map snd (filter (\<lambda>((_, mo, _), _). mo \<noteq> []) rows)) []),
       uw_turns = sum_list (List.map (u_turns \<circ> snd) (filter (\<lambda>((_, mo, _), _). mo = []) rows))\<rparr>)"

definition agents_locked :: "meter \<Rightarrow> string list" where
  "agents_locked m = sort (remdups (List.map (fst \<circ> fst) (mt_rows m)))"

definition by_agent :: "location \<Rightarrow> int \<Rightarrow> meter \<Rightarrow> agent_usage_report" where
  "by_agent loc now m =
     (let today = date_of loc now; week = date_of loc (monday_of loc now) in
      \<lparr>ar_zone = loc_name loc, ar_today = today, ar_week_start = week,
       ar_agents = List.map (\<lambda>a. \<lparr>au_agent = a, au_name = [], au_retired = False, au_today = window_locked m a today today,
           au_week = window_locked m a week today, au_lifetime = window_locked m a [] today\<rparr>) (agents_locked m)\<rparr>)"

section \<open>Opening\<close>

text \<open>The file as decoded: unreadable, version 1, or a file with a version.\<close>

record meter_file_v1 =
  v1_by_model :: "model_usage list"
  v1_turns :: i64
  v1_state :: meter_state

datatype meter_bytes = MeterMissing | MeterCorrupt | MeterV1 meter_file_v1 | MeterFile meter_file

definition unattributed :: string where "unattributed = ''unattributed''"

definition migrate_v1 :: "meter_file_v1 \<Rightarrow> meter_file" where
  "migrate_v1 v =
     \<lparr>mf_version = meter_version,
      mf_rows = \<lparr>u_agent = unattributed, u_model = [], u_day = [], u_usage = 0, u_calls = 0, u_turns = v1_turns v\<rparr> #
        List.map (\<lambda>r. \<lparr>u_agent = unattributed, u_model = mu_model r, u_day = [], u_usage = mu_usage r,
                       u_calls = mu_turns r, u_turns = 0\<rparr>) (v1_by_model v),
      mf_state = v1_state v\<rparr>"

definition read_meter_file :: "meter_bytes \<Rightarrow> meter_file option" where
  "read_meter_file b =
     (case b of
        MeterV1 v \<Rightarrow> Some (migrate_v1 v)
      | MeterFile f \<Rightarrow> if mf_version f = meter_version then Some f else None
      | _ \<Rightarrow> None)"

definition empty_meter :: meter where
  "empty_meter = \<lparr>mt_rows = [], mt_folded = [], mt_state = \<lparr>ms_duration = 0, ms_activity = None\<rparr>, mt_file = None\<rparr>"

definition open_meter :: "location \<Rightarrow> int \<Rightarrow> meter_bytes \<Rightarrow> meter" where
  "open_meter loc now b =
     (case read_meter_file b of
        None \<Rightarrow> empty_meter
      | Some f \<Rightarrow> fold_locked loc now
          (empty_meter\<lparr>mt_rows := fold (\<lambda>r. AList.update (row_key r) r) (mf_rows f) [],
                       mt_state := mf_state f, mt_file := Some f\<rparr>))"

section \<open>Prices\<close>

definition cache_write_multiple :: rat where "cache_write_multiple = 125 / 100"
definition cache_read_multiple :: rat where "cache_read_multiple = 10 / 100"

definition price_table :: "(string \<times> rat \<times> rat) list" where
  "price_table =
     [(''claude-fable-5'', 10, 50), (''claude-mythos-5'', 10, 50), (''claude-opus-5'', 5, 25),
      (''claude-opus-4-8'', 5, 25), (''claude-opus-4-7'', 5, 25), (''claude-opus-4-6'', 5, 25),
      (''claude-opus-4-5'', 5, 25), (''claude-opus-4-1'', 15, 75), (''claude-opus-4'', 15, 75),
      (''claude-sonnet-5'', 2, 10), (''claude-sonnet-4-6'', 3, 15), (''claude-sonnet-4-5'', 3, 15),
      (''claude-sonnet-4'', 3, 15), (''claude-haiku-4-5'', 1, 5), (''claude-haiku-3-5'', 8 / 10, 4)]"

definition dialect :: "string \<Rightarrow> string" where
  "dialect model =
     (let m = (case cut_at CHR ''/'' model of Some (_, rest) \<Rightarrow> rest | None \<Rightarrow> model) in
      List.map (\<lambda>c. if c = CHR ''.'' then CHR ''-'' else c) m)"

fun best_prefix :: "string \<Rightarrow> (string \<times> rat \<times> rat) list \<Rightarrow> (string \<times> rat \<times> rat) \<Rightarrow> string \<times> rat \<times> rat" where
  "best_prefix model [] best = best"
| "best_prefix model ((p, r) # ps) best =
     best_prefix model ps (if prefix p model \<and> length p > length (fst best) then (p, r) else best)"

definition rate_for :: "string \<Rightarrow> (rat \<times> rat) option" where
  "rate_for model =
     (case best_prefix (dialect model) price_table ([], 0, 0) of (best, r) \<Rightarrow> if best = [] then None else Some r)"

definition per_token :: "i64 \<Rightarrow> rat \<Rightarrow> rat" where
  "per_token n d = rat_of_int (sint n) * d / 1000000"

definition cost_of :: "string \<Rightarrow> usage \<Rightarrow> rat option" where
  "cost_of model u =
     (if cost_usd u > 0 then Some (cost_usd u)
      else (case rate_for model of
              None \<Rightarrow> None
            | Some (i, out) \<Rightarrow> Some (per_token (input_tokens u) i + per_token (output_tokens u) out +
                per_token (cache_creation_input_tokens u) (i * cache_write_multiple) +
                per_token (cache_read_input_tokens u) (i * cache_read_multiple))))"

record totals =
  tt_cost :: rat
  tt_input :: i64
  tt_output :: i64
  tt_cache_read :: i64
  tt_cache_creation :: i64
  tt_turns :: i64
  tt_state :: meter_state
  tt_unpriced :: "string list"

definition add_tokens :: "usage \<Rightarrow> totals \<Rightarrow> totals" where
  "add_tokens u t =
     t\<lparr>tt_input := tt_input t + input_tokens u, tt_output := tt_output t + output_tokens u,
       tt_cache_read := tt_cache_read t + cache_read_input_tokens u,
       tt_cache_creation := tt_cache_creation t + cache_creation_input_tokens u\<rparr>"

definition price_row :: "model_usage \<Rightarrow> totals \<Rightarrow> totals" where
  "price_row row t =
     (let t1 = add_tokens (mu_usage row) t in
      case cost_of (mu_model row) (mu_usage row) of
        None \<Rightarrow> t1\<lparr>tt_unpriced := tt_unpriced t1 @ [mu_model row]\<rparr>
      | Some c \<Rightarrow> t1\<lparr>tt_cost := tt_cost t1 + c\<rparr>)"

definition price :: "usage_report \<Rightarrow> totals" where
  "price r = fold price_row (ur_by_model r)
     \<lparr>tt_cost = 0, tt_input = 0, tt_output = 0, tt_cache_read = 0, tt_cache_creation = 0,
      tt_turns = ur_turns r, tt_state = ur_state r, tt_unpriced = []\<rparr>"

section \<open>The host's cache of totals\<close>

text \<open>\<^verbatim>\<open>Accumulator\<close>: each VM's last known spend; \<^verbatim>\<open>None\<close> is a guest that did not answer.\<close>

definition zero_totals :: totals where
  "zero_totals = price \<lparr>ur_by_model = [], ur_turns = 0, ur_state = \<lparr>ms_duration = 0, ms_activity = None\<rparr>\<rparr>"

definition totals_snapshot :: "string \<Rightarrow> (string \<rightharpoonup> totals) \<Rightarrow> totals" where
  "totals_snapshot vid acc = (case acc vid of Some t \<Rightarrow> t | None \<Rightarrow> zero_totals)"

definition totals_update :: "string \<Rightarrow> usage_report option \<Rightarrow> (string \<rightharpoonup> totals) \<Rightarrow> totals \<times> (string \<rightharpoonup> totals)" where
  "totals_update vid answer acc =
     (case answer of
        None \<Rightarrow> (totals_snapshot vid acc, acc)
      | Some r \<Rightarrow> (price r, acc(vid \<mapsto> price r)))"

definition totals_forget :: "string \<Rightarrow> (string \<rightharpoonup> totals) \<Rightarrow> (string \<rightharpoonup> totals)" where
  "totals_forget vid acc = acc(vid := None)"

end
