(* ===== verification/ControlApi.thy ===== *)
theory ControlApi
  imports VmHost Meter
begin

text \<open>
  The control plane over HTTP (package \<^verbatim>\<open>internal/api\<close>: \<^verbatim>\<open>router.go\<close>, \<^verbatim>\<open>handlers.go\<close>, \<^verbatim>\<open>proxy.go\<close>,
  \<^verbatim>\<open>stats.go\<close>) and the chat service's client of it (\<^verbatim>\<open>control.go\<close>). A handler is a function of the server's state, a reply is a
  status, a retry hint and what the body says. Decoding the request is the caller's, and so are the answers of other programs.
\<close>

section \<open>Replies\<close>

record api_error =
  ae_error :: string
  ae_message :: string
  ae_resource :: string

datatype api_body =
    ErrBody api_error
  | ViewBody vm_view
  | ViewsBody "vm_view list"
  | PurgedBody string bool
  | CapacityBody capacity_report

record api_reply =
  rp_status :: int
  rp_retry :: "string option"
  rp_body :: api_body

definition write_json :: "int \<Rightarrow> api_body \<Rightarrow> api_reply" where
  "write_json status b = \<lparr>rp_status = status, rp_retry = None, rp_body = b\<rparr>"

definition write_err :: "int \<Rightarrow> api_error \<Rightarrow> api_reply" where
  "write_err status e = (write_json status (ErrBody e))\<lparr>rp_retry := (if status = 503 then Some ''30'' else None)\<rparr>"

fun err_text :: "vm_error \<Rightarrow> string" where
  "err_text (ErrNotFound i) = ''vm not found: '' @ i"
| "err_text (ErrDuplicate i) = ''id already in use: '' @ i"
| "err_text (ErrNoSlots a b) = ''no free slot: '' @ dec a @ ''/'' @ dec b @ '' in use''"
| "err_text (ErrState t) = ''illegal state transition: '' @ t"
| "err_text (ErrIO t) = t"

definition api_err :: "string \<Rightarrow> string \<Rightarrow> api_error" where
  "api_err kind msg = \<lparr>ae_error = kind, ae_message = msg, ae_resource = []\<rparr>"

definition write_vm_err :: "vm_error \<Rightarrow> api_reply" where
  "write_vm_err e =
     (case e of
        ErrNotFound _ \<Rightarrow> write_err 404 (api_err ''not_found'' (err_text e))
      | ErrDuplicate _ \<Rightarrow> write_err 409 (api_err ''conflict'' (err_text e))
      | ErrState _ \<Rightarrow> write_err 409 (api_err ''conflict'' (err_text e))
      | ErrNoSlots _ _ \<Rightarrow> write_err 503 ((api_err ''capacity_exhausted'' (err_text e))\<lparr>ae_resource := ''slots''\<rparr>)
      | ErrIO _ \<Rightarrow> write_err 500 (api_err ''internal'' (err_text e)))"

section \<open>Who may ask\<close>

record credentials =
  cr_header :: string
  cr_query :: string
  cr_cookie :: "string option"

definition extract_token :: "credentials \<Rightarrow> string \<times> bool" where
  "extract_token r =
     (if length (cr_header r) > 7 \<and> take 7 (cr_header r) = ''Bearer '' then (drop 7 (cr_header r), False)
      else if cr_query r \<noteq> [] then (cr_query r, True)
      else (case cr_cookie r of Some c \<Rightarrow> (c, False) | None \<Rightarrow> ([], False)))"

text \<open>\<open>i\<close> is the id in the path, empty where the route has none.\<close>

definition cookie_path :: "string \<Rightarrow> string" where
  "cookie_path i = (if i \<noteq> [] then ''/vms/'' @ i @ ''/'' else ''/'')"

text \<open>\<open>Some p\<close>: the token is handed back as a cookie for the path \<open>p\<close>.\<close>

definition guard_request :: "string \<Rightarrow> bool \<Rightarrow> string \<Rightarrow> credentials \<Rightarrow> api_reply + string option" where
  "guard_request token set_cookie i r =
     (case extract_token r of
        (tok, from_query) \<Rightarrow>
          if tok \<noteq> token then Inl (write_err 401 (api_err ''unauthorized'' ''invalid or missing token''))
          else Inr (if from_query \<and> set_cookie then Some (cookie_path i) else None))"

datatype route_guard = Unguarded | GuardedNoCookie | GuardedCookie

definition api_routes :: "(string \<times> route_guard) list" where
  "api_routes =
     [(''GET /healthz'', Unguarded), (''GET /{$}'', Unguarded),
      (''GET /dashboard'', GuardedNoCookie), (''GET /stats'', GuardedNoCookie), (''GET /metrics'', GuardedNoCookie),
      (''GET /logs'', GuardedNoCookie), (''GET /capacity'', GuardedCookie), (''POST /vms'', GuardedCookie),
      (''GET /vms'', GuardedCookie), (''GET /vms/{id}'', GuardedCookie), (''GET /vms/{id}/stats'', GuardedNoCookie),
      (''POST /vms/{id}/pause'', GuardedCookie), (''POST /vms/{id}/resume'', GuardedCookie),
      (''DELETE /vms/{id}'', GuardedCookie), (''/vms/{id}/vnc/'', GuardedCookie), (''/vms/{id}/agent/'', GuardedCookie)]"

text \<open>What a matching request has for an id.\<close>

definition route_id :: "string \<Rightarrow> string \<Rightarrow> string" where
  "route_id pattern i = (if contains_str pattern ''{id}'' then i else [])"

section \<open>Handlers\<close>

record 'n api =
  sv_host :: "'n host"
  sv_usage :: "string \<rightharpoonup> totals"
  sv_seq :: nat

datatype create_body = BadBody | EmptyBody | IdBody string

text \<open>\<open>rnd\<close> is the hexadecimal of two random bytes, if there were any.\<close>

definition generate_id :: "string option \<Rightarrow> nat \<Rightarrow> string" where
  "generate_id rnd n = (case rnd of None \<Rightarrow> ''vm-'' @ dec n | Some h \<Rightarrow> ''vm-'' @ dec n @ ''-'' @ h)"

definition boot_timed_out :: "vm_error \<Rightarrow> bool" where
  "boot_timed_out e \<longleftrightarrow> contains_str (err_text e) ''did not come up'' \<or> contains_str (err_text e) ''exited during boot''"

definition create_reply ::
  "'n ip_command \<Rightarrow> boot_env \<Rightarrow> stop_env \<Rightarrow> int \<Rightarrow> string \<Rightarrow> 'n api \<Rightarrow> api_reply \<times> 'n api" where
  "create_reply ip e s now i a =
     (case create_vm ip e s now i (sv_host a) of
        (Inr v, h) \<Rightarrow> (write_json 201 (ViewBody (view_vm v h)), a\<lparr>sv_host := h\<rparr>)
      | (Inl err, h) \<Rightarrow>
          (if boot_timed_out err then write_err 504 (api_err ''agent_timeout'' (err_text err)) else write_vm_err err,
           a\<lparr>sv_host := h\<rparr>))"

definition handle_create ::
  "'n ip_command \<Rightarrow> boot_env \<Rightarrow> stop_env \<Rightarrow> int \<Rightarrow> string option \<Rightarrow> create_body \<Rightarrow> 'n api \<Rightarrow> api_reply \<times> 'n api" where
  "handle_create ip e s now rnd b a =
     (case b of
        BadBody \<Rightarrow> (write_err 400 (api_err ''bad_request'' ''invalid JSON body''), a)
      | _ \<Rightarrow>
          (let given = (case b of IdBody i \<Rightarrow> i | _ \<Rightarrow> []);
               i = (if given = [] then generate_id rnd (Suc (sv_seq a)) else given);
               a1 = (if given = [] then a\<lparr>sv_seq := Suc (sv_seq a)\<rparr> else a) in
           if \<not> valid_id i then (write_err 400 (api_err ''bad_request'' ''id must match ^[a-z0-9][a-z0-9-]{0,31}$''), a1)
           else create_reply ip e s now i a1))"

definition on_host :: "('n host \<Rightarrow> 'n host) \<Rightarrow> 'n api \<Rightarrow> 'n api" where
  "on_host f a = a\<lparr>sv_host := f (sv_host a)\<rparr>"

text \<open>\<open>said v\<close> is firecracker's word for the state of \<open>v\<close>, if it answers.\<close>

definition handle_list :: "(vptr \<Rightarrow> string option) \<Rightarrow> 'n api \<Rightarrow> api_reply \<times> 'n api" where
  "handle_list said a =
     (case fold (\<lambda>v (views, b). let b1 = on_host (refresh_vm (said v) v) b in (views @ [view_vm v (sv_host b1)], b1))
             (list_vms (h_reg (sv_host a))) ([], a) of
        (views, a1) \<Rightarrow> (write_json 200 (ViewsBody views), a1))"

definition handle_get :: "(vptr \<Rightarrow> string option) \<Rightarrow> string \<Rightarrow> 'n api \<Rightarrow> api_reply \<times> 'n api" where
  "handle_get said i a =
     (case get_vm i (h_reg (sv_host a)) of
        Inl e \<Rightarrow> (write_vm_err e, a)
      | Inr v \<Rightarrow> (let a1 = on_host (refresh_vm (said v) v) a in (write_json 200 (ViewBody (view_vm v (sv_host a1))), a1)))"

definition handle_transition ::
  "(vptr \<Rightarrow> 'n host \<Rightarrow> vm_error option \<times> 'n host) \<Rightarrow> string \<Rightarrow> 'n api \<Rightarrow> api_reply \<times> 'n api" where
  "handle_transition f i a =
     (case get_vm i (h_reg (sv_host a)) of
        Inl e \<Rightarrow> (write_vm_err e, a)
      | Inr v \<Rightarrow>
          (case f v (sv_host a) of
             (Some (ErrState t), h) \<Rightarrow> (write_vm_err (ErrState t), a\<lparr>sv_host := h\<rparr>)
           | (Some e, h) \<Rightarrow> (write_err 502 (api_err ''vm_unreachable'' (err_text e)), a\<lparr>sv_host := h\<rparr>)
           | (None, h) \<Rightarrow> (write_json 200 (ViewBody (view_vm v h)), a\<lparr>sv_host := h\<rparr>)))"

definition handle_pause :: "bool \<Rightarrow> string \<Rightarrow> 'n api \<Rightarrow> api_reply \<times> 'n api" where
  "handle_pause patched = handle_transition (pause_vm patched)"

definition handle_resume :: "bool \<Rightarrow> string \<Rightarrow> 'n api \<Rightarrow> api_reply \<times> 'n api" where
  "handle_resume patched = handle_transition (resume_vm patched)"

definition forget_usage :: "string \<Rightarrow> 'n api \<Rightarrow> 'n api" where
  "forget_usage i a = a\<lparr>sv_usage := totals_forget i (sv_usage a)\<rparr>"

definition handle_delete :: "'n ip_command \<Rightarrow> stop_env \<Rightarrow> string \<Rightarrow> bool \<Rightarrow> 'n api \<Rightarrow> api_reply \<times> 'n api" where
  "handle_delete ip s i purge a =
     (case get_vm i (h_reg (sv_host a)) of
        Inl e \<Rightarrow>
          if \<not> purge then (write_vm_err e, a)
          else if \<not> valid_id i then (write_err 400 (api_err ''bad_id'' ''invalid vm id''), a)
          else (case purge_workspace i (sv_host a) of
                  (Some err, h) \<Rightarrow> (write_vm_err err, a\<lparr>sv_host := h\<rparr>)
                | (None, h) \<Rightarrow> (write_json 200 (PurgedBody i True), forget_usage i (a\<lparr>sv_host := h\<rparr>)))
      | Inr v \<Rightarrow>
          (case delete_vm ip s v purge (sv_host a) of
             (Some err, h) \<Rightarrow> (write_vm_err err, a\<lparr>sv_host := h\<rparr>)
           | (None, h) \<Rightarrow>
               (let j = vm_id (the_vm h v) in (write_json 200 (PurgedBody j purge), forget_usage j (a\<lparr>sv_host := h\<rparr>)))))"

section \<open>The way to a guest\<close>

definition trim_prefix :: "string \<Rightarrow> string \<Rightarrow> string" where
  "trim_prefix path pre =
     (let r = (if prefix pre path then drop (length pre) path else path) in
      if r = [] \<or> hd r \<noteq> CHR ''/'' then CHR ''/'' # r else r)"

record guest_request =
  gq_host :: string
  gq_port :: nat
  gq_path :: string
  gq_query :: "(string \<times> string) list"
  gq_headers :: "(string \<times> string) list"

definition handle_proxy ::
  "nat \<Rightarrow> string \<Rightarrow> string \<Rightarrow> string \<Rightarrow> (string \<times> string) list \<Rightarrow> (string \<times> string) list \<Rightarrow> 'n api \<Rightarrow>
   api_reply + guest_request" where
  "handle_proxy port kind i path query headers a =
     (case get_vm i (h_reg (sv_host a)) of
        Inl e \<Rightarrow> Inl (write_vm_err e)
      | Inr v \<Rightarrow>
          (let st = snapshot v (h_reg (sv_host a)) in
           if st \<noteq> Running then Inl (write_err 409 (api_err ''conflict'' (''vm is '' @ state_name st @ '', not running'')))
           else Inr \<lparr>gq_host = guest_ip (the_vm (sv_host a) v), gq_port = port,
                     gq_path = trim_prefix path (''/vms/'' @ i @ ''/'' @ kind), gq_query = query,
                     gq_headers = filter (\<lambda>(k, v). k \<notin> {''Authorization'', ''Cookie''}) headers\<rparr>))"

section \<open>The snapshot of the fleet\<close>

record guest_health =
  gh_reachable :: bool
  gh_ready :: bool
  gh_state :: string
  gh_error :: "string option"

record fleet_row =
  fr_stats :: vm_stats
  fr_agent :: guest_health
  fr_usage :: totals
  fr_error :: bool

text \<open>\<open>health\<close> and \<open>spent\<close> are what the guest answers, \<open>Inl\<close> why it did not.\<close>

definition probe_guest ::
  "string \<Rightarrow> string + bool \<times> string \<Rightarrow> usage_report option \<Rightarrow> vm_stats \<Rightarrow> 'n api \<Rightarrow> fleet_row \<times> 'n api" where
  "probe_guest i health spent st a =
     (let down = \<lparr>gh_reachable = False, gh_ready = False, gh_state = [], gh_error = None\<rparr> in
      if vw_state (vs_view st) \<noteq> Running then
        (\<lparr>fr_stats = st, fr_agent = down\<lparr>gh_error := Some (''vm is '' @ state_name (vw_state (vs_view st)))\<rparr>,
          fr_usage = totals_snapshot i (sv_usage a), fr_error = False\<rparr>, a)
      else (case totals_update i spent (sv_usage a) of
              (t, u) \<Rightarrow>
                (\<lparr>fr_stats = st,
                  fr_agent = (case health of Inr (ready, sess) \<Rightarrow> \<lparr>gh_reachable = True, gh_ready = ready, gh_state = sess, gh_error = None\<rparr>
                                           | Inl e \<Rightarrow> down\<lparr>gh_error := Some e\<rparr>),
                  fr_usage = t, fr_error = (spent = None)\<rparr>, a\<lparr>sv_usage := u\<rparr>)))"

definition add_totals :: "totals \<Rightarrow> totals \<Rightarrow> totals" where
  "add_totals u t =
     t\<lparr>tt_cost := tt_cost t + tt_cost u, tt_input := tt_input t + tt_input u, tt_output := tt_output t + tt_output u,
       tt_cache_read := tt_cache_read t + tt_cache_read u, tt_cache_creation := tt_cache_creation t + tt_cache_creation u,
       tt_turns := tt_turns t + tt_turns u\<rparr>"

definition sum_usage :: "fleet_row list \<Rightarrow> totals" where
  "sum_usage rows = fold (\<lambda>r. add_totals (fr_usage r)) rows zero_totals"

text \<open>What is measured of each VM: its state as firecracker says it, its resources, its guest.\<close>

record probe =
  pb_said :: "string option"
  pb_len :: "int option"
  pb_blocks :: "int option"
  pb_rss :: "int option"
  pb_cpu :: "rat option"
  pb_health :: "string + bool \<times> string"
  pb_spent :: "usage_report option"

definition collect_row :: "int \<Rightarrow> probe \<Rightarrow> vptr \<Rightarrow> 'n api \<Rightarrow> fleet_row \<times> 'n api" where
  "collect_row now p v a =
     (let a1 = on_host (refresh_vm (pb_said p) v) a in
      case stats_vm now (pb_len p) (pb_blocks p) (pb_rss p) (pb_cpu p) v (sv_host a1) of
        (st, h) \<Rightarrow> probe_guest (vm_id (the_vm h v)) (pb_health p) (pb_spent p) st (a1\<lparr>sv_host := h\<rparr>))"

definition collect_fleet :: "int \<Rightarrow> (vptr \<Rightarrow> probe) \<Rightarrow> 'n api \<Rightarrow> (fleet_row list \<times> totals) \<times> 'n api" where
  "collect_fleet now probes a =
     (case fold (\<lambda>v (rows, b). case collect_row now (probes v) v b of (row, b1) \<Rightarrow> (rows @ [row], b1))
             (list_vms (h_reg (sv_host a))) ([], a) of
        (rows, a1) \<Rightarrow> ((rows, sum_usage rows), a1))"

definition tail_file :: "nat \<Rightarrow> string \<Rightarrow> string" where
  "tail_file n s = (if length s > n then drop (length s - n) s else s)"

section \<open>The chat service's client\<close>

text \<open>How a call goes: answered, carried out though the answer is lost, or never delivered.\<close>

datatype wire = CallAnswered | AnswerLost | NotDelivered

definition over :: "wire \<Rightarrow> ('s \<Rightarrow> 'r \<times> 's) \<Rightarrow> 's \<Rightarrow> 'r option \<times> 's" where
  "over w f a =
     (case w of
        CallAnswered \<Rightarrow> (case f a of (r, b) \<Rightarrow> (Some r, b))
      | AnswerLost \<Rightarrow> (None, snd (f a))
      | NotDelivered \<Rightarrow> (None, a))"

datatype control_error = NoSuchVm | ControlStatus int | ControlUnreachable | ControlGarbled

definition status_error :: "int \<Rightarrow> control_error option" where
  "status_error code = (if code = 404 then Some NoSuchVm else if code \<ge> 300 then Some (ControlStatus code) else None)"

definition decode_view :: "api_reply \<Rightarrow> control_error + vm_view" where
  "decode_view r =
     (case status_error (rp_status r) of
        Some e \<Rightarrow> Inl e
      | None \<Rightarrow> (case rp_body r of ViewBody v \<Rightarrow> Inr v | _ \<Rightarrow> Inl ControlGarbled))"

definition control_vm :: "wire \<Rightarrow> (vptr \<Rightarrow> string option) \<Rightarrow> string \<Rightarrow> 'n api \<Rightarrow> (control_error + vm_view) \<times> 'n api" where
  "control_vm w said i a =
     (case over w (handle_get said i) a of
        (None, b) \<Rightarrow> (Inl ControlUnreachable, b)
      | (Some r, b) \<Rightarrow> (decode_view r, b))"

definition control_resume :: "wire \<Rightarrow> bool \<Rightarrow> string \<Rightarrow> 'n api \<Rightarrow> control_error option \<times> 'n api" where
  "control_resume w patched i a =
     (case over w (handle_resume patched i) a of
        (None, b) \<Rightarrow> (Some ControlUnreachable, b)
      | (Some r, b) \<Rightarrow> (status_error (rp_status r), b))"

definition control_delete :: "wire \<Rightarrow> 'n ip_command \<Rightarrow> stop_env \<Rightarrow> string \<Rightarrow> 'n api \<Rightarrow> control_error option \<times> 'n api" where
  "control_delete w ip s i a =
     (case over w (handle_delete ip s i True) a of
        (None, b) \<Rightarrow> (Some ControlUnreachable, b)
      | (Some r, b) \<Rightarrow> (status_error (rp_status r), b))"

text \<open>A conflict is looked up: \<open>again\<close> and \<open>said\<close> are how that second call goes.\<close>

definition control_create ::
  "wire \<Rightarrow> wire \<Rightarrow> (vptr \<Rightarrow> string option) \<Rightarrow> 'n ip_command \<Rightarrow> boot_env \<Rightarrow> stop_env \<Rightarrow> int \<Rightarrow> string option \<Rightarrow> string \<Rightarrow>
   'n api \<Rightarrow> (control_error + vm_view) \<times> 'n api" where
  "control_create w again said ip e s now rnd i a =
     (case over w (handle_create ip e s now rnd (IdBody i)) a of
        (None, b) \<Rightarrow> (Inl ControlUnreachable, b)
      | (Some r, b) \<Rightarrow> if rp_status r = 409 then control_vm again said i b else (decode_view r, b))"

end
