(* ===== verification/EventLog.thy ===== *)
theory EventLog
  imports Meter
begin

text \<open>
  An agent's event log (\<^verbatim>\<open>events.go\<close> of \<^verbatim>\<open>internal/agentd\<close>) and the wire types it
  carries (\<^verbatim>\<open>agentapi.go\<close>). The file is its bytes, one JSON text per line; the JSON package is a pair of functions the
  operations take, since the log only relies on a text decoding to what was encoded. A write can
  fail before the file is opened or part way through the line.
\<close>

section \<open>Wire types\<close>

record ui =
  ui_kind :: string
  ui_options :: "string list"
  ui_url :: string

record decision =
  d_decision :: string
  d_reason :: string
  d_answer :: string
  d_scope :: string
  d_max_uses :: int
  d_ttl :: int

record sent_file =
  sf_name :: string
  sf_path :: string
  sf_size :: int

record attachment =
  at_seq :: int
  at_name :: string
  at_display :: string
  at_kind :: string
  at_size :: int
  at_thumb :: string

record event =
  ev_id :: int
  ev_agent :: string
  ev_type :: string
  ev_ts :: int
  ev_text :: string
  ev_from :: string
  ev_to :: string
  ev_tool :: string
  ev_input :: string
  ev_file :: "sent_file option"
  ev_attachment :: "attachment option"
  ev_model :: string
  ev_usage :: "usage option"
  ev_duration :: i64
  ev_session :: string
  ev_message :: string
  ev_error :: bool
  ev_approval :: string
  ev_preview :: string
  ev_question :: string
  ev_kind :: string
  ev_ui :: "ui option"
  ev_shot :: string
  ev_decision :: string
  ev_task_slug :: string
  ev_task_title :: string
  ev_task_dir :: string

text \<open>The event every other one is built from: each field at its zero value but the type.\<close>

definition blank_event :: "string \<Rightarrow> event" where
  "blank_event type =
     \<lparr>ev_id = 0, ev_agent = [], ev_type = type, ev_ts = 0, ev_text = [], ev_from = [], ev_to = [],
      ev_tool = [], ev_input = [], ev_file = None, ev_attachment = None, ev_model = [], ev_usage = None,
      ev_duration = 0, ev_session = [], ev_message = [], ev_error = False, ev_approval = [],
      ev_preview = [], ev_question = [], ev_kind = [], ev_ui = None, ev_shot = [], ev_decision = [],
      ev_task_slug = [], ev_task_title = [], ev_task_dir = []\<rparr>"

section \<open>Reading\<close>

text \<open>\<open>js_enc\<close> is \<^verbatim>\<open>json.Marshal\<close> of an event, \<open>js_dec\<close> \<^verbatim>\<open>json.Unmarshal\<close> of a line.\<close>

record event_json =
  js_enc :: "event \<Rightarrow> string option"
  js_dec :: "string \<Rightarrow> event option"

definition newline :: char where "newline = CHR 10"

definition max_line :: int where "max_line = 8 * 1024 * 1024"

text \<open>\<^verbatim>\<open>bufio.ScanLines\<close>: the last line may lack its newline, a trailing return is dropped.\<close>

definition scan_lines :: "string \<Rightarrow> string list" where
  "scan_lines s = (let ws = split_on newline s in if List.last ws = [] then butlast ws else ws)"

definition drop_cr :: "string \<Rightarrow> string" where
  "drop_cr w = (if w \<noteq> [] \<and> List.last w = CHR 13 then butlast w else w)"

text \<open>The scanner stops with an error at a line that does not fit its buffer.\<close>

fun scan_from :: "event_json \<Rightarrow> string list \<Rightarrow> event list \<times> bool" where
  "scan_from js [] = ([], True)"
| "scan_from js (w # ws) =
     (if int (length w) \<ge> max_line then ([], False)
      else (case scan_from js ws of (es, fine) \<Rightarrow>
        (case js_dec js (drop_cr w) of
           Some e \<Rightarrow> if ev_id e > 0 then (e # es, fine) else (es, fine)
         | None \<Rightarrow> (es, fine))))"

definition scan_events :: "event_json \<Rightarrow> string \<Rightarrow> event list option" where
  "scan_events js file = (case scan_from js (scan_lines file) of (es, fine) \<Rightarrow> if fine then Some es else None)"

text \<open>The file on disk: absent, there but not to be opened, or its bytes.\<close>

datatype log_disk = NoLog | LockedLog | LogBytes string

definition read_all :: "event_json \<Rightarrow> log_disk \<Rightarrow> event list option" where
  "read_all js d = (case d of NoLog \<Rightarrow> Some [] | LockedLog \<Rightarrow> None | LogBytes s \<Rightarrow> scan_events js s)"

fun after_id :: "event list \<Rightarrow> int \<Rightarrow> event list" where
  "after_id [] i = []"
| "after_id (e # es) i = (if ev_id e > i then e # es else after_id es i)"

definition last_event_id :: "event list \<Rightarrow> int" where
  "last_event_id es = (if es = [] then 0 else ev_id (List.last es))"

definition read_log_since :: "event_json \<Rightarrow> log_disk \<Rightarrow> int \<Rightarrow> (event list \<times> int) option" where
  "read_log_since js d i =
     (case d of
        NoLog \<Rightarrow> Some ([], 0)
      | _ \<Rightarrow> (case read_all js d of None \<Rightarrow> None | Some es \<Rightarrow> Some (after_id es i, last_event_id es)))"

section \<open>The log of a running agent\<close>

record event_log =
  lg_agent :: string
  lg_next :: int
  lg_disk :: log_disk
  lg_subs :: "(nat \<times> event list) list"

definition open_log :: "event_json \<Rightarrow> string \<Rightarrow> log_disk \<Rightarrow> event_log option" where
  "open_log js agent d =
     (case read_all js d of
        None \<Rightarrow> None
      | Some es \<Rightarrow> Some \<lparr>lg_agent = agent,
          lg_next = (if es = [] then 1 else ev_id (List.last es) + 1), lg_disk = d, lg_subs = []\<rparr>)"

datatype write_outcome = NotOpened | WrittenAll | WrittenOnly nat

definition log_bytes :: "log_disk \<Rightarrow> string" where
  "log_bytes d = (case d of LogBytes s \<Rightarrow> s | _ \<Rightarrow> [])"

definition write_event :: "event_json \<Rightarrow> write_outcome \<Rightarrow> event \<Rightarrow> log_disk \<Rightarrow> log_disk" where
  "write_event js w e d =
     (if w = NotOpened \<or> d = LockedLog then d
      else (case js_enc js e of
              None \<Rightarrow> LogBytes (log_bytes d)
            | Some t \<Rightarrow> (case w of
                WrittenOnly n \<Rightarrow> LogBytes (log_bytes d @ take n (t @ [newline]))
              | _ \<Rightarrow> LogBytes (log_bytes d @ t @ [newline]))))"

definition log_queue :: nat where "log_queue = 64"

text \<open>A subscriber's channel takes the frame unless it is full.\<close>

definition offer :: "nat \<Rightarrow> 'a \<Rightarrow> (nat \<times> 'a list) list \<Rightarrow> (nat \<times> 'a list) list" where
  "offer cap x subs = List.map (\<lambda>(c, q). (c, if length q < cap then q @ [x] else q)) subs"

definition append_event ::
  "event_json \<Rightarrow> write_outcome \<Rightarrow> int \<Rightarrow> event \<Rightarrow> event_log \<Rightarrow> event \<times> event_log" where
  "append_event js w now e l =
     (let e1 = e\<lparr>ev_id := lg_next l, ev_agent := lg_agent l, ev_ts := now\<rparr> in
      (e1, l\<lparr>lg_next := lg_next l + 1, lg_disk := write_event js w e1 (lg_disk l),
             lg_subs := offer log_queue e1 (lg_subs l)\<rparr>))"

definition log_last_id :: "event_log \<Rightarrow> int" where
  "log_last_id l = lg_next l - 1"

definition log_since :: "event_json \<Rightarrow> int \<Rightarrow> event_log \<Rightarrow> event list option" where
  "log_since js i l = map_option (\<lambda>es. after_id es i) (read_all js (lg_disk l))"

text \<open>A channel is named by a number no other subscriber holds.\<close>

definition subscribe :: "nat \<Rightarrow> (nat \<times> 'a list) list \<Rightarrow> (nat \<times> 'a list) list" where
  "subscribe c subs = AList.update c [] subs"

definition unsubscribe :: "nat \<Rightarrow> (nat \<times> 'a list) list \<Rightarrow> (nat \<times> 'a list) list" where
  "unsubscribe c subs = AList.delete c subs"

definition log_subscribe :: "nat \<Rightarrow> event_log \<Rightarrow> event_log" where
  "log_subscribe c l = l\<lparr>lg_subs := subscribe c (lg_subs l)\<rparr>"

definition log_unsubscribe :: "nat \<Rightarrow> event_log \<Rightarrow> event_log" where
  "log_unsubscribe c l = l\<lparr>lg_subs := unsubscribe c (lg_subs l)\<rparr>"

end
