(* ===== verification/Gate.thy ===== *)
theory Gate
  imports EventLog
begin

text \<open>
  Asking a person (\<^verbatim>\<open>gate.go\<close> and \<^verbatim>\<open>interactions.go\<close> of \<^verbatim>\<open>internal/agentd\<close>).
  A gate's operations are each one locked section followed by effects outside the lock. Tool
  handlers run at once, so a handler is modelled as a thread, a list of actions run one at a time, and the
  state of an agent's gate is what the sections share: the maps, the grants, the hub, the log, the
  channels of the blocked handlers. The two selects of a wait (an answer, the timer, the context)
  are the choice of a step.
\<close>

section \<open>The hub of raised hands\<close>

record raised =
  ra_id :: string
  ra_agent :: string
  ra_kind :: string
  ra_tool :: string
  ra_preview :: string
  ra_input :: string
  ra_question :: string
  ra_ui :: "ui option"
  ra_shot :: string
  ra_since :: int

datatype pending_change = HandUp raised | HandDown string

record hub =
  hb_raised :: "(string \<times> raised) list"
  hb_subs :: "(nat \<times> pending_change list) list"

definition new_hub :: hub where
  "new_hub = \<lparr>hb_raised = [], hb_subs = []\<rparr>"

definition hub_queue :: nat where "hub_queue = 32"

definition publish :: "pending_change \<Rightarrow> hub \<Rightarrow> hub" where
  "publish c h = h\<lparr>hb_subs := offer hub_queue c (hb_subs h)\<rparr>"

definition raise_hand :: "int \<Rightarrow> raised \<Rightarrow> hub \<Rightarrow> hub" where
  "raise_hand now r h =
     (let r1 = r\<lparr>ra_since := now\<rparr> in
      publish (HandUp r1) (h\<lparr>hb_raised := AList.update (ra_id r1) r1 (hb_raised h)\<rparr>))"

definition clear_hand :: "string \<Rightarrow> hub \<Rightarrow> hub" where
  "clear_hand i h =
     (let h1 = h\<lparr>hb_raised := AList.delete i (hb_raised h)\<rparr> in
      if map_of (hb_raised h) i = None then h1 else publish (HandDown i) h1)"

definition list_hands :: "hub \<Rightarrow> raised list" where
  "list_hands h = sort_key ra_since (List.map snd (hb_raised h))"

definition hub_subscribe :: "nat \<Rightarrow> hub \<Rightarrow> hub" where
  "hub_subscribe c h = h\<lparr>hb_subs := subscribe c (hb_subs h)\<rparr>"

definition hub_unsubscribe :: "nat \<Rightarrow> hub \<Rightarrow> hub" where
  "hub_unsubscribe c h = h\<lparr>hb_subs := unsubscribe c (hb_subs h)\<rparr>"

section \<open>Grants\<close>

record grant =
  gr_tool :: string
  gr_remaining :: int
  gr_expires :: int

definition approval_timeout :: int where "approval_timeout = 30 * 60 * ns_per_sec"
definition question_timeout :: int where "question_timeout = 10 * 60 * ns_per_sec"

definition or_zero :: "int \<Rightarrow> int \<Rightarrow> int" where
  "or_zero n fallback = (if n = 0 then fallback else n)"

definition or_default :: "string \<Rightarrow> string \<Rightarrow> string" where
  "or_default s fallback = (if s = [] then fallback else s)"

text \<open>The lifetime of a grant is a 64-bit duration, so the product wraps.\<close>

definition ttl_ns :: "int \<Rightarrow> int" where
  "ttl_ns secs = sint (of_int (secs * ns_per_sec) :: i64)"

definition apply_scope :: "int \<Rightarrow> string \<Rightarrow> decision \<Rightarrow> grant list \<Rightarrow> grant list" where
  "apply_scope now tool d grants =
     (if d_scope d \<noteq> ''batch'' \<or> d_decision d \<noteq> ''allow'' \<or> tool = [] then grants
      else grants @ [\<lparr>gr_tool = tool, gr_remaining = or_zero (d_max_uses d) 10,
                      gr_expires = now + ttl_ns (or_zero (d_ttl d) 3600)\<rparr>])"

fun consume :: "int \<Rightarrow> string \<Rightarrow> grant list \<Rightarrow> bool \<times> grant list" where
  "consume now tool [] = (False, [])"
| "consume now tool (g # gs) =
     (if gr_tool g = tool \<and> gr_remaining g > 0 \<and> gr_expires g > now
      then (True, g\<lparr>gr_remaining := gr_remaining g - 1\<rparr> # gs)
      else (case consume now tool gs of (spent, gs1) \<Rightarrow> (spent, g # gs1)))"

section \<open>The gate\<close>

record gate =
  gt_pending :: "(string \<times> string) list"
  gt_grants :: "grant list"
  gt_seq :: int

text \<open>\<^verbatim>\<open>fmt.Sprintf("%03d", n)\<close>.\<close>

definition pad3 :: "int \<Rightarrow> string" where
  "pad3 n = (if n < 0 then CHR ''-'' # pad_left 2 (dec (nat (- n))) else pad_left 3 (dec (nat n)))"

definition new_gate :: "event_log \<Rightarrow> gate" where
  "new_gate l = \<lparr>gt_pending = [], gt_grants = [], gt_seq = log_last_id l\<rparr>"

definition shot_name :: "gate \<Rightarrow> string" where
  "shot_name g = ''handoff-'' @ pad3 (gt_seq g + 1) @ ''.png''"

definition ask_id :: "string \<Rightarrow> string \<Rightarrow> int \<Rightarrow> string" where
  "ask_id agent kind n = agent @ ''.'' @ (if kind = ''question'' then ''q_'' else ''ap_'') @ pad3 n"

definition register :: "string \<Rightarrow> string \<Rightarrow> string \<Rightarrow> gate \<Rightarrow> string \<times> gate" where
  "register agent kind tool g =
     (let n = gt_seq g + 1; i = ask_id agent kind n in
      (i, g\<lparr>gt_seq := n, gt_pending := AList.update i tool (gt_pending g)\<rparr>))"

definition is_pending :: "string \<Rightarrow> gate \<Rightarrow> bool" where
  "is_pending i g \<longleftrightarrow> map_of (gt_pending g) i \<noteq> None"

definition forget_pending :: "string \<Rightarrow> gate \<Rightarrow> gate" where
  "forget_pending i g = g\<lparr>gt_pending := AList.delete i (gt_pending g)\<rparr>"

definition raised_from :: "string \<Rightarrow> string \<Rightarrow> event \<Rightarrow> raised" where
  "raised_from i agent e =
     \<lparr>ra_id = i, ra_agent = agent, ra_kind = ev_type e, ra_tool = ev_tool e, ra_preview = ev_preview e,
      ra_input = ev_input e, ra_question = ev_question e, ra_ui = ev_ui e, ra_shot = ev_shot e, ra_since = 0\<rparr>"

text \<open>The event of a gated call, and of a question with its patience.\<close>

definition check_event :: "string \<Rightarrow> string \<Rightarrow> string \<Rightarrow> event" where
  "check_event tool preview input =
     (blank_event ''approval_required'')\<lparr>ev_tool := tool, ev_preview := preview, ev_input := input\<rparr>"

definition ask_timeout :: "ui \<Rightarrow> int" where
  "ask_timeout u = (if ui_kind u = ''handoff'' \<or> ui_kind u = ''connect'' then approval_timeout else question_timeout)"

definition ask_event :: "string \<Rightarrow> string \<Rightarrow> ui \<Rightarrow> event" where
  "ask_event shot question u =
     (blank_event ''question'')\<lparr>ev_question := question, ev_kind := ui_kind u, ev_ui := Some u,
        ev_shot := (if ui_kind u = ''handoff'' then shot else [])\<rparr>"

datatype verdict = Answered decision | TimedOut | Cancelled

definition check_result :: "verdict \<Rightarrow> string + unit" where
  "check_result v =
     (case v of
        TimedOut \<Rightarrow> Inl ''timed out waiting for a human''
      | Cancelled \<Rightarrow> Inl ''context canceled''
      | Answered d \<Rightarrow> if d_decision d = ''allow'' then Inr ()
          else Inl (''the person declined this. Reason: '' @ or_default (d_reason d) ''none given'' @ ''. Do not retry it''))"

definition ask_result :: "verdict \<Rightarrow> string + string" where
  "ask_result v =
     (case v of
        TimedOut \<Rightarrow> Inl ''timed out waiting for a human''
      | Cancelled \<Rightarrow> Inl ''context canceled''
      | Answered d \<Rightarrow> Inr (d_answer d))"

section \<open>Threads\<close>

text \<open>
  The actions of a handler, each one locked section or one effect. \<open>AShot\<close> names and takes the picture
  of a handoff, grabbed or not; \<open>AStart\<close> registers; \<open>AReturn\<close> is the return of \<^verbatim>\<open>await\<close>
  to its caller.
\<close>

datatype action =
    AShot bool string ui
  | AStart string event
  | ALog event
  | ARaise raised
  | AClear string
  | AWait int
  | ASelect string
  | ASend string decision
  | AForget string
  | AReturn string verdict

datatype wake = TakeAnswer | TakeTimer | TakeCancel

record gate_state =
  gs_gate :: gate
  gs_hub :: hub
  gs_log :: event_log
  gs_waiting :: int
  gs_chan :: "(string \<times> decision) list"
  gs_threads :: "action list list"
  gs_returned :: "(string \<times> verdict) list"
  gs_said :: "(string \<times> decision) list"

definition new_gate_state :: "event_log \<Rightarrow> hub \<Rightarrow> gate_state" where
  "new_gate_state l h =
     \<lparr>gs_gate = new_gate l, gs_hub = h, gs_log = l, gs_waiting = 0, gs_chan = [], gs_threads = [],
      gs_returned = [], gs_said = []\<rparr>"

definition interrupted :: decision where
  "interrupted = \<lparr>d_decision = ''deny'', d_reason = ''the person interrupted'', d_answer = [], d_scope = [],
     d_max_uses = 0, d_ttl = 0\<rparr>"

definition decision_event :: "string \<Rightarrow> decision \<Rightarrow> event" where
  "decision_event i d = (blank_event ''decision'')\<lparr>ev_approval := i, ev_decision := d_decision d\<rparr>"

text \<open>What a wait does once it is registered, and how a select ends it.\<close>

definition await_actions :: "string \<Rightarrow> string \<Rightarrow> event \<Rightarrow> action list" where
  "await_actions agent i e =
     (let e1 = e\<lparr>ev_approval := i\<rparr> in
      [ALog e1, ARaise (raised_from i agent e1), AWait 1, ASelect i])"

definition wake_actions :: "string \<Rightarrow> verdict \<Rightarrow> action list" where
  "wake_actions i v =
     (case v of
        Answered d \<Rightarrow> [AWait (- 1), AReturn i v]
      | _ \<Rightarrow> [AForget i, AClear i, AWait (- 1), AReturn i v])"

definition resolve_actions :: "string \<Rightarrow> decision \<Rightarrow> action list" where
  "resolve_actions i d = [AClear i, ALog (decision_event i d), ASend i d]"

definition resolve :: "int \<Rightarrow> string \<Rightarrow> decision \<Rightarrow> gate_state \<Rightarrow> bool \<times> gate_state" where
  "resolve now i d s =
     (case map_of (gt_pending (gs_gate s)) i of
        None \<Rightarrow> (False, s)
      | Some tool \<Rightarrow>
          (True, s\<lparr>gs_gate := (gs_gate s)\<lparr>gt_pending := AList.delete i (gt_pending (gs_gate s)),
                     gt_grants := apply_scope now tool d (gt_grants (gs_gate s))\<rparr>,
                   gs_said := gs_said s @ [(i, d)],
                   gs_threads := gs_threads s @ [resolve_actions i d]\<rparr>))"

text \<open>Go walks the waiting map in no fixed order, so the order is an argument.\<close>

definition revoke_actions :: "string list \<Rightarrow> action list" where
  "revoke_actions ids = concat (List.map (\<lambda>i. [AClear i, ASend i interrupted]) ids)"

definition revoke_all :: "string list \<Rightarrow> gate_state \<Rightarrow> nat \<times> gate_state" where
  "revoke_all ids s =
     (length (gt_grants (gs_gate s)),
      s\<lparr>gs_gate := (gs_gate s)\<lparr>gt_pending := [], gt_grants := []\<rparr>,
        gs_threads := gs_threads s @ [revoke_actions ids]\<rparr>)"

text \<open>
  \<^verbatim>\<open>Check\<close>: a grant is spent or a wait starts; it answers whether the call goes on at once.
\<close>

definition check_call :: "int \<Rightarrow> string \<Rightarrow> string \<Rightarrow> string \<Rightarrow> gate_state \<Rightarrow> bool \<times> gate_state" where
  "check_call now tool preview input s =
     (case consume now tool (gt_grants (gs_gate s)) of
        (True, gs) \<Rightarrow> (True, s\<lparr>gs_gate := (gs_gate s)\<lparr>gt_grants := gs\<rparr>\<rparr>)
      | (False, _) \<Rightarrow>
          (False, s\<lparr>gs_threads := gs_threads s @ [[AStart tool (check_event tool preview input)]]\<rparr>))"

definition ask_call :: "bool \<Rightarrow> string \<Rightarrow> ui \<Rightarrow> gate_state \<Rightarrow> gate_state" where
  "ask_call grabbed question u s =
     s\<lparr>gs_threads := gs_threads s @
       [[if ui_kind u = ''handoff'' then AShot grabbed question u else AStart [] (ask_event [] question u)]]\<rparr>"

text \<open>One action; \<open>None\<close> is an action that cannot go on.\<close>

fun act :: "event_json \<Rightarrow> write_outcome \<Rightarrow> int \<Rightarrow> wake \<Rightarrow> action \<Rightarrow> gate_state \<Rightarrow> (action list \<times> gate_state) option" where
  "act js w now k (AShot grabbed question u) s =
     Some ([AStart [] (ask_event (if grabbed then shot_name (gs_gate s) else []) question u)], s)"
| "act js w now k (AStart tool e) s =
     (case register (lg_agent (gs_log s)) (ev_type e) tool (gs_gate s) of (i, g) \<Rightarrow>
        Some (await_actions (lg_agent (gs_log s)) i e, s\<lparr>gs_gate := g\<rparr>))"
| "act js w now k (ALog e) s = Some ([], s\<lparr>gs_log := snd (append_event js w now e (gs_log s))\<rparr>)"
| "act js w now k (ARaise r) s = Some ([], s\<lparr>gs_hub := raise_hand now r (gs_hub s)\<rparr>)"
| "act js w now k (AClear i) s = Some ([], s\<lparr>gs_hub := clear_hand i (gs_hub s)\<rparr>)"
| "act js w now k (AWait n) s = Some ([], s\<lparr>gs_waiting := gs_waiting s + n\<rparr>)"
| "act js w now k (AForget i) s = Some ([], s\<lparr>gs_gate := forget_pending i (gs_gate s)\<rparr>)"
| "act js w now k (AReturn i v) s = Some ([], s\<lparr>gs_returned := gs_returned s @ [(i, v)]\<rparr>)"
| "act js w now k (ASend i d) s =
     (if map_of (gs_chan s) i = None then Some ([], s\<lparr>gs_chan := AList.update i d (gs_chan s)\<rparr>) else None)"
| "act js w now k (ASelect i) s =
     (case k of
        TakeTimer \<Rightarrow> Some (wake_actions i TimedOut, s)
      | TakeCancel \<Rightarrow> Some (wake_actions i Cancelled, s)
      | TakeAnswer \<Rightarrow>
          (case map_of (gs_chan s) i of
             None \<Rightarrow> None
           | Some d \<Rightarrow> Some (wake_actions i (Answered d), s\<lparr>gs_chan := AList.delete i (gs_chan s)\<rparr>)))"

text \<open>The \<open>n\<close>th thread runs its next action.\<close>

definition run_thread ::
  "event_json \<Rightarrow> write_outcome \<Rightarrow> int \<Rightarrow> wake \<Rightarrow> nat \<Rightarrow> gate_state \<Rightarrow> gate_state option" where
  "run_thread js w now k n s =
     (if n < length (gs_threads s)
      then (case gs_threads s ! n of
              [] \<Rightarrow> None
            | a # rest \<Rightarrow>
                (case act js w now k a s of
                   None \<Rightarrow> None
                 | Some (new, s1) \<Rightarrow> Some (s1\<lparr>gs_threads := (gs_threads s1)[n := new @ rest]\<rparr>)))
      else None)"

end
