(* ===== verification/AppPolicy.thy ===== *)
theory AppPolicy
  imports Gate
begin

text \<open>
  What an agent may do in a connected app: on the host, what the provider says an action is, the person's settings and the
  answer pushed to the machine (\<^verbatim>\<open>apps_caps.go\<close>, \<^verbatim>\<open>capabilityOf\<close> of \<^verbatim>\<open>composio.go\<close>,
  the policy route of \<^verbatim>\<open>apps_routes.go\<close>); in the guest, the decision on every action of a batch
  (\<^verbatim>\<open>apps_policy.go\<close>, \<^verbatim>\<open>apps.go\<close>) and the connection it goes out on. The provider and the
  JSON encoder are parameters; the gate's verdict on an ask is the gate's.
\<close>

section \<open>What an action is\<close>

definition cap_delete :: string where "cap_delete = ''del''"
definition cap_write :: string where "cap_write = ''write''"
definition cap_read :: string where "cap_read = ''read''"
definition action_ask :: string where "action_ask = ''ask''"
definition action_auto :: string where "action_auto = ''auto''"
definition action_never :: string where "action_never = ''never''"

definition capability_of :: "string list \<Rightarrow> string" where
  "capability_of tags =
     (if ''destructiveHint'' \<in> set tags then cap_delete
      else if ''createHint'' \<in> set tags \<or> ''updateHint'' \<in> set tags then cap_write
      else if ''readOnlyHint'' \<in> set tags then cap_read
      else cap_write)"

type_synonym kinds = "(string \<times> string) list"
type_synonym app_policy = "(string \<times> (string \<times> string) list) list"

definition denied_reads :: "string list" where "denied_reads = [''GMAIL_CREATE_PROMPT_POST'']"

definition our_view :: "kinds \<Rightarrow> kinds" where
  "our_view got = fold (\<lambda>slug m. if map_of m slug = None then m else AList.update slug cap_write m) denied_reads got"

definition policy_at :: "app_policy \<Rightarrow> string \<Rightarrow> string \<Rightarrow> string" where
  "policy_at policy app capability =
     (case map_of policy app of None \<Rightarrow> [] | Some m \<Rightarrow> (case map_of m capability of None \<Rightarrow> [] | Some v \<Rightarrow> v))"

definition action_for :: "string \<Rightarrow> string \<Rightarrow> string" where
  "action_for capability chosen =
     (if capability = cap_read then action_auto
      else if (capability = cap_write \<or> capability = cap_delete) \<and> (chosen = action_auto \<or> chosen = action_never) then chosen
      else action_ask)"

definition flatten :: "(string \<times> kinds) list \<Rightarrow> app_policy \<Rightarrow> (string \<times> string) list" where
  "flatten held policy =
     fold (\<lambda>(app, ks) out. fold (\<lambda>(slug, capability). AList.update slug (action_for capability (policy_at policy app capability))) ks out)
       held []"

definition apps_action_bytes :: nat where "apps_action_bytes = 192 * 2 ^ 10"

definition push_bytes :: "(string \<times> kinds) list \<Rightarrow> nat" where
  "push_bytes held = sum_list (List.map (\<lambda>(app, ks). sum_list (List.map (\<lambda>(slug, capability). length slug + length capability + 6) ks)) held)"

definition kinds_of :: "(string \<times> kinds) list \<Rightarrow> string \<Rightarrow> kinds" where
  "kinds_of held app = (case map_of held app of None \<Rightarrow> [] | Some ks \<Rightarrow> ks)"

definition largest :: "(string \<times> kinds) list \<Rightarrow> string" where
  "largest held =
     fold (\<lambda>(app, ks) name.
       if name = [] \<or> length ks > length (kinds_of held name) \<or> (length ks = length (kinds_of held name) \<and> app < name)
       then app else name) held []"

lemma largest_held: "held \<noteq> [] \<Longrightarrow> largest held \<in> fst ` set held"
proof -
  let ?f = "\<lambda>(app, ks) name.
    if name = [] \<or> length ks > length (kinds_of held name) \<or> (length ks = length (kinds_of held name) \<and> app < name) then app else name"
  have stays: "name \<in> s \<Longrightarrow> fst ` set xs \<subseteq> s \<Longrightarrow> fold ?f xs name \<in> s" for xs :: "(string \<times> kinds) list" and name s
    by (induction xs arbitrary: name) auto
  assume "held \<noteq> []"
  then obtain app ks rest where h: "held = (app, ks) # rest" by (cases held) auto
  have "largest held = fold ?f rest app" unfolding largest_def by (subst h) simp
  also have "\<dots> \<in> fst ` set held" by (rule stays) (auto simp: h)
  finally show ?thesis .
qed

lemma delete_shorter: "k \<in> fst ` set xs \<Longrightarrow> length (AList.delete k xs) < length xs"
  by (auto simp: AList.delete_eq intro!: length_filter_less)

function budgeted :: "(string \<times> kinds) list \<Rightarrow> (string \<times> kinds) list" where
  "budgeted held = (if push_bytes held > apps_action_bytes then budgeted (AList.delete (largest held) held) else held)"
  by pat_completeness auto
termination
proof (relation "measure length")
  fix held assume "push_bytes held > apps_action_bytes"
  then have "held \<noteq> []" by (auto simp: push_bytes_def)
  then show "(AList.delete (largest held) held, held) \<in> measure length"
    using delete_shorter[OF largest_held] by simp
qed simp

declare budgeted.simps [simp del]

section \<open>The cache of kinds\<close>

record cap_entry =
  ce_kinds :: "kinds option"
  ce_expires :: int

type_synonym app_caps = "(string \<times> cap_entry) list"

definition app_caps_ttl :: int where "app_caps_ttl = 60 * 60 * ns_per_sec"
definition apps_retry :: int where "apps_retry = 5 * 60 * ns_per_sec"

definition fresh_entry :: "int \<Rightarrow> string \<Rightarrow> app_caps \<Rightarrow> cap_entry option" where
  "fresh_entry now slug cache =
     (case map_of cache slug of None \<Rightarrow> None | Some e \<Rightarrow> if now < ce_expires e then Some e else None)"

definition keep_entry :: "int \<Rightarrow> string \<Rightarrow> kinds \<Rightarrow> app_caps \<Rightarrow> cap_entry \<times> app_caps" where
  "keep_entry now slug ks cache =
     (let e = \<lparr>ce_kinds = Some ks, ce_expires = now + app_caps_ttl\<rparr> in (e, AList.update slug e cache))"

text \<open>\<open>fetched\<close> is the provider's answer for the app, should it be asked.\<close>

definition one_app :: "int \<Rightarrow> (string \<Rightarrow> kinds option) \<Rightarrow> string \<Rightarrow> app_caps \<Rightarrow> cap_entry \<times> app_caps" where
  "one_app now fetched slug cache =
     (case fresh_entry now slug cache of
        Some e \<Rightarrow> (e, cache)
      | None \<Rightarrow>
          (case fetched slug of
             None \<Rightarrow> (\<lparr>ce_kinds = None, ce_expires = now + apps_retry\<rparr>, cache)
           | Some ks \<Rightarrow> keep_entry now slug (our_view ks) cache))"

fun all_apps :: "int \<Rightarrow> (string \<Rightarrow> kinds option) \<Rightarrow> string list \<Rightarrow> app_caps \<Rightarrow> cap_entry list \<times> app_caps" where
  "all_apps now fetched [] cache = ([], cache)"
| "all_apps now fetched (slug # slugs) cache =
     (case one_app now fetched slug cache of
        (e, cache1) \<Rightarrow> (case all_apps now fetched slugs cache1 of (es, cache2) \<Rightarrow> (e # es, cache2)))"

definition fold_caps :: "int \<Rightarrow> string list \<Rightarrow> cap_entry list \<Rightarrow> (string \<times> kinds) list \<times> int" where
  "fold_caps now slugs got =
     fold (\<lambda>(slug, e) (held, til).
       ((case ce_kinds e of None \<Rightarrow> held | Some ks \<Rightarrow> AList.update slug ks held), min (ce_expires e) til))
       (zip slugs got) ([], now + app_caps_ttl)"

definition resolved_actions ::
  "int \<Rightarrow> (string \<Rightarrow> kinds option) \<Rightarrow> string list \<Rightarrow> app_policy \<Rightarrow> app_caps \<Rightarrow> ((string \<times> string) list \<times> int) \<times> app_caps" where
  "resolved_actions now fetched slugs policy cache =
     (case all_apps now fetched slugs cache of
        (got, cache1) \<Rightarrow>
          (case fold_caps now slugs got of (held, til) \<Rightarrow> ((flatten (budgeted held) policy, til), cache1)))"

section \<open>The person's settings\<close>

definition governable :: "string list" where "governable = [cap_write, cap_delete]"
definition settable :: "string list" where "settable = [action_auto, action_ask, action_never]"

definition save_policy :: "string \<Rightarrow> string \<Rightarrow> string \<Rightarrow> app_policy \<Rightarrow> app_policy" where
  "save_policy app capability value policy =
     AList.update app (AList.update capability value (case map_of policy app of None \<Rightarrow> [] | Some m \<Rightarrow> m)) policy"

definition set_policy :: "bool \<Rightarrow> string \<Rightarrow> string \<Rightarrow> string \<Rightarrow> app_policy \<Rightarrow> app_policy option" where
  "set_policy offered app capability value policy =
     (if \<not> offered \<or> capability \<notin> set governable \<or> value \<notin> set settable then None
      else Some (save_policy app capability value policy))"

section \<open>A batch in the guest\<close>

datatype json = JNull | JBool bool | JNum string | JText string | JList "json list" | JObj "(string \<times> json) list"

record app_call =
  ac_slug :: string
  ac_args :: "(string \<times> json) list"

definition apps_exec_tool :: string where "apps_exec_tool = ''COMPOSIO_MULTI_EXECUTE_TOOL''"

definition call_of :: "json \<Rightarrow> app_call option" where
  "call_of entry =
     (case entry of
        JObj held \<Rightarrow>
          (case map_of held ''tool_slug'' of
             Some (JText slug) \<Rightarrow>
               if slug = [] then None
               else Some \<lparr>ac_slug = slug, ac_args = (case map_of held ''arguments'' of Some (JObj args) \<Rightarrow> args | _ \<Rightarrow> [])\<rparr>
           | _ \<Rightarrow> None)
      | _ \<Rightarrow> None)"

fun calls_of :: "json list \<Rightarrow> app_call list option" where
  "calls_of [] = Some []"
| "calls_of (x # xs) =
     (case call_of x of None \<Rightarrow> None | Some c \<Rightarrow> (case calls_of xs of None \<Rightarrow> None | Some cs \<Rightarrow> Some (c # cs)))"

definition calls_in :: "string \<Rightarrow> (string \<times> json) list \<Rightarrow> app_call list option" where
  "calls_in name args =
     (if name \<noteq> apps_exec_tool then Some []
      else (case map_of args ''tools'' of Some (JList raw) \<Rightarrow> calls_of raw | _ \<Rightarrow> None))"

definition preview_priority :: "string \<Rightarrow> nat" where
  "preview_priority key =
     (let k = List.map to_lower key in
      if list_ex (contains_str k) [''recipient'', ''channel'', ''destination'', ''address''] then 0
      else if k = ''to'' \<or> suffix ''_to'' k then 0
      else 1)"

definition marshal_preview :: "(json \<Rightarrow> string) \<Rightarrow> (string \<times> json) list \<Rightarrow> string" where
  "marshal_preview enc args =
     ''{'' @ join_with '','' (List.map (\<lambda>(k, v). enc (JText k) @ '':'' @ enc v)
       (sort_key (\<lambda>(k, v). (preview_priority k, k)) args)) @ ''}''"

text \<open>The first \<open>n\<close> characters of UTF-8: a continuation byte starts none.\<close>

definition starts_char :: "char \<Rightarrow> bool" where
  "starts_char c \<longleftrightarrow> \<not> (128 \<le> (of_char c :: nat) \<and> (of_char c :: nat) < 192)"

fun char_prefix :: "nat \<Rightarrow> string \<Rightarrow> string" where
  "char_prefix n [] = []"
| "char_prefix n (c # cs) =
     (if starts_char c then (if n = 0 then [] else c # char_prefix (n - 1) cs) else c # char_prefix n cs)"

definition clip :: "string \<Rightarrow> nat \<Rightarrow> string" where
  "clip s n = (if length s \<le> n \<or> char_prefix n s = s then s else char_prefix n s @ ''... (truncated)'')"

definition preview_cap :: nat where "preview_cap = 240"

definition call_preview :: "(json \<Rightarrow> string) \<Rightarrow> app_call \<Rightarrow> string" where
  "call_preview enc c = (if ac_args c = [] then [] else clip (marshal_preview enc (ac_args c)) preview_cap)"

definition needs :: "(string \<times> string) list \<Rightarrow> string \<Rightarrow> string" where
  "needs actions slug =
     (case map_of actions slug of
        Some a \<Rightarrow> if a = action_auto \<or> a = action_never then a else action_ask
      | None \<Rightarrow> action_ask)"

datatype app_refusal = Unreadable | SwitchedOff string | Declined string

text \<open>
  \<open>gate n slug\<close> is the gate's verdict on the \<open>n\<close>-th question of the batch; the slugs it said yes to are collected.
\<close>

fun permit_all ::
  "(string \<times> string) list \<Rightarrow> (nat \<Rightarrow> string \<Rightarrow> string + unit) \<Rightarrow> app_call list \<Rightarrow> string list \<Rightarrow> (app_refusal + unit) \<times> string list" where
  "permit_all actions gate [] yes = (Inr (), yes)"
| "permit_all actions gate (c # cs) yes =
     (let need = needs actions (ac_slug c) in
      if need = action_auto then permit_all actions gate cs yes
      else if need = action_never then (Inl (SwitchedOff (ac_slug c)), yes)
      else (case gate (length yes) (ac_slug c) of
              Inl e \<Rightarrow> (Inl (Declined e), yes)
            | Inr _ \<Rightarrow> permit_all actions gate cs (yes @ [ac_slug c])))"

text \<open>A call goes out whole, or not at all.\<close>

definition run_call ::
  "(string \<times> string) list \<Rightarrow> (nat \<Rightarrow> string \<Rightarrow> string + unit) \<Rightarrow> string \<Rightarrow> (string \<times> json) list \<Rightarrow>
   (app_refusal + app_call list) \<times> string list" where
  "run_call actions gate name args =
     (case calls_in name args of
        None \<Rightarrow> (Inl Unreadable, [])
      | Some cs \<Rightarrow> (case permit_all actions gate cs [] of (Inl e, yes) \<Rightarrow> (Inl e, yes) | (Inr _, yes) \<Rightarrow> (Inr cs, yes)))"

section \<open>The machine's connection\<close>

text \<open>
  A session is known by the address it was dialled at, and so is the list of tools read on it. A dial happens with the state unlocked:
  \<open>AppDialled url\<close> is the moment its outcome is recorded.
\<close>

record apps_server =
  as_url :: string
  as_sess :: "string option"
  as_listed :: "(string \<times> string list) option"
  as_failed :: "int option"
  as_actions :: "(string \<times> string) list"

definition apps_cooldown :: int where "apps_cooldown = 30 * ns_per_sec"

definition set_config :: "string \<Rightarrow> (string \<times> string) list \<Rightarrow> apps_server \<Rightarrow> apps_server" where
  "set_config url actions s =
     (let s1 = s\<lparr>as_actions := actions\<rparr> in
      if url \<noteq> as_url s1 then s1\<lparr>as_url := url, as_listed := None, as_failed := None, as_sess := None\<rparr> else s1)"

definition new_apps_server :: "string \<Rightarrow> (string \<times> string) list \<Rightarrow> apps_server" where
  "new_apps_server url actions =
     set_config url actions \<lparr>as_url = [], as_sess = None, as_listed = None, as_failed = None, as_actions = []\<rparr>"

datatype cached_list = Cooling | Cached "(string list) option"

definition cached_tools :: "int \<Rightarrow> apps_server \<Rightarrow> cached_list \<times> string" where
  "cached_tools now s =
     (if as_listed s = None \<and> (case as_failed s of Some t \<Rightarrow> now - t < apps_cooldown | None \<Rightarrow> False) then (Cooling, as_url s)
      else (Cached (map_option snd (as_listed s)), as_url s))"

definition dialled :: "string \<Rightarrow> bool \<Rightarrow> apps_server \<Rightarrow> bool \<times> apps_server" where
  "dialled url worked s =
     (if \<not> worked \<or> as_url s \<noteq> url then (False, s) else (True, s\<lparr>as_sess := Some url\<rparr>))"

definition store_tools :: "string \<Rightarrow> string list \<Rightarrow> apps_server \<Rightarrow> bool \<times> apps_server" where
  "store_tools url tools s =
     (if as_url s \<noteq> url then (False, s) else (True, s\<lparr>as_listed := Some (url, tools), as_failed := None\<rparr>))"

definition note_failure :: "int \<Rightarrow> string \<Rightarrow> apps_server \<Rightarrow> bool \<times> apps_server" where
  "note_failure now url s = (if as_url s \<noteq> url then (False, s) else (True, s\<lparr>as_failed := Some now\<rparr>))"

definition drop_session :: "string \<Rightarrow> apps_server \<Rightarrow> apps_server" where
  "drop_session dead s = (if as_sess s = Some dead then s\<lparr>as_sess := None\<rparr> else s)"

definition hang_up :: "apps_server \<Rightarrow> apps_server" where
  "hang_up s = s\<lparr>as_sess := None\<rparr>"

end
