(* ===== verification/AppsGate.thy ===== *)
theory AppsGate
  imports AppPolicy VmLifecycle
begin

text \<open>
  Who a request is from, and how a guest reaches what it holds no key for: the account and its machine (\<^verbatim>\<open>auth.go\<close>),
  the broker of connected apps and its tickets (\<^verbatim>\<open>appsgw.go\<close>), the model broker (\<^verbatim>\<open>llmgw.go\<close>,
  \<^verbatim>\<open>guestgw.go\<close>), the claims on pushing a machine its session (\<^verbatim>\<open>apps.go\<close>) and the store of
  sessions (\<^verbatim>\<open>apps_store.go\<close>). The token verifier, the URL parser and randomness are parameters, the
  provider's answers choices. The order of an association list stands for the order Go walks the map.
\<close>

section \<open>Accounts and machines\<close>

definition hex_lower_char :: "char \<Rightarrow> bool" where
  "hex_lower_char c \<longleftrightarrow> is_digit c \<or> c \<in> set ''abcdef''"

definition uuid_shape :: "string \<Rightarrow> bool" where
  "uuid_shape s \<longleftrightarrow>
     length s = 36 \<and>
     list_all (\<lambda>n. if n \<in> {8, 13, 18, 23} then s ! n = CHR ''-'' else hex_lower_char (s ! n)) [0..<36]"

definition machine_for :: "string \<Rightarrow> string" where
  "machine_for user =
     (let l = List.map to_lower user; i = filter (\<lambda>c. c \<noteq> CHR ''-'') l in
      if \<not> uuid_shape l then [] else if \<not> valid_id i then [] else i)"

definition request_token :: "string \<Rightarrow> string \<Rightarrow> string" where
  "request_token header query =
     (if length header > 7 \<and> List.map to_lower (take 7 header) = ''bearer '' then drop 7 header else query)"

record identity =
  id_user :: string
  id_email :: string

text \<open>\<open>verify\<close> checks signature, issuer, audience and expiry, and yields the subject and the email.\<close>

definition identify :: "(string \<Rightarrow> (string \<times> string) option) \<Rightarrow> string \<Rightarrow> string \<Rightarrow> identity option" where
  "identify verify header query =
     (let raw = request_token header query in
      if raw = [] then None
      else (case verify raw of
              None \<Rightarrow> None
            | Some (sub, email) \<Rightarrow> if sub = [] then None else Some \<lparr>id_user = sub, id_email = email\<rparr>))"

section \<open>Bounded tables\<close>

definition evict_to :: "nat \<Rightarrow> ('k \<times> 'v) list \<Rightarrow> ('k \<times> 'v) list" where
  "evict_to limit m = drop (Suc (length m) - limit) m"

section \<open>The broker of connected apps\<close>

text \<open>Scheme, host and whether there is user information, of what parses.\<close>

type_synonym url_reader = "string \<Rightarrow> (string \<times> string \<times> bool) option"

record apps_route =
  ar_machine :: string
  ar_guest :: string
  ar_upstream :: string

record apps_gw =
  gw_port :: string
  gw_key :: string
  gw_routes :: "(string \<times> apps_route) list"

definition apps_prefix :: string where "apps_prefix = ''/apps/''"
definition apps_route_cap :: nat where "apps_route_cap = 256"

definition drop_routes :: "string \<Rightarrow> string \<Rightarrow> (string \<times> apps_route) list \<Rightarrow> (string \<times> apps_route) list" where
  "drop_routes machine guest routes =
     filter (\<lambda>(t, r). \<not> (ar_machine r = machine \<or> (guest \<noteq> [] \<and> ar_guest r = guest))) routes"

text \<open>\<open>ticket\<close> is what randomness yielded, if it did.\<close>

definition register_route ::
  "url_reader \<Rightarrow> string option \<Rightarrow> string \<Rightarrow> string \<Rightarrow> string \<Rightarrow> string \<Rightarrow> apps_gw \<Rightarrow> (string + string) \<times> apps_gw" where
  "register_route read ticket machine guest host upstream g =
     (if guest = [] then (Inl ''cannot route to a machine with no address'', g)
      else if read upstream = None then (Inl ''bad url'', g)
      else (case ticket of
              None \<Rightarrow> (Inl ''no randomness'', g)
            | Some t \<Rightarrow>
                (Inr (''http://'' @ host @ '':'' @ gw_port g @ apps_prefix @ t),
                 g\<lparr>gw_routes := AList.update t \<lparr>ar_machine = machine, ar_guest = guest, ar_upstream = upstream\<rparr>
                   (evict_to apps_route_cap (drop_routes machine guest (gw_routes g)))\<rparr>)))"

definition forget_route :: "string \<Rightarrow> apps_gw \<Rightarrow> apps_gw" where
  "forget_route machine g = g\<lparr>gw_routes := drop_routes machine [] (gw_routes g)\<rparr>"

definition route_for :: "string \<Rightarrow> string \<Rightarrow> apps_gw \<Rightarrow> apps_route option" where
  "route_for ticket remote g =
     (case map_of (gw_routes g) ticket of
        None \<Rightarrow> None
      | Some r \<Rightarrow> if ar_guest r = [] \<or> ar_guest r \<noteq> remote then None else Some r)"

definition ticket_in :: "string \<Rightarrow> string" where
  "ticket_in path =
     (let t = (if prefix apps_prefix path then drop (length apps_prefix) path else path) in takeWhile (\<lambda>c. c \<noteq> CHR ''/'') t)"

type_synonym headers = "(string \<times> string) list"

definition keep_headers :: "headers \<Rightarrow> string list \<Rightarrow> headers" where
  "keep_headers inn allow = List.concat (List.map (\<lambda>h. filter (\<lambda>(k, v). k = h) inn) allow)"

definition forwarded_headers :: "string list" where
  "forwarded_headers = [''Content-Type'', ''Accept'', ''Mcp-Protocol-Version'', ''Mcp-Session-Id'', ''Last-Event-Id'']"

text \<open>What goes upstream for a request, if it goes: where, and with which headers. \<open>remote\<close> is the sender's address, if it has one.\<close>

definition serve_apps :: "string option \<Rightarrow> string \<Rightarrow> headers \<Rightarrow> apps_gw \<Rightarrow> (string \<times> headers) option" where
  "serve_apps remote path inn g =
     (case remote of
        None \<Rightarrow> None
      | Some ip \<Rightarrow>
          (case route_for (ticket_in path) ip g of
             None \<Rightarrow> None
           | Some r \<Rightarrow> Some (ar_upstream r, keep_headers inn forwarded_headers @ [(''X-Api-Key'', gw_key g)])))"

definition guest_path :: "string \<Rightarrow> string" where
  "guest_path path = (if prefix apps_prefix path then apps_prefix @ ''<ticket>'' else path)"

section \<open>The model broker\<close>

definition llm_headers :: "string list" where
  "llm_headers = [''Content-Type'', ''Accept'', ''Anthropic-Version'', ''Anthropic-Beta'']"

definition llm_path :: string where "llm_path = ''/v1/messages''"

definition from_guest :: "netip_addr option \<Rightarrow> bool" where
  "from_guest remote = (case remote of None \<Rightarrow> False | Some a \<Rightarrow> slot_of a \<noteq> None)"

definition serve_llm :: "string \<Rightarrow> string \<Rightarrow> netip_addr option \<Rightarrow> string \<Rightarrow> string \<Rightarrow> headers \<Rightarrow> headers option" where
  "serve_llm key origin remote method path inn =
     (if \<not> from_guest remote \<or> method \<noteq> ''POST'' \<or> path \<noteq> llm_path then None
      else Some (keep_headers inn llm_headers @
        [(''Authorization'', ''Bearer '' @ key), (''HTTP-Referer'', origin), (''X-Title'', ''AutoBots'')]))"

section \<open>Claims\<close>

text \<open>A missing time is Go's zero time, long past.\<close>

record apps_claim =
  am_pushed :: bool
  am_slugs :: "string list option"
  am_expires :: "int option"
  am_failed :: "int option"

type_synonym claims = "(string \<times> apps_claim) list"

definition no_claim :: apps_claim where
  "no_claim = \<lparr>am_pushed = False, am_slugs = None, am_expires = None, am_failed = None\<rparr>"

definition held_claim :: "string \<Rightarrow> claims \<Rightarrow> apps_claim" where
  "held_claim machine cs = (case map_of cs machine of None \<Rightarrow> no_claim | Some c \<Rightarrow> c)"

definition settled :: "apps_claim \<Rightarrow> bool" where
  "settled c \<longleftrightarrow> am_pushed c \<and> am_slugs c \<noteq> None"

definition apps_claim_cap :: nat where "apps_claim_cap = 256"
definition apps_mint_timeout :: int where "apps_mint_timeout = 20 * ns_per_sec"
definition apps_retry_after :: int where "apps_retry_after = 30 * ns_per_sec"

definition claim_apps :: "int \<Rightarrow> string \<Rightarrow> claims \<Rightarrow> bool \<times> claims" where
  "claim_apps now machine cs =
     (let held = held_claim machine cs in
      if am_pushed held \<and> (case am_expires held of None \<Rightarrow> False | Some t \<Rightarrow> now < t) then (False, cs)
      else if \<not> am_pushed held \<and> (case am_failed held of None \<Rightarrow> False | Some t \<Rightarrow> now - t < apps_retry_after) then (False, cs)
      else (True, AList.update machine
        \<lparr>am_pushed = True, am_slugs = None, am_expires = Some (now + apps_mint_timeout), am_failed = None\<rparr>
        (evict_to apps_claim_cap cs)))"

definition done_apps :: "string \<Rightarrow> int \<Rightarrow> string list \<Rightarrow> claims \<Rightarrow> claims" where
  "done_apps machine til slugs cs =
     AList.update machine \<lparr>am_pushed = True, am_slugs = Some slugs, am_expires = Some til, am_failed = None\<rparr>
       (evict_to apps_claim_cap cs)"

definition stale_locked :: "string \<Rightarrow> apps_claim \<Rightarrow> claims \<Rightarrow> claims" where
  "stale_locked machine c cs = AList.update machine (c\<lparr>am_expires := None\<rparr>) cs"

definition stale_apps :: "string \<Rightarrow> claims \<Rightarrow> claims" where
  "stale_apps machine cs = (let c = held_claim machine cs in if settled c then stale_locked machine c cs else cs)"

definition fail_apps :: "int \<Rightarrow> string \<Rightarrow> claims \<times> apps_gw \<Rightarrow> claims \<times> apps_gw" where
  "fail_apps now machine sg =
     (AList.update machine (no_claim\<lparr>am_failed := Some now\<rparr>) (fst sg), forget_route machine (snd sg))"

definition forget_apps :: "string \<Rightarrow> claims \<times> apps_gw \<Rightarrow> claims \<times> apps_gw" where
  "forget_apps machine sg = (AList.delete machine (fst sg), forget_route machine (snd sg))"

section \<open>Sessions\<close>

record app_session =
  se_url :: string
  se_id :: string
  se_policy :: app_policy

record connection =
  cx_id :: string
  cx_toolkit :: string
  cx_status :: string

definition status_active :: string where "status_active = ''ACTIVE''"

definition active_slugs :: "connection list \<Rightarrow> string list" where
  "active_slugs held =
     remdups_adj (sort (List.map (\<lambda>c. List.map to_lower (cx_toolkit c)) (filter (\<lambda>c. cx_status c = status_active) held)))"

definition notice_apps :: "string \<Rightarrow> connection list \<Rightarrow> claims \<Rightarrow> claims" where
  "notice_apps user held cs =
     (let machine = machine_for user; c = held_claim machine cs in
      if settled c \<and> am_slugs c \<noteq> Some (active_slugs held) then stale_locked machine c cs else cs)"

definition valid_upstream :: "url_reader \<Rightarrow> string \<Rightarrow> bool" where
  "valid_upstream read raw = (read raw = Some (''https'', ''backend.composio.dev'', False))"

text \<open>
  The store, asked with the caller's own token: \<open>None\<close> is a call that failed, a missing row an empty session. \<open>minted\<close> is what
  the provider answered a request for a session, \<open>put\<close> whether it could be recorded.
\<close>

definition session_for :: "app_session option \<Rightarrow> (string \<times> string) option \<Rightarrow> bool \<Rightarrow> app_session option \<times> app_session option" where
  "session_for got minted put =
     (case got of
        None \<Rightarrow> (None, None)
      | Some held \<Rightarrow>
          if se_url held \<noteq> [] then (Some held, None)
          else (case minted of
                  None \<Rightarrow> (None, None)
                | Some (url, i) \<Rightarrow>
                    (let now_held = \<lparr>se_url = url, se_id = i, se_policy = se_policy held\<rparr> in
                     if put then (Some now_held, Some now_held) else (None, None))))"

text \<open>What a machine is told: its ticket, the session's id, the resolved actions.\<close>

record guest_apps =
  ga_url :: string
  ga_id :: string
  ga_actions :: "(string \<times> string) list"

text \<open>\<^verbatim>\<open>pushApps\<close> to the point where the guest is called.\<close>

definition push_apps ::
  "url_reader \<Rightarrow> string option \<Rightarrow> string \<Rightarrow> string \<Rightarrow> nat \<Rightarrow> app_session option \<Rightarrow> connection list option \<Rightarrow>
   (string list \<Rightarrow> app_policy \<Rightarrow> (string \<times> string) list) \<Rightarrow> apps_gw \<Rightarrow> (string + guest_apps) \<times> apps_gw" where
  "push_apps read ticket machine guest slot row conns decide g =
     (case row of
        None \<Rightarrow> (Inl ''no session'', g)
      | Some held \<Rightarrow>
          if \<not> valid_upstream read (se_url held) then (Inl ''connected apps: refusing non-Composio session URL'', g)
          else (case conns of
                  None \<Rightarrow> (Inl ''no connections'', g)
                | Some cs \<Rightarrow>
                    (let actions = decide (active_slugs cs) (se_policy held) in
                     case register_route read ticket machine guest (fst (slot_addrs slot)) (se_url held) g of
                       (Inl e, g1) \<Rightarrow> (Inl e, g1)
                     | (Inr url, g1) \<Rightarrow> (Inr \<lparr>ga_url = url, ga_id = se_id held, ga_actions = actions\<rparr>, g1))))"

section \<open>Disconnecting\<close>

definition owns :: "connection list \<Rightarrow> string \<Rightarrow> bool" where
  "owns held i \<longleftrightarrow> i \<noteq> [] \<and> i \<in> cx_id ` set held"

text \<open>The status of a request to disconnect, and what is asked of the provider; \<open>refused\<close> is its answer.\<close>

definition disconnect_app :: "bool \<Rightarrow> string \<Rightarrow> connection list option \<Rightarrow> string \<Rightarrow> claims \<Rightarrow> int \<times> string list \<times> claims" where
  "disconnect_app refused user conns i cs =
     (case conns of
        None \<Rightarrow> (502, [], cs)
      | Some held \<Rightarrow>
          (let cs1 = notice_apps user held cs in
           if \<not> owns held i then (404, [], cs1)
           else if refused then (502, [i], cs1)
           else (204, [i], stale_apps (machine_for user) cs1)))"

end
