(* ===== verification/Roster.thy ===== *)
theory Roster
  imports Gate VmLifecycle
begin

text \<open>
  Who works on a machine (\<^verbatim>\<open>registry.go\<close> of \<^verbatim>\<open>internal/agentd\<close>, with the checks and the
  naming of \<^verbatim>\<open>supervisor.go\<close>): the roster with its file, how a new agent gets its id,
  what a person may change of an agent, how spend is named after the roster. Case folding and the spaces
  trimmed are the ASCII ones; text is valid UTF-8, whose characters are counted as the bytes that
  are not continuations. The shipped profiles are a predicate on type keys.
\<close>

section \<open>Records\<close>

record task =
  tk_slug :: string
  tk_title :: string
  tk_dir :: string
  tk_started :: int

record model_config =
  mc_model :: string
  mc_thinking :: string

record agent_record =
  rc_id :: string
  rc_name :: string
  rc_type :: string
  rc_created :: int
  rc_task :: "task option"
  rc_instructions :: string
  rc_model :: "model_config option"

record model_patch =
  mp_clear :: bool
  mp_config :: model_config

record agent_patch =
  pa_name :: "string option"
  pa_instructions :: "string option"
  pa_model :: "model_patch option"

record create_req =
  cr_type :: string
  cr_name :: string
  cr_instructions :: string
  cr_model :: "model_config option"

datatype roster_error =
    NoSuchAgent string
  | BossKept
  | NoIdFrom string
  | TooManyNamed string
  | RosterUnwritten
  | RosterUnread
  | RosterGarbled
  | NoProfile string
  | NotCustom
  | BadInstructions
  | BadName
  | NoModelId
  | BadThinking string

definition boss_id :: string where "boss_id = ''boss''"
definition custom_type :: string where "custom_type = ''custom''"

section \<open>Ids\<close>

text \<open>\<open>^[a-z0-9][a-z0-9-]{0,31}$\<close>.\<close>

definition agent_id_ok :: "string \<Rightarrow> bool" where
  "agent_id_ok s \<longleftrightarrow> s \<noteq> [] \<and> length s \<le> 32 \<and> id_start (hd s) \<and> list_all (\<lambda>c. id_start c \<or> c = CHR ''-'') (tl s)"

fun slug_scan :: "string \<Rightarrow> string \<Rightarrow> string" where
  "slug_scan [] b = b"
| "slug_scan (c # cs) b =
     (if id_start c then slug_scan cs (b @ [c])
      else if (c = CHR '' '' \<or> c = CHR ''-'' \<or> c = CHR ''_'') \<and> b \<noteq> [] then slug_scan cs (b @ ''-'')
      else slug_scan cs b)"

definition trim_dash :: "string \<Rightarrow> string" where
  "trim_dash = trim_with (\<lambda>c. c = CHR ''-'')"

definition slug :: "string \<Rightarrow> string" where
  "slug name =
     (let b = trim_dash (slug_scan (List.map to_lower (trim_with is_space name)) []);
          out = (if length b > 32 then trim_dash (take 32 b) else b) in
      if agent_id_ok out then out else [])"

section \<open>The table\<close>

record roster =
  ro_by :: "(string \<times> agent_record) list"
  ro_file :: "agent_record list"

definition look_agent :: "roster \<Rightarrow> string \<Rightarrow> agent_record option" where
  "look_agent r i = map_of (ro_by r) i"

text \<open>The boss leads, the others follow by id.\<close>

definition roster_order :: "agent_record \<Rightarrow> bool \<times> string" where
  "roster_order rec = (rc_id rec \<noteq> boss_id, rc_id rec)"

definition list_agents :: "roster \<Rightarrow> agent_record list" where
  "list_agents r = sort_key roster_order (List.map snd (ro_by r))"

definition save_roster :: "bool \<Rightarrow> roster \<Rightarrow> roster_error option \<times> roster" where
  "save_roster wrote r = (if wrote then (None, r\<lparr>ro_file := list_agents r\<rparr>) else (Some RosterUnwritten, r))"

text \<open>The answer of an operation whose last step is the write.\<close>

definition saved :: "bool \<Rightarrow> 'a \<Rightarrow> roster \<Rightarrow> (roster_error + 'a) \<times> roster" where
  "saved wrote x r = (case save_roster wrote r of (None, r1) \<Rightarrow> (Inr x, r1) | (Some e, r1) \<Rightarrow> (Inl e, r1))"

datatype roster_read = RosterMissing | RosterUnreadable | RosterBytes "agent_record list option"

definition load_roster :: "roster_read \<Rightarrow> roster_error + roster" where
  "load_roster d =
     (case d of
        RosterMissing \<Rightarrow> Inr \<lparr>ro_by = [], ro_file = []\<rparr>
      | RosterUnreadable \<Rightarrow> Inl RosterUnread
      | RosterBytes None \<Rightarrow> Inl RosterGarbled
      | RosterBytes (Some recs) \<Rightarrow> Inr \<lparr>ro_by = fold (\<lambda>rec. AList.update (rc_id rec) rec) recs [], ro_file = recs\<rparr>)"

definition id_candidate :: "string \<Rightarrow> nat \<Rightarrow> string" where
  "id_candidate base n = (if n > 1 then base @ ''-'' @ dec n else base)"

definition free_id :: "string \<Rightarrow> roster \<Rightarrow> roster_error + string" where
  "free_id from r =
     (let base = slug from in
      if base = [] then Inl (NoIdFrom from)
      else (case List.find (\<lambda>i. look_agent r i = None) (List.map (id_candidate base) [1..<100]) of
              Some i \<Rightarrow> Inr i
            | None \<Rightarrow> Inl (TooManyNamed base)))"

definition add_agent :: "bool \<Rightarrow> int \<Rightarrow> agent_record \<Rightarrow> roster \<Rightarrow> (roster_error + agent_record) \<times> roster" where
  "add_agent wrote now rec r =
     (let rec1 = rec\<lparr>rc_name := or_default (rc_name rec) (rc_type rec)\<rparr> in
      case free_id (rc_name rec1) r of
        Inl e \<Rightarrow> (Inl e, r)
      | Inr i \<Rightarrow>
          (let rec2 = rec1\<lparr>rc_id := i, rc_created := now\<rparr> in
           saved wrote rec2 (r\<lparr>ro_by := AList.update i rec2 (ro_by r)\<rparr>)))"

definition update_agent ::
  "bool \<Rightarrow> string \<Rightarrow> (agent_record \<Rightarrow> roster_error + agent_record) \<Rightarrow> roster \<Rightarrow> (roster_error + agent_record) \<times> roster" where
  "update_agent wrote i change r =
     (case look_agent r i of
        None \<Rightarrow> (Inl (NoSuchAgent i), r)
      | Some rec \<Rightarrow>
          (case change rec of
             Inl e \<Rightarrow> (Inl e, r)
           | Inr new \<Rightarrow> saved wrote new (r\<lparr>ro_by := edit_entry i (\<lambda>_. new) (ro_by r)\<rparr>)))"

definition ensure_boss :: "bool \<Rightarrow> int \<Rightarrow> string \<Rightarrow> roster \<Rightarrow> (roster_error + unit) \<times> roster" where
  "ensure_boss wrote now type_key r =
     (if look_agent r boss_id \<noteq> None then (Inr (), r)
      else saved wrote () (r\<lparr>ro_by := AList.update boss_id
        \<lparr>rc_id = boss_id, rc_name = ''Boss'', rc_type = type_key, rc_created = now, rc_task = None,
         rc_instructions = [], rc_model = None\<rparr> (ro_by r)\<rparr>))"

definition remove_agent :: "bool \<Rightarrow> string \<Rightarrow> roster \<Rightarrow> (roster_error + unit) \<times> roster" where
  "remove_agent wrote i r =
     (if i = boss_id then (Inl BossKept, r)
      else if look_agent r i = None then (Inl (NoSuchAgent i), r)
      else saved wrote () (r\<lparr>ro_by := AList.delete i (ro_by r)\<rparr>))"

definition set_task :: "bool \<Rightarrow> string \<Rightarrow> task option \<Rightarrow> roster \<Rightarrow> (roster_error + agent_record) \<times> roster" where
  "set_task wrote i t r = update_agent wrote i (\<lambda>rec. Inr (rec\<lparr>rc_task := t\<rparr>)) r"

section \<open>What a person may change\<close>

definition name_cap :: nat where "name_cap = 40"
definition role_cap :: int where "role_cap = 8000"

text \<open>\<^verbatim>\<open>len([]rune(s))\<close> of valid UTF-8.\<close>

definition rune_count :: "string \<Rightarrow> nat" where
  "rune_count s = length (filter (\<lambda>c. \<not> (128 \<le> (of_char c :: nat) \<and> (of_char c :: nat) < 192)) s)"

definition valid_name :: "string \<Rightarrow> roster_error option" where
  "valid_name name =
     (let n = rune_count (trim_with is_space name) in if n = 0 \<or> n > name_cap then Some BadName else None)"

definition thinking_budgets :: "(string \<times> int) list" where
  "thinking_budgets = [(''low'', 2048), (''medium'', 8192), (''high'', 16384)]"

definition valid_model :: "model_config option \<Rightarrow> roster_error option" where
  "valid_model m =
     (case m of
        None \<Rightarrow> None
      | Some c \<Rightarrow>
          if trim_with is_space (mc_model c) = [] then Some NoModelId
          else if mc_thinking c \<noteq> [] \<and> map_of thinking_budgets (mc_thinking c) = None then Some (BadThinking (mc_thinking c))
          else None)"

definition valid_custom :: "agent_record \<Rightarrow> roster_error option" where
  "valid_custom rec =
     (case valid_name (rc_name rec) of
        Some e \<Rightarrow> Some e
      | None \<Rightarrow>
          (let n = int (rune_count (trim_with is_space (rc_instructions rec))) in
           if n = 0 \<or> n > role_cap then Some BadInstructions else valid_model (rc_model rec)))"

definition patch_model :: "model_patch \<Rightarrow> agent_record \<Rightarrow> agent_record" where
  "patch_model m rec = rec\<lparr>rc_model := if mp_clear m then None else Some (mp_config m)\<rparr>"

definition apply_patch :: "agent_patch \<Rightarrow> agent_record \<Rightarrow> roster_error + agent_record" where
  "apply_patch p rec =
     (if rc_type rec \<noteq> custom_type \<and> (pa_instructions p \<noteq> None \<or> pa_model p \<noteq> None) then Inl NotCustom
      else
        (let rec1 = (case pa_name p of Some n \<Rightarrow> rec\<lparr>rc_name := trim_with is_space n\<rparr> | None \<Rightarrow> rec);
             rec2 = (case pa_instructions p of Some s \<Rightarrow> rec1\<lparr>rc_instructions := s\<rparr> | None \<Rightarrow> rec1);
             rec3 = (case pa_model p of Some m \<Rightarrow> patch_model m rec2 | None \<Rightarrow> rec2) in
         case (if rc_type rec3 = custom_type then valid_custom rec3 else valid_name (rc_name rec3)) of
           Some e \<Rightarrow> Inl e
         | None \<Rightarrow> Inr rec3))"

definition create_with ::
  "(string \<Rightarrow> bool) \<Rightarrow> bool \<Rightarrow> int \<Rightarrow> create_req \<Rightarrow> roster \<Rightarrow> (roster_error + agent_record) \<times> roster" where
  "create_with profiles wrote now req r =
     (if \<not> profiles (cr_type req) then (Inl (NoProfile (cr_type req)), r)
      else
        (let rec = \<lparr>rc_id = [], rc_name = cr_name req, rc_type = cr_type req, rc_created = 0, rc_task = None,
                    rc_instructions = cr_instructions req, rc_model = cr_model req\<rparr> in
         case (if cr_type req = custom_type then valid_custom rec else None) of
           Some e \<Rightarrow> (Inl e, r)
         | None \<Rightarrow> add_agent wrote now rec r))"

definition create_agent ::
  "(string \<Rightarrow> bool) \<Rightarrow> bool \<Rightarrow> int \<Rightarrow> string \<Rightarrow> string \<Rightarrow> roster \<Rightarrow> (roster_error + agent_record) \<times> roster" where
  "create_agent profiles wrote now type_key name r =
     create_with profiles wrote now \<lparr>cr_type = type_key, cr_name = name, cr_instructions = [], cr_model = None\<rparr> r"

definition patch_agent :: "bool \<Rightarrow> string \<Rightarrow> agent_patch \<Rightarrow> roster \<Rightarrow> (roster_error + agent_record) \<times> roster" where
  "patch_agent wrote i p r = update_agent wrote i (apply_patch p) r"

section \<open>Spend by name\<close>

definition name_agent :: "agent_record list \<Rightarrow> agent_usage \<Rightarrow> agent_usage" where
  "name_agent recs a =
     (if au_agent a = unattributed then a\<lparr>au_name := ''Before per-agent tracking''\<rparr>
      else fold (\<lambda>rec a1. if rc_id rec = au_agent a then a1\<lparr>au_name := rc_name rec, au_retired := False\<rparr> else a1) recs
             (a\<lparr>au_name := au_agent a, au_retired := True\<rparr>))"

definition usage_rank :: "agent_record list \<Rightarrow> agent_usage \<Rightarrow> nat" where
  "usage_rank recs a =
     (case index_of (au_agent a) (List.map rc_id recs) of
        Some i \<Rightarrow> i
      | None \<Rightarrow> if au_agent a = unattributed then length recs + 1 else length recs)"

definition agent_usage_named :: "location \<Rightarrow> int \<Rightarrow> meter \<Rightarrow> roster \<Rightarrow> agent_usage_report" where
  "agent_usage_named loc now m r =
     (let report = by_agent loc now m; recs = list_agents r in
      report\<lparr>ar_agents := sort_key (usage_rank recs) (List.map (name_agent recs) (ar_agents report))\<rparr>)"

end
