(* ===== verification/Team.thy ===== *)
theory Team
  imports Roster
begin

text \<open>
  The agents of a machine at work (\<^verbatim>\<open>supervisor.go\<close> and the inbox half of \<^verbatim>\<open>loop.go\<close>):
  who is running, how a message reaches an agent, how an agent is stopped. A running agent is an
  instance: its inbox, its state, its open log, and where its goroutine stands. Instances are
  numbers in a heap, because a caller keeps the one it looked up after the map has dropped it. What callers do
  is a thread of actions, one per locked section. What happens inside a turn (the model, the
  tools) is the choice of how the turn ends.
\<close>

section \<open>Messages\<close>

record inbound =
  ib_text :: string
  ib_from :: string
  ib_schedule :: string
  ib_file :: "sent_file option"
  ib_reply :: string

definition said_by_person :: "string \<Rightarrow> sent_file option \<Rightarrow> inbound" where
  "said_by_person text f = \<lparr>ib_text = text, ib_from = [], ib_schedule = [], ib_file = f, ib_reply = []\<rparr>"

definition said_by_timer :: "string \<Rightarrow> string \<Rightarrow> inbound" where
  "said_by_timer name text = \<lparr>ib_text = text, ib_from = [], ib_schedule = name, ib_file = None, ib_reply = []\<rparr>"

definition said_by_agent :: "string \<Rightarrow> string \<Rightarrow> inbound" where
  "said_by_agent from text = \<lparr>ib_text = text, ib_from = from, ib_schedule = [], ib_file = None, ib_reply = []\<rparr>"

definition given_work :: "string \<Rightarrow> string \<Rightarrow> inbound" where
  "given_work from text = (said_by_agent from text)\<lparr>ib_reply := from\<rparr>"

text \<open>The log entry of an accepted message.\<close>

definition received_event :: "inbound \<Rightarrow> event" where
  "received_event m =
     (if ib_schedule m \<noteq> [] then (blank_event ''scheduled'')\<lparr>ev_task_title := ib_schedule m, ev_text := ib_text m\<rparr>
      else if ib_from m \<noteq> [] then (blank_event ''agent_message'')\<lparr>ev_from := ib_from m, ev_text := ib_text m\<rparr>
      else (blank_event ''user'')\<lparr>ev_text := ib_text m, ev_file := ib_file m\<rparr>)"

definition blank_line :: string where "blank_line = [newline, newline]"

definition schedule_note :: "string \<Rightarrow> string" where
  "schedule_note name =
     ''[Scheduled task '' @ [CHR 34] @ name @ [CHR 34] @ '' - a timer started this, not the person.'' @
     '' They may not be at the keyboard. If you need approval the run will wait'' @
     '' for them, so ask for everything you need at once rather than one thing'' @ '' at a time.]''"

definition with_file :: "string \<Rightarrow> sent_file \<Rightarrow> string" where
  "with_file text f =
     (let note = ''The person attached a file: '' @ sf_path f in if text = [] then note else text @ blank_line @ note)"

definition frame :: "inbound \<Rightarrow> string" where
  "frame m =
     (case ib_file m of
        Some f \<Rightarrow> with_file (ib_text m) f
      | None \<Rightarrow>
          if ib_schedule m \<noteq> [] then schedule_note (ib_schedule m) @ blank_line @ ib_text m
          else if ib_from m = [] then ib_text m
          else ''Message from the agent '' @ [CHR 34] @ ib_from m @ [CHR 34] @ '', a colleague on this machine:'' @
            blank_line @ ib_text m)"

record delegation =
  dl_to :: string
  dl_title :: string
  dl_task :: string
  dl_dir :: string

definition delegation_brief :: "string \<Rightarrow> delegation \<Rightarrow> string" where
  "delegation_brief from d =
     ''You have been given a task: '' @ dl_title d @ blank_line @ dl_task d @
     (if dl_dir d = [] then []
      else blank_line @ ''Work in this folder, which already exists: '' @ dl_dir d @
        [newline] @ ''Do not open a folder of your own. Others are working in this one too,'' @
        '' so keep to your own files and read anything you did not write before changing it.'') @
     blank_line @ ''When you are done, use message_agent to tell '' @ [CHR 34] @ from @ [CHR 34] @
     '' what you produced, where it is, and anything you could not finish.''"

section \<open>Instances\<close>

datatype phase = Parked | Took inbound | Turning inbound | Settling | Gone

text \<open>\<open>in_taken\<close> and \<open>in_accepted\<close> record, in order, what the goroutine took and what enqueue accepted.\<close>

record agent_inst =
  in_agent :: string
  in_log :: event_log
  in_inbox :: "inbound list"
  in_state :: string
  in_stopped :: bool
  in_cancelled :: bool
  in_waiting :: int
  in_reload :: bool
  in_turn_from :: int
  in_phase :: phase
  in_taken :: "inbound list"
  in_accepted :: "inbound list"

definition inbox_depth :: nat where "inbox_depth = 8"

datatype enqueued = Accepted | InboxFull | AgentStopped

definition enqueue :: "inbound \<Rightarrow> agent_inst \<Rightarrow> enqueued \<times> agent_inst" where
  "enqueue m a =
     (if in_stopped a then (AgentStopped, a)
      else if length (in_inbox a) < inbox_depth
      then (Accepted, a\<lparr>in_inbox := in_inbox a @ [m], in_accepted := in_accepted a @ [m]\<rparr>)
      else (InboxFull, a))"

definition quiesce :: "agent_inst \<Rightarrow> bool \<times> agent_inst" where
  "quiesce a =
     (if in_stopped a \<or> in_state a \<noteq> ''idle'' \<or> in_inbox a \<noteq> [] then (False, a)
      else (True, a\<lparr>in_stopped := True\<rparr>))"

text \<open>\<^verbatim>\<open>stop\<close> and the context's cancel.\<close>

definition stop_inst :: "agent_inst \<Rightarrow> agent_inst" where
  "stop_inst a = a\<lparr>in_stopped := True, in_cancelled := True\<rparr>"

section \<open>The team\<close>

record live_agent =
  lv_inst :: nat
  lv_used :: int

datatype send_result = SendOk nat | SendBusy | SendStopped | SendNoAgent string | SendNoRoom | SendNoProfile string | SendNoLog

datatype team_action =
    TGet string inbound nat
  | TNew agent_record inbound nat
  | TInsert nat string inbound nat
  | TPut nat string inbound nat
  | TLog nat event
  | TNote string event
  | TReply inbound send_result
  | TStop string
  | TPurge string

record team =
  tm_max :: nat
  tm_roster :: roster
  tm_live :: "(string \<times> live_agent) list"
  tm_insts :: "agent_inst list"
  tm_disks :: "(string \<times> log_disk) list"
  tm_threads :: "team_action list list"
  tm_replies :: "(inbound \<times> send_result) list"

definition disk_of :: "string \<Rightarrow> team \<Rightarrow> log_disk" where
  "disk_of i t = (case map_of (tm_disks t) i of Some d \<Rightarrow> d | None \<Rightarrow> NoLog)"

text \<open>An append goes to the file every instance of the agent shares, under the number this instance holds.\<close>

definition append_on :: "event_json \<Rightarrow> int \<Rightarrow> event \<Rightarrow> nat \<Rightarrow> team \<Rightarrow> team" where
  "append_on js now e k t =
     (let a = tm_insts t ! k;
          l = snd (append_event js WrittenAll now e ((in_log a)\<lparr>lg_disk := disk_of (in_agent a) t\<rparr>)) in
      t\<lparr>tm_insts := (tm_insts t)[k := a\<lparr>in_log := l\<rparr>],
        tm_disks := AList.update (in_agent a) (lg_disk l) (tm_disks t)\<rparr>)"

definition live_inst :: "string \<Rightarrow> team \<Rightarrow> nat option" where
  "live_inst i t = map_option lv_inst (map_of (tm_live t) i)"

definition edit_inst :: "nat \<Rightarrow> (agent_inst \<Rightarrow> agent_inst) \<Rightarrow> team \<Rightarrow> team" where
  "edit_inst k f t = t\<lparr>tm_insts := (tm_insts t)[k := f (tm_insts t ! k)]\<rparr>"

definition stop_agent :: "string \<Rightarrow> team \<Rightarrow> team" where
  "stop_agent i t =
     (case live_inst i t of
        None \<Rightarrow> t
      | Some k \<Rightarrow> (edit_inst k stop_inst t)\<lparr>tm_live := AList.delete i (tm_live t)\<rparr>)"

text \<open>Stop an agent if it may go: the pattern of eviction, refresh and recycling.\<close>

definition try_stop :: "string \<Rightarrow> team \<Rightarrow> bool \<times> team" where
  "try_stop i t =
     (case live_inst i t of
        None \<Rightarrow> (False, t)
      | Some k \<Rightarrow>
          (case quiesce (tm_insts t ! k) of
             (True, a) \<Rightarrow> (True, stop_agent i (edit_inst k (\<lambda>_. a) t))
           | (False, _) \<Rightarrow> (False, t)))"

definition idle_by_age :: "team \<Rightarrow> string list" where
  "idle_by_age t =
     List.map fst (sort_key (lv_used \<circ> snd)
       (filter (\<lambda>(_, l). in_state (tm_insts t ! lv_inst l) = ''idle'') (tm_live t)))"

fun evict_first :: "string list \<Rightarrow> team \<Rightarrow> bool \<times> team" where
  "evict_first [] t = (False, t)"
| "evict_first (i # is) t = (case try_stop i t of (True, u) \<Rightarrow> (True, u) | (False, _) \<Rightarrow> evict_first is t)"

definition make_room :: "string \<Rightarrow> team \<Rightarrow> bool \<times> team" where
  "make_room want t =
     (if length (tm_live t) < tm_max t \<or> want = boss_id then (True, t) else evict_first (idle_by_age t) t)"

section \<open>Sending\<close>

text \<open>\<^verbatim>\<open>Get\<close>: a running agent is touched, one on the roster is started.\<close>

definition get_agent :: "int \<Rightarrow> string \<Rightarrow> inbound \<Rightarrow> nat \<Rightarrow> team \<Rightarrow> team_action list \<times> team" where
  "get_agent now i m tries t =
     (case map_of (tm_live t) i of
        Some l \<Rightarrow> ([TPut (lv_inst l) i m tries], t\<lparr>tm_live := edit_entry i (\<lambda>l. l\<lparr>lv_used := now\<rparr>) (tm_live t)\<rparr>)
      | None \<Rightarrow>
          (case look_agent (tm_roster t) i of
             None \<Rightarrow> ([TReply m (SendNoAgent i)], t)
           | Some rec \<Rightarrow> ([TNew rec m tries], t)))"

definition new_inst :: "string \<Rightarrow> event_log \<Rightarrow> agent_inst" where
  "new_inst i l =
     \<lparr>in_agent = i, in_log = l, in_inbox = [], in_state = ''idle'', in_stopped = False, in_cancelled = False,
      in_waiting = 0, in_reload = False, in_turn_from = 0, in_phase = Parked, in_taken = [], in_accepted = []\<rparr>"

text \<open>
  \<^verbatim>\<open>start\<close> up to its lock: the profile, the log opened, the agent built and \<open>ready\<close> on its log.
\<close>

definition build_agent ::
  "event_json \<Rightarrow> (string \<Rightarrow> bool) \<Rightarrow> int \<Rightarrow> agent_record \<Rightarrow> inbound \<Rightarrow> nat \<Rightarrow> team \<Rightarrow> team_action list \<times> team" where
  "build_agent js profiles now rec m tries t =
     (if \<not> profiles (rc_type rec) then ([TReply m (SendNoProfile (rc_type rec))], t)
      else (case open_log js (rc_id rec) (disk_of (rc_id rec) t) of
              None \<Rightarrow> ([TReply m SendNoLog], t)
            | Some l \<Rightarrow>
                (let k = length (tm_insts t) in
                 ([TInsert k (rc_id rec) m tries],
                  append_on js now ((blank_event ''ready'')\<lparr>ev_message := ''agent '' @ rc_id rec @ '' ready''\<rparr>) k
                    (t\<lparr>tm_insts := tm_insts t @ [new_inst (rc_id rec) l]\<rparr>)))))"

definition insert_agent :: "int \<Rightarrow> nat \<Rightarrow> string \<Rightarrow> inbound \<Rightarrow> nat \<Rightarrow> team \<Rightarrow> team_action list \<times> team" where
  "insert_agent now k i m tries t =
     (case live_inst i t of
        Some k1 \<Rightarrow> ([TPut k1 i m tries], t)
      | None \<Rightarrow>
          (case make_room i t of
             (False, u) \<Rightarrow> ([TReply m SendNoRoom], u)
           | (True, u) \<Rightarrow> ([TPut k i m tries], u\<lparr>tm_live := AList.update i \<lparr>lv_inst = k, lv_used = now\<rparr> (tm_live u)\<rparr>)))"

definition put_message :: "nat \<Rightarrow> string \<Rightarrow> inbound \<Rightarrow> nat \<Rightarrow> team \<Rightarrow> team_action list \<times> team" where
  "put_message k i m tries t =
     (case enqueue m (tm_insts t ! k) of
        (Accepted, a) \<Rightarrow> ([TLog k (received_event m), TReply m (SendOk k)], edit_inst k (\<lambda>_. a) t)
      | (InboxFull, _) \<Rightarrow> ([TReply m SendBusy], t)
      | (AgentStopped, _) \<Rightarrow> (if tries = 0 then [TGet i m 1] else [TReply m SendStopped], t))"

definition log_for :: "event_json \<Rightarrow> int \<Rightarrow> string \<Rightarrow> event \<Rightarrow> team \<Rightarrow> team" where
  "log_for js now i e t = (case live_inst i t of None \<Rightarrow> t | Some k \<Rightarrow> append_on js now e k t)"

fun team_act ::
  "event_json \<Rightarrow> (string \<Rightarrow> bool) \<Rightarrow> int \<Rightarrow> team_action \<Rightarrow> team \<Rightarrow> team_action list \<times> team" where
  "team_act js profiles now (TGet i m tries) t = get_agent now i m tries t"
| "team_act js profiles now (TNew rec m tries) t = build_agent js profiles now rec m tries t"
| "team_act js profiles now (TInsert k i m tries) t = insert_agent now k i m tries t"
| "team_act js profiles now (TPut k i m tries) t = put_message k i m tries t"
| "team_act js profiles now (TLog k e) t = ([], append_on js now e k t)"
| "team_act js profiles now (TNote i e) t = ([], log_for js now i e t)"
| "team_act js profiles now (TReply m r) t = ([], t\<lparr>tm_replies := tm_replies t @ [(m, r)]\<rparr>)"
| "team_act js profiles now (TStop i) t = ([], stop_agent i t)"
| "team_act js profiles now (TPurge i) t = ([], t\<lparr>tm_disks := AList.delete i (tm_disks t)\<rparr>)"

text \<open>A refused send ends its caller; what was to follow an accepted one is done next.\<close>

definition goes_on :: "team_action \<Rightarrow> bool" where
  "goes_on a = (case a of TReply _ (SendOk _) \<Rightarrow> True | TReply _ _ \<Rightarrow> False | _ \<Rightarrow> True)"

definition run_caller ::
  "event_json \<Rightarrow> (string \<Rightarrow> bool) \<Rightarrow> int \<Rightarrow> nat \<Rightarrow> team \<Rightarrow> team option" where
  "run_caller js profiles now n t =
     (if n < length (tm_threads t)
      then (case tm_threads t ! n of
              [] \<Rightarrow> None
            | a # rest \<Rightarrow>
                (case team_act js profiles now a t of
                   (new, u) \<Rightarrow> Some (u\<lparr>tm_threads := (tm_threads u)[n := new @ (if goes_on a then rest else [])]\<rparr>)))
      else None)"

definition call :: "team_action list \<Rightarrow> team \<Rightarrow> team" where
  "call as t = t\<lparr>tm_threads := tm_threads t @ [as]\<rparr>"

definition send_to :: "string \<Rightarrow> inbound \<Rightarrow> team \<Rightarrow> team" where
  "send_to i m t = call [TGet i m 0] t"

definition deliver :: "string \<Rightarrow> string \<Rightarrow> string \<Rightarrow> team \<Rightarrow> team" where
  "deliver from to text t = (if from = to then t else send_to to (said_by_agent from text) t)"

text \<open>A delegation is refused at once for an agent nobody knows; an accepted one is noted on the delegator's log.\<close>

definition delegation_event :: "delegation \<Rightarrow> event" where
  "delegation_event d =
     (blank_event ''delegation'')\<lparr>ev_to := dl_to d, ev_task_title := dl_title d, ev_task_dir := dl_dir d\<rparr>"

definition delegate :: "string \<Rightarrow> delegation \<Rightarrow> team \<Rightarrow> bool \<times> team" where
  "delegate from d t =
     (if look_agent (tm_roster t) (dl_to d) = None then (False, t)
      else (True, call [TGet (dl_to d) (given_work from (delegation_brief from d)) 0, TNote from (delegation_event d)] t))"

text \<open>
  A folder of work: named after the person's date and the slug, made (\<open>made\<close>), noted, and put on the roster.
  \<open>ws\<close> is the workspace, a clean path.
\<close>

datatype task_answer = TaskNoName string | TaskNoFolder | TaskOpen task | TaskUnsaved task roster_error

definition start_task ::
  "event_json \<Rightarrow> location \<Rightarrow> string \<Rightarrow> bool \<Rightarrow> bool \<Rightarrow> int \<Rightarrow> string \<Rightarrow> string \<Rightarrow> string \<Rightarrow> team \<Rightarrow> task_answer \<times> team" where
  "start_task js loc ws made wrote now i title text t =
     (let name = slug text; dir = ws @ ''/'' @ date_of loc now @ ''-'' @ name;
          tk = \<lparr>tk_slug = name, tk_title = title, tk_dir = dir, tk_started = now\<rparr> in
      if name = [] then (TaskNoName text, t)
      else if \<not> made then (TaskNoFolder, t)
      else
        (let u = log_for js now i ((blank_event ''task_start'')\<lparr>ev_task_slug := name, ev_task_title := title, ev_task_dir := dir\<rparr>) t in
         case set_task wrote i (Some tk) (tm_roster u) of
           (Inr _, r) \<Rightarrow> (TaskOpen tk, u\<lparr>tm_roster := r\<rparr>)
         | (Inl e, r) \<Rightarrow> (TaskUnsaved tk e, u\<lparr>tm_roster := r\<rparr>)))"

section \<open>Stopping\<close>

text \<open>Go walks the map in no fixed order; no agent's fate depends on another's.\<close>

definition evict_idle :: "team \<Rightarrow> team" where
  "evict_idle t = fold (\<lambda>i u. snd (try_stop i u)) (List.map fst (tm_live t)) t"

definition refresh_agent :: "string \<Rightarrow> team \<Rightarrow> team" where
  "refresh_agent i t =
     (case live_inst i t of
        None \<Rightarrow> t
      | Some k \<Rightarrow>
          (case try_stop i t of
             (True, u) \<Rightarrow> u
           | (False, _) \<Rightarrow> edit_inst k (\<lambda>a. a\<lparr>in_reload := True\<rparr>) t))"

definition recycle_note :: event where
  "recycle_note = (blank_event ''skill'')\<lparr>ev_message := ''reloading so a new skill is available''\<rparr>"

definition recycle :: "event_json \<Rightarrow> int \<Rightarrow> string \<Rightarrow> nat \<Rightarrow> team \<Rightarrow> bool \<times> team" where
  "recycle js now i noter t =
     (case live_inst i t of
        None \<Rightarrow> (False, t)
      | Some k \<Rightarrow>
          (case quiesce (tm_insts t ! k) of
             (False, _) \<Rightarrow> (False, t)
           | (True, a) \<Rightarrow> (True, stop_agent i (append_on js now recycle_note noter (edit_inst k (\<lambda>_. a) t)))))"

text \<open>\<^verbatim>\<open>Delete\<close>: the roster first, then the running agent, then with purge its files.\<close>

definition delete_agent :: "bool \<Rightarrow> string \<Rightarrow> bool \<Rightarrow> team \<Rightarrow> bool \<times> team" where
  "delete_agent wrote i purge t =
     (case remove_agent wrote i (tm_roster t) of
        (Inl e, r) \<Rightarrow> (False, t\<lparr>tm_roster := r\<rparr>)
      | (Inr _, r) \<Rightarrow> (True, call (TStop i # (if purge then [TPurge i] else [])) (t\<lparr>tm_roster := r\<rparr>)))"

definition close_team :: "team \<Rightarrow> team" where
  "close_team t = fold stop_agent (List.map fst (tm_live t)) t"

section \<open>The goroutine of an agent\<close>

datatype turn_end = TurnDone string | TurnOut string | TurnFailed string

definition outcome :: "turn_end \<Rightarrow> string" where
  "outcome r =
     (case r of
        TurnFailed e \<Rightarrow> ''I stopped before finishing: '' @ e @ ''. Nothing further will happen unless you ask again.''
      | TurnOut _ \<Rightarrow> ''I ran out of steps before finishing, so the work is incomplete. '' @
          ''Check what is in the folder and send me a narrower piece if you still need it.''
      | TurnDone text \<Rightarrow> ''I have finished my turn. '' @ or_default text ''There was nothing to report.'')"

definition messaged_during :: "event_json \<Rightarrow> string \<Rightarrow> int \<Rightarrow> log_disk \<Rightarrow> bool" where
  "messaged_during js to since d =
     (case read_all js d of
        None \<Rightarrow> False
      | Some es \<Rightarrow> list_ex (\<lambda>e. ev_id e > since \<and> ev_type e = ''agent_message'' \<and> ev_to e = to) es)"

definition put_state :: "event_json \<Rightarrow> int \<Rightarrow> string \<Rightarrow> nat \<Rightarrow> team \<Rightarrow> team" where
  "put_state js now s k t =
     (if in_state (tm_insts t ! k) = s then t
      else append_on js now ((blank_event ''state'')\<lparr>ev_session := s\<rparr>) k (edit_inst k (\<lambda>a. a\<lparr>in_state := s\<rparr>) t))"

definition add_wait :: "event_json \<Rightarrow> int \<Rightarrow> int \<Rightarrow> nat \<Rightarrow> team \<Rightarrow> team" where
  "add_wait js now delta k t =
     (let u = edit_inst k (\<lambda>a. a\<lparr>in_waiting := in_waiting a + delta\<rparr>) t in
      put_state js now (if in_waiting (tm_insts u ! k) > 0 then ''waiting'' else ''working'') k u)"

text \<open>\<^verbatim>\<open>turn\<close> to the point where the model is first called.\<close>

definition begin_turn :: "event_json \<Rightarrow> int \<Rightarrow> inbound \<Rightarrow> nat \<Rightarrow> team \<Rightarrow> team" where
  "begin_turn js now m k t =
     (let u = edit_inst k (\<lambda>a. a\<lparr>in_turn_from := log_last_id (in_log a), in_phase := Turning m\<rparr>) t in
      put_state js now ''working'' k u)"

definition finish_turn_on :: "event_json \<Rightarrow> int \<Rightarrow> turn_end \<Rightarrow> nat \<Rightarrow> team \<Rightarrow> team" where
  "finish_turn_on js now r k t =
     (let failed = (case r of TurnFailed _ \<Rightarrow> True | _ \<Rightarrow> False);
          t1 = (case r of
                  TurnFailed e \<Rightarrow> append_on js now ((blank_event ''error'')\<lparr>ev_message := e\<rparr>) k t
                | TurnOut _ \<Rightarrow> append_on js now ((blank_event ''error'')\<lparr>ev_message := ''stopped at the step limit for one turn''\<rparr>) k t
                | TurnDone _ \<Rightarrow> t) in
      put_state js now ''idle'' k (append_on js now ((blank_event ''turn_complete'')\<lparr>ev_error := failed\<rparr>) k t1))"

definition report_turn :: "event_json \<Rightarrow> inbound \<Rightarrow> turn_end \<Rightarrow> nat \<Rightarrow> team \<Rightarrow> team" where
  "report_turn js m r k t =
     (let a = tm_insts t ! k in
      if ib_reply m = [] \<or> messaged_during js (ib_reply m) (in_turn_from a) (disk_of (in_agent a) t) then t
      else deliver (in_agent a) (ib_reply m) (outcome r) t)"

definition end_turn :: "event_json \<Rightarrow> int \<Rightarrow> inbound \<Rightarrow> turn_end \<Rightarrow> nat \<Rightarrow> team \<Rightarrow> team" where
  "end_turn js now m r k t =
     edit_inst k (\<lambda>a. a\<lparr>in_phase := Settling\<rparr>) (report_turn js m r k (finish_turn_on js now r k t))"

definition recycle_if_stale :: "event_json \<Rightarrow> int \<Rightarrow> nat \<Rightarrow> team \<Rightarrow> team" where
  "recycle_if_stale js now k t =
     (let a = tm_insts t ! k; parked = edit_inst k (\<lambda>a. a\<lparr>in_phase := Parked\<rparr>) in
      if \<not> in_reload a then parked t
      else (case recycle js now (in_agent a) k (edit_inst k (\<lambda>a. a\<lparr>in_reload := False\<rparr>) t) of
              (True, u) \<Rightarrow> parked u
            | (False, u) \<Rightarrow> parked (edit_inst k (\<lambda>a. a\<lparr>in_reload := True\<rparr>) u)))"

text \<open>One step of the goroutine; \<open>quit\<close> is its choice when both its context and its inbox are ready.\<close>

definition run_agent :: "event_json \<Rightarrow> int \<Rightarrow> bool \<Rightarrow> turn_end \<Rightarrow> nat \<Rightarrow> team \<Rightarrow> team option" where
  "run_agent js now quit r k t =
     (if k \<ge> length (tm_insts t) then None
      else (let a = tm_insts t ! k in
        case in_phase a of
          Parked \<Rightarrow>
            if quit \<and> in_cancelled a then Some (edit_inst k (\<lambda>a. a\<lparr>in_phase := Gone\<rparr>) t)
            else (case in_inbox a of
                    [] \<Rightarrow> None
                  | m # ms \<Rightarrow> Some (edit_inst k (\<lambda>a. a\<lparr>in_inbox := ms, in_taken := in_taken a @ [m], in_phase := Took m\<rparr>) t))
        | Took m \<Rightarrow> Some (begin_turn js now m k t)
        | Turning m \<Rightarrow> Some (end_turn js now m r k t)
        | Settling \<Rightarrow> Some (recycle_if_stale js now k t)
        | Gone \<Rightarrow> None))"

section \<open>What a client sees\<close>

record agent_status =
  st_id :: string
  st_name :: string
  st_type :: string
  st_description :: string
  st_browser :: bool
  st_state :: string
  st_live :: bool
  st_last :: int
  st_task :: "task option"
  st_instructions :: string
  st_model :: "model_config option"

text \<open>\<open>about\<close> is the catalog: the description of a type and whether it browses, empty for an unknown one.\<close>

definition status_for :: "event_json \<Rightarrow> (string \<Rightarrow> string \<times> bool) \<Rightarrow> team \<Rightarrow> agent_record \<Rightarrow> agent_status" where
  "status_for js about t rec =
     (let st = \<lparr>st_id = rc_id rec, st_name = rc_name rec, st_type = rc_type rec, st_description = fst (about (rc_type rec)),
            st_browser = snd (about (rc_type rec)), st_state = ''idle'', st_live = False, st_last = 0, st_task = rc_task rec,
            st_instructions = rc_instructions rec, st_model = rc_model rec\<rparr> in
      case live_inst (rc_id rec) t of
        None \<Rightarrow> st\<lparr>st_last := (case read_log_since js (disk_of (rc_id rec) t) 0 of Some (_, n) \<Rightarrow> n | None \<Rightarrow> 0)\<rparr>
      | Some k \<Rightarrow> st\<lparr>st_live := True, st_state := in_state (tm_insts t ! k), st_last := log_last_id (in_log (tm_insts t ! k))\<rparr>)"

definition list_status :: "event_json \<Rightarrow> (string \<Rightarrow> string \<times> bool) \<Rightarrow> team \<Rightarrow> agent_status list" where
  "list_status js about t = List.map (status_for js about t) (list_agents (tm_roster t))"

definition history :: "event_json \<Rightarrow> string \<Rightarrow> int \<Rightarrow> team \<Rightarrow> (event list \<times> int) option" where
  "history js i since t =
     (if look_agent (tm_roster t) i = None then None
      else (case live_inst i t of
              Some k \<Rightarrow> map_option (\<lambda>es. (after_id es since, log_last_id (in_log (tm_insts t ! k)))) (read_all js (disk_of i t))
            | None \<Rightarrow> read_log_since js (disk_of i t) since))"

definition live_count :: "team \<Rightarrow> nat" where
  "live_count t = length (tm_live t)"

text \<open>The id of an ask names the agent to answer.\<close>

definition resolve_target :: "string \<Rightarrow> team \<Rightarrow> nat option" where
  "resolve_target apid t = (case cut_at CHR ''.'' apid of None \<Rightarrow> None | Some (i, _) \<Rightarrow> live_inst i t)"

definition current_task :: "string \<Rightarrow> team \<Rightarrow> task option" where
  "current_task i t = (case look_agent (tm_roster t) i of None \<Rightarrow> None | Some rec \<Rightarrow> rc_task rec)"

definition new_team :: "nat \<Rightarrow> roster \<Rightarrow> team" where
  "new_team n r = \<lparr>tm_max = n, tm_roster = r, tm_live = [], tm_insts = [], tm_disks = [], tm_threads = [], tm_replies = []\<rparr>"

end
