(* ===== verification/Answers.thy ===== *)
theory Answers
  imports Team
begin

text \<open>
  What a person is asked and how they answer, on the host (\<^verbatim>\<open>approval.go\<close>, \<^verbatim>\<open>pending.go\<close>,
  \<^verbatim>\<open>messages.go\<close> and \<^verbatim>\<open>threads.go\<close> of \<^verbatim>\<open>internal/chat\<close>) and where the
  answer enters the guest (\<^verbatim>\<open>handleResolve\<close> of \<^verbatim>\<open>routes_pending.go\<close>). A body sent to
  the guest is the decision it decodes to: a field left out is empty there. \<^verbatim>\<open>net/url\<close>'s parser is a
  function from a text to its scheme and host name.
\<close>

section \<open>The guest's side\<close>

definition blank_decision :: decision where
  "blank_decision = \<lparr>d_decision = [], d_reason = [], d_answer = [], d_scope = [], d_max_uses = 0, d_ttl = 0\<rparr>"

definition normalise :: "decision \<Rightarrow> decision" where
  "normalise d =
     (if d_decision d = [] then d\<lparr>d_decision := if d_answer d \<noteq> [] then ''allow'' else ''deny''\<rparr> else d)"

section \<open>An ask on the phone\<close>

record ask_ui =
  ak_kind :: string
  ak_options :: "string list"

record approval_req =
  aq_verdict :: string
  aq_answer :: string

definition declined :: string where "declined = ''the person declined''"

definition is_ask :: "event \<Rightarrow> bool" where
  "is_ask e \<longleftrightarrow> ev_type e = ''approval_required'' \<or> ev_type e = ''question''"

definition ask_ui_of :: "event \<Rightarrow> ask_ui" where
  "ask_ui_of e =
     (if ev_type e = ''approval_required'' then \<lparr>ak_kind = ''approval'', ak_options = []\<rparr>
      else \<lparr>ak_kind = or_default (ev_kind e) ''text'', ak_options = (case ev_ui e of Some u \<Rightarrow> ui_options u | None \<Rightarrow> [])\<rparr>)"

definition deny_body :: "ask_ui \<Rightarrow> decision" where
  "deny_body u =
     (if ak_kind u = ''confirm'' then blank_decision\<lparr>d_answer := ''no''\<rparr>
      else if ak_kind u = ''handoff'' \<or> ak_kind u = ''connect'' then blank_decision\<lparr>d_answer := ''not now''\<rparr>
      else blank_decision\<lparr>d_decision := ''deny'', d_reason := declined\<rparr>)"

definition allow_body :: "ask_ui \<Rightarrow> string \<Rightarrow> decision option" where
  "allow_body u answer =
     (if ak_kind u = ''approval'' then Some (blank_decision\<lparr>d_decision := ''allow''\<rparr>)
      else if ak_kind u = ''confirm'' then Some (blank_decision\<lparr>d_answer := ''yes''\<rparr>)
      else if ak_kind u = ''handoff'' \<or> ak_kind u = ''connect'' then Some (blank_decision\<lparr>d_answer := ''done''\<rparr>)
      else if ak_kind u = ''text'' then (if answer = [] then None else Some (blank_decision\<lparr>d_answer := answer\<rparr>))
      else if ak_kind u = ''choice'' then
        (if answer \<in> set (ak_options u) then Some (blank_decision\<lparr>d_answer := answer\<rparr>) else None)
      else None)"

definition decision_body :: "ask_ui \<Rightarrow> approval_req \<Rightarrow> decision option" where
  "decision_body u r =
     (if aq_verdict r \<noteq> ''approved'' \<and> aq_verdict r \<noteq> ''denied'' then None
      else if aq_answer r \<noteq> [] \<and> ak_kind u \<noteq> ''text'' \<and> ak_kind u \<noteq> ''choice'' then None
      else if aq_verdict r = ''denied'' then Some (deny_body u)
      else allow_body u (aq_answer r))"

definition find_ask :: "event list \<Rightarrow> string \<Rightarrow> event option" where
  "find_ask es message_id =
     (case atoi message_id of
        None \<Rightarrow> None
      | Some n \<Rightarrow>
          (case List.find (\<lambda>e. ev_id e = n \<and> is_ask e) es of
             Some e \<Rightarrow> if ev_approval e \<noteq> [] then Some e else None
           | None \<Rightarrow> None))"

datatype answer_result = NoSuchAsk | DoesNotFit | SendOn string decision

text \<open>\<^verbatim>\<open>deliver\<close> to the point where the guest is called; \<open>told\<close> is the agent's log as the guest tells it.\<close>

definition answer_ask :: "event list option \<Rightarrow> string \<Rightarrow> approval_req \<Rightarrow> answer_result" where
  "answer_ask told message_id r =
     (case told of
        None \<Rightarrow> NoSuchAsk
      | Some es \<Rightarrow>
          (case find_ask es message_id of
             None \<Rightarrow> NoSuchAsk
           | Some e \<Rightarrow>
               (case decision_body (ask_ui_of e) r of None \<Rightarrow> DoesNotFit | Some d \<Rightarrow> SendOn (ev_approval e) d)))"

text \<open>The guest's answer, as a status: not found is a card that has gone stale.\<close>

datatype guest_answer = GuestTook | GuestStatus int | GuestSilent

definition forward_decision :: "guest_answer \<Rightarrow> int" where
  "forward_decision g = (case g of GuestTook \<Rightarrow> 204 | GuestStatus n \<Rightarrow> if n = 404 then 409 else 502 | GuestSilent \<Rightarrow> 502)"

text \<open>Whether the host's picture of the person's apps is now stale.\<close>

definition notice_connect :: "ask_ui \<Rightarrow> approval_req \<Rightarrow> bool" where
  "notice_connect u r \<longleftrightarrow> ak_kind u = ''connect'' \<and> aq_verdict r = ''approved''"

section \<open>A card on the operator's page\<close>

record card_option =
  co_id :: string
  co_label :: string
  co_tone :: string
  co_opens :: bool

record card =
  cd_id :: string
  cd_agent :: string
  cd_since :: int
  cd_prompt :: string
  cd_detail :: string
  cd_kind :: string
  cd_options :: "card_option list"
  cd_bodies :: "(string \<times> decision) list"

definition batch_uses :: int where "batch_uses = 10"

definition button :: "string \<Rightarrow> string \<Rightarrow> string \<Rightarrow> card_option" where
  "button i label tone = \<lparr>co_id = i, co_label = label, co_tone = tone, co_opens = False\<rparr>"

definition prompt_for :: "string \<Rightarrow> string" where
  "prompt_for tool = (if tool = ''Bash'' then ''Run a shell command?'' else ''Allow '' @ tool @ ''?'')"

definition refusal :: decision where
  "refusal = blank_decision\<lparr>d_decision := ''deny'', d_reason := declined\<rparr>"

definition confirm_card :: "raised \<Rightarrow> card" where
  "confirm_card r =
     \<lparr>cd_id = ra_id r, cd_agent = [], cd_since = 0, cd_prompt = prompt_for (ra_tool r), cd_detail = ra_preview r,
      cd_kind = ''confirm'',
      cd_options = [button ''once'' ''Yes'' ''ok'',
        button ''batch'' (''Yes, next '' @ dec (nat batch_uses) @ '' for an hour'') ''warn'', button ''deny'' ''No'' ''bad''],
      cd_bodies = [(''once'', blank_decision\<lparr>d_decision := ''allow''\<rparr>),
        (''batch'', blank_decision\<lparr>d_decision := ''allow'', d_scope := ''batch'', d_max_uses := batch_uses, d_ttl := 3600\<rparr>),
        (''deny'', refusal)]\<rparr>"

definition ui_kind_of :: "raised \<Rightarrow> string" where
  "ui_kind_of r = (case ra_ui r of None \<Rightarrow> ''text'' | Some u \<Rightarrow> or_default (ui_kind u) ''text'')"

definition choice_labels :: "raised \<Rightarrow> string list" where
  "choice_labels r = (case ra_ui r of None \<Rightarrow> [] | Some u \<Rightarrow> ui_options u)"

definition choice_id :: "nat \<Rightarrow> string" where
  "choice_id n = CHR ''c'' # dec n"

definition choice_options :: "string list \<Rightarrow> card_option list \<times> (string \<times> decision) list" where
  "choice_options labels =
     (List.map (\<lambda>(n, l). button (choice_id n) l ''ok'') (List.enumerate 0 labels),
      List.map (\<lambda>(n, l). (choice_id n, blank_decision\<lparr>d_answer := l\<rparr>)) (List.enumerate 0 labels))"

definition question_card :: "raised \<Rightarrow> card" where
  "question_card r =
     (let k = ui_kind_of r;
          c = \<lparr>cd_id = ra_id r, cd_agent = [], cd_since = 0, cd_prompt = ra_question r, cd_detail = [],
               cd_kind = [], cd_options = [], cd_bodies = []\<rparr> in
      if k = ''confirm'' then
        c\<lparr>cd_kind := ''confirm'', cd_options := [button ''yes'' ''Yes'' ''ok'', button ''no'' ''No'' ''bad''],
          cd_bodies := [(''yes'', blank_decision\<lparr>d_answer := ''yes''\<rparr>), (''no'', blank_decision\<lparr>d_answer := ''no''\<rparr>)]\<rparr>
      else if k = ''choice'' then
        c\<lparr>cd_kind := ''choice'', cd_options := fst (choice_options (choice_labels r)),
          cd_bodies := snd (choice_options (choice_labels r))\<rparr>
      else if k = ''handoff'' then
        c\<lparr>cd_kind := ''handoff'',
          cd_options := [(button ''done'' ''Take over'' ''ok'')\<lparr>co_opens := True\<rparr>, button ''cancel'' ''Not now'' ''bad''],
          cd_bodies := [(''done'', blank_decision\<lparr>d_answer := ''done''\<rparr>), (''cancel'', blank_decision\<lparr>d_answer := ''not now''\<rparr>)]\<rparr>
      else
        c\<lparr>cd_kind := ''text'', cd_options := [button ''text'' ''Send'' ''ok'', button ''skip'' ''Not now'' ''bad''],
          cd_bodies := [(''skip'', refusal)]\<rparr>)"

definition build_card :: "raised \<Rightarrow> card" where
  "build_card r =
     (if ra_kind r = ''approval_required'' then confirm_card r else question_card r)
       \<lparr>cd_agent := ra_agent r, cd_since := ra_since r\<rparr>"

definition card_body :: "card \<Rightarrow> string \<Rightarrow> string \<Rightarrow> decision option" where
  "card_body c opt text =
     (if opt = ''text'' then
        (if cd_kind c \<noteq> ''text'' \<or> text = [] then None else Some (blank_decision\<lparr>d_answer := text\<rparr>))
      else map_of (cd_bodies c) opt)"

section \<open>A conversation\<close>

record app_attachment =
  aa_seq :: int
  aa_name :: string
  aa_kind :: string
  aa_size :: int
  aa_url :: string
  aa_thumb :: string

record message =
  ms_kind :: string
  ms_id :: string
  ms_time :: int
  ms_from :: string
  ms_text :: string
  ms_detail :: string
  ms_file :: "sent_file option"
  ms_shot :: string
  ms_attachment :: "app_attachment option"
  ms_ui :: "ask_ui option"
  ms_url :: string
  ms_verdict :: string
  ms_verdict_time :: int

text \<open>\<^verbatim>\<open>strconv.Itoa\<close>.\<close>

definition itoa :: "int \<Rightarrow> string" where
  "itoa n = (if n < 0 then CHR ''-'' # dec (nat (- n)) else dec (nat n))"

definition blank_message :: "event \<Rightarrow> message" where
  "blank_message e =
     \<lparr>ms_kind = [], ms_id = itoa (ev_id e), ms_time = ev_ts e, ms_from = ev_agent e, ms_text = [], ms_detail = [],
      ms_file = None, ms_shot = [], ms_attachment = None, ms_ui = None, ms_url = [], ms_verdict = [], ms_verdict_time = 0\<rparr>"

definition schedule_line :: "event \<Rightarrow> string" where
  "schedule_line e = (if ev_task_title e = [] then ''A scheduled task ran'' else ''Scheduled: '' @ ev_task_title e)"

definition team_line :: "event \<Rightarrow> string" where
  "team_line e =
     (if ev_type e = ''delegation'' then ''Handed '' @ ev_task_title e @ '' to '' @ ev_to e
      else if ev_type e = ''task_start'' then ''Started: '' @ ev_task_title e
      else if ev_from e \<noteq> [] then ''Heard back from '' @ ev_from e
      else ''Messaged '' @ ev_to e)"

definition attachment_of :: "string \<Rightarrow> attachment \<Rightarrow> app_attachment" where
  "attachment_of agent a =
     (let base = ''/threads/'' @ agent @ ''/files/'' in
      \<lparr>aa_seq = at_seq a, aa_name = at_display a, aa_kind = at_kind a, aa_size = at_size a, aa_url = base @ at_name a,
       aa_thumb = (if at_thumb a \<noteq> [] then base @ at_thumb a else [])\<rparr>)"

type_synonym url_parser = "string \<Rightarrow> (string \<times> string) option"

definition connect_suffix :: string where "connect_suffix = ''composio.dev''"

definition connect_host_allowed :: "url_parser \<Rightarrow> string \<Rightarrow> bool" where
  "connect_host_allowed parse raw =
     (if raw = [] then False
      else (case parse raw of
              None \<Rightarrow> False
            | Some (scheme, host) \<Rightarrow>
                scheme = ''https'' \<and>
                (let h = List.map to_lower host in h = connect_suffix \<or> suffix (CHR ''.'' # connect_suffix) h)))"

definition ask_message :: "url_parser \<Rightarrow> message \<Rightarrow> event \<Rightarrow> message" where
  "ask_message parse m e =
     m\<lparr>ms_kind := ''ask'', ms_detail := ev_preview e,
       ms_text := (if ev_question e = [] then ''Allow '' @ ev_tool e @ ''?'' else ev_question e),
       ms_ui := Some (ask_ui_of e),
       ms_url := (case ev_ui e of
                    Some u \<Rightarrow> if ev_kind e = ''connect'' \<and> connect_host_allowed parse (ui_url u) then ui_url u else ms_url m
                  | None \<Rightarrow> ms_url m),
       ms_shot := (if ev_shot e \<noteq> [] then ''/threads/'' @ ev_agent e @ ''/shots/'' @ ev_shot e else ms_shot m)\<rparr>"

definition project_message :: "url_parser \<Rightarrow> event \<Rightarrow> message option" where
  "project_message parse e =
     (let m = blank_message e; t = ev_type e in
      if t = ''user'' then Some (m\<lparr>ms_kind := ''text'', ms_from := ''me'', ms_text := ev_text e, ms_file := ev_file e\<rparr>)
      else if t = ''text'' then Some (m\<lparr>ms_kind := ''text'', ms_text := ev_text e\<rparr>)
      else if t = ''delegation'' \<or> t = ''task_start'' \<or> t = ''agent_message'' then
        Some (m\<lparr>ms_kind := ''event'', ms_text := team_line e\<rparr>)
      else if t = ''scheduled'' then Some (m\<lparr>ms_kind := ''event'', ms_text := schedule_line e\<rparr>)
      else if t = ''attachment'' then
        (case ev_attachment e of
           None \<Rightarrow> None
         | Some a \<Rightarrow> Some (m\<lparr>ms_kind := ''text'', ms_text := ev_text e, ms_attachment := Some (attachment_of (ev_agent e) a)\<rparr>))
      else if is_ask e then Some (ask_message parse m e)
      else None)"

definition verdict_of :: "string \<Rightarrow> string" where
  "verdict_of d = (if d = ''allow'' then ''approved'' else ''denied'')"

text \<open>Which ask has which approval id, the last one having it, and what settled it, the last decision.\<close>

definition asks_of :: "event list \<Rightarrow> (string \<times> string) list" where
  "asks_of es = fold (\<lambda>e. AList.update (ev_approval e) (itoa (ev_id e))) (filter is_ask es) []"

definition settled_of :: "event list \<Rightarrow> (string \<times> event) list" where
  "settled_of es = fold (\<lambda>e. AList.update (ev_approval e) e) (filter (\<lambda>e. ev_type e = ''decision'') es) []"

definition decision_for :: "string \<Rightarrow> (string \<times> string) list \<Rightarrow> (string \<times> event) list \<Rightarrow> event option" where
  "decision_for message_id asks settled =
     (case List.find (\<lambda>(apid, mid). mid = message_id) asks of
        None \<Rightarrow> None
      | Some (apid, _) \<Rightarrow> map_of settled apid)"

definition apply_decisions :: "message list \<Rightarrow> event list \<Rightarrow> message list" where
  "apply_decisions ms es =
     List.map (\<lambda>m. case decision_for (ms_id m) (asks_of es) (settled_of es) of
       None \<Rightarrow> m
     | Some e \<Rightarrow> m\<lparr>ms_verdict := verdict_of (ev_decision e), ms_verdict_time := ev_ts e\<rparr>) ms"

record thread =
  th_agent :: string
  th_messages :: "message list"
  th_last :: string
  th_time :: int

definition history_cap :: nat where "history_cap = 200"

definition preview_of :: "message \<Rightarrow> string" where
  "preview_of m =
     (if ms_text m \<noteq> [] then ms_text m
      else (case ms_attachment m of
              None \<Rightarrow> []
            | Some a \<Rightarrow> if aa_kind a = ''image'' then ''Sent a screenshot'' else ''Sent '' @ aa_name a))"

definition with_preview :: "thread \<Rightarrow> thread" where
  "with_preview t =
     (if th_messages t = [] then t
      else t\<lparr>th_last := preview_of (List.last (th_messages t)), th_time := ms_time (List.last (th_messages t))\<rparr>)"

definition thread_line :: "url_parser \<Rightarrow> string \<Rightarrow> event \<Rightarrow> message option" where
  "thread_line parse handoff e =
     map_option (\<lambda>m. if ev_kind e = ''handoff'' then m\<lparr>ms_url := handoff\<rparr> else m) (project_message parse e)"

definition build_thread :: "url_parser \<Rightarrow> string \<Rightarrow> event list \<Rightarrow> string \<Rightarrow> thread" where
  "build_thread parse i es handoff =
     (let ms = apply_decisions (List.map_filter (thread_line parse handoff) es) es in
      with_preview \<lparr>th_agent = i, th_messages = drop (length ms - history_cap) ms, th_last = [], th_time = 0\<rparr>)"

end
