(* ===== verification/Feed.thy ===== *)
theory Feed
  imports Answers
begin

text \<open>
  The app's live connection and its roster (\<^verbatim>\<open>feed.go\<close> and \<^verbatim>\<open>agents.go\<close> of
  \<^verbatim>\<open>internal/chat\<close>). Once a second the host asks the guest what changed and sends what moved;
  what the guest answers is an argument of the tick. The roster row the code compares as JSON is
  compared as the record it encodes; a map walked in no fixed order is walked in the order of its
  entries. Case is changed as in ASCII; text is valid UTF-8.
\<close>

section \<open>The roster as the app draws it\<close>

record app_agent =
  ap_id :: string
  ap_name :: string
  ap_role :: string
  ap_initial :: string
  ap_hue :: nat
  ap_shape :: string
  ap_online :: bool
  ap_task :: string
  ap_state :: string
  ap_machine :: string
  ap_browse :: bool
  ap_custom :: bool
  ap_instructions :: string
  ap_model :: "model_config option"

record profile =
  pf_key :: string
  pf_title :: string
  pf_description :: string
  pf_browser :: bool

record template =
  tp_id :: string
  tp_name :: string
  tp_role :: string
  tp_initial :: string
  tp_hue :: nat
  tp_shape :: string
  tp_active :: bool
  tp_browse :: bool

text \<open>FNV-1a on 32 bits.\<close>

definition fnv_step :: "32 word \<Rightarrow> char \<Rightarrow> 32 word" where
  "fnv_step h c = (xor h (of_nat (of_char c))) * 16777619"

definition hue_of :: "string \<Rightarrow> nat" where
  "hue_of s = unat (foldl fnv_step 2166136261 s mod 360)"

definition shapes :: "(string \<times> string) list" where
  "shapes = [(''boss'', ''diamond''), (''coder'', ''square''), (''researcher'', ''ring''),
     (''analyst'', ''circle''), (''accountant'', ''square''), (''marketer'', ''ring'')]"

definition shape_of :: "string \<Rightarrow> string" where
  "shape_of key = (case map_of shapes key of Some s \<Rightarrow> s | None \<Rightarrow> ''circle'')"

definition rune_tail :: "char \<Rightarrow> bool" where
  "rune_tail c \<longleftrightarrow> 128 \<le> (of_char c :: nat) \<and> (of_char c :: nat) < 192"

definition to_upper :: "char \<Rightarrow> char" where
  "to_upper c = (if 97 \<le> (of_char c :: nat) \<and> (of_char c :: nat) \<le> 122 then char_of ((of_char c :: nat) - 32) else c)"

fun initial_of :: "string \<Rightarrow> string" where
  "initial_of [] = ''?''"
| "initial_of (c # cs) = to_upper c # takeWhile rune_tail cs"

text \<open>The first \<open>n\<close> characters of a text.\<close>

fun take_runes :: "nat \<Rightarrow> string \<Rightarrow> string" where
  "take_runes n [] = []"
| "take_runes n (c # cs) =
     (if rune_tail c then c # take_runes n cs else if n = 0 then [] else c # take_runes (n - 1) cs)"

definition ends_sentence :: "char \<Rightarrow> bool" where
  "ends_sentence c \<longleftrightarrow> c \<in> set [CHR ''.'', newline, CHR ''!'', CHR ''?'']"

definition row_role_cap :: nat where "row_role_cap = 60"

definition ellipsis :: string where "ellipsis = [CHR 0xE2, CHR 0x80, CHR 0xA6]"

definition role_of :: "string \<Rightarrow> string" where
  "role_of instructions =
     (let whole = trim_with is_space instructions;
          line = (if list_ex ends_sentence whole then trim_with is_space (takeWhile (\<lambda>c. \<not> ends_sentence c) whole) else whole) in
      if rune_count line > row_role_cap then trim_with is_space (take_runes (row_role_cap - 1) line) @ ellipsis else line)"

definition project_agent :: "string \<Rightarrow> bool \<Rightarrow> agent_status \<Rightarrow> app_agent" where
  "project_agent machine online st =
     (let custom = (st_type st = custom_type);
          role = role_of (st_instructions st) in
      \<lparr>ap_id = st_id st, ap_name = st_name st,
       ap_role = (if custom \<and> role \<noteq> [] then role else st_description st),
       ap_initial = initial_of (st_name st), ap_hue = hue_of (st_id st), ap_shape = shape_of (st_type st),
       ap_online = online, ap_task = (case st_task st of None \<Rightarrow> [] | Some t \<Rightarrow> tk_title t),
       ap_state = or_default (st_state st) ''idle'',
       ap_machine = machine @ [CHR '' '', CHR 0xC2, CHR 0xB7] @ '' Linux'',
       ap_browse = st_browser st, ap_custom = custom,
       ap_instructions = (if custom then st_instructions st else []), ap_model = (if custom then st_model st else None)\<rparr>)"

definition project_roster :: "string \<Rightarrow> bool \<Rightarrow> agent_status list \<Rightarrow> app_agent list" where
  "project_roster machine online sts = List.map (project_agent machine online) sts"

definition project_template :: "bool \<Rightarrow> profile \<Rightarrow> template" where
  "project_template active p =
     \<lparr>tp_id = pf_key p, tp_name = pf_title p, tp_role = pf_description p, tp_initial = initial_of (pf_title p),
      tp_hue = hue_of (pf_key p), tp_shape = shape_of (pf_key p), tp_active = active, tp_browse = pf_browser p\<rparr>"

definition project_templates :: "profile list \<Rightarrow> agent_status list \<Rightarrow> template list" where
  "project_templates ps sts =
     List.map (\<lambda>p. project_template (pf_key p \<in> set (List.map st_type sts)) p)
       (filter (\<lambda>p. pf_key p \<noteq> boss_id \<and> pf_key p \<noteq> custom_type) ps)"

section \<open>Frames\<close>

datatype feed_frame =
    FAgent app_agent
  | FMessage string message
  | FTyping string bool
  | FResolved string string string int

record feed =
  fd_cursor :: "(string \<times> int) list"
  fd_typing :: "(string \<times> bool) list"
  fd_rows :: "(string \<times> app_agent) list"
  fd_pending :: "(string \<times> string) list"
  fd_machine :: string
  fd_ip :: string

definition new_feed :: "string \<Rightarrow> string \<Rightarrow> feed" where
  "new_feed machine ip = \<lparr>fd_cursor = [], fd_typing = [], fd_rows = [], fd_pending = [], fd_machine = machine, fd_ip = ip\<rparr>"

text \<open>What one tick can see: the roster, each agent's log since an event, who waits for a person, a fresh capability.\<close>

record tick =
  tc_now :: int
  tc_roster :: "agent_status list option"
  tc_events :: "string \<Rightarrow> int \<Rightarrow> (event list \<times> int) option"
  tc_pending :: "raised list option"
  tc_handoff :: string

definition emit_row :: "agent_status \<Rightarrow> feed_frame list \<times> feed \<Rightarrow> feed_frame list \<times> feed" where
  "emit_row st = (\<lambda>(out, f).
     let row = project_agent (fd_machine f) True st in
     if map_of (fd_rows f) (st_id st) = Some row then (out, f)
     else (out @ [FAgent row], f\<lparr>fd_rows := AList.update (st_id st) row (fd_rows f)\<rparr>))"

definition emit_roster :: "agent_status list \<Rightarrow> feed_frame list \<times> feed \<Rightarrow> feed_frame list \<times> feed" where
  "emit_roster sts = fold emit_row sts"

definition typing_of :: "event \<Rightarrow> bool option" where
  "typing_of e = (if ev_type e = ''state'' then Some (ev_session e = ''working'') else None)"

definition emit_typing :: "string \<Rightarrow> bool \<Rightarrow> feed_frame list \<times> feed \<Rightarrow> feed_frame list \<times> feed" where
  "emit_typing i typing = (\<lambda>(out, f).
     if map_of (fd_typing f) i = Some typing then (out, f)
     else (out @ [FTyping i typing], f\<lparr>fd_typing := AList.update i typing (fd_typing f)\<rparr>))"

definition emit_decision :: "string \<Rightarrow> event \<Rightarrow> feed_frame list \<times> feed \<Rightarrow> feed_frame list \<times> feed" where
  "emit_decision i e = (\<lambda>(out, f).
     case map_of (fd_pending f) (ev_approval e) of
       None \<Rightarrow> (out, f)
     | Some mid \<Rightarrow> (out @ [FResolved i mid (verdict_of (ev_decision e)) (ev_ts e)],
         f\<lparr>fd_pending := AList.delete (ev_approval e) (fd_pending f)\<rparr>))"

definition emit_message :: "url_parser \<Rightarrow> string \<Rightarrow> string \<Rightarrow> event \<Rightarrow> feed_frame list \<times> feed \<Rightarrow> feed_frame list \<times> feed" where
  "emit_message parse handoff i e = (\<lambda>(out, f).
     case (if ev_type e = ''user'' then None else thread_line parse handoff e) of
       None \<Rightarrow> (out, f)
     | Some m \<Rightarrow> (out @ [FMessage i m],
         if ms_kind m = ''ask'' then f\<lparr>fd_pending := AList.update (ev_approval e) (ms_id m) (fd_pending f)\<rparr> else f))"

definition forward_one :: "url_parser \<Rightarrow> string \<Rightarrow> string \<Rightarrow> event \<Rightarrow> feed_frame list \<times> feed \<Rightarrow> feed_frame list \<times> feed" where
  "forward_one parse handoff i e s =
     (case typing_of e of
        Some typing \<Rightarrow> emit_typing i typing s
      | None \<Rightarrow> if ev_type e = ''decision'' then emit_decision i e s else emit_message parse handoff i e s)"

definition forward_all :: "url_parser \<Rightarrow> string \<Rightarrow> string \<Rightarrow> event list \<Rightarrow> feed_frame list \<times> feed \<Rightarrow> feed_frame list \<times> feed" where
  "forward_all parse handoff i es = fold (forward_one parse handoff i) es"

definition emit_events :: "url_parser \<Rightarrow> tick \<Rightarrow> agent_status \<Rightarrow> feed_frame list \<times> feed \<Rightarrow> feed_frame list \<times> feed" where
  "emit_events parse t st = (\<lambda>(out, f).
     case map_of (fd_cursor f) (st_id st) of
       None \<Rightarrow> (out, f\<lparr>fd_cursor := AList.update (st_id st) (st_last st) (fd_cursor f)\<rparr>)
     | Some seen \<Rightarrow>
         if st_last st \<le> seen then (out, f)
         else (case tc_events t (st_id st) seen of
                 None \<Rightarrow> (out, f)
               | Some (es, last_id) \<Rightarrow>
                   forward_all parse (tc_handoff t) (st_id st) es
                     (out, f\<lparr>fd_cursor := AList.update (st_id st) last_id (fd_cursor f)\<rparr>)))"

definition expire_one :: "tick \<Rightarrow> string list \<Rightarrow> string \<times> string \<Rightarrow> feed_frame list \<times> feed \<Rightarrow> feed_frame list \<times> feed" where
  "expire_one t alive = (\<lambda>(apid, mid) (out, f).
     if apid \<in> set alive then (out, f)
     else (out @ [FResolved (case cut_at CHR ''.'' apid of Some (i, _) \<Rightarrow> i | None \<Rightarrow> apid) mid ''denied'' (tc_now t)],
       f\<lparr>fd_pending := AList.delete apid (fd_pending f)\<rparr>))"

definition emit_expiries :: "tick \<Rightarrow> feed_frame list \<times> feed \<Rightarrow> feed_frame list \<times> feed" where
  "emit_expiries t = (\<lambda>(out, f).
     if fd_pending f = [] then (out, f)
     else (case tc_pending t of
             None \<Rightarrow> (out, f)
           | Some rs \<Rightarrow> fold (expire_one t (List.map ra_id rs)) (fd_pending f) (out, f)))"

definition feed_sweep :: "url_parser \<Rightarrow> tick \<Rightarrow> feed \<Rightarrow> feed_frame list \<times> feed" where
  "feed_sweep parse t f =
     (case tc_roster t of
        None \<Rightarrow> ([], f)
      | Some sts \<Rightarrow> emit_expiries t (fold (emit_events parse t) sts (emit_roster sts ([], f))))"

section \<open>The connection\<close>

text \<open>What asking the control plane for the machine's address brings.\<close>

datatype resolved = AtAddress string | NoMachine | Unverified

definition stale_limit :: nat where "stale_limit = 15"

datatype poll_end = GoesOn nat feed | MachineGone | TooStale | AddressMoved

definition feed_poll :: "url_parser \<Rightarrow> resolved \<Rightarrow> tick \<Rightarrow> nat \<times> feed \<Rightarrow> feed_frame list \<times> poll_end" where
  "feed_poll parse r t = (\<lambda>(stale, f).
     case r of
       NoMachine \<Rightarrow> ([], MachineGone)
     | Unverified \<Rightarrow> ([], if stale + 1 \<ge> stale_limit then TooStale else GoesOn (stale + 1) f)
     | AtAddress ip \<Rightarrow>
         if ip \<noteq> fd_ip f then ([], AddressMoved)
         else (case feed_sweep parse t f of (out, g) \<Rightarrow> (out, GoesOn 0 g)))"

fun feed_run :: "url_parser \<Rightarrow> (resolved \<times> tick) list \<Rightarrow> nat \<times> feed \<Rightarrow> feed_frame list \<times> poll_end" where
  "feed_run parse [] s = ([], GoesOn (fst s) (snd s))"
| "feed_run parse ((r, t) # ps) s =
     (case feed_poll parse r t s of
        (out, GoesOn n f) \<Rightarrow> (case feed_run parse ps (n, f) of (later, e) \<Rightarrow> (out @ later, e))
      | (out, e) \<Rightarrow> (out, e))"

end
