(* ===== verification/Bridge.thy ===== *)
theory Bridge
  imports Answers
begin

text \<open>
  The operator's page (\<^verbatim>\<open>bridge.go\<close>, \<^verbatim>\<open>beats.go\<close>, the stream half of \<^verbatim>\<open>api.go\<close> and the
  capabilities of \<^verbatim>\<open>vncgw.go\<close>): one consumer per machine that turns the boss's log into frames and the hub's
  raised hands into cards, fans them out to the pages, and lives as long as somebody watches. The JSON codec is a
  function from a tool's input to the path it names, randomness a sequence of keys.
\<close>

section \<open>Capabilities for the screen\<close>

record vnc_grant =
  vg_vm :: string
  vg_expires :: int

record caps =
  cp_origin :: string
  cp_grants :: "(string \<times> vnc_grant) list"
  cp_minted :: nat

definition cap_ttl :: int where "cap_ttl = 15 * 60 * ns_per_sec"

definition sweep_caps :: "int \<Rightarrow> caps \<Rightarrow> caps" where
  "sweep_caps now c = c\<lparr>cp_grants := filter (\<lambda>(k, g). \<not> now > vg_expires g) (cp_grants c)\<rparr>"

definition mint_cap :: "(nat \<Rightarrow> string) \<Rightarrow> int \<Rightarrow> string \<Rightarrow> caps \<Rightarrow> string \<times> caps" where
  "mint_cap keys now vm c =
     (let key = keys (cp_minted c); c1 = sweep_caps now c in
      (cp_origin c @ ''/v/'' @ vm @ ''?k='' @ key,
       c1\<lparr>cp_grants := AList.update key \<lparr>vg_vm = vm, vg_expires = now + cap_ttl\<rparr> (cp_grants c1), cp_minted := Suc (cp_minted c)\<rparr>))"

definition check_cap :: "int \<Rightarrow> string \<Rightarrow> string \<Rightarrow> caps \<Rightarrow> bool" where
  "check_cap now key vm c =
     (case map_of (cp_grants c) key of None \<Rightarrow> False | Some g \<Rightarrow> vg_vm g = vm \<and> now < vg_expires g)"

definition revoke_caps :: "string \<Rightarrow> caps \<Rightarrow> caps" where
  "revoke_caps vm c = c\<lparr>cp_grants := filter (\<lambda>(k, g). vg_vm g \<noteq> vm) (cp_grants c)\<rparr>"

section \<open>Frames\<close>

record frame_out =
  fo_id :: int
  fo_kind :: string
  fo_role :: string
  fo_text :: string
  fo_tool :: string
  fo_label :: string
  fo_state :: string
  fo_pending :: string
  fo_card :: "card option"
  fo_url :: string
  fo_detail :: string
  fo_ok :: bool
  fo_dur :: i64

definition zero_frame :: frame_out where
  "zero_frame =
     \<lparr>fo_id = 0, fo_kind = [], fo_role = [], fo_text = [], fo_tool = [], fo_label = [], fo_state = [], fo_pending = [],
      fo_card = None, fo_url = [], fo_detail = [], fo_ok = False, fo_dur = 0\<rparr>"

definition new_frame :: "int \<Rightarrow> string \<Rightarrow> frame_out" where
  "new_frame i kind = zero_frame\<lparr>fo_id := i, fo_kind := kind\<rparr>"

definition beats :: "(string \<times> string) list" where
  "beats =
     [(''navigate_page'', ''Opening a page''), (''take_snapshot'', ''Reading the page''), (''click'', ''Clicking''),
      (''fill'', ''Typing''), (''fill_form'', ''Filling a form''), (''press_key'', ''Pressing a key''),
      (''wait_for'', ''Waiting for the page''), (''take_screenshot'', ''Taking a screenshot''),
      (''list_pages'', ''Checking open tabs''), (''handle_dialog'', ''Answering a dialog''), (''new_page'', ''Opening a tab''),
      (''select_page'', ''Switching tabs''), (''close_page'', ''Closing a tab''), (''drag'', ''Dragging''),
      (''upload_file'', ''Uploading a file''), (''hover'', ''Hovering''),
      (''Bash'', ''Running a command''), (''Read'', ''Reading a file''), (''Write'', ''Writing a file''),
      (''Edit'', ''Editing a file''), (''Glob'', ''Looking for files''), (''Grep'', ''Searching files''),
      (''send_file'', ''Sending a file''), (''send_screenshot'', ''Sending a screenshot''),
      (''delegate'', ''Handing work to a specialist''), (''start_task'', ''Opening a task folder''),
      (''message_agent'', ''Messaging a teammate''), (''list_agents'', ''Checking the team''),
      (''list_agent_types'', ''Checking what it can hire''), (''create_agent'', ''Hiring a specialist''),
      (''delete_agent'', ''Letting a specialist go'')]"

definition memory_segment :: string where "memory_segment = ''/memory/''"
definition instructions_suffix :: string where "instructions_suffix = ''/instructions.md''"

text \<open>What follows the last occurrence of a text, if it occurs.\<close>

definition after_last :: "string \<Rightarrow> string \<Rightarrow> string option" where
  "after_last sep s = map_option (drop (length sep)) (List.find (prefix sep) (rev (suffixes s)))"

definition memory_beat :: "string \<Rightarrow> (string \<times> string) option" where
  "memory_beat path =
     (if suffix instructions_suffix path then Some (''Updating its instructions'', [])
      else map_option (Pair ''Updating memory'') (after_last memory_segment path))"

definition beat_label :: "(string \<Rightarrow> string) \<Rightarrow> string \<Rightarrow> string \<Rightarrow> string \<times> string" where
  "beat_label path_of tool input =
     (let plain = ((case map_of beats tool of Some l \<Rightarrow> l | None \<Rightarrow> []), []) in
      if tool = ''Write'' \<or> tool = ''Edit''
      then (case memory_beat (path_of input) of Some ld \<Rightarrow> ld | None \<Rightarrow> plain) else plain)"

definition tool_beat :: "(string \<Rightarrow> string) \<Rightarrow> event \<Rightarrow> frame_out" where
  "tool_beat path_of e =
     (case beat_label path_of (ev_tool e) (ev_input e) of
        (label, detail) \<Rightarrow> (new_frame (ev_id e) ''beat'')\<lparr>fo_tool := ev_tool e, fo_label := label, fo_detail := detail\<rparr>)"

definition team_beat :: "event \<Rightarrow> string" where
  "team_beat e =
     (if ev_type e = ''delegation'' then ''Handed '' @ ev_task_title e @ '' to '' @ ev_to e
      else if ev_type e = ''task_start'' then ''Started: '' @ ev_task_title e
      else if ev_from e \<noteq> [] then ''Heard back from '' @ ev_from e
      else if ev_to e \<noteq> [] then ''Messaged '' @ ev_to e
      else ''Talking to the team'')"

definition frame_for :: "(string \<Rightarrow> string) \<Rightarrow> event \<Rightarrow> frame_out option" where
  "frame_for path_of e =
     (let f = new_frame (ev_id e); t = ev_type e in
      if t = ''user'' then Some ((f ''say'')\<lparr>fo_role := ''user'', fo_text := ev_text e\<rparr>)
      else if t = ''text'' then Some ((f ''say'')\<lparr>fo_role := ''agent'', fo_text := ev_text e\<rparr>)
      else if t = ''tool_use'' then Some (tool_beat path_of e)
      else if t = ''state'' then Some ((f ''state'')\<lparr>fo_state := ev_session e\<rparr>)
      else if t = ''agent_message'' \<or> t = ''delegation'' \<or> t = ''task_start''
      then Some ((f ''beat'')\<lparr>fo_tool := t, fo_label := team_beat e\<rparr>)
      else if t = ''turn_complete'' then Some ((f ''turn'')\<lparr>fo_ok := \<not> ev_error e, fo_dur := ev_duration e\<rparr>)
      else if t = ''error'' then Some ((f ''error'')\<lparr>fo_text := ev_message e\<rparr>)
      else None)"

section \<open>The bridge\<close>

text \<open>\<open>br_running\<close>: the consumers' context is not cancelled; \<open>br_idle\<close>: a timer is held.\<close>

record bridge =
  br_id :: string
  br_subs :: "(nat \<times> frame_out list) list"
  br_cards :: "(string \<times> card) list"
  br_last :: int
  br_running :: bool
  br_idle :: bool
  br_closed :: bool

definition new_bridge :: "string \<Rightarrow> bridge" where
  "new_bridge i = \<lparr>br_id = i, br_subs = [], br_cards = [], br_last = 0, br_running = True, br_idle = False, br_closed = False\<rparr>"

definition page_queue :: nat where "page_queue = 64"

definition emit :: "frame_out \<Rightarrow> bridge \<Rightarrow> bridge" where
  "emit f b = b\<lparr>br_subs := offer page_queue f (br_subs b)\<rparr>"

definition on_event :: "(string \<Rightarrow> string) \<Rightarrow> event \<Rightarrow> bridge \<Rightarrow> bridge" where
  "on_event path_of e b =
     (let b1 = b\<lparr>br_last := max (br_last b) (ev_id e)\<rparr> in
      case frame_for path_of e of Some f \<Rightarrow> emit f b1 | None \<Rightarrow> b1)"

definition card_frame :: "string \<Rightarrow> card \<Rightarrow> frame_out" where
  "card_frame url c = (new_frame 0 ''pending'')\<lparr>fo_pending := cd_id c, fo_card := Some c, fo_url := url\<rparr>"

text \<open>A handoff's card carries a link to the screen.\<close>

definition link_for :: "(nat \<Rightarrow> string) \<Rightarrow> int \<Rightarrow> string \<Rightarrow> card \<Rightarrow> caps \<Rightarrow> string \<times> caps" where
  "link_for keys now vm c k = (if cd_kind c = ''handoff'' then mint_cap keys now vm k else ([], k))"

definition card_for :: "(nat \<Rightarrow> string) \<Rightarrow> int \<Rightarrow> raised \<Rightarrow> bridge \<times> caps \<Rightarrow> frame_out \<times> bridge \<times> caps" where
  "card_for keys now r bk =
     (let c = build_card r in
      case link_for keys now (br_id (fst bk)) c (snd bk) of
        (url, k) \<Rightarrow> (card_frame url c, (fst bk)\<lparr>br_cards := AList.update (cd_id c) c (br_cards (fst bk))\<rparr>, k))"

definition forget_card :: "string \<Rightarrow> bridge \<Rightarrow> bridge" where
  "forget_card i b = b\<lparr>br_cards := AList.delete i (br_cards b)\<rparr>"

definition known_card :: "string \<Rightarrow> bridge \<Rightarrow> bool" where
  "known_card i b \<longleftrightarrow> map_of (br_cards b) i \<noteq> None"

definition resolved_frame :: "string \<Rightarrow> frame_out" where
  "resolved_frame i = (new_frame 0 ''resolved'')\<lparr>fo_pending := i\<rparr>"

definition show_card :: "(nat \<Rightarrow> string) \<Rightarrow> int \<Rightarrow> raised \<Rightarrow> bridge \<times> caps \<Rightarrow> bridge \<times> caps" where
  "show_card keys now r bk =
     (if known_card (ra_id r) (fst bk) then bk
      else (case card_for keys now r bk of (f, b, k) \<Rightarrow> (emit f b, k)))"

text \<open>A change with no id to clear is a raised hand.\<close>

definition on_pending :: "(nat \<Rightarrow> string) \<Rightarrow> int \<Rightarrow> pending_change \<Rightarrow> bridge \<times> caps \<Rightarrow> bridge \<times> caps" where
  "on_pending keys now c bk =
     (case c of
        HandDown i \<Rightarrow> (emit (resolved_frame i) (forget_card i (fst bk)), snd bk)
      | HandUp r \<Rightarrow> show_card keys now r bk)"

definition drop_missing :: "string list \<Rightarrow> bridge \<Rightarrow> string list \<times> bridge" where
  "drop_missing keep b =
     (filter (\<lambda>i. i \<notin> set keep) (List.map fst (br_cards b)),
      b\<lparr>br_cards := filter (\<lambda>(i, c). i \<in> set keep) (br_cards b)\<rparr>)"

definition resync :: "(nat \<Rightarrow> string) \<Rightarrow> int \<Rightarrow> raised list \<Rightarrow> bridge \<times> caps \<Rightarrow> bridge \<times> caps" where
  "resync keys now up bk =
     (case drop_missing (List.map ra_id up) (fst bk) of
        (gone, b) \<Rightarrow> fold (show_card keys now) up (fold (\<lambda>i. emit (resolved_frame i)) gone b, snd bk))"

section \<open>Who watches\<close>

text \<open>\<open>False\<close>: the channel handed back is closed and is nobody's.\<close>

definition subscribe_page :: "nat \<Rightarrow> bridge \<Rightarrow> bool \<times> bridge" where
  "subscribe_page n b =
     (if br_closed b then (False, b\<lparr>br_idle := False\<rparr>)
      else (True, b\<lparr>br_subs := (n, []) # br_subs b, br_idle := False, br_running := True\<rparr>))"

definition unsubscribe_page :: "nat \<Rightarrow> bridge \<Rightarrow> bridge" where
  "unsubscribe_page n b =
     (let b1 = b\<lparr>br_subs := AList.delete n (br_subs b)\<rparr> in
      if br_subs b1 = [] \<and> \<not> br_idle b then b1\<lparr>br_idle := True\<rparr> else b1)"

definition stop_if_empty :: "bridge \<Rightarrow> bridge" where
  "stop_if_empty b = (if br_subs b = [] then b\<lparr>br_running := False\<rparr> else b)"

definition close_bridge :: "bridge \<Rightarrow> bridge" where
  "close_bridge b = b\<lparr>br_closed := True, br_idle := False, br_running := False\<rparr>"

section \<open>A page\<close>

definition ring_size :: nat where "ring_size = 200"

text \<open>The cards in the order they were asked.\<close>

definition cards :: "bridge \<Rightarrow> card list" where
  "cards b = sort_key (\<lambda>c. (cd_since c, cd_id c)) (List.map snd (br_cards b))"

definition with_pending :: "(nat \<Rightarrow> string) \<Rightarrow> int \<Rightarrow> frame_out list \<Rightarrow> bridge \<times> caps \<Rightarrow> frame_out list \<times> caps" where
  "with_pending keys now out bk =
     fold (\<lambda>c (fs, k). case link_for keys now (br_id (fst bk)) c k of (url, k') \<Rightarrow> (fs @ [card_frame url c], k'))
       (cards (fst bk)) (out, snd bk)"

definition newest :: "nat \<Rightarrow> 'a list \<Rightarrow> 'a list" where
  "newest n xs = drop (length xs - n) xs"

definition replay :: "(string \<Rightarrow> string) \<Rightarrow> (nat \<Rightarrow> string) \<Rightarrow> int \<Rightarrow> event list \<Rightarrow> bridge \<times> caps \<Rightarrow> frame_out list \<times> caps" where
  "replay path_of keys now es bk = with_pending keys now (newest ring_size (List.map_filter (frame_for path_of) es)) bk"

definition emit_frame :: "frame_out \<Rightarrow> frame_out list \<times> int \<Rightarrow> frame_out list \<times> int" where
  "emit_frame f ws =
     (case ws of (written, sent) \<Rightarrow>
        if fo_id f > 0 \<and> fo_id f \<le> sent then (written, sent) else (written @ [f], max (fo_id f) sent))"

text \<open>A receive takes the oldest frame, waits when there is none, and on a closed channel yields the zero value.\<close>

datatype page_chan = OpenChan "frame_out list" | ClosedChan

fun receive :: "page_chan \<Rightarrow> (frame_out \<times> page_chan) option" where
  "receive (OpenChan []) = None"
| "receive (OpenChan (f # fs)) = Some (f, OpenChan fs)"
| "receive ClosedChan = Some (zero_frame, ClosedChan)"

text \<open>\<^verbatim>\<open>pump\<close>: the history, then \<open>n\<close> rounds of its loop, each taking a frame if there is one.\<close>

fun pump_loop :: "nat \<Rightarrow> page_chan \<Rightarrow> frame_out list \<times> int \<Rightarrow> frame_out list \<times> int" where
  "pump_loop 0 ch ws = ws"
| "pump_loop (Suc n) ch ws =
     (case receive ch of None \<Rightarrow> ws | Some (f, ch') \<Rightarrow> pump_loop n ch' (emit_frame f ws))"

definition pump :: "nat \<Rightarrow> int \<Rightarrow> frame_out list \<Rightarrow> page_chan \<Rightarrow> frame_out list \<times> int" where
  "pump n from past ch = pump_loop n ch (fold emit_frame past ([], from))"

end
