(* ===== verification/Account.thy ===== *)
theory Account
  imports ControlApi AppsGate Feed Bridge
begin

text \<open>
  A person's account on the chat service (\<^verbatim>\<open>v1.go\<close>, the life of bridges in \<^verbatim>\<open>server.go\<close>): finding or booting the
  person's machine, the team's routes, and erasing everything. The control plane is the model of it, reached over a wire that may
  drop a call or its answer; the provider, the store of sessions and the guest are answers.
\<close>

section \<open>The service and what it stands on\<close>

text \<open>
  \<open>wd_rows\<close> is the table of sessions, \<open>wd_retired\<close> the bridges that were taken out of the map and still have pages,
  \<open>wd_returned\<close> the grants the provider accepted back. A feature is off where its flag is.
\<close>

record 'n world =
  wd_api :: "'n api"
  wd_provider :: bool
  wd_store :: bool
  wd_rows :: "string \<rightharpoonup> app_session"
  wd_returned :: "string list"
  wd_bridges :: "(string \<times> bridge) list"
  wd_retired :: "bridge list"
  wd_caps :: caps
  wd_claims :: claims
  wd_gw :: apps_gw

definition bridge_for :: "string \<Rightarrow> 'n world \<Rightarrow> bridge \<times> 'n world" where
  "bridge_for i w =
     (case map_of (wd_bridges w) i of
        Some b \<Rightarrow> (b, w)
      | None \<Rightarrow> (new_bridge i, w\<lparr>wd_bridges := AList.update i (new_bridge i) (wd_bridges w)\<rparr>))"

definition drop_bridge :: "string \<Rightarrow> 'n world \<Rightarrow> bridge option \<times> 'n world" where
  "drop_bridge i w = (map_of (wd_bridges w) i, w\<lparr>wd_bridges := AList.delete i (wd_bridges w)\<rparr>)"

definition forget_session :: "string \<Rightarrow> 'n world \<Rightarrow> 'n world" where
  "forget_session machine w =
     (case forget_apps machine (wd_claims w, wd_gw w) of (c, g) \<Rightarrow> w\<lparr>wd_claims := c, wd_gw := g\<rparr>)"

section \<open>Erasing an account\<close>

text \<open>\<open>accepts\<close> is the provider's answer for each connection. Every one is tried, whatever becomes of the others.\<close>

definition disconnect_all :: "(string \<Rightarrow> bool) \<Rightarrow> connection list \<Rightarrow> bool \<times> string list" where
  "disconnect_all accepts held = (list_all (accepts \<circ> cx_id) held, filter accepts (List.map cx_id held))"

definition revoke_apps :: "connection list option \<Rightarrow> (string \<Rightarrow> bool) \<Rightarrow> 'n world \<Rightarrow> bool \<times> 'n world" where
  "revoke_apps listed accepts w =
     (if \<not> wd_provider w then (True, w)
      else (case listed of
              None \<Rightarrow> (False, w)
            | Some held \<Rightarrow>
                (case disconnect_all accepts held of (fine, gone) \<Rightarrow> (fine, w\<lparr>wd_returned := wd_returned w @ gone\<rparr>))))"

text \<open>\<open>deleted\<close>: the row could be deleted.\<close>

definition forget_machine :: "bool \<Rightarrow> string \<Rightarrow> string \<Rightarrow> 'n world \<Rightarrow> bool \<times> 'n world" where
  "forget_machine deleted user machine w =
     (if wd_store w \<and> \<not> deleted then (False, w)
      else (let w1 = (if wd_store w then w\<lparr>wd_rows := (wd_rows w)(user := None)\<rparr> else w) in
        case drop_bridge machine w1 of
          (b, w2) \<Rightarrow>
            (let w3 = (case b of None \<Rightarrow> w2 | Some b \<Rightarrow> w2\<lparr>wd_retired := wd_retired w2 @ [close_bridge b]\<rparr>);
                 w4 = w3\<lparr>wd_caps := revoke_caps machine (wd_caps w3)\<rparr> in
             (True, forget_session machine w4))))"

definition delete_account ::
  "wire \<Rightarrow> 'n ip_command \<Rightarrow> stop_env \<Rightarrow> connection list option \<Rightarrow> (string \<Rightarrow> bool) \<Rightarrow> bool \<Rightarrow> string \<Rightarrow> 'n world \<Rightarrow> int \<times> 'n world" where
  "delete_account wr ip s listed accepts deleted user w =
     (let machine = machine_for user in
      if machine = [] then (400, w)
      else (case revoke_apps listed accepts w of
              (False, w1) \<Rightarrow> (502, w1)
            | (True, w1) \<Rightarrow>
                (case control_delete wr ip s machine (wd_api w1) of
                   (Some e, a) \<Rightarrow> (502, w1\<lparr>wd_api := a\<rparr>)
                 | (None, a) \<Rightarrow>
                     (case forget_machine deleted user machine (w1\<lparr>wd_api := a\<rparr>) of
                        (False, w2) \<Rightarrow> (502, w2)
                      | (True, w2) \<Rightarrow> (204, w2)))))"

section \<open>Finding the machine\<close>

text \<open>How the calls go and what is answered when a machine is looked up, and created if there is none.\<close>

record 'n boot_call =
  bc_look :: wire
  bc_create :: wire
  bc_again :: wire
  bc_said :: "vptr \<Rightarrow> string option"
  bc_ip :: "'n ip_command"
  bc_boot :: boot_env
  bc_stop :: stop_env
  bc_now :: int
  bc_rnd :: "string option"

definition ensure_machine :: "'n boot_call \<Rightarrow> string \<Rightarrow> 'n world \<Rightarrow> (control_error + vm_view) \<times> 'n world" where
  "ensure_machine c machine w =
     (case control_vm (bc_look c) (bc_said c) machine (wd_api w) of
        (Inl NoSuchVm, a) \<Rightarrow>
          (let w1 = forget_session machine (w\<lparr>wd_api := a\<rparr>) in
           case control_create (bc_create c) (bc_again c) (bc_said c) (bc_ip c) (bc_boot c) (bc_stop c) (bc_now c) (bc_rnd c) machine
                  (wd_api w1) of
             (r, a1) \<Rightarrow> (r, w1\<lparr>wd_api := a1\<rparr>))
      | (r, a) \<Rightarrow> (r, w\<lparr>wd_api := a\<rparr>))"

text \<open>Whether a push is started; it runs on its own.\<close>

definition ensure_apps :: "int \<Rightarrow> vm_view \<Rightarrow> 'n world \<Rightarrow> bool \<times> 'n world" where
  "ensure_apps now v w =
     (if \<not> wd_provider w \<or> \<not> wd_store w then (False, w)
      else (case claim_apps now (vw_id v) (wd_claims w) of (won, cs) \<Rightarrow> (won, w\<lparr>wd_claims := cs\<rparr>)))"

text \<open>The guest's address, and whether a push was started; or the status the caller is answered.\<close>

definition guest_of :: "'n boot_call \<Rightarrow> string \<Rightarrow> 'n world \<Rightarrow> (int + string \<times> bool) \<times> 'n world" where
  "guest_of c user w =
     (let machine = machine_for user in
      if machine = [] then (Inl 502, w)
      else (case ensure_machine c machine w of
              (Inl e, w1) \<Rightarrow> (Inl 502, w1)
            | (Inr v, w1) \<Rightarrow> (case ensure_apps (bc_now c) v w1 of (pushed, w2) \<Rightarrow> (Inr (vw_guest v, pushed), w2))))"

definition roster_of ::
  "'n boot_call \<Rightarrow> (string \<Rightarrow> agent_status list option) \<Rightarrow> string \<Rightarrow> 'n world \<Rightarrow> app_agent list option \<times> 'n world" where
  "roster_of c guest user w =
     (let machine = machine_for user in
      if machine = [] then (Some [], w)
      else (case ensure_machine c machine w of
              (Inl e, w1) \<Rightarrow> (None, w1)
            | (Inr v, w1) \<Rightarrow>
                if vw_state v \<noteq> Running then (Some [], w1)
                else (case ensure_apps (bc_now c) v w1 of
                        (pushed, w2) \<Rightarrow> (map_option (project_roster machine True) (guest (vw_guest v)), w2))))"

section \<open>The team's routes\<close>

datatype guest_failure = GuestSaid int string | GuestAway

record v1_reply =
  v1_status :: int
  v1_retry :: "string option"
  v1_error :: string

definition fail_with :: "int \<Rightarrow> string \<Rightarrow> v1_reply" where
  "fail_with code msg = \<lparr>v1_status = code, v1_retry = None, v1_error = msg\<rparr>"

definition relayable :: "int \<Rightarrow> bool" where
  "relayable code \<longleftrightarrow> (code \<ge> 400 \<and> code < 500) \<or> code = 503"

definition relay :: "guest_failure \<Rightarrow> v1_reply" where
  "relay e =
     (case e of
        GuestAway \<Rightarrow> fail_with 502 ''unreachable''
      | GuestSaid code msg \<Rightarrow>
          if \<not> relayable code then fail_with 502 msg
          else (fail_with code (if msg = [] then ''agent unavailable'' else msg))\<lparr>v1_retry := (if code = 503 then Some ''5'' else None)\<rparr>)"

definition find_status :: "agent_status list \<Rightarrow> string \<Rightarrow> agent_status option" where
  "find_status roster i = List.find (\<lambda>st. st_id st = i) roster"

definition lookup_type :: "profile list option \<Rightarrow> agent_status list option \<Rightarrow> string \<Rightarrow> (profile option \<times> agent_status list) option" where
  "lookup_type profiles roster key =
     (case profiles of
        None \<Rightarrow> None
      | Some ps \<Rightarrow> (case roster of None \<Rightarrow> None | Some rs \<Rightarrow> Some (List.find (\<lambda>p. pf_key p = key) ps, rs)))"

definition activate ::
  "profile list option \<Rightarrow> agent_status list option \<Rightarrow> (create_req \<Rightarrow> guest_failure + agent_status) \<Rightarrow> string \<Rightarrow> string \<Rightarrow>
   v1_reply + app_agent" where
  "activate profiles roster create machine key =
     (case lookup_type profiles roster key of
        None \<Rightarrow> Inl (fail_with 502 ''unreachable'')
      | Some (p, rs) \<Rightarrow>
          if p = None \<or> pf_key (the p) = [] \<or> key = boss_id \<or> key = custom_type then Inl (fail_with 400 ''unknown templateId'')
          else if list_ex (\<lambda>st. st_type st = key) rs then Inl (fail_with 409 ''already active'')
          else (case create \<lparr>cr_type = pf_key (the p), cr_name = pf_title (the p), cr_instructions = [], cr_model = None\<rparr> of
                  Inl e \<Rightarrow> Inl (relay e)
                | Inr st \<Rightarrow> Inr (project_agent machine True st)))"

definition retirable :: "agent_status list option \<Rightarrow> string \<Rightarrow> (int \<times> string) option" where
  "retirable roster i =
     (if i = boss_id then Some (409, ''the boss cannot be retired'')
      else (case roster of
              None \<Rightarrow> Some (502, ''unreachable'')
            | Some rs \<Rightarrow> if find_status rs i = None then Some (404, ''no such agent'') else None))"

definition retire_agent :: "agent_status list option \<Rightarrow> bool \<Rightarrow> string \<Rightarrow> int" where
  "retire_agent roster deleted i =
     (case retirable roster i of Some (code, msg) \<Rightarrow> code | None \<Rightarrow> if deleted then 204 else 502)"

definition cancel_reply :: "guest_failure option \<Rightarrow> int" where
  "cancel_reply e =
     (case e of None \<Rightarrow> 204 | Some (GuestSaid code msg) \<Rightarrow> if code = 404 then 404 else 502 | Some GuestAway \<Rightarrow> 502)"

end
