(* ===== verification/FileTools.thy ===== *)
theory FileTools
  imports Roster
begin

text \<open>
  The file tools of an agent (\<^verbatim>\<open>tools_file.go\<close>, with the truncation of
  \<^verbatim>\<open>skills.go\<close>): which paths it may read and write, what an edit replaces, what a glob
  matches, what a search finds. Paths are cleaned as \<^verbatim>\<open>path/filepath\<close> does it on Unix; the
  files are a map from clean absolute paths to contents, links not followed, as the code never looks at them.
  A regular expression given by the model is a predicate on lines. Text is valid UTF-8.
\<close>

section \<open>Package filepath\<close>

definition is_abs :: "string \<Rightarrow> bool" where
  "is_abs p \<longleftrightarrow> p \<noteq> [] \<and> hd p = CHR ''/''"

text \<open>One element of a path joins those before it, which are held in reverse.\<close>

fun push_elem :: "bool \<Rightarrow> string list \<Rightarrow> string \<Rightarrow> string list" where
  "push_elem rooted acc c =
     (if c = [] \<or> c = ''.'' then acc
      else if c = ''..'' then
        (case acc of
           [] \<Rightarrow> if rooted then [] else [c]
         | a # rest \<Rightarrow> if a = ''..'' then c # acc else rest)
      else c # acc)"

declare push_elem.simps [simp del]

definition path_elems :: "string \<Rightarrow> string list" where
  "path_elems p = rev (foldl (push_elem (is_abs p)) [] (split_on CHR ''/'' p))"

definition render_path :: "bool \<Rightarrow> string list \<Rightarrow> string" where
  "render_path rooted cs =
     (if rooted then CHR ''/'' # join_with ''/'' cs else if cs = [] then ''.'' else join_with ''/'' cs)"

definition clean_path :: "string \<Rightarrow> string" where
  "clean_path p = render_path (is_abs p) (path_elems p)"

text \<open>\<^verbatim>\<open>filepath.Join\<close> of two elements.\<close>

definition join_path :: "string \<Rightarrow> string \<Rightarrow> string" where
  "join_path a b =
     (if a = [] \<and> b = [] then [] else if a = [] then clean_path b else if b = [] then clean_path a
      else clean_path (a @ ''/'' @ b))"

text \<open>\<^verbatim>\<open>filepath.Abs\<close>; the working directory can be unknown.\<close>

definition abs_path :: "string option \<Rightarrow> string \<Rightarrow> string option" where
  "abs_path wd p = (if is_abs p then Some (clean_path p) else map_option (\<lambda>d. join_path d p) wd)"

section \<open>Where an agent may reach\<close>

record roots =
  rt_workspace :: string
  rt_own :: string
  rt_builtin :: string

definition readable_roots :: "roots \<Rightarrow> string list" where
  "readable_roots r = [rt_workspace r, rt_own r, rt_builtin r]"

definition writable_roots :: "roots \<Rightarrow> string list" where
  "writable_roots r = [rt_workspace r, rt_own r]"

datatype reach_error = OutsideRoots string | BuiltinReadOnly string | BadRoot

definition under_root :: "string option \<Rightarrow> string \<Rightarrow> string \<Rightarrow> bool" where
  "under_root wd full dir =
     (if dir = [] then False
      else (case abs_path wd dir of
              None \<Rightarrow> False
            | Some base \<Rightarrow> full = base \<or> prefix (base @ ''/'') full))"

definition under :: "string option \<Rightarrow> string \<Rightarrow> string list \<Rightarrow> bool" where
  "under wd full dirs = list_ex (under_root wd full) dirs"

definition absolute :: "string option \<Rightarrow> string \<Rightarrow> string \<Rightarrow> reach_error + string" where
  "absolute wd ws p =
     (if is_abs p then Inr (clean_path p)
      else (case abs_path wd ws of None \<Rightarrow> Inl BadRoot | Some base \<Rightarrow> Inr (clean_path (join_path base p))))"

definition resolve_read :: "string option \<Rightarrow> roots \<Rightarrow> string \<Rightarrow> reach_error + string" where
  "resolve_read wd r p =
     (case absolute wd (rt_workspace r) p of
        Inl e \<Rightarrow> Inl e
      | Inr full \<Rightarrow> if under wd full (readable_roots r) then Inr full else Inl (OutsideRoots p))"

definition resolve_write :: "string option \<Rightarrow> roots \<Rightarrow> string \<Rightarrow> reach_error + string" where
  "resolve_write wd r p =
     (case absolute wd (rt_workspace r) p of
        Inl e \<Rightarrow> Inl e
      | Inr full \<Rightarrow>
          if under wd full (writable_roots r) then Inr full
          else if under wd full [rt_builtin r] then Inl (BuiltinReadOnly p)
          else Inl (OutsideRoots p))"

definition own_skills_dir :: "string \<Rightarrow> string" where
  "own_skills_dir dir = (if dir = [] then [] else join_path dir ''skills'')"

text \<open>A write there makes the agent's prompt stale.\<close>

definition note_skill_change :: "string option \<Rightarrow> roots \<Rightarrow> string \<Rightarrow> bool" where
  "note_skill_change wd r full \<longleftrightarrow> own_skills_dir (rt_own r) \<noteq> [] \<and> under wd full [own_skills_dir (rt_own r)]"

section \<open>Text\<close>

definition read_cap :: int where "read_cap = 200 * 1024"
definition match_cap :: nat where "match_cap = 200"

definition cap_text_at :: "string \<Rightarrow> int \<Rightarrow> string" where
  "cap_text_at s n =
     (if int (length s) \<le> n then s
      else take (nat n) s @ [newline] @ ''[truncated: output is larger than the cap]'')"

definition cap_text :: "string \<Rightarrow> string" where
  "cap_text s = cap_text_at s read_cap"

text \<open>
  \<^verbatim>\<open>strings.Count\<close> and \<^verbatim>\<open>strings.ReplaceAll\<close>: occurrences from the left that do not overlap. An
  empty text occurs before every character and at the end.
\<close>

fun count_from :: "string \<Rightarrow> nat \<Rightarrow> string \<Rightarrow> nat" where
  "count_from sub skip [] = 0"
| "count_from sub skip (c # cs) =
     (if skip > 0 then count_from sub (skip - 1) cs
      else if prefix sub (c # cs) then Suc (count_from sub (length sub - 1) cs)
      else count_from sub 0 cs)"

definition count_str :: "string \<Rightarrow> string \<Rightarrow> nat" where
  "count_str s sub = (if sub = [] then rune_count s + 1 else count_from sub 0 s)"

fun replace_from :: "string \<Rightarrow> string \<Rightarrow> nat \<Rightarrow> string \<Rightarrow> string" where
  "replace_from sub new skip [] = []"
| "replace_from sub new skip (c # cs) =
     (if skip > 0 then replace_from sub new (skip - 1) cs
      else if prefix sub (c # cs) then new @ replace_from sub new (length sub - 1) cs
      else c # replace_from sub new 0 cs)"

definition continues :: "char \<Rightarrow> bool" where
  "continues c \<longleftrightarrow> 128 \<le> (of_char c :: nat) \<and> (of_char c :: nat) < 192"

fun weave :: "string \<Rightarrow> string \<Rightarrow> string" where
  "weave new [] = new"
| "weave new (c # cs) = (if continues c then [] else new) @ c # weave new cs"

definition replace_str :: "string \<Rightarrow> string \<Rightarrow> string \<Rightarrow> string" where
  "replace_str s sub new = (if sub = [] then weave new s else replace_from sub new 0 s)"

section \<open>Read, Write and Edit\<close>

text \<open>A file is there with its contents or cannot be read; a write can fail.\<close>

record file_state =
  fs_files :: "(string \<times> string) list"
  fs_stale :: bool

datatype edit_answer = EditUnreadable | EditNotFound | EditTooMany nat | EditUnwritten | EditDone nat

record edit_input =
  ei_path :: string
  ei_old :: string
  ei_new :: string
  ei_all :: bool

definition apply_edit :: "bool \<Rightarrow> string \<Rightarrow> edit_input \<Rightarrow> file_state \<Rightarrow> edit_answer \<times> file_state" where
  "apply_edit wrote full e s =
     (case map_of (fs_files s) full of
        None \<Rightarrow> (EditUnreadable, s)
      | Some body \<Rightarrow>
          (let n = count_str body (ei_old e) in
           if n = 0 then (EditNotFound, s)
           else if n > 1 \<and> \<not> ei_all e then (EditTooMany n, s)
           else if \<not> wrote then (EditUnwritten, s)
           else (EditDone n, s\<lparr>fs_files := AList.update full (replace_str body (ei_old e) (ei_new e)) (fs_files s)\<rparr>)))"

definition mark_stale :: "string option \<Rightarrow> roots \<Rightarrow> string \<Rightarrow> file_state \<Rightarrow> file_state" where
  "mark_stale wd r full s = (if note_skill_change wd r full then s\<lparr>fs_stale := True\<rparr> else s)"

definition read_tool :: "string option \<Rightarrow> roots \<Rightarrow> string \<Rightarrow> file_state \<Rightarrow> reach_error + string option" where
  "read_tool wd r p s =
     (case resolve_read wd r p of Inl e \<Rightarrow> Inl e | Inr full \<Rightarrow> Inr (map_option cap_text (map_of (fs_files s) full)))"

text \<open>\<open>made\<close> and \<open>wrote\<close>: whether the folder could be made and the file written.\<close>

definition write_tool ::
  "string option \<Rightarrow> roots \<Rightarrow> bool \<Rightarrow> bool \<Rightarrow> string \<Rightarrow> string \<Rightarrow> file_state \<Rightarrow> (reach_error + bool) \<times> file_state" where
  "write_tool wd r made wrote p content s =
     (case resolve_write wd r p of
        Inl e \<Rightarrow> (Inl e, s)
      | Inr full \<Rightarrow>
          if made \<and> wrote
          then (Inr True, mark_stale wd r full (s\<lparr>fs_files := AList.update full content (fs_files s)\<rparr>))
          else (Inr False, s))"

definition edit_tool ::
  "string option \<Rightarrow> roots \<Rightarrow> bool \<Rightarrow> edit_input \<Rightarrow> file_state \<Rightarrow> (reach_error + edit_answer) \<times> file_state" where
  "edit_tool wd r wrote e s =
     (case resolve_write wd r (ei_path e) of
        Inl x \<Rightarrow> (Inl x, s)
      | Inr full \<Rightarrow> (case apply_edit wrote full e s of (a, u) \<Rightarrow> (Inr a, mark_stale wd r full u)))"

section \<open>Glob\<close>

datatype glob_tok = GDeep | GStar | GAny | GByte char

text \<open>How \<^verbatim>\<open>globRegexp\<close> reads a pattern, byte by byte.\<close>

fun glob_toks :: "string \<Rightarrow> glob_tok list" where
  "glob_toks [] = []"
| "glob_toks (c # cs) =
     (if c = CHR ''*'' then
        (case cs of
           d # e # rest \<Rightarrow> if d = CHR ''*'' \<and> e = CHR ''/'' then GDeep # glob_toks rest else GStar # glob_toks cs
         | _ \<Rightarrow> GStar # glob_toks cs)
      else if c = CHR ''?'' then GAny # glob_toks cs
      else GByte c # glob_toks cs)"

text \<open>
  What the expression matches: characters, not bytes. A byte of the pattern is quoted as the character of that
  number (\<^verbatim>\<open>string(pattern[i])\<close>), two bytes of UTF-8 from 128 on.
\<close>

definition byte_text :: "char \<Rightarrow> string" where
  "byte_text c =
     (let b = (of_char c :: nat) in if b < 128 then [c] else [char_of (192 + b div 64 :: nat), char_of (128 + b mod 64 :: nat)])"

fun drop_rune :: "string \<Rightarrow> string" where
  "drop_rune [] = []"
| "drop_rune (c # cs) = dropWhile continues cs"

lemma drop_rune_less [simp]: "s \<noteq> [] \<Longrightarrow> length (drop_rune s) < length s"
  by (induction s rule: drop_rune.induct) (simp_all add: le_imp_less_Suc length_dropWhile_le)

text \<open>The ends of the folders a \<^verbatim>\<open>**/\<close> may stand for: after any slash before a line break.\<close>

fun after_slashes :: "string \<Rightarrow> string list" where
  "after_slashes [] = []"
| "after_slashes (c # cs) = (if c = CHR ''/'' then [cs] else []) @ (if c = newline then [] else after_slashes cs)"

function glob_match :: "glob_tok list \<Rightarrow> string \<Rightarrow> bool" where
  "glob_match [] s = (s = [])"
| "glob_match (GByte c # ts) s = (prefix (byte_text c) s \<and> glob_match ts (drop (length (byte_text c)) s))"
| "glob_match (GAny # ts) s = (if s = [] \<or> hd s = CHR ''/'' then False else glob_match ts (drop_rune s))"
| "glob_match (GStar # ts) s = (glob_match ts s \<or> (if s = [] \<or> hd s = CHR ''/'' then False else glob_match (GStar # ts) (drop_rune s)))"
| "glob_match (GDeep # ts) s = (glob_match ts s \<or> list_ex (glob_match ts) (after_slashes s))"
  by pat_completeness auto
termination
  by (relation "measures [\<lambda>(ts, s). length ts, \<lambda>(ts, s). length s]") auto

declare glob_match.simps(4) [simp del]

definition glob_ok :: "string \<Rightarrow> string \<Rightarrow> bool" where
  "glob_ok pattern s = glob_match (glob_toks pattern) s"

section \<open>Walking and searching\<close>

text \<open>A tree on disk, entries in name order; a folder or a file can be unreadable.\<close>

datatype tree = File "string option" | Folder "(string \<times> tree) list" | Closed

definition hidden_name :: "string \<Rightarrow> bool" where
  "hidden_name n \<longleftrightarrow> prefix ''.'' n \<and> n \<noteq> ''.''"

text \<open>The files a walk visits, with their paths: dot folders are skipped, the one asked for included.\<close>

fun walk :: "string \<Rightarrow> string \<Rightarrow> tree \<Rightarrow> (string \<times> string option) list" where
  "walk path name (File body) = [(path, body)]"
| "walk path name Closed = []"
| "walk path name (Folder es) =
     (if hidden_name name then []
      else List.concat (List.map (\<lambda>(n, t). walk (path @ ''/'' @ n) n t) es))"

text \<open>\<^verbatim>\<open>filepath.Rel\<close> to a root below it, and the path itself elsewhere.\<close>

definition rel_to :: "string \<Rightarrow> string \<Rightarrow> string" where
  "rel_to base p = (if p = base then ''.'' else if prefix (base @ ''/'') p then drop (length base + 1) p else p)"

definition glob_walk :: "string \<Rightarrow> string \<Rightarrow> (string \<times> string option) list \<Rightarrow> string list" where
  "glob_walk base pattern visited =
     take match_cap (filter (glob_ok pattern) (List.map (rel_to base \<circ> fst) visited))"

fun match_lines :: "(string \<Rightarrow> bool) \<Rightarrow> string \<Rightarrow> nat \<Rightarrow> nat \<Rightarrow> string list \<Rightarrow> string list" where
  "match_lines re rel n limit [] = []"
| "match_lines re rel n limit (l # ls) =
     (if limit = 0 then []
      else if re l then (rel @ '':'' @ dec n @ '': '' @ trim_with is_space l) # match_lines re rel (Suc n) (limit - 1) ls
      else match_lines re rel (Suc n) limit ls)"

definition grep_file :: "(string \<Rightarrow> bool) \<Rightarrow> string \<Rightarrow> nat \<Rightarrow> string \<times> string option \<Rightarrow> string list" where
  "grep_file re base limit f =
     (case snd f of
        None \<Rightarrow> []
      | Some body \<Rightarrow> if int (length body) > read_cap then []
          else match_lines re (rel_to base (fst f)) 1 limit (split_on newline body))"

fun grep_files :: "(string \<Rightarrow> bool) \<Rightarrow> string \<Rightarrow> string list \<Rightarrow> (string \<times> string option) list \<Rightarrow> string list" where
  "grep_files re base hits [] = hits"
| "grep_files re base hits (f # fs) =
     (if length hits \<ge> match_cap then grep_files re base hits fs
      else grep_files re base (hits @ grep_file re base (match_cap - length hits) f) fs)"

definition join_or_none :: "string list \<Rightarrow> string \<Rightarrow> string" where
  "join_or_none lines none =
     (if lines = [] then none
      else join_with [newline] lines @
        (if length lines \<ge> match_cap
         then [newline] @ ''[stopped at '' @ dec match_cap @ '' results - narrow the pattern]'' else []))"

end
