(* ===== verification/GuestWire.thy ===== *)
theory GuestWire
  imports Account FileTools
begin

text \<open>
  The hop between the host and a machine's daemon, as text: the requests the host's client makes
  (\<^verbatim>\<open>client.go\<close>, \<^verbatim>\<open>stream.go\<close> of \<^verbatim>\<open>internal/agent\<close>), the daemon's table of routes
  (\<^verbatim>\<open>routes.go\<close>) with the matching of Go's \<^verbatim>\<open>ServeMux\<close>, how a refusal comes back, and the
  frames of an event stream. A body is opaque here; a path is its bytes.
\<close>

section \<open>Escapes\<close>

definition pct_digit :: "char \<Rightarrow> nat option" where
  "pct_digit c =
     (let n = (of_char c :: nat) in
      if 48 \<le> n \<and> n \<le> 57 then Some (n - 48)
      else if 65 \<le> n \<and> n \<le> 70 then Some (n - 55)
      else if 97 \<le> n \<and> n \<le> 102 then Some (n - 87) else None)"

text \<open>\<^verbatim>\<open>url.PathUnescape\<close>; \<open>sp\<close> is \<^verbatim>\<open>QueryUnescape\<close>, for which a plus is a space.\<close>

fun url_unescape :: "bool \<Rightarrow> string \<Rightarrow> string option" where
  "url_unescape sp [] = Some []"
| "url_unescape sp (c # cs) =
     (if c = CHR ''%'' then
        (case cs of
           a # b # rest \<Rightarrow>
             (case (pct_digit a, pct_digit b) of
                (Some x, Some y) \<Rightarrow> map_option ((#) (char_of (16 * x + y))) (url_unescape sp rest)
              | _ \<Rightarrow> None)
         | _ \<Rightarrow> None)
      else map_option ((#) (if sp \<and> c = CHR ''+'' then CHR '' '' else c)) (url_unescape sp cs))"

definition is_alnum :: "char \<Rightarrow> bool" where
  "is_alnum c \<longleftrightarrow>
     (let n = (of_char c :: nat) in is_digit c \<or> (65 \<le> n \<and> n \<le> 90) \<or> (97 \<le> n \<and> n \<le> 122))"

text \<open>\<^verbatim>\<open>url.PathEscape\<close>.\<close>

definition path_escape :: "string \<Rightarrow> string" where
  "path_escape s =
     concat (List.map (\<lambda>c.
       if is_alnum c \<or> c \<in> set ''-_.~$&+:=@'' then [c]
       else (let n = (of_char c :: nat) in [CHR ''%'', digit_char (n div 16), digit_char (n mod 16)])) s)"

section \<open>What the host asks\<close>

datatype guest_call =
    GcHealth | GcUsage | GcAgentUsage | GcAgents | GcAgentTypes
  | GcEventsSince string int
  | GcSendMessage string string
  | GcPostMessage string
  | GcCreateAgent | GcUpdateAgent string | GcDeleteAgent string
  | GcPending | GcResolve string | GcInterrupt string
  | GcPerson | GcSetPerson | GcSetApps
  | GcSchedules | GcDeleteSchedule string
  | GcUpload | GcShot string string | GcAttachment string string
  | GcStream string int | GcStreamPending

text \<open>
  \<open>gr_key\<close> and \<open>gr_since\<close> are the headers \<^verbatim>\<open>Idempotency-Key\<close> and \<^verbatim>\<open>Last-Event-ID\<close>, empty
  when not sent; \<open>gr_patience\<close> is the timeout of the whole exchange in seconds, zero for none.
\<close>

record wire_call =
  gr_method :: string
  gr_target :: string
  gr_key :: string
  gr_since :: string
  gr_patience :: nat

definition show_int :: "int \<Rightarrow> string" where
  "show_int n = (if n < 0 then CHR ''-'' # dec (nat (- n)) else dec (nat n))"

definition asks_for :: "string \<Rightarrow> string \<Rightarrow> nat \<Rightarrow> wire_call" where
  "asks_for verb target patience =
     \<lparr>gr_method = verb, gr_target = target, gr_key = [], gr_since = [], gr_patience = patience\<rparr>"

text \<open>The calls that build more than a path: a page of a log, a file in and out, the two streams.\<close>

definition events_request :: "string \<Rightarrow> int \<Rightarrow> wire_call" where
  "events_request i n = asks_for ''GET'' (''/agents/'' @ i @ ''/events?poll=1&since='' @ show_int n) 2"

definition upload_request :: wire_call where
  "upload_request = asks_for ''POST'' ''/files'' 30"

definition shot_request :: "string \<Rightarrow> string \<Rightarrow> wire_call" where
  "shot_request i n = asks_for ''GET'' (''/agents/'' @ i @ ''/shots/'' @ path_escape n) 2"

definition attachment_request :: "string \<Rightarrow> string \<Rightarrow> wire_call" where
  "attachment_request i n = asks_for ''GET'' (''/agents/'' @ path_escape i @ ''/outbox/'' @ path_escape n) 30"

definition stream_request :: "string \<Rightarrow> int \<Rightarrow> wire_call" where
  "stream_request i n =
     (asks_for ''GET'' (''/agents/'' @ i @ ''/events'') 0)\<lparr>gr_since := (if n > 0 then show_int n else [])\<rparr>"

definition pending_stream_request :: wire_call where
  "pending_stream_request = asks_for ''GET'' ''/pending/events'' 0"

fun request_for :: "guest_call \<Rightarrow> wire_call" where
  "request_for GcHealth = asks_for ''GET'' ''/health'' 2"
| "request_for GcUsage = asks_for ''GET'' ''/usage'' 2"
| "request_for GcAgentUsage = asks_for ''GET'' ''/usage/agents'' 2"
| "request_for GcAgents = asks_for ''GET'' ''/agents'' 2"
| "request_for GcAgentTypes = asks_for ''GET'' ''/agent-types'' 2"
| "request_for (GcEventsSince i n) = events_request i n"
| "request_for (GcSendMessage i key) = (asks_for ''POST'' (''/agents/'' @ i @ ''/messages'') 2)\<lparr>gr_key := key\<rparr>"
| "request_for (GcPostMessage i) = asks_for ''POST'' (''/agents/'' @ i @ ''/messages'') 30"
| "request_for GcCreateAgent = asks_for ''POST'' ''/agents'' 30"
| "request_for (GcUpdateAgent i) = asks_for ''PATCH'' (''/agents/'' @ i) 30"
| "request_for (GcDeleteAgent i) = asks_for ''DELETE'' (''/agents/'' @ i) 30"
| "request_for GcPending = asks_for ''GET'' ''/pending'' 2"
| "request_for (GcResolve i) = asks_for ''POST'' (''/approvals/'' @ i) 30"
| "request_for (GcInterrupt i) = asks_for ''POST'' (''/agents/'' @ i @ ''/interrupt'') 2"
| "request_for GcPerson = asks_for ''GET'' ''/person'' 2"
| "request_for GcSetPerson = asks_for ''PUT'' ''/person'' 30"
| "request_for GcSetApps = asks_for ''PUT'' ''/apps'' 30"
| "request_for GcSchedules = asks_for ''GET'' ''/schedules'' 2"
| "request_for (GcDeleteSchedule i) = asks_for ''DELETE'' (''/schedules/'' @ i) 30"
| "request_for GcUpload = upload_request"
| "request_for (GcShot i n) = shot_request i n"
| "request_for (GcAttachment i n) = attachment_request i n"
| "request_for (GcStream i n) = stream_request i n"
| "request_for GcStreamPending = pending_stream_request"

text \<open>
  How a refusal comes back to the caller. Reads keep the status, writes the guest's own message too,
  and what goes through \<^verbatim>\<open>post\<close> keeps neither. \<open>said\<close> is the message in the body, empty when it has none.
\<close>

datatype client_call = ThroughGet | ThroughWrite | ThroughPost

fun call_goes :: "guest_call \<Rightarrow> client_call" where
  "call_goes (GcSendMessage i k) = ThroughPost"
| "call_goes (GcInterrupt i) = ThroughPost"
| "call_goes (GcPostMessage i) = ThroughWrite"
| "call_goes GcCreateAgent = ThroughWrite"
| "call_goes (GcUpdateAgent i) = ThroughWrite"
| "call_goes (GcDeleteAgent i) = ThroughWrite"
| "call_goes (GcResolve i) = ThroughWrite"
| "call_goes GcSetPerson = ThroughWrite"
| "call_goes GcSetApps = ThroughWrite"
| "call_goes (GcDeleteSchedule i) = ThroughWrite"
| "call_goes GcUpload = ThroughWrite"
| "call_goes _ = ThroughGet"

definition call_refused :: "guest_call \<Rightarrow> int \<Rightarrow> string \<Rightarrow> guest_failure option" where
  "call_refused c status said =
     (if status < 300 then None
      else Some (case call_goes c of
        ThroughGet \<Rightarrow> GuestSaid status [] | ThroughWrite \<Rightarrow> GuestSaid status said | ThroughPost \<Rightarrow> GuestAway))"

section \<open>The daemon's routes\<close>

datatype guest_handler =
    GhHealth | GhList | GhCreate | GhUpdate | GhDelete | GhTypes | GhUsage | GhAgentUsage
  | GhPending | GhPendingEvents | GhResolve | GhMessage | GhInterrupt | GhEvents | GhShot | GhAttachment
  | GhListSchedules | GhCreateSchedule | GhDeleteSchedule | GhGetPerson | GhPutPerson | GhGetApps | GhPutApps
  | GhUpload | GhMemstats | GhDebugExec

datatype path_seg = SegLit string | SegAny

definition guest_routes :: "(string \<times> path_seg list \<times> guest_handler) list" where
  "guest_routes =
     [(''GET'', [SegLit ''health''], GhHealth),
      (''GET'', [SegLit ''agents''], GhList),
      (''POST'', [SegLit ''agents''], GhCreate),
      (''PATCH'', [SegLit ''agents'', SegAny], GhUpdate),
      (''DELETE'', [SegLit ''agents'', SegAny], GhDelete),
      (''GET'', [SegLit ''agent-types''], GhTypes),
      (''GET'', [SegLit ''usage''], GhUsage),
      (''GET'', [SegLit ''usage'', SegLit ''agents''], GhAgentUsage),
      (''GET'', [SegLit ''pending''], GhPending),
      (''GET'', [SegLit ''pending'', SegLit ''events''], GhPendingEvents),
      (''POST'', [SegLit ''approvals'', SegAny], GhResolve),
      (''POST'', [SegLit ''agents'', SegAny, SegLit ''messages''], GhMessage),
      (''POST'', [SegLit ''agents'', SegAny, SegLit ''interrupt''], GhInterrupt),
      (''GET'', [SegLit ''agents'', SegAny, SegLit ''events''], GhEvents),
      (''GET'', [SegLit ''agents'', SegAny, SegLit ''shots'', SegAny], GhShot),
      (''GET'', [SegLit ''agents'', SegAny, SegLit ''outbox'', SegAny], GhAttachment),
      (''GET'', [SegLit ''schedules''], GhListSchedules),
      (''POST'', [SegLit ''schedules''], GhCreateSchedule),
      (''DELETE'', [SegLit ''schedules'', SegAny], GhDeleteSchedule),
      (''GET'', [SegLit ''person''], GhGetPerson),
      (''PUT'', [SegLit ''person''], GhPutPerson),
      (''GET'', [SegLit ''apps''], GhGetApps),
      (''PUT'', [SegLit ''apps''], GhPutApps),
      (''POST'', [SegLit ''files''], GhUpload),
      (''GET'', [SegLit ''debug'', SegLit ''memstats''], GhMemstats),
      (''POST'', [SegLit ''debug'', SegLit ''exec''], GhDebugExec)]"

text \<open>
  \<^verbatim>\<open>ServeMux\<close>: a segment is unescaped when it can be, a trailing slash is the segment \<^verbatim>\<open>/\<close>, and
  a wildcard takes any other. No two routes of the table match the same path of a method, so the first match is the match.
\<close>

definition path_segs :: "string \<Rightarrow> string list" where
  "path_segs p =
     List.map (\<lambda>w. if w = [] then ''/'' else (case url_unescape False w of Some v \<Rightarrow> v | None \<Rightarrow> w)) (tl (split_on CHR ''/'' p))"

fun match_segs :: "path_seg list \<Rightarrow> string list \<Rightarrow> string list option" where
  "match_segs [] [] = Some []"
| "match_segs (SegLit w # ps) (v # vs) = (if v = w then match_segs ps vs else None)"
| "match_segs (SegAny # ps) (v # vs) = (if v = ''/'' then None else map_option ((#) v) (match_segs ps vs))"
| "match_segs _ _ = None"

definition mux_clean :: "string \<Rightarrow> string" where
  "mux_clean p =
     (if p = [] then ''/''
      else (let q = (if hd p = CHR ''/'' then p else CHR ''/'' # p); c = clean_path q in
            if List.last q = CHR ''/'' \<and> c \<noteq> ''/'' then c @ ''/'' else c))"

datatype mux_answer = MuxCalls guest_handler "string list" | MuxMoved string | MuxStatus int

definition route_guest :: "string \<Rightarrow> string \<Rightarrow> mux_answer" where
  "route_guest verb p =
     (if mux_clean p \<noteq> p then MuxMoved (mux_clean p)
      else (let fits = List.map_filter (\<lambda>(v, ps, h). map_option (\<lambda>ws. (v, h, ws)) (match_segs ps (path_segs p))) guest_routes in
        case List.find (\<lambda>(v, h, ws). v = verb \<or> (verb = ''HEAD'' \<and> v = ''GET'')) fits of
          Some (v, h, ws) \<Rightarrow> MuxCalls h ws
        | None \<Rightarrow> MuxStatus (if fits = [] then 404 else 405)))"

text \<open>What is before the question mark, and a field of what is after it.\<close>

definition target_path :: "string \<Rightarrow> string" where
  "target_path t = takeWhile (\<lambda>c. c \<noteq> CHR ''?'') t"

definition query_fields :: "string \<Rightarrow> (string \<times> string) list" where
  "query_fields t =
     List.map_filter (\<lambda>w.
       if w = [] \<or> CHR '';'' \<in> set w then None
       else (let kv = (case cut_at CHR ''='' w of Some kv \<Rightarrow> kv | None \<Rightarrow> (w, [])) in
             case (url_unescape True (fst kv), url_unescape True (snd kv)) of
               (Some k, Some v) \<Rightarrow> Some (k, v)
             | _ \<Rightarrow> None))
       (split_on CHR ''&'' (drop 1 (dropWhile (\<lambda>c. c \<noteq> CHR ''?'') t)))"

definition query_get :: "string \<Rightarrow> string \<Rightarrow> string" where
  "query_get t k = (case map_of (query_fields t) k of Some v \<Rightarrow> v | None \<Rightarrow> [])"

definition query_has :: "string \<Rightarrow> string \<Rightarrow> bool" where
  "query_has t k \<longleftrightarrow> map_of (query_fields t) k \<noteq> None"

definition watermark :: "string \<Rightarrow> string \<Rightarrow> int" where
  "watermark header target =
     (case List.find (\<lambda>raw. case atoi raw of Some n \<Rightarrow> n \<ge> 0 | None \<Rightarrow> False) [header, query_get target ''since''] of
        Some raw \<Rightarrow> the (atoi raw)
      | None \<Rightarrow> 0)"

end
