(* ===== verification/Provider.thy ===== *)
theory Provider
  imports GuestWire AppsGate
begin

text \<open>
  The client of the provider of app integrations, the whole of \<^verbatim>\<open>internal/composio\<close>: the calls it makes, as bytes, and
  what it makes of the answers. The provider is what answers a call; the JSON decoders are parameters, a body to be sent is a JSON
  value. A call that may be answered differently each time is given its place in the sequence.
\<close>

section \<open>One exchange\<close>

record provider_call =
  pc_method :: string
  pc_url :: string
  pc_key :: string
  pc_body :: "json option"

datatype provider_reply = Unreached | Replied int string

definition default_base :: string where "default_base = ''https://backend.composio.dev/api/v3.1''"

record provider =
  pv_key :: string
  pv_base :: string

definition new_provider :: "string \<Rightarrow> string \<Rightarrow> provider option" where
  "new_provider key base =
     (if key = [] then None else Some \<lparr>pv_key = key, pv_base = (if base = [] then default_base else base)\<rparr>)"

definition provider_call :: "provider \<Rightarrow> string \<Rightarrow> string \<Rightarrow> json option \<Rightarrow> provider_call" where
  "provider_call c m path b = \<lparr>pc_method = m, pc_url = pv_base c @ path, pc_key = pv_key c, pc_body = b\<rparr>"

definition body_cap :: nat where "body_cap = 8 * 2 ^ 20"

definition provider_ok :: "provider_reply \<Rightarrow> bool" where
  "provider_ok r = (case r of Unreached \<Rightarrow> False | Replied status b \<Rightarrow> 200 \<le> status \<and> status \<le> 299)"

definition provider_do :: "(string \<Rightarrow> 'a option) \<Rightarrow> provider_reply \<Rightarrow> 'a option" where
  "provider_do decode r =
     (case r of
        Unreached \<Rightarrow> None
      | Replied status b \<Rightarrow> if status < 200 \<or> status > 299 then None else decode (take body_cap b))"

text \<open>\<^verbatim>\<open>url.QueryEscape\<close> and \<^verbatim>\<open>url.Values.Encode\<close>, for one value to a name.\<close>

definition query_escape :: "string \<Rightarrow> string" where
  "query_escape s =
     concat (List.map (\<lambda>c.
       if is_alnum c \<or> c \<in> set ''-_.~'' then [c]
       else if c = CHR '' '' then ''+''
       else (let n = (of_char c :: nat) in [CHR ''%'', digit_char (n div 16), digit_char (n mod 16)])) s)"

definition query_encode :: "(string \<times> string) list \<Rightarrow> string" where
  "query_encode kvs = join_with ''&'' (List.map (\<lambda>(k, v). query_escape k @ ''='' @ query_escape v) (sort_key fst kvs))"

definition with_cursor :: "string \<Rightarrow> (string \<times> string) list \<Rightarrow> (string \<times> string) list" where
  "with_cursor cursor kvs = (if cursor = [] then kvs else kvs @ [(''cursor'', cursor)])"

section \<open>Walking pages\<close>

record 'a page =
  pg_items :: "'a list"
  pg_next :: string

text \<open>Whether the walk went without an error, and what was taken; \<open>i\<close> counts the calls.\<close>

fun walk_pages ::
  "nat \<Rightarrow> (nat \<Rightarrow> string \<Rightarrow> 'p option) \<Rightarrow> ('p \<Rightarrow> string) \<Rightarrow> ('p \<Rightarrow> 's \<Rightarrow> 's) \<Rightarrow> nat \<Rightarrow> string \<Rightarrow> 's \<Rightarrow> bool \<times> 's" where
  "walk_pages 0 fetch following taking i cursor s = (True, s)"
| "walk_pages (Suc n) fetch following taking i cursor s =
     (case fetch i cursor of
        None \<Rightarrow> (False, s)
      | Some p \<Rightarrow>
          (if following p = [] then (True, taking p s)
           else walk_pages n fetch following taking (Suc i) (following p) (taking p s)))"

section \<open>Sessions\<close>

definition session_req :: "string \<Rightarrow> string \<Rightarrow> json" where
  "session_req user callback =
     JObj [(''user_id'', JText user),
           (''manage_connections'',
            JObj ([(''enable'', JBool True)] @ (if callback = [] then [] else [(''callback_url'', JText callback)]) @
                  [(''enable_wait_for_connections'', JBool True), (''enable_connection_removal'', JBool False)])),
           (''search'', JObj [(''enable'', JBool True)]),
           (''execute'', JObj [(''enable_multi_execute'', JBool True)]),
           (''workbench'', JObj [(''enable'', JBool False)])]"

text \<open>The id and the address of the session.\<close>

definition new_session ::
  "(string \<Rightarrow> (string \<times> string) option) \<Rightarrow> (provider_call \<Rightarrow> provider_reply) \<Rightarrow> provider \<Rightarrow> string \<Rightarrow> string \<Rightarrow> (string \<times> string) option" where
  "new_session decode http c user callback =
     (case provider_do decode (http (provider_call c ''POST'' ''/tool_router/session'' (Some (session_req user callback)))) of
        None \<Rightarrow> None
      | Some (i, url) \<Rightarrow> if url = [] then None else Some (i, url))"

section \<open>A person's accounts\<close>

definition connection_pages :: nat where "connection_pages = 20"

definition connection_call :: "provider \<Rightarrow> string \<Rightarrow> string \<Rightarrow> provider_call" where
  "connection_call c user cursor =
     provider_call c ''GET''
       (''/connected_accounts?'' @ query_encode (with_cursor cursor [(''user_ids'', user), (''limit'', ''100'')])) None"

definition connection_page ::
  "(string \<Rightarrow> connection page option) \<Rightarrow> (nat \<Rightarrow> provider_call \<Rightarrow> provider_reply) \<Rightarrow> provider \<Rightarrow> string \<Rightarrow> nat \<Rightarrow> string \<Rightarrow> connection page option" where
  "connection_page decode http c user i cursor = provider_do decode (http i (connection_call c user cursor))"

definition connections ::
  "(string \<Rightarrow> connection page option) \<Rightarrow> (nat \<Rightarrow> provider_call \<Rightarrow> provider_reply) \<Rightarrow> provider \<Rightarrow> string \<Rightarrow> bool \<times> connection list" where
  "connections decode http c user =
     walk_pages connection_pages (connection_page decode http c user) pg_next (\<lambda>p out. out @ pg_items p) 0 [] []"

definition disconnect :: "(provider_call \<Rightarrow> provider_reply) \<Rightarrow> provider \<Rightarrow> string \<Rightarrow> bool" where
  "disconnect http c i = provider_ok (http (provider_call c ''DELETE'' (''/connected_accounts/'' @ path_escape i) None))"

section \<open>The catalogue\<close>

record toolkit =
  kt_slug :: string
  kt_name :: string
  kt_logo :: string
  kt_description :: string
  kt_categories :: "string list"

record toolkit_resp =
  tr_slug :: string
  tr_name :: string
  tr_managed :: "string list"
  tr_logo :: string
  tr_description :: string
  tr_categories :: "string list"

definition toolkit_of :: "toolkit_resp \<Rightarrow> toolkit" where
  "toolkit_of t = \<lparr>kt_slug = tr_slug t, kt_name = tr_name t, kt_logo = tr_logo t, kt_description = tr_description t,
                   kt_categories = tr_categories t\<rparr>"

definition toolkit_limit :: int where "toolkit_limit = 1000"
definition toolkit_pages :: nat where "toolkit_pages = 8"

definition toolkit_page ::
  "(string \<Rightarrow> toolkit_resp page option) \<Rightarrow> (nat \<Rightarrow> provider_call \<Rightarrow> provider_reply) \<Rightarrow> provider \<Rightarrow> nat \<Rightarrow> string \<Rightarrow> toolkit_resp page option" where
  "toolkit_page decode http c i cursor =
     provider_do decode (http i (provider_call c ''GET''
       (''/toolkits?'' @ query_encode (with_cursor cursor [(''limit'', show_int toolkit_limit)])) None))"

definition take_managed :: "toolkit_resp page \<Rightarrow> toolkit list \<Rightarrow> toolkit list" where
  "take_managed p out = out @ List.map toolkit_of (filter (\<lambda>t. tr_managed t \<noteq> []) (pg_items p))"

definition toolkits ::
  "(string \<Rightarrow> toolkit_resp page option) \<Rightarrow> (nat \<Rightarrow> provider_call \<Rightarrow> provider_reply) \<Rightarrow> provider \<Rightarrow> bool \<times> toolkit list" where
  "toolkits decode http c = walk_pages toolkit_pages (toolkit_page decode http c) pg_next take_managed 0 [] []"

section \<open>What an app can do\<close>

definition tool_limit :: int where "tool_limit = 500"
definition tool_pages :: nat where "tool_pages = 8"

definition tools_page ::
  "(string \<Rightarrow> (string \<times> string list) page option) \<Rightarrow> (nat \<Rightarrow> provider_call \<Rightarrow> provider_reply) \<Rightarrow> provider \<Rightarrow> string \<Rightarrow> nat \<Rightarrow> string \<Rightarrow>
   (string \<times> string list) page option" where
  "tools_page decode http c app i cursor =
     provider_do decode (http i (provider_call c ''GET''
       (''/tools?'' @ query_encode (with_cursor cursor [(''toolkit_slug'', app), (''limit'', show_int tool_limit)])) None))"

definition take_kinds :: "(string \<times> string list) page \<Rightarrow> kinds \<Rightarrow> kinds" where
  "take_kinds p held = fold (\<lambda>(app, tags). AList.update app (capability_of tags)) (pg_items p) held"

definition capabilities ::
  "(string \<Rightarrow> (string \<times> string list) page option) \<Rightarrow> (nat \<Rightarrow> provider_call \<Rightarrow> provider_reply) \<Rightarrow> provider \<Rightarrow> string \<Rightarrow> kinds option" where
  "capabilities decode http c app =
     (case walk_pages tool_pages (tools_page decode http c app) pg_next take_kinds 0 [] [] of
        (fine, held) \<Rightarrow> if fine then Some held else None)"

section \<open>Connecting an app\<close>

text \<open>The calls are answered in order; what was asked is kept beside the outcome.\<close>

record link =
  lk_url :: string
  lk_expires :: int

record codecs =
  cd_configs :: "string \<Rightarrow> (string \<times> string) list option"
  cd_config :: "string \<Rightarrow> string option"
  cd_link :: "string \<Rightarrow> link option"

definition create_auth_config :: "codecs \<Rightarrow> (provider_call \<Rightarrow> provider_reply) \<Rightarrow> provider \<Rightarrow> string \<Rightarrow> provider_call list \<times> string option" where
  "create_auth_config cd http c app =
     (let call = provider_call c ''POST'' ''/auth_configs'' (Some (JObj [(''toolkit'', JObj [(''slug'', JText app)])])) in
      ([call],
       (case provider_do (cd_config cd) (http call) of
          None \<Rightarrow> None
        | Some i \<Rightarrow> if i = [] then None else Some i)))"

definition auth_config :: "codecs \<Rightarrow> (provider_call \<Rightarrow> provider_reply) \<Rightarrow> provider \<Rightarrow> string \<Rightarrow> provider_call list \<times> string option" where
  "auth_config cd http c app =
     (let call = provider_call c ''GET'' (''/auth_configs?'' @ query_encode [(''toolkit_slug'', app), (''limit'', ''1'')]) None in
      (case provider_do (cd_configs cd) (http call) of
         None \<Rightarrow> ([call], None)
       | Some held \<Rightarrow>
           (case find (\<lambda>(i, s). s = app) held of
              Some (i, _) \<Rightarrow> ([call], Some i)
            | None \<Rightarrow> (case create_auth_config cd http c app of (calls, made) \<Rightarrow> (call # calls, made)))))"

definition link_req :: "string \<Rightarrow> string \<Rightarrow> string \<Rightarrow> json" where
  "link_req user cfg callback =
     JObj ([(''user_id'', JText user), (''auth_config_id'', JText cfg)] @
           (if callback = [] then [] else [(''callback_url'', JText callback)]))"

definition mint_link :: "codecs \<Rightarrow> (provider_call \<Rightarrow> provider_reply) \<Rightarrow> provider \<Rightarrow> string \<Rightarrow> string \<Rightarrow> string \<Rightarrow> provider_call list \<times> link option" where
  "mint_link cd http c user app callback =
     (case auth_config cd http c app of
        (calls, None) \<Rightarrow> (calls, None)
      | (calls, Some cfg) \<Rightarrow>
          (let call = provider_call c ''POST'' ''/connected_accounts/link'' (Some (link_req user cfg callback)) in
           (calls @ [call],
            (case provider_do (cd_link cd) (http call) of
               None \<Rightarrow> None
             | Some l \<Rightarrow> if lk_url l = [] then None else Some l))))"

end
