(* ===== verification/AppsCatalog.thy ===== *)
theory AppsCatalog
  imports Provider Feed
begin

text \<open>
  The apps a person can connect (\<^verbatim>\<open>apps_catalog.go\<close>, the routes of \<^verbatim>\<open>apps_routes.go\<close>): the provider's
  catalogue kept a fortnight, the directory searched and cut into pages behind opaque cursors, a person's connections beside it,
  connecting, listing and setting what agents may do. What the provider and the store answer is a choice at each call. Slugs, names and
  what is typed are ASCII where case is folded.
\<close>

section \<open>The catalogue, kept\<close>

definition apps_catalog_ttl :: int where "apps_catalog_ttl = 15 * 24 * 60 * 60 * ns_per_sec"

record app_catalog =
  ct_held :: "toolkit list"
  ct_expires :: int

definition new_app_catalog :: app_catalog where
  "new_app_catalog = \<lparr>ct_held = [], ct_expires = - (2 ^ 63)\<rparr>"

text \<open>A list no row was added to is \<^verbatim>\<open>nil\<close>, which reads as nothing held.\<close>

definition fresh_catalog :: "int \<Rightarrow> app_catalog \<Rightarrow> toolkit list option" where
  "fresh_catalog now ct = (if now < ct_expires ct \<and> ct_held ct \<noteq> [] then Some (ct_held ct) else None)"

definition keep_catalog :: "int \<Rightarrow> toolkit list \<Rightarrow> app_catalog \<Rightarrow> app_catalog" where
  "keep_catalog now held ct = \<lparr>ct_held = held, ct_expires = now + apps_catalog_ttl\<rparr>"

text \<open>\<open>got\<close> is what fetching it would answer, \<open>later\<close> the time it is there.\<close>

definition catalog_toolkits :: "int \<Rightarrow> int \<Rightarrow> toolkit list option \<Rightarrow> app_catalog \<Rightarrow> toolkit list option \<times> app_catalog" where
  "catalog_toolkits now later got ct =
     (case fresh_catalog now ct of
        Some held \<Rightarrow> (Some held, ct)
      | None \<Rightarrow> (case got of None \<Rightarrow> (None, ct) | Some kits \<Rightarrow> (Some kits, keep_catalog later kits ct)))"

definition offers :: "int \<Rightarrow> int \<Rightarrow> toolkit list option \<Rightarrow> string \<Rightarrow> app_catalog \<Rightarrow> bool option \<times> app_catalog" where
  "offers now later got app ct =
     (case catalog_toolkits now later got ct of
        (None, ct1) \<Rightarrow> (None, ct1)
      | (Some held, ct1) \<Rightarrow> (Some (app \<in> kt_slug ` set held), ct1))"

section \<open>The directory\<close>

definition apps_page_default :: int where "apps_page_default = 50"
definition apps_page_max :: int where "apps_page_max = 200"

definition searchable :: "toolkit \<Rightarrow> string" where
  "searchable kit = List.map to_lower (join_with '' '' ([kt_slug kit, kt_name kit, kt_description kit] @ kt_categories kit))"

definition matching :: "string \<Rightarrow> string \<Rightarrow> toolkit list \<Rightarrow> toolkit list" where
  "matching query category kits =
     (let query = List.map to_lower (trim_with is_space query) in
      filter (\<lambda>kit. (category = [] \<or> category \<in> set (kt_categories kit)) \<and>
                    (query = [] \<or> contains_str (searchable kit) query)) kits)"

text \<open>\<^verbatim>\<open>base64.RawURLEncoding\<close>; decoding skips line ends and ignores the bits left over.\<close>

definition base64_alphabet :: string where
  "base64_alphabet = ''ABCDEFGHIJKLMNOPQRSTUVWXYZabcdefghijklmnopqrstuvwxyz0123456789-_''"

definition b64_char :: "nat \<Rightarrow> char" where "b64_char n = base64_alphabet ! (n mod 64)"
definition b64_value :: "char \<Rightarrow> nat option" where "b64_value c = index_of c base64_alphabet"

definition byte_of :: "char \<Rightarrow> nat" where "byte_of c = of_char c"

fun b64_encode :: "string \<Rightarrow> string" where
  "b64_encode [] = []"
| "b64_encode [a] = [b64_char (byte_of a div 4), b64_char (byte_of a * 16)]"
| "b64_encode [a, b] =
     [b64_char (byte_of a div 4), b64_char (byte_of a * 16 + byte_of b div 16), b64_char (byte_of b * 4)]"
| "b64_encode (a # b # c # rest) =
     b64_char (byte_of a div 4) # b64_char (byte_of a * 16 + byte_of b div 16) #
     b64_char (byte_of b * 4 + byte_of c div 64) # b64_char (byte_of c) # b64_encode rest"

fun b64_bytes :: "nat list \<Rightarrow> string option" where
  "b64_bytes [] = Some []"
| "b64_bytes [w] = None"
| "b64_bytes [w, x] = Some [char_of (w * 4 + x div 16)]"
| "b64_bytes [w, x, y] = Some [char_of (w * 4 + x div 16), char_of (x mod 16 * 16 + y div 4)]"
| "b64_bytes (w # x # y # z # rest) =
     map_option (\<lambda>s. char_of (w * 4 + x div 16) # char_of (x mod 16 * 16 + y div 4) # char_of (y mod 4 * 64 + z) # s) (b64_bytes rest)"

definition b64_decode :: "string \<Rightarrow> string option" where
  "b64_decode s =
     (let vs = List.map b64_value (filter (\<lambda>c. c \<noteq> CHR 0x0A \<and> c \<noteq> CHR 0x0D) s) in
      if None \<in> set vs then None else b64_bytes (List.map the vs))"

definition cursor_of :: "int \<Rightarrow> string" where
  "cursor_of offset = b64_encode (show_int offset)"

definition offset_of :: "string \<Rightarrow> int option" where
  "offset_of cursor =
     (if cursor = [] then Some 0
      else (case b64_decode cursor of
              None \<Rightarrow> None
            | Some raw \<Rightarrow> (case atoi raw of None \<Rightarrow> None | Some n \<Rightarrow> if n \<ge> 0 then Some n else None)))"

definition page_of :: "toolkit list \<Rightarrow> int \<Rightarrow> int \<Rightarrow> toolkit list \<times> string" where
  "page_of kits offset limit =
     (if offset \<ge> int (length kits) then ([], [])
      else (let stop = min (offset + limit) (int (length kits));
                rows = drop (nat offset) (take (nat stop) kits) in
        if stop = int (length kits) then (rows, []) else (rows, cursor_of stop)))"

definition limit_of :: "string \<Rightarrow> int" where
  "limit_of asked = (case atoi asked of None \<Rightarrow> apps_page_default | Some n \<Rightarrow> if n < 1 then apps_page_default else min n apps_page_max)"

section \<open>Rows\<close>

definition upper_first :: "string \<Rightarrow> string" where
  "upper_first w = (case w of [] \<Rightarrow> [] | c # cs \<Rightarrow> to_upper c # cs)"

definition label_for :: "string \<Rightarrow> string" where
  "label_for app = join_with '' '' (List.map upper_first (split_on CHR ''_'' app))"

text \<open>The last one seen, unless one works; nothing at all reads as a connection with nothing in it.\<close>

fun connection_from :: "connection \<Rightarrow> connection list \<Rightarrow> string \<Rightarrow> connection" where
  "connection_from found [] app = found"
| "connection_from found (conn # held) app =
     (if List.map to_lower (cx_toolkit conn) \<noteq> List.map to_lower app then connection_from found held app
      else if cx_status conn = status_active then conn
      else connection_from conn held app)"

definition no_connection :: connection where
  "no_connection = \<lparr>cx_id = [], cx_toolkit = [], cx_status = []\<rparr>"

definition connection_for :: "connection list \<Rightarrow> string \<Rightarrow> connection" where
  "connection_for held app = connection_from no_connection held app"

record app_row =
  ar_slug :: string
  ar_name :: string
  ar_description :: string
  ar_logo :: string
  ar_categories :: "string list"
  ar_initial :: string
  ar_hue :: nat
  ar_connected :: bool
  ar_connection :: string
  ar_status :: string

definition project_apps :: "toolkit list \<Rightarrow> connection list \<Rightarrow> app_row list" where
  "project_apps kits held =
     List.map (\<lambda>kit. let conn = connection_for held (kt_slug kit) in
       \<lparr>ar_slug = kt_slug kit, ar_name = kt_name kit, ar_description = kt_description kit, ar_logo = kt_logo kit,
        ar_categories = kt_categories kit, ar_initial = initial_of (kt_name kit), ar_hue = hue_of (kt_slug kit),
        ar_connected = (cx_status conn = status_active), ar_connection = cx_id conn, ar_status = cx_status conn\<rparr>) kits"

record connection_row =
  cw_id :: string
  cw_slug :: string
  cw_name :: string
  cw_status :: string
  cw_policy :: "(string \<times> string) list"

definition policy_of :: "app_policy \<Rightarrow> string \<Rightarrow> (string \<times> string) list" where
  "policy_of policy app = (case map_of policy app of None \<Rightarrow> [] | Some m \<Rightarrow> m)"

definition project_connections :: "connection list \<Rightarrow> app_policy \<Rightarrow> connection_row list" where
  "project_connections held policy =
     List.map (\<lambda>conn. \<lparr>cw_id = cx_id conn, cw_slug = cx_toolkit conn, cw_name = label_for (cx_toolkit conn),
                       cw_status = cx_status conn, cw_policy = policy_of policy (cx_toolkit conn)\<rparr>) held"

section \<open>The routes\<close>

datatype 'a apps_reply = ApFail int | ApDone int 'a

text \<open>
  \<open>provided\<close> is whether there is a provider, \<open>conns\<close> its answer for this person's accounts, \<open>stored\<close> the person's row:
  without a store none, with one a read that fails or succeeds.
\<close>

definition apps_query ::
  "int \<Rightarrow> int \<Rightarrow> toolkit list option \<Rightarrow> string \<Rightarrow> string \<Rightarrow> string \<Rightarrow> app_catalog \<Rightarrow> (int + toolkit list \<times> int) \<times> app_catalog" where
  "apps_query now later got cursor query category ct =
     (case offset_of cursor of
        None \<Rightarrow> (Inl 400, ct)
      | Some offset \<Rightarrow>
          (case catalog_toolkits now later got ct of
             (None, ct1) \<Rightarrow> (Inl 502, ct1)
           | (Some kits, ct1) \<Rightarrow> (Inr (matching query category kits, offset), ct1)))"

definition held_apps :: "string \<Rightarrow> connection list option \<Rightarrow> claims \<Rightarrow> connection list option \<times> claims" where
  "held_apps user conns cs = (case conns of None \<Rightarrow> (None, cs) | Some held \<Rightarrow> (Some held, notice_apps user held cs))"

record app_page =
  pp_items :: "app_row list"
  pp_next :: string

definition list_apps ::
  "bool \<Rightarrow> int \<Rightarrow> int \<Rightarrow> toolkit list option \<Rightarrow> string \<Rightarrow> string \<Rightarrow> string \<Rightarrow> string \<Rightarrow> string \<Rightarrow> connection list option \<Rightarrow>
   app_catalog \<times> claims \<Rightarrow> app_page apps_reply \<times> app_catalog \<times> claims" where
  "list_apps provided now later got user cursor query category limit conns st =
     (case st of (ct, cs) \<Rightarrow>
       if \<not> provided then (ApDone 200 \<lparr>pp_items = [], pp_next = []\<rparr>, ct, cs)
       else (case apps_query now later got cursor query category ct of
               (Inl status, ct1) \<Rightarrow> (ApFail status, ct1, cs)
             | (Inr (kits, offset), ct1) \<Rightarrow>
                 (case held_apps user conns cs of
                    (None, cs1) \<Rightarrow> (ApFail 502, ct1, cs1)
                  | (Some held, cs1) \<Rightarrow>
                      (case page_of kits offset (limit_of limit) of
                         (rows, next_cursor) \<Rightarrow>
                           (ApDone 200 \<lparr>pp_items = project_apps rows held, pp_next = next_cursor\<rparr>, ct1, cs1)))))"

definition offers_app :: "int \<Rightarrow> int \<Rightarrow> toolkit list option \<Rightarrow> string \<Rightarrow> app_catalog \<Rightarrow> int option \<times> app_catalog" where
  "offers_app now later got app ct =
     (case offers now later got app ct of
        (None, ct1) \<Rightarrow> (Some 502, ct1)
      | (Some held, ct1) \<Rightarrow> (if held then None else Some 400, ct1))"

definition stored_policy :: "app_session option option \<Rightarrow> app_policy" where
  "stored_policy stored = (case stored of Some (Some held) \<Rightarrow> se_policy held | _ \<Rightarrow> [])"

definition list_app_connections ::
  "bool \<Rightarrow> string \<Rightarrow> connection list option \<Rightarrow> app_session option option \<Rightarrow> claims \<Rightarrow> connection_row list apps_reply \<times> claims" where
  "list_app_connections provided user conns stored cs =
     (if \<not> provided then (ApDone 200 [], cs)
      else (case held_apps user conns cs of
              (None, cs1) \<Rightarrow> (ApFail 502, cs1)
            | (Some held, cs1) \<Rightarrow> (ApDone 200 (project_connections held (stored_policy stored)), cs1)))"

definition settled_connection ::
  "string \<Rightarrow> string \<Rightarrow> connection list option \<Rightarrow> app_session option option \<Rightarrow> claims \<Rightarrow> connection_row apps_reply \<times> claims" where
  "settled_connection user app conns stored cs =
     (case held_apps user conns cs of
        (None, cs1) \<Rightarrow> (ApFail 502, cs1)
      | (Some held, cs1) \<Rightarrow>
          (let conn = connection_for held app in
           (ApDone 200 \<lparr>cw_id = cx_id conn, cw_slug = app, cw_name = label_for app, cw_status = cx_status conn,
                         cw_policy = policy_of (stored_policy stored) app\<rparr>, cs1)))"

text \<open>
  Setting a policy: \<open>req\<close> is the body, if it decodes; \<open>stored\<close> the row read before, \<open>put\<close> whether the new one was
  kept, \<open>again\<close> the row read after. What was put is answered beside the reply.
\<close>

definition set_app_policy ::
  "bool \<Rightarrow> bool \<Rightarrow> int \<Rightarrow> int \<Rightarrow> toolkit list option \<Rightarrow> string \<Rightarrow> string \<Rightarrow> (string \<times> string) option \<Rightarrow> app_session option \<Rightarrow> bool \<Rightarrow>
   connection list option \<Rightarrow> app_session option \<Rightarrow> app_catalog \<times> claims \<Rightarrow>
   (connection_row apps_reply \<times> app_session option) \<times> app_catalog \<times> claims" where
  "set_app_policy provided has_store now later got user app req stored put conns again st =
     (case st of (ct, cs) \<Rightarrow>
       if \<not> provided \<or> \<not> has_store then ((ApFail 502, None), ct, cs)
       else (case offers_app now later got app ct of
               (Some status, ct1) \<Rightarrow> ((ApFail status, None), ct1, cs)
             | (None, ct1) \<Rightarrow>
                 (case req of
                    None \<Rightarrow> ((ApFail 400, None), ct1, cs)
                  | Some (capability, value) \<Rightarrow>
                      if capability \<notin> set governable \<or> value \<notin> set settable then ((ApFail 400, None), ct1, cs)
                      else (case stored of
                              None \<Rightarrow> ((ApFail 502, None), ct1, cs)
                            | Some held \<Rightarrow>
                                (let row = held\<lparr>se_policy := save_policy app capability value (se_policy held)\<rparr> in
                                 if \<not> put then ((ApFail 502, None), ct1, cs)
                                 else (case settled_connection user app conns (Some again) (stale_apps (machine_for user) cs) of
                                         (r, cs1) \<Rightarrow> ((r, Some row), ct1, cs1)))))))"

text \<open>Connecting: the link, and what was asked of the provider.\<close>

definition connect_app ::
  "codecs \<Rightarrow> (provider_call \<Rightarrow> provider_reply) \<Rightarrow> provider option \<Rightarrow> int \<Rightarrow> int \<Rightarrow> toolkit list option \<Rightarrow> string \<Rightarrow> string \<Rightarrow> string \<Rightarrow>
   app_catalog \<Rightarrow> (provider_call list \<times> link apps_reply) \<times> app_catalog" where
  "connect_app cd http c now later got user app callback ct =
     (case c of
        None \<Rightarrow> (([], ApFail 502), ct)
      | Some c1 \<Rightarrow>
          (case offers_app now later got app ct of
             (Some status, ct1) \<Rightarrow> (([], ApFail status), ct1)
           | (None, ct1) \<Rightarrow>
               (case mint_link cd http c1 user app callback of
                  (calls, None) \<Rightarrow> ((calls, ApFail 502), ct1)
                | (calls, Some l) \<Rightarrow> ((calls, ApDone 201 l), ct1))))"

end
