(* ===== verification/ScheduleSpec.thy ===== *)
theory ScheduleSpec
  imports GoTime
begin

text \<open>
  The schedule grammar of package \<^verbatim>\<open>internal/agentd\<close> (\<^verbatim>\<open>schedule.go\<close>, the half that keeps no
  state): tokens, clauses, base forms, and the next firing of a parsed expression. The tz
  database is a parameter, \<open>tz\<close>: the location \<^verbatim>\<open>time.LoadLocation\<close> gives a name, if any.
\<close>

section \<open>Parsed expressions\<close>

datatype day_kind = KindDaily | KindWeekly | KindWeekdays | KindWeekends | KindMonthly

record clock =
  c_hour :: nat
  c_minute :: nat

definition mins :: "clock \<Rightarrow> nat" where
  "mins c = c_hour c * 60 + c_minute c"

record spec =
  sp_every :: int
  sp_once :: bool
  sp_at :: "int option"
  sp_rel :: int
  sp_kind :: day_kind
  sp_times :: "clock list"
  sp_day :: int
  sp_dom :: int
  sp_until :: "int option"
  sp_pinned :: bool
  sp_loc :: location

definition no_spec :: spec where
  "no_spec = \<lparr>sp_every = 0, sp_once = False, sp_at = None, sp_rel = 0, sp_kind = KindDaily,
     sp_times = [], sp_day = 0, sp_dom = 0, sp_until = None, sp_pinned = False, sp_loc = utc\<rparr>"

text \<open>One constructor per message; the token a message quotes is its argument.\<close>

datatype parse_error =
    GrammarHelp
  | NotADuration string
  | TightestAllowed
  | NotADay string
  | NeedsMonthlyTime
  | NotADate string
  | NotAClock string
  | TimeMissing
  | NeedsMonthDay
  | NotADayOfMonth string
  | NotFromNow
  | NotAZone string
  | UntilNeedsDate
  | UntilOnOneOff
  | WindowNeedsRange
  | WindowEmpty
  | WindowNeedsEvery
  | ZoneOnRelative
  | AlreadyPassed string
  | NoRunBefore string

type_synonym 'a parsed = "parse_error + 'a"

definition min_interval :: int where "min_interval = 15 * minute_ns"

definition weekdays :: "string \<Rightarrow> int option" where
  "weekdays = map_of [(''sun'', 0), (''mon'', 1), (''tue'', 2), (''wed'', 3), (''thu'', 4),
     (''fri'', 5), (''sat'', 6)]"

definition day_words :: "string \<Rightarrow> day_kind" where
  "day_words w =
     (case map_of [(''weekday'', KindWeekdays), (''weekdays'', KindWeekdays),
                   (''weekend'', KindWeekends), (''weekends'', KindWeekends)] w of
        Some k \<Rightarrow> k | None \<Rightarrow> KindDaily)"

section \<open>Tokens\<close>

record parts =
  p_f :: "string list"
  p_orig :: "string list"

definition fields :: "string \<Rightarrow> parts" where
  "fields expr = (let orig = fields_of (trim_with is_space expr) in
     \<lparr>p_f = map (List.map to_lower) orig, p_orig = orig\<rparr>)"

definition cut :: "nat \<Rightarrow> nat \<Rightarrow> parts \<Rightarrow> parts" where
  "cut i n p = \<lparr>p_f = take i (p_f p) @ drop (i + n) (p_f p),
                p_orig = take i (p_orig p) @ drop (i + n) (p_orig p)\<rparr>"

definition find_kw :: "string \<Rightarrow> parts \<Rightarrow> nat option" where
  "find_kw kw p = index_of kw (p_f p)"

section \<open>Durations, dates and clocks\<close>

text \<open>
  \<^verbatim>\<open>dayUnits.ReplaceAllStringFunc\<close>: a run of digits right before \<^verbatim>\<open>d\<close> or \<^verbatim>\<open>w\<close> becomes
  hours. \<^verbatim>\<open>Atoi\<close>'s error is dropped, so a huge number is the largest int, and the products
  wrap at 64 bits.
\<close>

definition day_unit_hours :: "string \<Rightarrow> char \<Rightarrow> string" where
  "day_unit_hours ds u =
     (let n = (of_int (fst (atoi_clamped ds)) :: i64);
          m = (if u = CHR ''w'' then n * 7 else n)
      in signed_dec (sint (m * 24)) @ ''h'')"

function expand_duration :: "string \<Rightarrow> string" where
  "expand_duration s =
     (case s of
        [] \<Rightarrow> []
      | c # cs \<Rightarrow>
          if is_digit c then
            (let ds = takeWhile is_digit s; r = dropWhile is_digit s in
             case r of
               [] \<Rightarrow> ds
             | u # r' \<Rightarrow> if u = CHR ''d'' \<or> u = CHR ''w'' then day_unit_hours ds u @ expand_duration r'
                         else ds @ u # expand_duration r')
          else c # expand_duration cs)"
  by pat_completeness auto
termination
proof (relation "measure length")
  fix s cs r r' :: string and c u :: char
  assume s: "s = c # cs" and d: "is_digit c" and r: "r = dropWhile is_digit s" and ru: "r = u # r'"
  have "length r \<le> length cs" using s d r by (simp add: length_dropWhile_le)
  then show "(r', s) \<in> measure length" using s ru by simp
  then show "(r', s) \<in> measure length" .
qed auto

declare expand_duration.simps [simp del]

definition parse_date :: "string \<Rightarrow> (int \<times> int \<times> int) parsed" where
  "parse_date s = (case parse_iso_date s of Some d \<Rightarrow> Inr d | None \<Rightarrow> Inl (NotADate s))"

definition parse_clock :: "string \<Rightarrow> clock parsed" where
  "parse_clock s =
     (case parse_24 s of
        Some (h, m) \<Rightarrow> Inr \<lparr>c_hour = h, c_minute = m\<rparr>
      | None \<Rightarrow>
     (case parse_12_minute s of
        Some (h, m) \<Rightarrow> Inr \<lparr>c_hour = h, c_minute = m\<rparr>
      | None \<Rightarrow>
     (case parse_12 s of
        Some (h, m) \<Rightarrow> Inr \<lparr>c_hour = h, c_minute = m\<rparr>
      | None \<Rightarrow> Inl (NotAClock s))))"

definition tidy_clocks :: "clock list \<Rightarrow> clock list" where
  "tidy_clocks cs = remdups_adj (sort_key mins cs)"

definition trim_comma :: "string \<Rightarrow> string" where
  "trim_comma s = (if s \<noteq> [] \<and> last s = CHR '','' then butlast s else s)"

fun parse_clock_list :: "string list \<Rightarrow> clock list parsed" where
  "parse_clock_list [] = Inr []"
| "parse_clock_list (tok # toks) =
     (if tok = ''and'' then parse_clock_list toks
      else (case parse_clock (trim_comma tok) of
              Inl e \<Rightarrow> Inl e
            | Inr c \<Rightarrow> map_sum id ((#) c) (parse_clock_list toks)))"

definition parse_times :: "string list \<Rightarrow> clock list parsed" where
  "parse_times f =
     (case parse_clock_list f of
        Inl e \<Rightarrow> Inl e
      | Inr out \<Rightarrow> if out = [] then Inl TimeMissing else Inr (tidy_clocks out))"

definition parse_month_day :: "string list \<Rightarrow> (int \<times> string list) parsed" where
  "parse_month_day f =
     (if length f \<ge> 2 \<and> f ! 0 = ''last'' \<and> f ! 1 = ''day'' then Inr (0, drop 2 f)
      else (case f of
              [] \<Rightarrow> Inl NeedsMonthDay
            | w # rest \<Rightarrow>
                (case atoi (rev (dropWhile (\<lambda>c. c \<in> set ''stndrh'') (rev w))) of
                   Some n \<Rightarrow> if n < 1 \<or> n > 31 then Inl (NotADayOfMonth w) else Inr (n, rest)
                 | None \<Rightarrow> Inl (NotADayOfMonth w))))"

text \<open>The times a window turns an interval into: every step from its start to its end.\<close>

definition spread :: "clock \<Rightarrow> clock \<Rightarrow> int \<Rightarrow> clock list" where
  "spread start fin every =
     (let step = nat (max (every div minute_ns) 1);
          span0 = int (mins fin) - int (mins start);
          span = nat (if span0 < 0 then span0 + 24 * 60 else span0)
      in tidy_clocks (map (\<lambda>k. let t = (mins start + k * step) mod (24 * 60) in
                              \<lparr>c_hour = t div 60, c_minute = t mod 60\<rparr>) [0..<span div step + 1]))"

section \<open>Clauses\<close>

fun zone_index :: "string list \<Rightarrow> string list \<Rightarrow> nat \<Rightarrow> nat option" where
  "zone_index (f # g # fs) (o' # n # os) i =
     (if f = ''in'' \<and> (CHR ''/'' \<in> set n \<or> g = ''utc'') then Some i
      else zone_index (g # fs) (n # os) (i + 1))"
| "zone_index _ _ _ = None"

definition take_zone :: "(string \<Rightarrow> location option) \<Rightarrow> parts \<Rightarrow> (location option \<times> parts) parsed" where
  "take_zone tz p =
     (case zone_index (p_f p) (p_orig p) 0 of
        None \<Rightarrow> Inr (None, p)
      | Some i \<Rightarrow>
          (case tz (p_orig p ! (i + 1)) of
             None \<Rightarrow> Inl (NotAZone (p_orig p ! (i + 1)))
           | Some loc \<Rightarrow> Inr (Some loc, cut i 2 p)))"

definition take_until :: "location \<Rightarrow> parts \<Rightarrow> (int option \<times> parts) parsed" where
  "take_until loc p =
     (case find_kw ''until'' p of
        None \<Rightarrow> Inr (None, p)
      | Some i \<Rightarrow>
          if length (p_f p) \<le> i + 1 then Inl UntilNeedsDate
          else (case parse_date (p_f p ! (i + 1)) of
                  Inl e \<Rightarrow> Inl e
                | Inr (y, m, d) \<Rightarrow> Inr (Some (go_date loc y m (d + 1) 0 0 - 1), cut i 2 p)))"

definition take_window :: "parts \<Rightarrow> ((clock \<times> clock) option \<times> parts) parsed" where
  "take_window p =
     (case find_kw ''between'' p of
        None \<Rightarrow> Inr (None, p)
      | Some i \<Rightarrow>
          if length (p_f p) \<le> i + 3 \<or> p_f p ! (i + 2) \<noteq> ''and'' then Inl WindowNeedsRange
          else (case parse_clock (p_f p ! (i + 1)) of
                  Inl e \<Rightarrow> Inl e
                | Inr start \<Rightarrow>
               (case parse_clock (p_f p ! (i + 3)) of
                  Inl e \<Rightarrow> Inl e
                | Inr fin \<Rightarrow>
                    if start = fin then Inl WindowEmpty
                    else Inr (Some (start, fin), cut i 4 p))))"

section \<open>Base forms\<close>

definition parse_every :: "string \<Rightarrow> spec parsed" where
  "parse_every w =
     (case parse_duration (expand_duration w) of
        None \<Rightarrow> Inl (NotADuration w)
      | Some d \<Rightarrow> if d < min_interval then Inl TightestAllowed else Inr (no_spec\<lparr>sp_every := d\<rparr>))"

definition parse_once_on :: "string \<Rightarrow> string \<Rightarrow> location \<Rightarrow> spec parsed" where
  "parse_once_on dw cw loc =
     (case parse_date dw of
        Inl e \<Rightarrow> Inl e
      | Inr (y, m, d) \<Rightarrow>
          (case parse_clock cw of
             Inl e \<Rightarrow> Inl e
           | Inr c \<Rightarrow> Inr (no_spec\<lparr>sp_once := True,
                sp_at := Some (go_date loc y m d (int (c_hour c)) (int (c_minute c)))\<rparr>)))"

definition parse_once_in :: "string \<Rightarrow> spec parsed" where
  "parse_once_in w =
     (case parse_duration (expand_duration w) of
        None \<Rightarrow> Inl (NotADuration w)
      | Some d \<Rightarrow> if d \<le> 0 then Inl NotFromNow else Inr (no_spec\<lparr>sp_once := True, sp_rel := d\<rparr>))"

definition parse_monthly :: "string list \<Rightarrow> spec parsed" where
  "parse_monthly f =
     (let r0 = (if f \<noteq> [] \<and> hd f = ''the'' then tl f else f) in
      case parse_month_day r0 of
        Inl e \<Rightarrow> Inl e
      | Inr (md, rest) \<Rightarrow>
          if length rest < 2 \<or> rest ! 0 \<noteq> ''at'' then Inl NeedsMonthlyTime
          else map_sum id (\<lambda>ts. no_spec\<lparr>sp_kind := KindMonthly, sp_dom := md, sp_times := ts\<rparr>)
                 (parse_times (tl rest)))"

definition parse_base :: "string list \<Rightarrow> location \<Rightarrow> spec parsed" where
  "parse_base f loc =
     (let n = length f in
      if n < 2 then Inl GrammarHelp
      else if n = 2 \<and> f ! 0 = ''every'' then parse_every (f ! 1)
      else if n \<ge> 3 \<and> f ! 0 = ''daily'' \<and> f ! 1 = ''at'' then
        map_sum id (\<lambda>ts. no_spec\<lparr>sp_times := ts\<rparr>) (parse_times (drop 2 f))
      else if n \<ge> 4 \<and> f ! 0 = ''every'' \<and> f ! 2 = ''at'' \<and> day_words (f ! 1) \<noteq> KindDaily then
        map_sum id (\<lambda>ts. no_spec\<lparr>sp_kind := day_words (f ! 1), sp_times := ts\<rparr>) (parse_times (drop 3 f))
      else if n \<ge> 5 \<and> f ! 0 = ''weekly'' \<and> f ! 1 = ''on'' \<and> f ! 3 = ''at'' then
        (case weekdays (f ! 2) of
           None \<Rightarrow> Inl (NotADay (f ! 2))
         | Some d \<Rightarrow> map_sum id (\<lambda>ts. no_spec\<lparr>sp_kind := KindWeekly, sp_day := d, sp_times := ts\<rparr>)
                       (parse_times (drop 4 f)))
      else if f ! 0 = ''monthly'' \<and> f ! 1 = ''on'' then parse_monthly (drop 2 f)
      else if n = 5 \<and> f ! 0 = ''once'' \<and> f ! 1 = ''on'' \<and> f ! 3 = ''at'' then
        parse_once_on (f ! 2) (f ! 4) loc
      else if n = 3 \<and> f ! 0 = ''once'' \<and> f ! 1 = ''in'' then parse_once_in (f ! 2)
      else Inl GrammarHelp)"

text \<open>How the clauses found change the base form, in the order the code checks them.\<close>

definition apply_clauses ::
  "location \<Rightarrow> bool \<Rightarrow> int option \<Rightarrow> (clock \<times> clock) option \<Rightarrow> spec \<Rightarrow> spec parsed" where
  "apply_clauses loc pinned until window sp0 =
     (let sp1 = sp0\<lparr>sp_loc := loc, sp_pinned := pinned\<rparr> in
      if until \<noteq> None \<and> sp_once sp1 then Inl UntilOnOneOff
      else (let sp2 = (if until \<noteq> None then sp1\<lparr>sp_until := until\<rparr> else sp1) in
        if window \<noteq> None \<and> sp_every sp2 = 0 then Inl WindowNeedsEvery
        else (let sp3 = (case window of
                           None \<Rightarrow> sp2
                         | Some (start, fin) \<Rightarrow> sp2\<lparr>sp_times := spread start fin (sp_every sp2),
                                                  sp_every := 0, sp_kind := KindDaily\<rparr>)
          in if sp_rel sp3 > 0 \<and> pinned then Inl ZoneOnRelative else Inr sp3)))"

definition parse_schedule ::
  "(string \<Rightarrow> location option) \<Rightarrow> string \<Rightarrow> location \<Rightarrow> spec parsed" where
  "parse_schedule tz expr loc0 =
     (case take_zone tz (fields expr) of
        Inl e \<Rightarrow> Inl e
      | Inr (zone, p1) \<Rightarrow>
          (let loc = (case zone of Some z \<Rightarrow> z | None \<Rightarrow> loc0) in
           case take_until loc p1 of
             Inl e \<Rightarrow> Inl e
           | Inr (until, p2) \<Rightarrow>
          (case take_window p2 of
             Inl e \<Rightarrow> Inl e
           | Inr (window, p3) \<Rightarrow>
          (case parse_base (p_f p3) loc of
             Inl e \<Rightarrow> Inl e
           | Inr sp \<Rightarrow> apply_clauses loc (zone \<noteq> None) until window sp))))"

section \<open>The next firing\<close>

definition day_search_limit :: nat where "day_search_limit = 366"

definition month_day :: "spec \<Rightarrow> int \<times> int \<times> int \<Rightarrow> int" where
  "month_day sp = (\<lambda>(y, m, _).
     let last = snd (snd (local_date (sp_loc sp) (go_date (sp_loc sp) y (m + 1) 0 0 0))) in
     if sp_dom sp = 0 \<or> sp_dom sp > last then last else sp_dom sp)"

definition matches_day :: "spec \<Rightarrow> int \<Rightarrow> bool" where
  "matches_day sp day =
     (let wd = week_day (local_day (sp_loc sp) day) in
      case sp_kind sp of
        KindDaily \<Rightarrow> True
      | KindWeekly \<Rightarrow> wd = sp_day sp
      | KindWeekdays \<Rightarrow> wd \<noteq> 6 \<and> wd \<noteq> 0
      | KindWeekends \<Rightarrow> wd = 6 \<or> wd = 0
      | KindMonthly \<Rightarrow> snd (snd (local_date (sp_loc sp) day)) = month_day sp (local_date (sp_loc sp) day))"

definition firings_on :: "spec \<Rightarrow> int \<Rightarrow> int list" where
  "firings_on sp day =
     (case local_date (sp_loc sp) day of (y, m, d) \<Rightarrow>
        List.map (\<lambda>c. go_date (sp_loc sp) y m d (int (c_hour c)) (int (c_minute c))) (sp_times sp))"

fun search_days :: "spec \<Rightarrow> int \<Rightarrow> int \<times> int \<times> int \<Rightarrow> nat \<Rightarrow> int option" where
  "search_days sp after ymd 0 = None"
| "search_days sp after (y, m, d) (Suc k) =
     (let day = go_date (sp_loc sp) y m d 0 0;
          hit = (if matches_day sp day then List.find (\<lambda>t. after < t) (firings_on sp day) else None) in
      if hit \<noteq> None then hit else search_days sp after (y, m, d + 1) k)"

definition next_raw :: "spec \<Rightarrow> int \<Rightarrow> int option" where
  "next_raw sp after =
     (if sp_rel sp > 0 then Some (after + sp_rel sp)
      else if sp_once sp then
        (case sp_at sp of Some a \<Rightarrow> if after < a then Some a else None | None \<Rightarrow> None)
      else if sp_every sp > 0 then Some (after + sp_every sp)
      else search_days sp after (local_date (sp_loc sp) after) day_search_limit)"

definition next_run :: "spec \<Rightarrow> int \<Rightarrow> int option" where
  "next_run sp after =
     (case next_raw sp after of
        None \<Rightarrow> None
      | Some a \<Rightarrow> (case sp_until sp of
                     Some u \<Rightarrow> if u < a then None else Some a
                   | None \<Rightarrow> Some a))"

section \<open>Planning\<close>

definition absolute_form :: "int \<Rightarrow> location \<Rightarrow> string" where
  "absolute_form t loc =
     (let up = t - t mod minute_ns;
          a = (if up < t then up + minute_ns else t);
          expr = ''once on '' @ format_date (local_date loc a) @ '' at '' @
                 format_clock (local_hour loc a) (local_minute loc a)
      in if CHR ''/'' \<in> set (loc_name loc) \<or> loc_name loc = ''UTC''
         then expr @ '' in '' @ loc_name loc else expr)"

definition no_run_left :: "spec \<Rightarrow> location \<Rightarrow> parse_error" where
  "no_run_left sp loc =
     (if sp_once sp then
        (case sp_at sp of
           Some a \<Rightarrow> AlreadyPassed (format_date (local_date loc a) @ '' '' @
                       format_clock (local_hour loc a) (local_minute loc a))
         | None \<Rightarrow> AlreadyPassed ''0001-01-01 00:00'')
      else (case sp_until sp of
              Some u \<Rightarrow> NoRunBefore (format_date (local_date loc u))
            | None \<Rightarrow> NoRunBefore ''0001-01-01''))"

definition plan_schedule ::
  "(string \<Rightarrow> location option) \<Rightarrow> string \<Rightarrow> location \<Rightarrow> int \<Rightarrow> (spec \<times> string \<times> int) parsed" where
  "plan_schedule tz expr loc now =
     (case parse_schedule tz expr loc of
        Inl e \<Rightarrow> Inl e
      | Inr sp0 \<Rightarrow>
          (let expr' = (if sp_rel sp0 > 0 then absolute_form (now + sp_rel sp0) loc else expr) in
           case (if sp_rel sp0 > 0 then parse_schedule tz expr' loc else Inr sp0) of
             Inl e \<Rightarrow> Inl e
           | Inr sp \<Rightarrow>
               (case next_run sp now of
                  None \<Rightarrow> Inl (no_run_left sp loc)
                | Some a \<Rightarrow> Inr (sp, expr', a))))"

end
