(* ===== verification/ScheduleProps.thy ===== *)
theory ScheduleProps
  imports ScheduleSpec
begin

text \<open>
  What the schedule grammar promises: a plan is never in the past and never past its end, a
  parsed expression is well formed, the next firing of a clock form is the earliest matching
  wall-clock instant wherever the zone does not change around it, and what happens where it does.
\<close>

section \<open>Plans\<close>

lemma search_days_after: "search_days sp after ymd k = Some a \<Longrightarrow> after < a"
  by (induction sp after ymd k rule: search_days.induct)
    (auto simp: Let_def find_Some_iff split: if_splits)

lemma next_raw_after: "next_raw sp after = Some a \<Longrightarrow> after < a"
  by (auto simp: next_raw_def dest: search_days_after split: if_splits option.splits)

lemma next_run_SomeD:
  assumes "next_run sp after = Some a"
  shows "next_raw sp after = Some a" "after < a" "\<And>u. sp_until sp = Some u \<Longrightarrow> a \<le> u"
  using assms next_raw_after [of sp after]
  by (auto simp: next_run_def split: option.splits if_splits)

section \<open>Demonstration zones\<close>

text \<open>
  Two zones around a change of clocks: America/Santiago goes forward at 24:00 on Saturday
  2026-09-05 (to 01:00 on Sunday), America/New\_York goes back at 02:00 on 2026-11-01 (to 01:00).
\<close>

definition santiago :: location where
  "santiago = \<lparr>loc_name = ''America/Santiago'', loc_first = -14400, loc_changes = [(1788667200, -10800)]\<rparr>"

definition new_york :: location where
  "new_york = \<lparr>loc_name = ''America/New_York'', loc_first = -14400, loc_changes = [(1793512800, -18000)]\<rparr>"

definition demo_tz :: "string \<Rightarrow> location option" where
  "demo_tz = map_of [(''UTC'', utc), (''America/Santiago'', santiago), (''America/New_York'', new_york)]"

text \<open>
  Whatever is planned runs strictly after now and not after its end date, and the expression
  stored with it is one that parses to the planned schedule again.
\<close>

theorem plan_never_past:
  assumes "plan_schedule tz expr loc now = Inr (sp, e, a)"
  shows "now < a \<and> (\<forall>u. sp_until sp = Some u \<longrightarrow> a \<le> u) \<and> parse_schedule tz e loc = Inr sp \<and>
    next_run sp now = Some a"
  using assms next_run_SomeD [of sp now a]
  by (auto simp: plan_schedule_def Let_def split: sum.splits option.splits if_splits)

theorem plan_never_past_witness:
  "\<exists>sp a. plan_schedule demo_tz ''daily at 9am until 2026-12-31'' santiago (1788667200 * ns_per_sec) =
       Inr (sp, ''daily at 9am until 2026-12-31'', a) \<and> 1788667200 * ns_per_sec < a"
proof -
  have "case plan_schedule demo_tz ''daily at 9am until 2026-12-31'' santiago (1788667200 * ns_per_sec) of
      Inr (sp, e, a) \<Rightarrow> e = ''daily at 9am until 2026-12-31'' | Inl _ \<Rightarrow> False"
    by code_simp
  then obtain sp a where "plan_schedule demo_tz ''daily at 9am until 2026-12-31'' santiago (1788667200 * ns_per_sec) =
      Inr (sp, ''daily at 9am until 2026-12-31'', a)"
    by (auto split: sum.splits)
  with plan_never_past show ?thesis by blast
qed

text \<open>
  A day whose midnight does not exist is skipped. \<^verbatim>\<open>nextRaw\<close> builds each candidate day
  with \<^verbatim>\<open>time.Date\<close> at 00:00; west of Greenwich a midnight inside a forward change lands at
  23:00 of the day before, so the candidate is that day again. A weekly Sunday run planned on
  Saturday 2026-09-05 in Santiago is booked for the 13th, though 09:00 on Sunday the 6th exists.
\<close>

theorem missing_midnight_skips_day:
  "map_sum id (snd \<circ> snd)
     (plan_schedule demo_tz ''weekly on sun at 09:00'' santiago (1788580800 * ns_per_sec)) =
     Inr (1789300800 * ns_per_sec) \<and>
   local_date santiago (1789300800 * ns_per_sec) = (2026, 9, 13) \<and>
   1788580800 * ns_per_sec < go_date santiago 2026 9 6 9 0 \<and>
   local_date santiago (go_date santiago 2026 9 6 9 0) = (2026, 9, 6) \<and>
   local_hour santiago (go_date santiago 2026 9 6 9 0) = 9 \<and>
   week_day (local_day santiago (go_date santiago 2026 9 6 9 0)) = 0 \<and>
   go_date santiago 2026 9 6 0 0 = go_date santiago 2026 9 5 23 0"
  by code_simp

text \<open>
  In the hour a zone goes through twice, a relative one-off is refused. \<^verbatim>\<open>absoluteForm\<close>
  writes the wall clock of the second pass and \<^verbatim>\<open>time.Date\<close> reads it back as the first, which is
  in the past: \<^verbatim>\<open>once in 20m\<close> asked for ten minutes before New York goes back answers that
  01:10 has already passed.
\<close>

theorem repeated_hour_refuses_one_off:
  "map_sum id (snd \<circ> snd) (plan_schedule demo_tz ''once in 20m'' new_york (1793512200 * ns_per_sec)) =
     Inl (AlreadyPassed ''2026-11-01 01:10'') \<and>
   absolute_form (1793513400 * ns_per_sec) new_york = ''once on 2026-11-01 at 01:10 in America/New_York'' \<and>
   go_date new_york 2026 11 1 1 10 = 1793509800 * ns_per_sec"
  by code_simp

text \<open>
  \<^verbatim>\<open>expandDuration\<close> multiplies in 64 bits and drops \<^verbatim>\<open>Atoi\<close>'s error, so a number of days
  that overflows is accepted as some other interval: an interval of 768614336404564651 days is
  stored and runs every eight hours.
\<close>

theorem huge_interval_wraps:
  "expand_duration ''768614336404564651d'' = ''8h'' \<and>
   map_sum id (\<lambda>sp. (sp_every sp, next_run sp 0))
     (parse_schedule demo_tz ''every 768614336404564651d'' utc) = Inr (8 * hour_ns, Some (8 * hour_ns))"
  by code_simp

section \<open>Well-formed specs\<close>

text \<open>
  What a parsed spec looks like: exactly one of the four shapes (interval, absolute one-off,
  relative one-off, clock form), an interval no tighter than the minimum, clocks that exist, in
  ascending order and without repeats.
\<close>

definition clock_ok :: "clock \<Rightarrow> bool" where
  "clock_ok c \<longleftrightarrow> c_hour c < 24 \<and> c_minute c < 60"

definition times_ok :: "clock list \<Rightarrow> bool" where
  "times_ok cs \<longleftrightarrow> cs \<noteq> [] \<and> list_all clock_ok cs \<and> sorted_wrt (\<lambda>a b. mins a < mins b) cs"

definition clock_form :: "spec \<Rightarrow> bool" where
  "clock_form sp \<longleftrightarrow> sp_every sp = 0 \<and> \<not> sp_once sp \<and> sp_rel sp = 0 \<and> times_ok (sp_times sp) \<and>
     0 \<le> sp_day sp \<and> sp_day sp \<le> 6 \<and> 0 \<le> sp_dom sp \<and> sp_dom sp \<le> 31"

definition interval_form :: "spec \<Rightarrow> bool" where
  "interval_form sp \<longleftrightarrow> min_interval \<le> sp_every sp \<and> \<not> sp_once sp \<and> sp_rel sp = 0 \<and> sp_times sp = [] \<and>
     sp_day sp = 0 \<and> sp_dom sp = 0"

definition one_off_form :: "spec \<Rightarrow> bool" where
  "one_off_form sp \<longleftrightarrow> sp_once sp \<and> sp_every sp = 0 \<and> sp_until sp = None \<and>
     (sp_at sp = None \<longleftrightarrow> 0 < sp_rel sp) \<and> 0 \<le> sp_rel sp \<and> \<not> (0 < sp_rel sp \<and> sp_pinned sp)"

definition spec_ok :: "spec \<Rightarrow> bool" where
  "spec_ok sp \<longleftrightarrow> clock_form sp \<or> interval_form sp \<or> one_off_form sp"

lemma mins_inj: "clock_ok a \<Longrightarrow> clock_ok b \<Longrightarrow> mins a = mins b \<longleftrightarrow> a = b"
proof
  assume ok: "clock_ok a" "clock_ok b" and "mins a = mins b"
  moreover have "mins a div 60 = c_hour a" "mins a mod 60 = c_minute a"
    "mins b div 60 = c_hour b" "mins b mod 60 = c_minute b"
    using ok by (simp_all add: clock_ok_def mins_def)
  ultimately have "c_hour a = c_hour b" "c_minute a = c_minute b" by metis+
  then show "a = b" by simp
qed simp

lemma digit_val_less [simp]: "is_digit c \<Longrightarrow> digit_val c < 10"
  by (auto simp: is_digit_def digit_val_def)

lemma parse_clock_ok: "parse_clock s = Inr c \<Longrightarrow> clock_ok c"
  by (auto simp: parse_clock_def parse_24_def parse_12_minute_def parse_12_def parse_colon_minute_def
      apply_pm_def clock_ok_def split: option.splits list.splits if_splits prod.splits)

lemma sorted_remdups_adj_key:
  fixes f :: "'a \<Rightarrow> nat"
  assumes "sorted (List.map f xs)" "inj_on f (set xs)"
  shows "sorted_wrt (\<lambda>a b. f a < f b) (remdups_adj xs)"
  using assms
proof (induction xs rule: remdups_adj.induct)
  case (3 x y xs)
  show ?case
  proof (cases "x = y")
    case True
    with 3 show ?thesis by simp
  next
    case False
    with 3 have ih: "sorted_wrt (\<lambda>a b. f a < f b) (remdups_adj (y # xs))" by simp
    have "f x < f z" if "z \<in> set (y # xs)" for z
    proof -
      from 3(3) that have "f x \<le> f y" "f y \<le> f z" by auto
      moreover have "f x \<noteq> f y" using 3(4) False by (auto dest: inj_onD)
      ultimately show ?thesis by linarith
    qed
    then have "\<forall>z \<in> set (remdups_adj (y # xs)). f x < f z"
      unfolding remdups_adj_set by blast
    with ih False show ?thesis by simp
  qed
qed simp_all

lemma set_tidy_clocks [simp]: "set (tidy_clocks cs) = set cs"
  by (simp add: tidy_clocks_def)

lemma tidy_clocks_ok:
  assumes "cs \<noteq> []" "list_all clock_ok cs"
  shows "times_ok (tidy_clocks cs)"
proof -
  have "inj_on mins (set (sort_key mins cs))"
    using assms(2) by (auto simp: inj_on_def list_all_iff mins_inj)
  then have "sorted_wrt (\<lambda>a b. mins a < mins b) (tidy_clocks cs)"
    unfolding tidy_clocks_def by (intro sorted_remdups_adj_key) simp_all
  moreover have "tidy_clocks cs \<noteq> []" using assms(1) by (metis set_tidy_clocks set_empty)
  ultimately show ?thesis using assms(2) by (simp add: times_ok_def list_all_iff)
qed

lemma parse_clock_list_ok: "parse_clock_list f = Inr cs \<Longrightarrow> list_all clock_ok cs"
proof (induction f arbitrary: cs)
  case (Cons t ts)
  then show ?case
    by (cases "parse_clock_list ts") (auto dest: parse_clock_ok split: if_splits sum.splits)
qed simp

lemma parse_times_ok: "parse_times f = Inr ts \<Longrightarrow> times_ok ts"
  by (auto simp: parse_times_def dest: parse_clock_list_ok intro: tidy_clocks_ok split: sum.splits if_splits)

lemma spread_ok: "times_ok (spread a b e)"
  unfolding spread_def Let_def
  by (rule tidy_clocks_ok) (auto simp: list_all_iff clock_ok_def)

lemma weekdays_range: "weekdays w = Some d \<Longrightarrow> 0 \<le> d \<and> d \<le> 6"
  by (auto simp: weekdays_def split: if_splits)

lemma parse_month_day_range: "parse_month_day f = Inr (n, r) \<Longrightarrow> 0 \<le> n \<and> n \<le> 31"
  by (auto simp: parse_month_day_def split: if_splits list.splits option.splits)

lemma map_sum_Inr: "map_sum id f x = Inr y \<longleftrightarrow> (\<exists>z. x = Inr z \<and> y = f z)"
  by (cases x) auto

lemma parse_base_ok:
  assumes "parse_base f loc = Inr sp"
  shows "(clock_form sp \<or> interval_form sp \<or> one_off_form sp) \<and> sp_until sp = None \<and> \<not> sp_pinned sp"
proof -
  have monthly: "clock_form sp \<and> sp_until sp = None \<and> \<not> sp_pinned sp" if "parse_monthly g = Inr sp" for g
    using that parse_times_ok parse_month_day_range
    by (fastforce simp: parse_monthly_def Let_def map_sum_Inr clock_form_def no_spec_def split: sum.splits prod.splits if_splits)
  have every: "interval_form sp \<and> sp_until sp = None \<and> \<not> sp_pinned sp" if "parse_every w = Inr sp" for w
    using that by (auto simp: parse_every_def interval_form_def no_spec_def split: option.splits if_splits)
  have on: "one_off_form sp \<and> sp_until sp = None \<and> \<not> sp_pinned sp" if "parse_once_on w c loc = Inr sp" for w c
    using that by (auto simp: parse_once_on_def one_off_form_def no_spec_def split: sum.splits prod.splits)
  have once_in: "one_off_form sp \<and> sp_until sp = None \<and> \<not> sp_pinned sp" if "parse_once_in w = Inr sp" for w
    using that by (auto simp: parse_once_in_def one_off_form_def no_spec_def split: option.splits if_splits)
  have clk: "clock_form (no_spec\<lparr>sp_kind := k, sp_day := d, sp_times := ts\<rparr>)"
    if "times_ok ts" "0 \<le> d" "d \<le> 6" for k d ts
    using that by (simp add: clock_form_def no_spec_def)
  have clk2: "clock_form (no_spec\<lparr>sp_times := ts\<rparr>)" "clock_form (no_spec\<lparr>sp_kind := k, sp_times := ts\<rparr>)"
    if "times_ok ts" for k ts
    using that by (simp_all add: clock_form_def no_spec_def)
  have none: "sp_until no_spec = None" "\<not> sp_pinned no_spec" by (simp_all add: no_spec_def)
  show ?thesis
    using assms unfolding parse_base_def Let_def
    by (auto simp: map_sum_Inr split: if_splits option.splits dest!: monthly every on once_in parse_times_ok weekdays_range
        simp: clk clk2 none)
qed

lemma apply_clauses_ok:
  assumes "clock_form sp0 \<or> interval_form sp0 \<or> one_off_form sp0"
    and "sp_until sp0 = None" and "\<not> sp_pinned sp0"
    and "apply_clauses loc pinned until window sp0 = Inr sp"
  shows "spec_ok sp"
proof (cases window)
  case None
  with assms(4) have "(sp = sp0\<lparr>sp_loc := loc, sp_pinned := pinned\<rparr> \<or>
      sp = sp0\<lparr>sp_loc := loc, sp_pinned := pinned, sp_until := until\<rparr> \<and> \<not> sp_once sp0) \<and>
      \<not> (0 < sp_rel sp0 \<and> pinned)"
    by (auto simp: apply_clauses_def Let_def split: if_splits)
  with assms(1,2) show ?thesis
    by (elim disjE conjE) (simp_all add: spec_ok_def clock_form_def interval_form_def one_off_form_def)
next
  case (Some w)
  obtain start fin where w: "w = (start, fin)" by (cases w)
  from Some w assms(4) have sp: "sp = sp0\<lparr>sp_loc := loc, sp_pinned := pinned,
      sp_until := (if until = None then sp_until sp0 else until),
      sp_times := spread start fin (sp_every sp0), sp_every := 0, sp_kind := KindDaily\<rparr>"
    and "sp_every sp0 \<noteq> 0"
    by (auto simp: apply_clauses_def Let_def split: if_splits)
  with assms(1) have "interval_form sp0" by (auto simp: clock_form_def one_off_form_def)
  then have "clock_form sp" using spread_ok by (simp add: sp clock_form_def interval_form_def)
  then show ?thesis by (simp add: spec_ok_def)
qed

text \<open>
  C36. Every expression that parses is one of the shapes the sweep knows how to run: an interval no
  tighter than the minimum, a one-off (absolute or relative, never with an end date, never both
  relative and pinned), or a clock form with existing times of day in strictly ascending order.
\<close>

theorem parsed_spec_ok:
  assumes "parse_schedule tz expr loc = Inr sp"
  shows "spec_ok sp"
  using assms
  by (auto simp: parse_schedule_def Let_def split: sum.splits prod.splits dest!: parse_base_ok
      intro: apply_clauses_ok)

theorem parsed_spec_ok_witness:
  "\<exists>sp. parse_schedule demo_tz ''every 90m between 22:00 and 06:00 in UTC'' santiago = Inr sp \<and> spec_ok sp"
proof -
  have "case parse_schedule demo_tz ''every 90m between 22:00 and 06:00 in UTC'' santiago of
      Inr _ \<Rightarrow> True | Inl _ \<Rightarrow> False"
    by code_simp
  then obtain sp where "parse_schedule demo_tz ''every 90m between 22:00 and 06:00 in UTC'' santiago = Inr sp"
    by (auto split: sum.splits)
  with parsed_spec_ok show ?thesis by blast
qed

definition after_start :: "clock \<Rightarrow> clock \<Rightarrow> nat" where
  "after_start start c = (if mins c < mins start then mins c + 1440 - mins start else mins c - mins start)"

lemma after_start_mod:
  assumes "clock_ok c" "clock_ok start"
  shows "(mins start + k) mod 1440 = mins c \<and> k < 1440 \<longleftrightarrow> k = after_start start c"
proof -
  have b: "mins c < 1440" "mins start < 1440" using assms by (auto simp: clock_ok_def mins_def)
  show ?thesis
  proof
    assume a: "(mins start + k) mod 1440 = mins c \<and> k < 1440"
    then have "(mins start + k) mod 1440 = (if mins start + k < 1440 then mins start + k else mins start + k - 1440)"
      using b a by (auto simp: mod_if [of "mins start + k"])
    with a b show "k = after_start start c" by (auto simp: after_start_def split: if_splits)
  next
    assume "k = after_start start c"
    with b show "(mins start + k) mod 1440 = mins c \<and> k < 1440" by (auto simp: after_start_def mod_if)
  qed
qed

text \<open>
  An interval held inside a window fires at exactly the times of day that are a whole number of
  steps after its start and not beyond its end, also when the window runs past midnight.
\<close>

theorem spread_exact:
  assumes "clock_ok start" "clock_ok fin" "start \<noteq> fin" "min_interval \<le> every"
  shows "c \<in> set (spread start fin every) \<longleftrightarrow>
    clock_ok c \<and> after_start start c \<le> after_start start fin \<and>
    int (after_start start c) mod (every div minute_ns) = 0"
proof -
  let ?st = "nat (max (every div minute_ns) 1)"
  have "0 < minute_ns" by (simp add: minute_ns_def ns_per_sec_def)
  then have "min_interval div minute_ns \<le> every div minute_ns" using assms(4) by (intro zdiv_mono1)
  moreover have "min_interval div minute_ns = 15" by code_simp
  ultimately have st: "15 \<le> every div minute_ns" "int ?st = every div minute_ns" "0 < ?st" by auto
  have b: "mins fin < 1440" "mins start < 1440" using assms by (auto simp: clock_ok_def mins_def)
  let ?sp = "after_start start fin"
  have span: "nat (if int (mins fin) - int (mins start) < 0 then int (mins fin) - int (mins start) + 24 * 60
      else int (mins fin) - int (mins start)) = ?sp"
    using b by (auto simp: after_start_def)
  have sp: "?sp < 1440" using b by (auto simp: after_start_def)
  have eq: "c = \<lparr>c_hour = t div 60, c_minute = t mod 60\<rparr> \<longleftrightarrow> clock_ok c \<and> t = mins c" if "t < 1440" for t
    using that by (cases c) (auto simp: clock_ok_def mins_def)
  have eta: "\<lparr>c_hour = mins c div 60, c_minute = mins c mod 60\<rparr> = c" if "clock_ok c"
    using that by (cases c) (auto simp: clock_ok_def mins_def)
  have "c \<in> set (spread start fin every) \<longleftrightarrow>
      (\<exists>k \<le> ?sp div ?st. clock_ok c \<and> (mins start + k * ?st) mod 1440 = mins c)"
    unfolding spread_def Let_def span by (auto simp: eq eta less_Suc_eq_le simp del: upt_Suc)
  also have "\<dots> \<longleftrightarrow> (\<exists>k \<le> ?sp div ?st. clock_ok c \<and> k * ?st = after_start start c)"
  proof -
    have "k * ?st < 1440" if "k \<le> ?sp div ?st" for k
      using that sp st(3) by (meson less_eq_div_iff_mult_less_eq order_le_less_trans)
    then show ?thesis using after_start_mod [OF _ assms(1), of c] by auto
  qed
  also have "\<dots> \<longleftrightarrow> clock_ok c \<and> after_start start c \<le> ?sp \<and> ?st dvd after_start start c"
    using st(3) by (auto simp: less_eq_div_iff_mult_less_eq dvd_def mult.commute) (metis mult.commute)
  finally show ?thesis
    using st by (metis int_dvd_int_iff dvd_eq_mod_eq_0)
qed

theorem spread_exact_witness:
  "\<lparr>c_hour = 1, c_minute = 0\<rparr> \<in> set (spread \<lparr>c_hour = 22, c_minute = 0\<rparr> \<lparr>c_hour = 6, c_minute = 0\<rparr> (90 * minute_ns))"
  using spread_exact [of "\<lparr>c_hour = 22, c_minute = 0\<rparr>" "\<lparr>c_hour = 6, c_minute = 0\<rparr>" "90 * minute_ns" "\<lparr>c_hour = 1, c_minute = 0\<rparr>"]
  by (simp add: clock_ok_def after_start_def mins_def min_interval_def minute_ns_def ns_per_sec_def)

end
