(* ===== verification/ScheduleNext.thy ===== *)
theory ScheduleNext
  imports ScheduleProps
begin

text \<open>
  The day search of \<^verbatim>\<open>nextRaw\<close> against a specification that does not search: an instant
  matches a clock form when its wall clock in the schedule's location reads one of the times on a
  day of the calendar the form names. Where no change of clocks is near, the search finds the
  first matching instant; in a location without changes it always finds one.
\<close>

section \<open>Matching instants\<close>

definition clamp_day :: "int \<Rightarrow> int \<Rightarrow> int" where
  "clamp_day want len = (if want = 0 \<or> want > len then len else want)"

definition day_matches :: "spec \<Rightarrow> int \<Rightarrow> bool" where
  "day_matches sp n =
     (case sp_kind sp of
        KindDaily \<Rightarrow> True
      | KindWeekly \<Rightarrow> week_day n = sp_day sp
      | KindWeekdays \<Rightarrow> week_day n \<in> {1, 2, 3, 4, 5}
      | KindWeekends \<Rightarrow> week_day n \<in> {0, 6}
      | KindMonthly \<Rightarrow> (case civil n of (y, m, d) \<Rightarrow> d = clamp_day (sp_dom sp) (days_in y m)))"

definition wall_matches :: "spec \<Rightarrow> int \<Rightarrow> bool" where
  "wall_matches sp t \<longleftrightarrow> t mod ns_per_sec = 0 \<and> local_secs (sp_loc sp) t mod 60 = 0 \<and>
     day_matches sp (local_day (sp_loc sp) t) \<and>
     (\<exists>c \<in> set (sp_times sp). local_hour (sp_loc sp) t = int (c_hour c) \<and>
        local_minute (sp_loc sp) t = int (c_minute c))"

text \<open>The instant a clock reads on a day, in a place where the offset is \<open>off\<close>.\<close>

definition instant :: "int \<Rightarrow> int \<Rightarrow> nat \<Rightarrow> int" where
  "instant off n k = ((n - unix_day) * day_secs + int k * 60 - off) * ns_per_sec"

definition small_offsets :: "location \<Rightarrow> bool" where
  "small_offsets loc \<longleftrightarrow> \<bar>loc_first loc\<bar> < day_secs \<and> list_all (\<lambda>(_, off). \<bar>off\<bar> < day_secs) (loc_changes loc)"

lemma zone_at_offset: "fst (zone_at s off cs t) = off \<or> (\<exists>w. (w, fst (zone_at s off cs t)) \<in> set cs)"
  by (induction s off cs t rule: zone_at.induct) (auto split: if_splits)

lemma small_offset_at: "small_offsets loc \<Longrightarrow> \<bar>offset_at loc s\<bar> < day_secs"
  using zone_at_offset [of None "loc_first loc" "loc_changes loc" s]
  by (auto simp: offset_at_def lookup_def small_offsets_def list_all_iff)

lemma date_secs_near:
  assumes "small_offsets loc"
  shows "\<bar>date_secs loc w - w\<bar> < day_secs"
proof -
  obtain off start fin where l: "lookup loc w = (off, start, fin)" by (cases "lookup loc w")
  then have "offset_at loc w = off" by (simp add: offset_at_def)
  with small_offset_at [OF assms, of w] small_offset_at [OF assms, of "w - off"] l show ?thesis
    by (auto simp: date_secs_def Let_def day_secs_def)
qed

lemma ns_pos [simp]: "0 < ns_per_sec" "0 \<le> ns_per_sec" "ns_per_sec \<noteq> 0"
  by (simp_all add: ns_per_sec_def)

lemma day_number_add: "day_number y m (d + i) = day_number y m d + i"
  by (simp add: day_number_def Let_def)

lemma day_number_civil: "civil n = (y, m, d) \<Longrightarrow> day_number y m d = n"
  using civil_valid by blast

text \<open>Reading back an instant.\<close>

lemma read_instant:
  assumes "k < 1440" "steady loc lo hi off" "lo \<le> s" "s \<le> hi" "s = (n - unix_day) * day_secs + int k * 60 - off"
  shows "local_secs loc (s * ns_per_sec) = (n - unix_day) * day_secs + int k * 60"
    "local_day loc (s * ns_per_sec) = n"
    "local_hour loc (s * ns_per_sec) = int (k div 60)"
    "local_minute loc (s * ns_per_sec) = int (k mod 60)"
proof -
  have o': "offset_at loc s = off" using assms steadyD by blast
  then show ls: "local_secs loc (s * ns_per_sec) = (n - unix_day) * day_secs + int k * 60"
    using assms(5) by (simp add: local_secs_def)
  have k: "0 \<le> int k * 60" "int k * 60 < 86400" using assms(1) by simp_all
  have "(q * 86400 + int k * 60) div 86400 = q \<and> (q * 86400 + int k * 60) mod 86400 = int k * 60" for q
    using k by (simp add: div_pos_pos_trivial mod_pos_pos_trivial)
  then have sp: "((n - unix_day) * 86400 + int k * 60) div 86400 = n - unix_day"
    "((n - unix_day) * 86400 + int k * 60) mod 86400 = int k * 60"
    by blast+
  show "local_day loc (s * ns_per_sec) = n"
    unfolding local_day_def ls day_secs_def sp by simp
  have "(int k * 60) div 3600 = int k div 60" using zdiv_zmult2_eq [of 60 "int k * 60" 60] by simp
  then show "local_hour loc (s * ns_per_sec) = int (k div 60)"
    unfolding local_hour_def ls day_secs_def sp by (simp add: zdiv_int)
  have "((n - unix_day) * 86400 + int k * 60) mod 3600 = (int k * 60) mod 3600"
    using mod_mult_self4 [of 3600 "(n - unix_day) * 24" "int k * 60"] by (simp add: algebra_simps)
  also have "\<dots> = (int k mod 60) * 60" using mult_mod_left [of "int k" 60 60] by simp
  finally show "local_minute loc (s * ns_per_sec) = int (k mod 60)"
    unfolding local_minute_def ls day_secs_def by (simp add: zmod_int)
qed

lemma go_date_instant:
  assumes "steady loc lo hi off" "0 \<le> hh" "0 \<le> mm"
    and "w = (day_number y m d - unix_day) * day_secs + hh * 3600 + mm * 60"
    and "lo \<le> w" "w \<le> hi" "lo \<le> w - off" "w - off \<le> hi"
  shows "go_date loc y m d hh mm = instant off (day_number y m d) (nat (hh * 60 + mm))"
proof -
  have "date_secs loc w = w - off" using date_secs_steady assms by blast
  moreover have "wall_secs y m d hh mm = w" by (simp add: assms(4) wall_secs_def)
  moreover have "(day_number y m d - unix_day) * day_secs + int (nat (hh * 60 + mm)) * 60 - off = w - off"
    using assms(2-4) by simp
  ultimately show ?thesis by (simp only: go_date_def instant_def)
qed

section \<open>Months\<close>

lemma month_cases:
  fixes m :: int
  shows "1 \<le> m \<Longrightarrow> m \<le> 12 \<Longrightarrow> m = 1 \<or> m = 2 \<or> m = 3 \<or> m = 4 \<or> m = 5 \<or> m = 6 \<or> m = 7 \<or> m = 8 \<or>
    m = 9 \<or> m = 10 \<or> m = 11 \<or> m = 12"
  by arith

lemma days_in_range: "1 \<le> m \<Longrightarrow> m \<le> 12 \<Longrightarrow> 28 \<le> days_in y m \<and> days_in y m \<le> 31"
  by (drule (1) month_cases) (auto simp: days_in_def month_lengths_def)

lemma month_step:
  assumes "1 \<le> m" "m \<le> 12"
  shows "day_number y (m + 1) d = day_number y m d + days_in y m"
proof (cases "m = 12")
  case True
  have "month_start (y + 1) 1 = 0" "month_start y 12 + days_in y 12 = sum_list (month_lengths y)"
    by (simp_all add: month_start_def days_in_def month_lengths_def)
  with True year_length [of y] show ?thesis by (simp add: day_number_def Let_def sum_month_lengths)
next
  case False
  then have "month_start y (m + 1) = month_start y m + days_in y m"
    using month_cases [OF assms] by (elim disjE) (simp_all add: month_start_def days_in_def month_lengths_def)
  with False assms show ?thesis by (simp add: day_number_def Let_def)
qed

lemma civil_month_end:
  assumes "civil n = (y, m, d)"
  shows "civil (day_number y (m + 1) 0) = (y, m, days_in y m)"
    "n \<le> day_number y (m + 1) 0" "day_number y (m + 1) 0 \<le> n + 30"
proof -
  from civil_valid [OF assms] have v: "1 \<le> m" "m \<le> 12" "1 \<le> d" "d \<le> days_in y m" "day_number y m d = n"
    by (auto simp: valid_date_def)
  have e: "day_number y (m + 1) 0 = day_number y m (days_in y m)"
    using month_step [OF v(1,2), of y 0] day_number_add [of y m 0 "days_in y m"] by simp
  show "civil (day_number y (m + 1) 0) = (y, m, days_in y m)"
    unfolding e using v days_in_range [of m y] by (intro civil_day_number) (auto simp: valid_date_def)
  have "day_number y m (days_in y m) = n + (days_in y m - d)"
    using day_number_add [of y m d "days_in y m - d"] v by simp
  with e v days_in_range [of m y] show "n \<le> day_number y (m + 1) 0" "day_number y (m + 1) 0 \<le> n + 30" by auto
qed

section \<open>One day of the search\<close>

definition midnight :: "int \<Rightarrow> int" where
  "midnight n = (n - unix_day) * day_secs"

definition month_span :: "spec \<Rightarrow> int" where
  "month_span sp = (if sp_kind sp = KindMonthly then 31 * day_secs else 0)"

definition near :: "spec \<Rightarrow> int \<Rightarrow> int \<Rightarrow> int \<Rightarrow> bool" where
  "near sp lo hi n \<longleftrightarrow> lo \<le> midnight n - day_secs \<and> midnight n + 2 * day_secs + month_span sp \<le> hi"

definition day_hit :: "spec \<Rightarrow> int \<Rightarrow> int \<Rightarrow> int \<Rightarrow> int option" where
  "day_hit sp off after n =
     (if day_matches sp n
      then List.find (\<lambda>t. after < t) (List.map (\<lambda>c. instant off n (mins c)) (sp_times sp)) else None)"

lemma midnight_mono: "a \<le> b \<Longrightarrow> midnight a \<le> midnight b"
  by (simp add: midnight_def day_secs_def)

lemma midnight_add: "midnight (a + b) = midnight a + b * day_secs"
  by (simp add: midnight_def algebra_simps)

lemma midnight_date:
  assumes st: "steady (sp_loc sp) lo hi off" and off: "\<bar>off\<bar> < day_secs" and n: "near sp lo hi n"
    and k: "0 \<le> k" "k \<le> (if sp_kind sp = KindMonthly then 31 else 0)" and d: "day_number y m d = n + k"
  shows "local_day (sp_loc sp) (go_date (sp_loc sp) y m d 0 0) = n + k"
proof -
  have w: "lo \<le> midnight (n + k) - day_secs" "midnight (n + k) + 2 * day_secs \<le> hi"
    using n k by (auto simp: near_def midnight_add month_span_def day_secs_def split: if_splits)
  then have "go_date (sp_loc sp) y m d 0 0 = instant off (n + k) 0"
    using go_date_instant [OF st, of 0 0 "midnight (n + k)" y m d] off d
    by (simp add: midnight_def day_secs_def)
  moreover have "local_day (sp_loc sp) ((midnight (n + k) - off) * ns_per_sec) = n + k"
    using read_instant(2) [OF _ st, of 0 "midnight (n + k) - off" "n + k"] w off
    by (simp add: midnight_def day_secs_def)
  ultimately show ?thesis by (simp add: instant_def midnight_def)
qed

lemma week_day_range: "0 \<le> week_day n \<and> week_day n \<le> 6"
  unfolding week_day_def by (simp add: pos_mod_bound [of 7, simplified] zle_diff1_eq [symmetric] flip: zle_diff1_eq)

lemma matches_day_steady:
  assumes st: "steady (sp_loc sp) lo hi off" and off: "\<bar>off\<bar> < day_secs" and n: "near sp lo hi n"
    and d: "day_number y m d = n"
  shows "matches_day sp (go_date (sp_loc sp) y m d 0 0) = day_matches sp n"
proof -
  let ?day = "go_date (sp_loc sp) y m d 0 0"
  have ld: "local_day (sp_loc sp) ?day = n"
    using midnight_date [OF st off n, of 0 y m d] d by simp
  obtain y' m' d' where c: "civil n = (y', m', d')" by (cases "civil n")
  have month: "month_day sp (y', m', d') = clamp_day (sp_dom sp) (days_in y' m')" if "sp_kind sp = KindMonthly"
  proof -
    have "local_day (sp_loc sp) (go_date (sp_loc sp) y' (m' + 1) 0 0 0) = day_number y' (m' + 1) 0"
      using midnight_date [OF st off n, of "day_number y' (m' + 1) 0 - n" y' "m' + 1" 0] civil_month_end(2,3) [OF c] that
      by simp
    then show ?thesis
      using civil_month_end(1) [OF c] by (simp add: month_day_def local_date_def clamp_day_def Let_def)
  qed
  have "week_day n \<in> {1, 2, 3, 4, 5} \<longleftrightarrow> week_day n \<noteq> 6 \<and> week_day n \<noteq> 0"
    using week_day_range [of n] by auto
  then show ?thesis
    using ld c month by (auto simp: matches_day_def day_matches_def local_date_def Let_def split: day_kind.splits)
qed

lemma mins_less: "clock_ok c \<Longrightarrow> mins c < 1440"
  by (auto simp: clock_ok_def mins_def)

lemma firings_steady:
  assumes st: "steady (sp_loc sp) lo hi off" and off: "\<bar>off\<bar> < day_secs" and n: "near sp lo hi n"
    and d: "day_number y m d = n" and ok: "list_all clock_ok (sp_times sp)"
  shows "firings_on sp (go_date (sp_loc sp) y m d 0 0) = List.map (\<lambda>c. instant off n (mins c)) (sp_times sp)"
proof -
  have ld: "local_day (sp_loc sp) (go_date (sp_loc sp) y m d 0 0) = n"
    using midnight_date [OF st off n, of 0 y m d] d by simp
  obtain y' m' d' where c: "civil n = (y', m', d')" by (cases "civil n")
  have "go_date (sp_loc sp) y' m' d' (int (c_hour t)) (int (c_minute t)) = instant off n (mins t)"
    if "t \<in> set (sp_times sp)" for t
  proof -
    have t: "mins t < 1440" using ok that by (auto simp: list_all_iff mins_less)
    have k: "nat (int (c_hour t) * 60 + int (c_minute t)) = mins t"
      "int (mins t) * 60 = int (c_hour t) * 3600 + int (c_minute t) * 60"
      by (simp_all add: mins_def nat_add_distrib nat_mult_distrib)
    have b: "0 \<le> int (mins t) * 60" "int (mins t) * 60 < day_secs" "0 \<le> month_span sp"
      using t by (simp_all add: day_secs_def month_span_def)
    have w: "midnight n + int (mins t) * 60 =
        (day_number y' m' d' - unix_day) * day_secs + int (c_hour t) * 3600 + int (c_minute t) * 60"
      using k(2) day_number_civil [OF c] by (simp add: midnight_def)
    have "go_date (sp_loc sp) y' m' d' (int (c_hour t)) (int (c_minute t)) =
        instant off (day_number y' m' d') (nat (int (c_hour t) * 60 + int (c_minute t)))"
      by (rule go_date_instant [OF st _ _ w]) (use n off b in \<open>auto simp: near_def\<close>)
    then show ?thesis by (simp only: k(1) day_number_civil [OF c])
  qed
  then show ?thesis by (simp add: firings_on_def local_date_def ld c)
qed

lemma search_step:
  assumes "steady (sp_loc sp) lo hi off" "\<bar>off\<bar> < day_secs" "near sp lo hi n"
    and "day_number y m d = n" "list_all clock_ok (sp_times sp)"
  shows "search_days sp after (y, m, d) (Suc k) =
    (if day_hit sp off after n \<noteq> None then day_hit sp off after n else search_days sp after (y, m, d + 1) k)"
  using matches_day_steady [OF assms(1-4)] firings_steady [OF assms] by (auto simp: day_hit_def Let_def)

section \<open>The search\<close>

definition horizon :: "spec \<Rightarrow> int" where
  "horizon sp = 6 * day_secs + month_span sp"

text \<open>Whatever the zone does, a firing tried on a day is less than four days from its midnight.\<close>

lemma firing_near_day:
  assumes small: "small_offsets (sp_loc sp)"
    and a: "a \<in> set (firings_on sp (go_date (sp_loc sp) y m d 0 0))"
  shows "midnight (day_number y m d) < a div ns_per_sec + 4 * day_secs"
proof -
  let ?loc = "sp_loc sp"
  define u where "u = date_secs ?loc (midnight (day_number y m d))"
  have day: "go_date ?loc y m d 0 0 = u * ns_per_sec"
    by (simp add: u_def go_date_def wall_secs_def midnight_def)
  define n where "n = local_day ?loc (u * ns_per_sec)"
  have u: "midnight (day_number y m d) < u + day_secs"
    using date_secs_near [OF small, of "midnight (day_number y m d)"] by (simp add: u_def)
  have "local_secs ?loc (u * ns_per_sec) = u + offset_at ?loc u" by (simp add: local_secs_def)
  then have n: "u + offset_at ?loc u < midnight n + day_secs"
    using div_bounds [of day_secs "u + offset_at ?loc u"]
    by (simp add: n_def local_day_def midnight_def day_secs_def)
  obtain y' m' d' where c: "civil n = (y', m', d')" by (cases "civil n")
  then have "local_date ?loc (go_date ?loc y m d 0 0) = (y', m', d')"
    by (simp add: local_date_def day n_def)
  with a obtain t :: clock where "a = go_date ?loc y' m' d' (int (c_hour t)) (int (c_minute t))"
    by (auto simp: firings_on_def)
  moreover have "wall_secs y' m' d' (int (c_hour t)) (int (c_minute t)) =
      midnight n + int (c_hour t) * 3600 + int (c_minute t) * 60" for t :: clock
    using day_number_civil [OF c] by (simp add: wall_secs_def midnight_def)
  moreover define w where "w = wall_secs y' m' d' (int (c_hour t)) (int (c_minute t))"
  ultimately have "midnight n \<le> w" "a div ns_per_sec = date_secs ?loc w"
    by (simp_all add: go_date_def)
  with date_secs_near [OF small, of w] small_offset_at [OF small, of u] u n show ?thesis by linarith
qed

lemma month_span_ge: "0 \<le> month_span sp"
  by (simp add: month_span_def day_secs_def)

lemma day_secs_pos: "0 < day_secs"
  by (simp add: day_secs_def)

lemma search_hit:
  assumes small: "small_offsets (sp_loc sp)" and off: "\<bar>off\<bar> < day_secs"
    and ok: "list_all clock_ok (sp_times sp)"
    and st: "steady (sp_loc sp) lo (a div ns_per_sec + horizon sp) off"
  shows "search_days sp after (y, m, d) k = Some a \<Longrightarrow> lo \<le> midnight (day_number y m d) - day_secs \<Longrightarrow>
    \<exists>j. near sp lo (a div ns_per_sec + horizon sp) (day_number y m d + int j) \<and>
      day_hit sp off after (day_number y m d + int j) = Some a \<and>
      (\<forall>i < j. day_hit sp off after (day_number y m d + int i) = None)"
proof (induction k arbitrary: d)
  case (Suc k)
  let ?hi = "a div ns_per_sec + horizon sp"
  let ?n = "day_number y m d"
  let ?day = "go_date (sp_loc sp) y m d 0 0"
  show ?case
  proof (cases "matches_day sp ?day \<and> List.find (\<lambda>t. after < t) (firings_on sp ?day) \<noteq> None")
    case True
    then obtain b where "List.find (\<lambda>t. after < t) (firings_on sp ?day) = Some b" by blast
    moreover from True this Suc.prems(1) have "b = a" by (simp add: Let_def)
    ultimately have "a \<in> set (firings_on sp ?day)" by (auto simp: find_Some_iff)
    from firing_near_day [OF small this] Suc.prems(2) have n: "near sp lo ?hi ?n"
      by (simp add: near_def horizon_def)
    from search_step [OF st off n refl ok, of after k] True Suc.prems(1) n
      matches_day_steady [OF st off n refl] firings_steady [OF st off n refl ok]
    have "day_hit sp off after ?n = Some a"
      by (auto simp: day_hit_def split: if_splits)
    with n show ?thesis by (intro exI [of _ 0]) simp
  next
    case False
    with Suc.prems(1) have "search_days sp after (y, m, d + 1) k = Some a"
      by (auto simp: Let_def split: if_splits)
    moreover have e: "day_number y m (d + 1) = ?n + 1" by (rule day_number_add)
    moreover have "lo \<le> midnight (?n + 1) - day_secs"
      using Suc.prems(2) midnight_mono [of ?n "?n + 1"] by simp
    ultimately obtain j where j: "near sp lo ?hi (?n + 1 + int j)"
        "day_hit sp off after (?n + 1 + int j) = Some a"
        "\<forall>i < j. day_hit sp off after (?n + 1 + int i) = None"
      using Suc.IH [of "d + 1"] by (metis e)
    have "near sp lo ?hi ?n"
      using j(1) Suc.prems(2) midnight_mono [of ?n "?n + 1 + int j"] by (simp add: near_def)
    from matches_day_steady [OF st off this refl] firings_steady [OF st off this refl ok] False
    have h0: "day_hit sp off after ?n = None" by (auto simp: day_hit_def)
    have "day_hit sp off after (?n + int i) = None" if "i < Suc j" for i
      using j(3) h0 that by (cases i) (simp_all add: algebra_simps)
    with j(1,2) show ?thesis
      by (intro exI [of _ "Suc j"]) (simp add: algebra_simps)
  qed
qed simp

lemma instant_mono: "m < n \<Longrightarrow> instant off d m < instant off d n"
  by (simp add: instant_def)

text \<open>An instant is the one its readings name.\<close>

lemma instant_of_reading:
  assumes "t mod ns_per_sec = 0" "local_secs loc t mod 60 = 0"
    and "local_hour loc t = int (c_hour c)" "local_minute loc t = int (c_minute c)"
    and "offset_at loc (t div ns_per_sec) = off"
  shows "t = instant off (local_day loc t) (mins c)"
proof -
  define s where "s = local_secs loc t"
  define q r where "q = s div 86400" and "r = s mod 86400"
  have "s mod 3600 mod 60 = 0" using assms(2) mod_mod_cancel [of 60 3600 s] by (simp add: s_def)
  then have "s mod 3600 = 60 * int (c_minute c)"
    using assms(4) mult_div_mod_eq [of 60 "s mod 3600"] by (simp add: s_def local_minute_def)
  moreover have "r mod 3600 = s mod 3600" unfolding r_def by (rule mod_mod_cancel) simp
  moreover have "r div 3600 = int (c_hour c)" using assms(3) by (simp add: r_def s_def local_hour_def day_secs_def)
  ultimately have r: "r = 3600 * int (c_hour c) + 60 * int (c_minute c)"
    using mult_div_mod_eq [of 3600 r] by simp
  have "s = 86400 * q + r" by (simp add: q_def r_def)
  then have "s = (local_day loc t - unix_day) * day_secs + int (mins c) * 60"
    by (simp add: r q_def s_def local_day_def day_secs_def mins_def)
  moreover have "t = t div ns_per_sec * ns_per_sec" using assms(1) mult_div_mod_eq [of ns_per_sec t] by (metis add.right_neutral mult.commute)
  moreover have "t div ns_per_sec = s - off" using assms(5) by (simp add: s_def local_secs_def)
  ultimately show ?thesis by (simp only: instant_def)
qed

text \<open>
  C35. The next firing of a clock form is exactly the earliest instant strictly after the given one
  whose wall clock, read in the schedule's location, shows one of the form's times on a day the
  form names (the last day of a shorter month included), in any location, as long as its clocks do
  not change between three days before and six days after (for a monthly form, to the month's end).
\<close>

theorem next_is_earliest:
  assumes "clock_form sp" "small_offsets (sp_loc sp)" "next_raw sp after = Some a"
    and st: "steady (sp_loc sp) (after div ns_per_sec - 3 * day_secs) (a div ns_per_sec + horizon sp) off"
  shows "after < a \<and> wall_matches sp a \<and> (\<forall>t. after < t \<and> t < a \<longrightarrow> \<not> wall_matches sp t)"
proof -
  let ?loc = "sp_loc sp" and ?lo = "after div ns_per_sec - 3 * day_secs" and ?hi = "a div ns_per_sec + horizon sp"
  let ?D = "local_day ?loc after"
  obtain y m d where c: "civil ?D = (y, m, d)" by (cases "civil ?D")
  have D: "day_number y m d = ?D" by (rule day_number_civil [OF c])
  have ok: "list_all clock_ok (sp_times sp)" and sorted: "sorted_wrt (\<lambda>a b. mins a < mins b) (sp_times sp)"
    using assms(1) by (auto simp: clock_form_def times_ok_def)
  have search: "search_days sp after (y, m, d) day_search_limit = Some a"
    using assms(1,3) c by (simp add: next_raw_def clock_form_def local_date_def)
  have a: "after < a" by (rule search_days_after [OF search])
  then have an: "after div ns_per_sec \<le> a div ns_per_sec" by (intro zdiv_mono1) simp_all
  have hz: "0 \<le> horizon sp" "0 < day_secs" by (simp_all add: horizon_def month_span_def day_secs_def)
  have offs: "offset_at ?loc (t div ns_per_sec) = off" if "after \<le> t" "t \<le> a" for t
    using steadyD [OF st] zdiv_mono1 [OF that(1), of ns_per_sec] zdiv_mono1 [OF that(2), of ns_per_sec] hz by simp
  have off: "\<bar>off\<bar> < day_secs" using small_offset_at [OF assms(2)] offs [of a] a by (metis order_refl less_imp_le)
  have ls: "local_secs ?loc t = t div ns_per_sec + off" if "after \<le> t" "t \<le> a" for t
    using offs [OF that] by (simp add: local_secs_def)
  have day_mono: "local_day ?loc s \<le> local_day ?loc t" if "after \<le> s" "s \<le> t" "t \<le> a" for s t
    using ls [of s] ls [of t] that zdiv_mono1 [of s t ns_per_sec]
    by (simp add: local_day_def day_secs_def zdiv_mono1)
  have "local_secs ?loc after < midnight ?D + day_secs"
    using div_bounds [of day_secs "local_secs ?loc after"] hz(2)
    by (simp add: midnight_def local_day_def algebra_simps)
  then have lo: "?lo \<le> midnight (day_number y m d) - day_secs"
    using ls [of after] a off D by simp
  obtain j where n: "near sp ?lo ?hi (?D + int j)" and hit: "day_hit sp off after (?D + int j) = Some a"
    and first: "\<forall>i < j. day_hit sp off after (?D + int i) = None"
    using search_hit [OF assms(2) off ok st search lo] D by auto
  let ?n = "?D + int j"
  from hit obtain i where i: "i < length (sp_times sp)" and ai: "a = instant off ?n (mins (sp_times sp ! i))"
    and dm: "day_matches sp ?n"
    and before: "\<And>q. q < i \<Longrightarrow> \<not> after < instant off ?n (mins (sp_times sp ! q))"
    by (auto simp: day_hit_def find_Some_iff split: if_splits)
  let ?c = "sp_times sp ! i"
  have k: "mins ?c < 1440" "clock_ok ?c" using ok i by (auto simp: list_all_iff mins_less)
  have an': "a div ns_per_sec = (?n - unix_day) * day_secs + int (mins ?c) * 60 - off"
    by (simp add: ai instant_def)
  have in_range: "?lo \<le> a div ns_per_sec" "a div ns_per_sec \<le> ?hi" using an hz by auto
  have as: "a = a div ns_per_sec * ns_per_sec" using ai by (simp add: instant_def)
  note rd = read_instant [OF k(1) st in_range an', folded as]
  have ccomp: "int (mins ?c div 60) = int (c_hour ?c)" "int (mins ?c mod 60) = int (c_minute ?c)"
    using k(2) by (simp_all add: mins_def clock_ok_def)
  have "((?n - unix_day) * day_secs + int (mins ?c) * 60) mod 60 = 0"
    by (simp add: day_secs_def mod_add_eq [symmetric])
  then have m1: "wall_matches sp a"
    unfolding wall_matches_def rd ccomp using dm i as by (auto simp: mod_eq_0_iff_dvd intro!: bexI [of _ ?c]) (metis dvd_triv_right)
  have m2: "\<not> wall_matches sp t" if t: "after < t" "t < a" for t
  proof
    assume w: "wall_matches sp t"
    then obtain c where c: "c \<in> set (sp_times sp)" and tc: "t = instant off (local_day ?loc t) (mins c)"
      and dt: "day_matches sp (local_day ?loc t)"
      using instant_of_reading offs [of t] t by (fastforce simp: wall_matches_def)
    have "?D \<le> local_day ?loc t" "local_day ?loc t \<le> ?n"
      using day_mono [of after t] day_mono [of t a] t rd(2) by auto
    then obtain q where q: "local_day ?loc t = ?D + int q" "q \<le> j"
      by (metis zle_iff_zadd add_le_cancel_left of_nat_le_iff)
    show False
    proof (cases "q < j")
      case True
      then have "day_hit sp off after (?D + int q) = None" using first by blast
      with dt q(1) c have "\<not> after < instant off (?D + int q) (mins c)"
        by (auto simp: day_hit_def find_None_iff)
      with tc q(1) t(1) show False by simp
    next
      case False
      with q have tn: "t = instant off ?n (mins c)" using tc by simp
      obtain p where p: "p < length (sp_times sp)" "c = sp_times sp ! p" using c by (metis in_set_conv_nth)
      have "p < i"
      proof (rule ccontr)
        assume "\<not> p < i"
        then have "mins ?c \<le> mins c"
          using sorted p i by (cases "p = i") (auto simp: sorted_wrt_iff_nth_less intro: less_imp_le)
        then have "a \<le> t" using instant_mono [of "mins ?c" "mins c" off ?n] ai tn by (cases "mins ?c = mins c") auto
        with t show False by simp
      qed
      from before [OF this] p tn t(1) show False by simp
    qed
  qed
  from a m1 m2 show ?thesis by blast
qed

theorem next_is_earliest_witness:
  "\<exists>sp a. parse_schedule demo_tz ''every weekday at 17:00 and 9am in America/Santiago'' utc = Inr sp \<and>
     next_raw sp (1772236800 * ns_per_sec) = Some a \<and> wall_matches sp a \<and>
     (\<forall>t. \<not> (1772236800 * ns_per_sec < t \<and> t < a \<and> wall_matches sp t))"
proof -
  let ?sp = "no_spec\<lparr>sp_kind := KindWeekdays,
    sp_times := [\<lparr>c_hour = 9, c_minute = 0\<rparr>, \<lparr>c_hour = 17, c_minute = 0\<rparr>], sp_loc := santiago, sp_pinned := True\<rparr>"
  let ?t = "1772236800 * ns_per_sec" and ?a = "1772456400 * ns_per_sec"
  have p: "parse_schedule demo_tz ''every weekday at 17:00 and 9am in America/Santiago'' utc = Inr ?sp"
    by code_simp
  have n: "next_raw ?sp ?t = Some ?a" by code_simp
  have c: "clock_form ?sp" "small_offsets (sp_loc ?sp)"
    by (simp_all add: clock_form_def times_ok_def no_spec_def clock_ok_def mins_def small_offsets_def
        santiago_def day_secs_def)
  have "steady (sp_loc ?sp) (?t div ns_per_sec - 3 * day_secs) (?a div ns_per_sec + horizon ?sp) (-14400)"
    by (simp add: steady_def offset_at_def lookup_def santiago_def horizon_def month_span_def day_secs_def
        no_spec_def ns_per_sec_def)
  from next_is_earliest [OF c n this] n p show ?thesis by blast
qed

section \<open>Liveness\<close>

lemma week_day_reach:
  assumes "0 \<le> d" "d < 7"
  shows "\<exists>i. 1 \<le> i \<and> i \<le> 7 \<and> week_day (n + i) = d"
proof -
  let ?i = "(d - n - 2) mod 7 + 1"
  have "0 \<le> (d - n - 2) mod 7" "(d - n - 2) mod 7 < 7" by simp_all
  moreover have "week_day (n + ?i) = d"
  proof -
    have "(n + ((d - n - 2) mod 7 + 1) + 1) mod 7 = ((d - n - 2) mod 7 + (n + 2)) mod 7" by (simp add: algebra_simps)
    also have "\<dots> = d mod 7" by (simp add: mod_add_left_eq)
    finally show ?thesis using assms by (simp add: week_day_def)
  qed
  ultimately show ?thesis by (intro exI [of _ ?i]) auto
qed

lemma next_month_day:
  assumes "0 \<le> w" "w \<le> 31"
  shows "\<exists>i. 1 \<le> i \<and> i \<le> 61 \<and> (case civil (n + i) of (y, m, d) \<Rightarrow> d = clamp_day w (days_in y m))"
proof -
  obtain y m d where c: "civil n = (y, m, d)" by (cases "civil n")
  from civil_valid [OF c] have v: "1 \<le> m" "m \<le> 12" "1 \<le> d" "d \<le> days_in y m" "day_number y m d = n"
    by (auto simp: valid_date_def)
  define y' m' where "y' = (if m = 12 then y + 1 else y)" and "m' = (if m = 12 then 1 else m + 1)"
  have m': "1 \<le> m'" "m' \<le> 12" using v by (auto simp: m'_def)
  have dn: "day_number y' m' e = day_number y (m + 1) e" for e
    using v by (auto simp: day_number_def y'_def m'_def Let_def)
  define e where "e = clamp_day w (days_in y' m')"
  have e: "1 \<le> e" "e \<le> days_in y' m'"
    using assms days_in_range [OF m', of y'] by (auto simp: e_def clamp_day_def)
  have "day_number y' m' e = n + (days_in y m + e - d)"
    using dn [of e] month_step [OF v(1,2), of y e] day_number_add [of y m d "e - d"] v(5) by simp
  moreover have "civil (day_number y' m' e) = (y', m', e)"
    using m' e by (intro civil_day_number) (simp add: valid_date_def)
  ultimately have "civil (n + (days_in y m + e - d)) = (y', m', e)" by simp
  moreover have "1 \<le> days_in y m + e - d \<and> days_in y m + e - d \<le> 61"
    using v e days_in_range [OF v(1,2), of y] days_in_range [OF m', of y'] by auto
  ultimately show ?thesis by (intro exI [of _ "days_in y m + e - d"]) (simp add: e_def)
qed

lemma some_day_matches:
  assumes "clock_form sp"
  shows "\<exists>i. 1 \<le> i \<and> i \<le> 61 \<and> day_matches sp (n + i)"
proof (cases "sp_kind sp")
  case KindDaily
  then show ?thesis by (intro exI [of _ 1]) (simp add: day_matches_def)
next
  case KindWeekly
  with week_day_reach [of "sp_day sp" n] assms show ?thesis by (fastforce simp: day_matches_def clock_form_def)
next
  case KindWeekdays
  with week_day_reach [of 1 n] show ?thesis by (fastforce simp: day_matches_def)
next
  case KindWeekends
  with week_day_reach [of 0 n] show ?thesis by (fastforce simp: day_matches_def)
next
  case KindMonthly
  with next_month_day [of "sp_dom sp" n] assms show ?thesis by (auto simp: day_matches_def clock_form_def)
qed

lemma search_finds:
  assumes st: "\<And>lo hi. steady (sp_loc sp) lo hi off" and off: "\<bar>off\<bar> < day_secs"
    and ok: "list_all clock_ok (sp_times sp)"
  shows "i < k \<Longrightarrow> day_hit sp off after (day_number y m d + int i) \<noteq> None \<Longrightarrow>
    \<exists>a i'. i' \<le> i \<and> search_days sp after (y, m, d) k = Some a \<and>
      day_hit sp off after (day_number y m d + int i') = Some a"
proof (induction k arbitrary: d i)
  case (Suc k)
  let ?n = "day_number y m d"
  have n: "near sp (midnight ?n - day_secs) (midnight ?n + 2 * day_secs + month_span sp) ?n"
    by (simp add: near_def)
  note step = search_step [OF st off n refl ok, of after k]
  show ?case
  proof (cases "day_hit sp off after ?n")
    case None
    with Suc.prems obtain p where p: "i = Suc p" by (cases i) auto
    have e: "day_number y m (d + 1) = ?n + 1" by (rule day_number_add)
    then have "p < k" "day_hit sp off after (day_number y m (d + 1) + int p) \<noteq> None"
      using Suc.prems unfolding p e by (simp_all add: add.assoc)
    from Suc.IH [OF this] obtain a q where "q \<le> p"
        "search_days sp after (y, m, d + 1) k = Some a" "day_hit sp off after (?n + 1 + int q) = Some a"
      unfolding e by blast
    with step None p show ?thesis by (intro exI [of _ a] exI [of _ "Suc q"]) (simp add: algebra_simps)
  next
    case (Some a)
    with step show ?thesis by (intro exI [of _ a] exI [of _ 0]) simp
  qed
qed simp

text \<open>
  A clock form always has a next firing, at most 63 days away, in every location that keeps
  one offset: the search limit of 366 days never cuts off a form the grammar accepts.
\<close>

theorem clock_form_live:
  assumes "clock_form sp" "loc_changes (sp_loc sp) = []" "small_offsets (sp_loc sp)"
  shows "\<exists>a. next_raw sp after = Some a \<and> a \<le> after + 63 * day_secs * ns_per_sec"
proof -
  let ?loc = "sp_loc sp" and ?D = "local_day (sp_loc sp) after" and ?off = "loc_first (sp_loc sp)"
  have st: "steady ?loc lo hi ?off" for lo hi by (rule steady_fixed [OF assms(2)])
  have off: "\<bar>?off\<bar> < day_secs" using assms(3) by (simp add: small_offsets_def)
  have ok: "list_all clock_ok (sp_times sp)" and ne: "sp_times sp \<noteq> []"
    using assms(1) by (auto simp: clock_form_def times_ok_def)
  obtain y m d where c: "civil ?D = (y, m, d)" by (cases "civil ?D")
  have D: "day_number y m d = ?D" by (rule day_number_civil [OF c])
  let ?s = "after div ns_per_sec"
  have ls: "local_secs ?loc after = ?s + ?off"
    using steadyD [OF st, of ?s ?s ?s] by (simp add: local_secs_def)
  have dd: "midnight ?D \<le> ?s + ?off" "?s + ?off < midnight ?D + day_secs"
    using div_bounds [of day_secs "local_secs ?loc after"] ls
    by (simp_all add: midnight_def local_day_def day_secs_def algebra_simps)
  have ns: "?s * ns_per_sec \<le> after" "after < (?s + 1) * ns_per_sec"
    using div_bounds [of ns_per_sec after] by (simp_all add: mult.commute)
  obtain i where i: "1 \<le> i" "i \<le> 61" "day_matches sp (?D + i)" using some_day_matches [OF assms(1)] by blast
  have late: "after < instant ?off (?D + i) (mins t)" for t
  proof -
    have "?s + 1 \<le> midnight (?D + i) + int (mins t) * 60 - ?off"
      using dd(2) midnight_mono [of "?D + 1" "?D + i"] i(1) midnight_add [of ?D 1] by simp
    then have "(?s + 1) * ns_per_sec \<le> instant ?off (?D + i) (mins t)"
      unfolding instant_def midnight_def [symmetric] by (intro mult_right_mono) simp_all
    with ns(2) show ?thesis by linarith
  qed
  obtain t ts where "sp_times sp = t # ts" using ne by (cases "sp_times sp") auto
  then have h: "day_hit sp ?off after (day_number y m d + int (nat i)) \<noteq> None"
    using i late [of t] D by (simp add: day_hit_def)
  have "nat i < day_search_limit" using i by (simp add: day_search_limit_def)
  from search_finds [OF st off ok this h] obtain a q where q: "q \<le> nat i" and a: "search_days sp after (y, m, d) day_search_limit = Some a"
    and hit: "day_hit sp ?off after (?D + int q) = Some a"
    unfolding D by blast
  have "next_raw sp after = Some a"
    using a c assms(1) by (simp add: next_raw_def clock_form_def local_date_def)
  moreover from hit obtain u :: clock where "u \<in> set (sp_times sp)" "a = instant ?off (?D + int q) (mins u)"
    by (auto simp: day_hit_def find_Some_iff split: if_splits) (metis nth_mem)
  moreover have "midnight (?D + int q) + int (mins u) * 60 - ?off \<le> ?s + 63 * day_secs" if "u \<in> set (sp_times sp)" for u
    using dd(1) midnight_add [of ?D "int q"] q i(2) mins_less [of u] ok that
    by (simp add: list_all_iff day_secs_def)
  ultimately have "a \<le> (?s + 63 * day_secs) * ns_per_sec"
    unfolding instant_def midnight_def [symmetric] by (auto intro: mult_right_mono)
  with ns(1) \<open>next_raw sp after = Some a\<close> show ?thesis by (simp add: distrib_right)
qed

theorem clock_form_live_witness:
  "\<exists>a. next_raw (no_spec\<lparr>sp_kind := KindMonthly, sp_dom := 31, sp_times := [\<lparr>c_hour = 9, c_minute = 0\<rparr>]\<rparr>) 0 = Some a"
  using clock_form_live [of "no_spec\<lparr>sp_kind := KindMonthly, sp_dom := 31, sp_times := [\<lparr>c_hour = 9, c_minute = 0\<rparr>]\<rparr>" 0]
  by (auto simp: clock_form_def times_ok_def no_spec_def clock_ok_def utc_def small_offsets_def day_secs_def)

end
