(* ===== verification/ScheduleForm.thy ===== *)
theory ScheduleForm
  imports ScheduleNext
begin

text \<open>
  The expression a relative one-off is stored as, read back: what \<^verbatim>\<open>absoluteForm\<close> prints
  parses to the very instant it was printed for, rounded up to the minute.
\<close>

section \<open>Printed dates and clocks\<close>

lemma digit_char_not_space: "d < 10 \<Longrightarrow> \<not> is_space (digit_char d)"
  by (drule less_ten_cases) (auto simp: is_space_def digit_char_def)

lemma digit_char_lower: "d < 10 \<Longrightarrow> to_lower (digit_char d) = digit_char d"
  by (drule less_ten_cases) (auto simp: to_lower_def digit_char_def)

lemma dec_two: "n < 100 \<Longrightarrow> pad_left 2 (dec n) = [digit_char (n div 10), digit_char (n mod 10)]"
proof (cases "n < 10")
  case True
  then show ?thesis by (simp add: dec.simps [of n] pad_left_def) (simp add: digit_char_def)
next
  case False
  assume "n < 100"
  then have "n div 10 < 10" by auto
  with False show ?thesis by (simp add: dec.simps [of n] dec.simps [of "n div 10"] pad_left_def)
qed

lemma dec_four:
  assumes "n < 10000"
  shows "pad_left 4 (dec n) = [digit_char (n div 1000), digit_char (n div 100 mod 10),
    digit_char (n div 10 mod 10), digit_char (n mod 10)]"
proof -
  have z: "CHR ''0'' = digit_char 0" by (simp add: digit_char_def)
  have e: "n div 10 div 10 = n div 100" "n div 100 div 10 = n div 1000"
    using div_mult2_eq [of n 10 10] div_mult2_eq [of n 100 10] by simp_all
  consider "n < 10" | "10 \<le> n \<and> n < 100" | "100 \<le> n \<and> n < 1000" | "1000 \<le> n" by linarith
  then show ?thesis
  proof cases
    case 1
    then show ?thesis by (simp add: dec.simps [of n] pad_left_def z numeral_3_eq_3)
  next
    case 2
    then have "n div 10 < 10" by auto
    with 2 show ?thesis
      by (simp add: dec.simps [of n] dec.simps [of "n div 10"] pad_left_def z e numeral_2_eq_2)
  next
    case 3
    then have "n div 100 < 10" "\<not> n div 10 < 10" by auto
    with 3 show ?thesis
      by (simp add: dec.simps [of n] dec.simps [of "n div 10"] dec.simps [of "n div 100"] pad_left_def z e)
  next
    case 4
    then have "n div 1000 < 10" "\<not> n div 100 < 10" "\<not> n div 10 < 10" using assms by auto
    with 4 show ?thesis
      by (simp add: dec.simps [of n] dec.simps [of "n div 10"] dec.simps [of "n div 100"] dec.simps [of "n div 1000"]
          pad_left_def e)
  qed
qed

lemma pad_two:
  "0 \<le> n \<Longrightarrow> n < 100 \<Longrightarrow> pad_dec 2 n = [digit_char (nat n div 10), digit_char (nat n mod 10)]"
  using dec_two [of "nat n"] by (simp add: pad_dec_def idec_dec)

lemma pad_four:
  "0 \<le> n \<Longrightarrow> n < 10000 \<Longrightarrow> pad_dec 4 n = [digit_char (nat n div 1000), digit_char (nat n div 100 mod 10),
    digit_char (nat n div 10 mod 10), digit_char (nat n mod 10)]"
  using dec_four [of "nat n"] by (simp add: pad_dec_def idec_dec)

lemma num_of_two:
  "n < 100 \<Longrightarrow> num_of [digit_char (n div 10), digit_char (n mod 10)] = int n"
  by (simp add: num_of_of_dec of_dec_def)

lemma num_of_four:
  assumes "n < 10000"
  shows "num_of [digit_char (n div 1000), digit_char (n div 100 mod 10), digit_char (n div 10 mod 10),
    digit_char (n mod 10)] = int n"
proof -
  have "n div 1000 < 10" using assms by auto
  moreover have "10 * (10 * (10 * (n div 1000) + n div 100 mod 10) + n div 10 mod 10) + n mod 10 = n"
  proof -
    have "10 * (n div 1000) + n div 100 mod 10 = n div 100"
      using div_mult2_eq [of n 100 10] mult_div_mod_eq [of 10 "n div 100"] by simp
    moreover have "10 * (n div 100) + n div 10 mod 10 = n div 10"
      using div_mult2_eq [of n 10 10] mult_div_mod_eq [of 10 "n div 10"] by simp
    ultimately show ?thesis by simp
  qed
  ultimately show ?thesis by (simp add: num_of_of_dec of_dec_def)
qed

lemma parse_format_date:
  assumes "valid_date y m d" "0 \<le> y" "y < 10000"
  shows "parse_iso_date (format_date (y, m, d)) = Some (y, m, d)"
proof -
  have md: "1 \<le> m" "m \<le> 12" "1 \<le> d" "d \<le> 31"
    using assms(1) days_in_range [of m y] by (auto simp: valid_date_def)
  have lt: "nat y div 1000 < 10" "nat m div 10 < 10" "nat d div 10 < 10" using assms md by auto
  show ?thesis
    using assms md lt num_of_four [of "nat y"] num_of_two [of "nat m"] num_of_two [of "nat d"]
    by (simp add: format_date_def pad_two pad_four parse_iso_date_def)
qed

lemma parse_format_clock:
  assumes "0 \<le> hh" "hh < 24" "0 \<le> mm" "mm < 60"
  shows "parse_clock (format_clock hh mm) = Inr \<lparr>c_hour = nat hh, c_minute = nat mm\<rparr>"
proof -
  have lt: "nat hh div 10 < 10" "nat mm div 10 < 10" "nat hh < 24" "nat mm < 60" using assms by auto
  have "\<not> is_digit CHR '':''" by (simp add: is_digit_def)
  then show ?thesis
    using assms lt mult_div_mod_eq [of 10 "nat hh"] mult_div_mod_eq [of 10 "nat mm"]
    by (simp add: format_clock_def pad_two parse_clock_def parse_24_def getnum_def parse_colon_minute_def)
qed

section \<open>Printed tokens\<close>

definition plain_token :: "string \<Rightarrow> bool" where
  "plain_token w \<longleftrightarrow> w \<noteq> [] \<and> list_all (\<lambda>c. \<not> is_space c) w"

definition lower_token :: "string \<Rightarrow> bool" where
  "lower_token w \<longleftrightarrow> plain_token w \<and> List.map to_lower w = w \<and> is_digit (hd w)"

lemma trim_plain:
  assumes "ws \<noteq> []" "list_all plain_token ws"
  shows "trim_with is_space (join_with '' '' ws) = join_with '' '' ws"
proof -
  have hd: "join_with '' '' ws \<noteq> [] \<and> \<not> is_space (hd (join_with '' '' ws))"
    using assms by (cases ws; cases "tl ws") (auto simp: plain_token_def list_all_iff)
  have last: "\<not> is_space (last (join_with '' '' ws))"
    using assms
  proof (induction "'' ''" ws rule: join_with.induct)
    case (3 w v ws)
    then have "join_with '' '' (v # ws) \<noteq> []"
      by (cases ws) (auto simp: plain_token_def)
    with 3 show ?case by simp
  qed (auto simp: plain_token_def list_all_iff)
  have dw: "dropWhile is_space u = u" if "u \<noteq> []" "\<not> is_space (hd u)" for u
    using that by (cases u) simp_all
  show ?thesis
    using hd last dw [of "join_with '' '' ws"] dw [of "rev (join_with '' '' ws)"]
    by (simp add: trim_with_def hd_rev)
qed

lemma fields_join:
  assumes "ws \<noteq> []" "list_all plain_token ws"
  shows "fields (join_with '' '' ws) = \<lparr>p_f = List.map (List.map to_lower) ws, p_orig = ws\<rparr>"
proof -
  have "\<forall>w \<in> set ws. w \<noteq> [] \<and> (\<forall>c \<in> set w. \<not> is_space c)"
    using assms(2) by (auto simp: plain_token_def list_all_iff)
  then show ?thesis by (simp add: fields_def trim_plain [OF assms] fields_of_join)
qed

lemma format_date_token:
  assumes "valid_date y m d" "0 \<le> y" "y < 10000"
  shows "lower_token (format_date (y, m, d))"
proof -
  have md: "1 \<le> m" "m \<le> 12" "1 \<le> d" "d \<le> 31"
    using assms(1) days_in_range [of m y] by (auto simp: valid_date_def)
  have lt: "nat y div 1000 < 10" "nat m div 10 < 10" "nat d div 10 < 10" using assms md by auto
  have "\<not> is_space CHR ''-''" "to_lower CHR ''-'' = CHR ''-''"
    by (simp_all add: is_space_def to_lower_def)
  then show ?thesis
    using assms md lt
    by (simp add: lower_token_def plain_token_def format_date_def pad_two pad_four digit_char_not_space digit_char_lower)
qed

lemma format_clock_token:
  assumes "0 \<le> hh" "hh < 24" "0 \<le> mm" "mm < 60"
  shows "lower_token (format_clock hh mm)"
proof -
  have lt: "nat hh div 10 < 10" "nat mm div 10 < 10" using assms by auto
  have "\<not> is_space CHR '':''" "to_lower CHR '':'' = CHR '':''"
    by (simp_all add: is_space_def to_lower_def)
  then show ?thesis
    using assms lt
    by (simp add: lower_token_def plain_token_def format_clock_def pad_two digit_char_not_space digit_char_lower)
qed

lemma lower_token_not_word:
  assumes "lower_token w"
  shows "w \<noteq> ''in''" "w \<noteq> ''until''" "w \<noteq> ''between''"
  using assms by (auto simp: lower_token_def is_digit_def)

section \<open>The round trip\<close>

definition named :: "location \<Rightarrow> bool" where
  "named loc \<longleftrightarrow> CHR ''/'' \<in> set (loc_name loc) \<or> loc_name loc = ''UTC''"

definition next_minute :: "int \<Rightarrow> int" where
  "next_minute t = (if t mod minute_ns = 0 then t else t - t mod minute_ns + minute_ns)"

text \<open>What parsing the printed tokens gives, whatever the date and the clock are.\<close>

lemma parse_absolute_tokens:
  assumes dt: "lower_token dw" "parse_iso_date dw = Some (y, m, d)"
    and ct: "lower_token cw" "parse_clock cw = Inr c"
    and name: "named loc \<longrightarrow> plain_token (loc_name loc) \<and> tz (loc_name loc) = Some loc"
  shows "parse_schedule tz (join_with '' '' ([''once'', ''on'', dw, ''at'', cw] @
      (if named loc then [''in'', loc_name loc] else []))) loc =
    Inr (no_spec\<lparr>sp_once := True, sp_at := Some (go_date loc y m d (int (c_hour c)) (int (c_minute c))),
      sp_pinned := named loc, sp_loc := loc\<rparr>)"
proof -
  let ?ws = "[''once'', ''on'', dw, ''at'', cw]"
  let ?p = "\<lparr>p_f = ?ws, p_orig = ?ws\<rparr>"
  have low: "List.map to_lower ''once'' = ''once''" "List.map to_lower ''on'' = ''on''"
    "List.map to_lower ''at'' = ''at''" "List.map to_lower ''in'' = ''in''"
    "List.map to_lower dw = dw" "List.map to_lower cw = cw"
    using dt ct by (simp_all add: to_lower_def lower_token_def)
  have plain: "list_all plain_token ?ws" "plain_token ''in''"
    using dt ct by (simp_all add: plain_token_def is_space_def lower_token_def)
  note no = lower_token_not_word [OF dt(1)] lower_token_not_word [OF ct(1)]
  have zone: "take_zone tz (fields (join_with '' '' (?ws @ (if named loc then [''in'', loc_name loc] else [])))) =
      Inr (if named loc then Some loc else None, ?p)"
  proof (cases "named loc")
    case True
    then have "fields (join_with '' '' (?ws @ [''in'', loc_name loc])) =
        \<lparr>p_f = ?ws @ [''in'', List.map to_lower (loc_name loc)], p_orig = ?ws @ [''in'', loc_name loc]\<rparr>"
      using plain name by (subst fields_join) (simp_all add: low to_lower_def)
    moreover have "CHR ''/'' \<in> set (loc_name loc) \<or> List.map to_lower (loc_name loc) = ''utc''"
    proof -
      have "List.map to_lower ''UTC'' = ''utc''" by code_simp
      with True show ?thesis unfolding named_def by metis
    qed
    ultimately show ?thesis using True name no by (simp add: take_zone_def cut_def)
  next
    case False
    have "fields (join_with '' '' ?ws) = ?p"
      using plain by (subst fields_join) (simp_all add: low to_lower_def)
    with False no show ?thesis by (simp add: take_zone_def)
  qed
  have "take_until loc ?p = Inr (None, ?p)" "take_window ?p = Inr (None, ?p)"
    using no by (simp_all add: take_until_def take_window_def find_kw_def)
  moreover have "parse_base (p_f ?p) loc = Inr (no_spec\<lparr>sp_once := True,
      sp_at := Some (go_date loc y m d (int (c_hour c)) (int (c_minute c)))\<rparr>)"
    using dt ct by (simp add: parse_base_def Let_def parse_once_on_def parse_date_def)
  ultimately show ?thesis
    unfolding parse_schedule_def zone by (simp add: Let_def apply_clauses_def no_spec_def)
qed

lemma local_clock_range: "0 \<le> local_hour loc t" "local_hour loc t < 24" "0 \<le> local_minute loc t" "local_minute loc t < 60"
proof -
  have r: "0 \<le> local_secs loc t mod day_secs" "local_secs loc t mod day_secs < 24 * 3600"
    "0 \<le> local_secs loc t mod 3600" "local_secs loc t mod 3600 < 60 * 60"
    by (simp_all add: day_secs_def)
  then show "0 \<le> local_hour loc t" "local_hour loc t < 24" "0 \<le> local_minute loc t" "local_minute loc t < 60"
    unfolding local_hour_def local_minute_def
    by (simp_all only: pos_imp_zdiv_nonneg_iff zero_less_numeral div_less_iff_less_mult)
qed

lemma absolute_form_join:
  assumes "local_date loc (next_minute t) = ymd"
  shows "absolute_form t loc = join_with '' '' ([''once'', ''on'', format_date ymd, ''at'',
      format_clock (local_hour loc (next_minute t)) (local_minute loc (next_minute t))] @
      (if named loc then [''in'', loc_name loc] else []))"
proof -
  have "0 < minute_ns" by (simp add: minute_ns_def)
  then have "(if t - t mod minute_ns < t then t - t mod minute_ns + minute_ns else t) = next_minute t"
    using pos_mod_sign [of minute_ns t] order.not_eq_order_implies_strict [of 0 "t mod minute_ns"]
    by (cases "t mod minute_ns = 0") (simp_all add: next_minute_def)
  with assms show ?thesis by (simp add: absolute_form_def named_def Let_def)
qed

text \<open>
  A relative one-off stays the instant it was asked for: what \<^verbatim>\<open>absoluteForm\<close> prints parses,
  in a place whose clocks do not change within two days and whose offset is whole minutes, to a
  one-off at that instant rounded up to the minute (so never earlier, and less than a minute
  later), pinned to the zone exactly when the zone has a name to print.
\<close>

theorem absolute_form_roundtrip:
  assumes st: "steady loc (next_minute t div ns_per_sec - 2 * day_secs) (next_minute t div ns_per_sec + 2 * day_secs) off"
    and off: "off mod 60 = 0" "\<bar>off\<bar> < day_secs"
    and date: "local_date loc (next_minute t) = (y, m, d)" "0 \<le> y" "y < 10000"
    and name: "named loc \<longrightarrow> plain_token (loc_name loc) \<and> tz (loc_name loc) = Some loc"
  shows "parse_schedule tz (absolute_form t loc) loc =
      Inr (no_spec\<lparr>sp_once := True, sp_at := Some (next_minute t), sp_pinned := named loc, sp_loc := loc\<rparr>) \<and>
    t \<le> next_minute t \<and> next_minute t < t + minute_ns"
proof -
  define a where "a = next_minute t"
  have mp: "0 < minute_ns" by (simp add: minute_ns_def)
  have bounds: "t \<le> a" "a < t + minute_ns"
    using pos_mod_bound [OF mp, of t] pos_mod_sign [OF mp, of t] by (auto simp: a_def next_minute_def)
  have "(t - t mod minute_ns + minute_ns) mod minute_ns = 0"
    by (simp add: minus_mod_eq_mult_div)
  then have "a mod minute_ns = 0" by (simp add: a_def next_minute_def)
  then obtain q where q: "a = minute_ns * q" by (auto simp: mod_eq_0_iff_dvd)
  have sec: "a mod ns_per_sec = 0" "a div ns_per_sec = 60 * q"
    by (simp_all add: q minute_ns_def mult.assoc)
  have st': "steady loc (a div ns_per_sec - 2 * day_secs) (a div ns_per_sec + 2 * day_secs) off"
    using st by (simp add: a_def)
  have o': "offset_at loc (a div ns_per_sec) = off" by (rule steadyD [OF st']) (simp_all add: day_secs_def)
  have "local_secs loc a mod 60 = 0" using o' sec off(1) by (simp add: local_secs_def mod_add_eq [symmetric])
  note range = local_clock_range [of loc a]
  define c where "c = \<lparr>c_hour = nat (local_hour loc a), c_minute = nat (local_minute loc a)\<rparr>"
  have c: "local_hour loc a = int (c_hour c)" "local_minute loc a = int (c_minute c)"
    using range by (simp_all add: c_def)
  have cv: "civil (local_day loc a) = (y, m, d)" using date(1) by (simp add: local_date_def a_def)
  have a: "a = instant off (local_day loc a) (mins c)"
    by (rule instant_of_reading [OF sec(1) \<open>local_secs loc a mod 60 = 0\<close> c o'])
  have k: "int (mins c) * 60 = int (c_hour c) * 3600 + int (c_minute c) * 60"
    "nat (int (c_hour c) * 60 + int (c_minute c)) = mins c"
    by (simp_all add: mins_def nat_add_distrib nat_mult_distrib)
  have an: "a div ns_per_sec = midnight (local_day loc a) + int (mins c) * 60 - off"
    using a by (metis instant_def midnight_def ns_pos(3) nonzero_mult_div_cancel_right)
  have "go_date loc y m d (int (c_hour c)) (int (c_minute c)) =
      instant off (day_number y m d) (nat (int (c_hour c) * 60 + int (c_minute c)))"
    by (rule go_date_instant [OF st', of _ _ "midnight (local_day loc a) + int (mins c) * 60"])
      (use an off(2) k(1) day_number_civil [OF cv] in \<open>auto simp: midnight_def\<close>)
  then have gd: "go_date loc y m d (int (c_hour c)) (int (c_minute c)) = a"
    using a k(2) day_number_civil [OF cv] by simp
  have vd: "valid_date y m d" using civil_valid [OF cv] by blast
  have "parse_clock (format_clock (local_hour loc a) (local_minute loc a)) = Inr c"
    using parse_format_clock [OF range] by (simp add: c_def)
  from parse_absolute_tokens [where tz = tz and loc = loc, OF format_date_token [OF vd date(2,3)] parse_format_date [OF vd date(2,3)]
      format_clock_token [OF range] this name]
  show ?thesis
    using bounds absolute_form_join [OF date(1)] gd by (simp add: a_def)
qed

theorem absolute_form_roundtrip_witness:
  "parse_schedule demo_tz (absolute_form (1770000001 * ns_per_sec) santiago) santiago =
     Inr (no_spec\<lparr>sp_once := True, sp_at := Some (1770000060 * ns_per_sec), sp_pinned := True, sp_loc := santiago\<rparr>)"
proof -
  let ?t = "1770000001 * ns_per_sec"
  have n: "next_minute ?t = 1770000060 * ns_per_sec" by code_simp
  have st: "steady santiago (next_minute ?t div ns_per_sec - 2 * day_secs) (next_minute ?t div ns_per_sec + 2 * day_secs) (-14400)"
    unfolding n by (simp add: steady_def offset_at_def lookup_def santiago_def day_secs_def ns_per_sec_def)
  have d: "local_date santiago (next_minute ?t) = (2026, 2, 1)" by code_simp
  have name: "named santiago \<longrightarrow> plain_token (loc_name santiago) \<and> demo_tz (loc_name santiago) = Some santiago"
    and nm: "named santiago" by code_simp+
  from absolute_form_roundtrip [where tz = demo_tz and loc = santiago, OF st _ _ d _ _ name] n nm show ?thesis by (simp add: day_secs_def)
qed

end
