(* ===== verification/MeterProps.thy ===== *)
theory MeterProps
  imports Meter ScheduleForm
begin

text \<open>
  What the meter promises: recording adds exactly what was recorded and moves nothing else, the
  retention fold and a restart lose nothing, the week window is the calendar week on the person's
  clock, and a price is the longest match in whatever order the table is walked.
\<close>

section \<open>Sums over a table\<close>

definition total :: "('k \<Rightarrow> bool) \<Rightarrow> ('v \<Rightarrow> 'a :: comm_monoid_add) \<Rightarrow> ('k \<times> 'v) list \<Rightarrow> 'a" where
  "total P f rows = sum_list (List.map (\<lambda>(k, r). if P k then f r else 0) rows)"

lemma total_delete:
  "distinct (List.map fst rows) \<Longrightarrow> map_of rows k = Some r \<Longrightarrow>
   total P f rows = (if P k then f r else 0) + total P f (AList.delete k rows)"
proof (induction rows)
  case (Cons a rows)
  show ?case
  proof (cases "fst a = k")
    case True
    with Cons.prems have "k \<notin> fst ` set rows" "a = (k, r)" by (auto simp: prod_eq_iff)
    then show ?thesis by (simp add: total_def delete_id)
  next
    case False
    with Cons have "total P f rows = (if P k then f r else 0) + total P f (AList.delete k rows)"
      by (cases a) auto
    with False show ?thesis by (cases a) (simp add: total_def add.left_commute)
  qed
qed simp

lemma delete_edit_entry: "AList.delete k (edit_entry k f rows) = AList.delete k rows"
  by (induction rows) (auto simp: edit_entry_def)

lemma delete_update: "AList.delete k (AList.update k v rows) = AList.delete k rows"
  by (induction rows) auto

lemma total_edit:
  assumes "distinct (List.map fst rows)" "map_of rows k = Some r" "f (g r) = f r + d"
  shows "total P f (edit_entry k g rows) = (if P k then d else 0) + total P f rows"
proof -
  have "map_of (edit_entry k g rows) k = Some (g r)" using assms(2) by (simp add: map_of_edit_entry)
  from total_delete [OF _ this, of P f] total_delete [OF assms(1,2), of P f] assms
  show ?thesis by (simp add: delete_edit_entry ac_simps)
qed

lemma total_new:
  assumes "distinct (List.map fst rows)" "map_of rows k = None" "f v = 0"
  shows "total P f (AList.update k v rows) = total P f rows"
proof -
  have "k \<notin> fst ` set rows" using assms(2) by (simp add: map_of_eq_None_iff)
  then have "AList.delete k rows = rows" by (simp add: delete_id)
  moreover have "map_of (AList.update k v rows) k = Some v" by (simp add: update_conv')
  moreover have "distinct (List.map fst (AList.update k v rows))" using assms(1) by (rule distinct_update)
  ultimately show ?thesis using total_delete [of "AList.update k v rows" k v P f] assms(3) by (simp add: delete_update)
qed

section \<open>Rows\<close>

text \<open>A measure of rows that starts at nothing and adds up: usage, calls and turns are.\<close>

definition additive :: "(usage_row \<Rightarrow> 'a :: cancel_comm_monoid_add) \<Rightarrow> bool" where
  "additive f \<longleftrightarrow> (\<forall>a m d. f (empty_row a m d) = 0) \<and>
     (\<forall>c r. f (c\<lparr>u_usage := add_usage (u_usage c) (u_usage r), u_calls := u_calls c + u_calls r,
                  u_turns := u_turns c + u_turns r\<rparr>) = f c + f r)"

definition day_blind :: "(row_key \<Rightarrow> bool) \<Rightarrow> bool" where
  "day_blind P \<longleftrightarrow> (\<forall>a m d. P (a, m, d) = P (a, m, []))"

lemma day_blind_models: "day_blind (\<lambda>(_, n, _). n = mo)" "day_blind (\<lambda>_. True)"
  by (simp_all add: day_blind_def)

lemma additive_fields: "additive u_usage" "additive u_calls" "additive u_turns"
  by (simp_all add: additive_def empty_row_def plus_usage_def)

lemma keyed_row_locked [inv_intros]: "keyed row_key rows \<Longrightarrow> keyed row_key (row_locked a m d rows)"
  by (auto simp: row_locked_def empty_row_def row_key_def intro: keyed_update)

lemma row_locked_has: "\<exists>r. map_of (row_locked a m d rows) (a, m, d) = Some r"
  by (auto simp: row_locked_def update_conv')

lemma total_row_locked:
  assumes "keyed row_key rows" "\<And>a m d. f (empty_row a m d) = 0"
  shows "total P f (row_locked a m d rows) = total P f rows"
  using assms by (auto simp: row_locked_def keyed_def total_new)

lemma keyed_edit_row:
  "keyed row_key rows \<Longrightarrow> (\<And>r. row_key (g r) = row_key r) \<Longrightarrow> keyed row_key (edit_entry k g rows)"
  by (rule keyed_edit)

lemma keyed_fold_row [inv_intros]: "keyed row_key rows \<Longrightarrow> keyed row_key (fold_row cutoff k rows)"
  by (auto simp: fold_row_def row_key_def split: prod.splits option.splits
      intro!: keyed_delete keyed_edit keyed_row_locked)

text \<open>Folding one old row into its carry changes no sum that does not look at the day.\<close>

lemma total_fold_row:
  assumes "keyed row_key rows" "additive f" "day_blind P"
  shows "total P f (fold_row cutoff k rows) = total P f rows"
proof -
  obtain a m d where k: "k = (a, m, d)" by (cases k)
  show ?thesis
  proof (cases "d = [] \<or> cutoff \<le> d \<or> map_of rows k = None")
    case True
    then show ?thesis using k by (auto simp: fold_row_def)
  next
    case False
    then obtain r where r: "map_of rows k = Some r" and d: "d \<noteq> []" by auto
    let ?g = "\<lambda>c. c\<lparr>u_usage := add_usage (u_usage c) (u_usage r), u_calls := u_calls c + u_calls r,
      u_turns := u_turns c + u_turns r\<rparr>"
    let ?l = "row_locked a m [] rows"
    let ?e = "edit_entry (a, m, []) ?g ?l"
    have l: "keyed row_key ?l" by (rule keyed_row_locked [OF assms(1)])
    obtain c where c: "map_of ?l (a, m, []) = Some c" using row_locked_has by blast
    have ke: "map_of ?e k = Some r"
      using r d k by (auto simp: map_of_edit_entry row_locked_def update_conv')
    have "total P f ?e = (if P (a, m, []) then f r else 0) + total P f ?l"
      using l c assms(2) by (intro total_edit [where r = c]) (auto simp: keyed_def additive_def)
    also have "total P f ?l = total P f rows"
      using assms(1,2) by (intro total_row_locked) (auto simp: additive_def)
    finally have 1: "total P f ?e = (if P (a, m, []) then f r else 0) + total P f rows" .
    have "keyed row_key ?e" using l by (rule keyed_edit) (simp add: row_key_def)
    then have "total P f ?e = (if P k then f r else 0) + total P f (AList.delete k ?e)"
      using ke by (intro total_delete) (auto simp: keyed_def)
    moreover have "total P f rows = (if P k then f r else 0) + total P f (AList.delete k rows)"
      using assms(1) r by (intro total_delete) (auto simp: keyed_def)
    moreover have "fold_row cutoff k rows = AList.delete k ?e" using False r k by (simp add: fold_row_def)
    moreover have "P k = P (a, m, [])" using k assms(3) by (simp add: day_blind_def)
    ultimately show ?thesis using 1 by simp
  qed
qed

lemma total_folds:
  assumes "additive f" "day_blind P"
  shows "keyed row_key rows \<Longrightarrow> keyed row_key (fold (fold_row cutoff) ks rows) \<and>
    total P f (fold (fold_row cutoff) ks rows) = total P f rows"
  by (induction ks arbitrary: rows) (simp_all add: keyed_fold_row total_fold_row [OF _ assms])

definition meter_ok :: "meter \<Rightarrow> bool" where
  "meter_ok m \<longleftrightarrow> keyed row_key (mt_rows m)"

lemma fold_locked_total:
  assumes "meter_ok m" "additive f" "day_blind P"
  shows "meter_ok (fold_locked loc now m)" "total P f (mt_rows (fold_locked loc now m)) = total P f (mt_rows m)"
    "mt_state (fold_locked loc now m) = mt_state m"
  using assms(1) total_folds [OF assms(2,3)] by (auto simp: fold_locked_def meter_ok_def Let_def)

lemma save_meter_total:
  assumes "meter_ok m" "additive f" "day_blind P"
  shows "meter_ok (save_meter w loc now m)" "total P f (mt_rows (save_meter w loc now m)) = total P f (mt_rows m)"
  using fold_locked_total [OF assms] by (auto simp: save_meter_def meter_ok_def Let_def)

lemma bump_total:
  assumes ok: "keyed row_key rows" and f: "additive f" and g: "\<And>r. f (g r) = f r + d" "\<And>r. row_key (g r) = row_key r"
  shows "keyed row_key (edit_entry (a, mo, day) g (row_locked a mo day rows))"
    "total P f (edit_entry (a, mo, day) g (row_locked a mo day rows)) = (if P (a, mo, day) then d else 0) + total P f rows"
proof -
  note l = keyed_row_locked [OF ok, of a mo day]
  then show "keyed row_key (edit_entry (a, mo, day) g (row_locked a mo day rows))" using g(2) by (rule keyed_edit)
  obtain r where "map_of (row_locked a mo day rows) (a, mo, day) = Some r" using row_locked_has by blast
  with l g(1) show "total P f (edit_entry (a, mo, day) g (row_locked a mo day rows)) = (if P (a, mo, day) then d else 0) + total P f rows"
    using total_edit [of "row_locked a mo day rows" _ r f g d P] total_row_locked [OF ok, of f P] f
    by (simp add: keyed_def additive_def)
qed

text \<open>What the two writes add to a sum, and that they keep the table keyed.\<close>

lemma save_bump:
  assumes "meter_ok m" "additive f" "day_blind P" "\<And>r. f (g r) = f r + d" "\<And>r. row_key (g r) = row_key r"
  shows "meter_ok (save_meter w loc now (m\<lparr>mt_rows := edit_entry (a, mo, day) g (row_locked a mo day (mt_rows m)), mt_state := st\<rparr>))"
    "total P f (mt_rows (save_meter w loc now
       (m\<lparr>mt_rows := edit_entry (a, mo, day) g (row_locked a mo day (mt_rows m)), mt_state := st\<rparr>))) =
     (if P (a, mo, day) then d else 0) + total P f (mt_rows m)"
proof -
  have k: "keyed row_key (mt_rows m)" using assms(1) by (simp add: meter_ok_def)
  let ?m = "m\<lparr>mt_rows := edit_entry (a, mo, day) g (row_locked a mo day (mt_rows m)), mt_state := st\<rparr>"
  have ok: "meter_ok ?m" using bump_total(1) [OF k assms(2,4,5)] by (simp add: meter_ok_def)
  show "meter_ok (save_meter w loc now ?m)" using ok assms(2,3) by (rule save_meter_total)
  show "total P f (mt_rows (save_meter w loc now ?m)) = (if P (a, mo, day) then d else 0) + total P f (mt_rows m)"
    using bump_total(2) [OF k assms(2,4,5)] by (simp add: save_meter_total(2) [OF ok assms(2,3)])
qed

lemma record_usage_total:
  assumes "meter_ok m"
  shows "meter_ok (record_usage w loc now agent model u m)"
    "day_blind P \<Longrightarrow> total P u_usage (mt_rows (record_usage w loc now agent model u m)) =
       (if P (agent, model, []) then u else 0) + total P u_usage (mt_rows m)"
    "day_blind P \<Longrightarrow> total P u_calls (mt_rows (record_usage w loc now agent model u m)) =
       (if P (agent, model, []) then 1 else 0) + total P u_calls (mt_rows m)"
    "day_blind P \<Longrightarrow> total P u_turns (mt_rows (record_usage w loc now agent model u m)) = total P u_turns (mt_rows m)"
proof -
  let ?g = "\<lambda>r. r\<lparr>u_usage := add_usage (u_usage r) u, u_calls := u_calls r + 1\<rparr>"
  have rk: "row_key (?g r) = row_key r" for r by (simp add: row_key_def)
  have r: "u_usage (?g r) = u_usage r + u" "u_calls (?g r) = u_calls r + 1" "u_turns (?g r) = u_turns r + 0" for r
    by (simp_all flip: plus_usage_def)
  note b1 = save_bump [where g = ?g and f = u_usage and d = u, OF assms additive_fields(1)]
  note b2 = save_bump [where g = ?g and f = u_calls and d = 1, OF assms additive_fields(2)]
  note b3 = save_bump [where g = ?g and f = u_turns and d = 0, OF assms additive_fields(3)]
  show "meter_ok (record_usage w loc now agent model u m)"
    using b3(1) [OF day_blind_models(2) r(3) rk] by (simp add: record_usage_def Let_def)
  assume P: "day_blind P"
  then have "P (agent, model, date_of loc now) = P (agent, model, [])" unfolding day_blind_def by blast
  with b1(2) [OF P r(1) rk] b2(2) [OF P r(2) rk] b3(2) [OF P r(3) rk]
  show "total P u_usage (mt_rows (record_usage w loc now agent model u m)) =
       (if P (agent, model, []) then u else 0) + total P u_usage (mt_rows m)"
    "total P u_calls (mt_rows (record_usage w loc now agent model u m)) =
       (if P (agent, model, []) then 1 else 0) + total P u_calls (mt_rows m)"
    "total P u_turns (mt_rows (record_usage w loc now agent model u m)) = total P u_turns (mt_rows m)"
    by (simp_all add: record_usage_def Let_def)
qed

lemma finish_turn_total:
  assumes "meter_ok m"
  shows "meter_ok (finish_turn w loc now agent ms m)"
    "day_blind P \<Longrightarrow> total P u_usage (mt_rows (finish_turn w loc now agent ms m)) = total P u_usage (mt_rows m)"
    "day_blind P \<Longrightarrow> total P u_calls (mt_rows (finish_turn w loc now agent ms m)) = total P u_calls (mt_rows m)"
    "day_blind P \<Longrightarrow> total P u_turns (mt_rows (finish_turn w loc now agent ms m)) =
       (if P (agent, [], []) then 1 else 0) + total P u_turns (mt_rows m)"
proof -
  let ?g = "\<lambda>r. r\<lparr>u_turns := u_turns r + 1\<rparr>"
  have rk: "row_key (?g r) = row_key r" for r by (simp add: row_key_def)
  have r: "u_usage (?g r) = u_usage r + 0" "u_calls (?g r) = u_calls r + 0" "u_turns (?g r) = u_turns r + 1" for r
    by simp_all
  note b1 = save_bump [where g = ?g and f = u_usage and d = 0, OF assms additive_fields(1)]
  note b2 = save_bump [where g = ?g and f = u_calls and d = 0, OF assms additive_fields(2)]
  note b3 = save_bump [where g = ?g and f = u_turns and d = 1, OF assms additive_fields(3)]
  show "meter_ok (finish_turn w loc now agent ms m)"
    using b1(1) [OF day_blind_models(2) r(1) rk] by (simp add: finish_turn_def Let_def)
  assume P: "day_blind P"
  then have "P (agent, [], date_of loc now) = P (agent, [], [])" unfolding day_blind_def by blast
  with b1(2) [OF P r(1) rk] b2(2) [OF P r(2) rk] b3(2) [OF P r(3) rk]
  show "total P u_usage (mt_rows (finish_turn w loc now agent ms m)) = total P u_usage (mt_rows m)"
    "total P u_calls (mt_rows (finish_turn w loc now agent ms m)) = total P u_calls (mt_rows m)"
    "total P u_turns (mt_rows (finish_turn w loc now agent ms m)) =
       (if P (agent, [], []) then 1 else 0) + total P u_turns (mt_rows m)"
    by (simp_all add: finish_turn_def Let_def)
qed

section \<open>Reports\<close>

text \<open>What a list of per-model sums says of one model, nothing when it does not name it.\<close>

definition reported :: "model_usage list \<Rightarrow> string \<Rightarrow> usage \<times> i64" where
  "reported l mo = (case map_of (List.map (\<lambda>x. (mu_model x, (mu_usage x, mu_turns x))) l) mo of
     Some p \<Rightarrow> p | None \<Rightarrow> (0, 0))"

definition summed :: "(string \<times> model_usage) list \<Rightarrow> string \<Rightarrow> usage \<times> i64" where
  "summed acc mo = (case map_of acc mo of Some s \<Rightarrow> (mu_usage s, mu_turns s) | None \<Rightarrow> (0, 0))"

lemma keyed_add_model: "keyed mu_model acc \<Longrightarrow> keyed mu_model (add_model row acc)"
  by (auto simp: add_model_def intro!: keyed_edit keyed_update)

lemma summed_add_model:
  "summed (add_model row acc) mo =
     (if mo = u_model row then (fst (summed acc mo) + u_usage row, snd (summed acc mo) + u_calls row) else summed acc mo)"
  by (auto simp: summed_def add_model_def map_of_edit_entry update_conv' plus_usage_def [symmetric] split: option.splits)

lemma summed_fold:
  "keyed mu_model acc \<Longrightarrow> keyed mu_model (fold add_model rows acc) \<and>
   summed (fold add_model rows acc) mo =
     (fst (summed acc mo) + sum_list (List.map (\<lambda>r. if u_model r = mo then u_usage r else 0) rows),
      snd (summed acc mo) + sum_list (List.map (\<lambda>r. if u_model r = mo then u_calls r else 0) rows))"
  by (induction rows arbitrary: acc) (auto simp: keyed_add_model summed_add_model ac_simps)

lemma reported_sorted:
  assumes "keyed mu_model acc"
  shows "reported (sorted_models acc) mo = summed acc mo"
proof -
  let ?l = "sorted_models acc"
  have d: "distinct (List.map mu_model ?l)" using sorted_rows_distinct [OF assms] by (simp add: sorted_models_def)
  have m: "x \<in> set ?l \<longleftrightarrow> map_of acc (mu_model x) = Some x" for x
    using set_sorted_rows [OF assms] by (simp add: sorted_models_def)
  show ?thesis
  proof (cases "map_of acc mo")
    case None
    have "map_of (List.map (\<lambda>x. (mu_model x, (mu_usage x, mu_turns x))) ?l) mo = None"
    proof -
      have "mo \<notin> mu_model ` set ?l" using None m by auto
      then show ?thesis by (subst map_of_eq_None_iff) (simp add: image_image)
    qed
    with None show ?thesis by (simp add: reported_def summed_def)
  next
    case (Some s)
    with keyed_lookD [OF assms] have s: "mu_model s = mo" "s \<in> set ?l" using m by auto
    have "map_of (List.map (\<lambda>x. (mu_model x, (mu_usage x, mu_turns x))) ?l) mo = Some (mu_usage s, mu_turns s)"
      using d s by (intro map_of_is_SomeI) (auto simp: comp_def)
    with Some show ?thesis by (simp add: reported_def summed_def)
  qed
qed

lemma total_snd:
  assumes "keyed row_key rows"
  shows "sum_list (List.map ((\<lambda>r. if u_model r = mo then f r else 0) \<circ> snd) rows) =
    total (\<lambda>(_, m, _). m = mo) f rows"
  using assms by (induction rows) (auto simp: total_def keyed_def row_key_def)

lemma sum_filter_model:
  "mo \<noteq> [] \<Longrightarrow> sum_list (List.map (\<lambda>r. if u_model r = mo then f r else 0) (filter (\<lambda>r. u_model r \<noteq> []) rows)) =
   sum_list (List.map (\<lambda>r. if u_model r = mo then f r else 0) rows)"
  by (induction rows) auto

text \<open>The report in closed form: no order, no fold.\<close>

lemma meter_report_eq:
  assumes "meter_ok m" "mo \<noteq> []"
  shows "reported (ur_by_model (meter_report m)) mo =
      (total (\<lambda>(_, n, _). n = mo) u_usage (mt_rows m), total (\<lambda>(_, n, _). n = mo) u_calls (mt_rows m))"
proof -
  have "keyed mu_model ([] :: (string \<times> model_usage) list)" by (simp add: keyed_def)
  from summed_fold [OF this] assms show "reported (ur_by_model (meter_report m)) mo =
      (total (\<lambda>(_, n, _). n = mo) u_usage (mt_rows m), total (\<lambda>(_, n, _). n = mo) u_calls (mt_rows m))"
    by (simp add: meter_report_def Let_def reported_sorted summed_def sum_filter_model total_snd meter_ok_def)
qed

lemma meter_report_turns: "ur_turns (meter_report m) = total (\<lambda>_. True) u_turns (mt_rows m)"
  by (simp add: meter_report_def Let_def total_def comp_def split_def)



section \<open>Restarts\<close>

lemma total_reload:
  "distinct (List.map key vs) \<Longrightarrow>
   total P f (fold (\<lambda>v. AList.update (key v) v) vs []) = sum_list (List.map (\<lambda>v. if P (key v) then f v else 0) vs)"
  by (simp add: reload_rows total_def comp_def)

lemma total_sorted:
  assumes "keyed key rows"
  shows "sum_list (List.map (\<lambda>v. if P (key v) then f v else 0) (sorted_rows key rows)) = total P f rows"
proof -
  have "mset (List.map (\<lambda>v. if P (key v) then f v else 0) (sorted_rows key rows)) =
      mset (List.map (\<lambda>(k, r). if P k then f r else 0) rows)"
    using assms by (induction rows) (auto simp: sorted_rows_def keyed_def)
  then show ?thesis by (simp only: total_def flip: sum_mset_sum_list)
qed

lemma find_sum:
  "distinct (List.map mu_model l) \<Longrightarrow>
   sum_list (List.map (\<lambda>r. if mu_model r = mo then h r else 0) l) =
     (case List.find (\<lambda>r. mu_model r = mo) l of Some r \<Rightarrow> h r | None \<Rightarrow> 0)"
proof (induction l)
  case (Cons a l)
  have "sum_list (List.map (\<lambda>r. if mu_model r = mo then h r else 0) xs) = 0" if "mo \<notin> mu_model ` set xs" for xs
    using that by (induction xs) auto
  with Cons show ?case by auto
qed simp

lemma reported_find:
  "reported l mo = (case List.find (\<lambda>r. mu_model r = mo) l of Some r \<Rightarrow> (mu_usage r, mu_turns r) | None \<Rightarrow> (0, 0))"
  by (induction l) (auto simp: reported_def)

text \<open>What a meter opened from a file with distinct rows holds.\<close>

definition load_file :: "meter_file \<Rightarrow> meter" where
  "load_file f = empty_meter\<lparr>mt_rows := fold (\<lambda>r. AList.update (row_key r) r) (mf_rows f) [],
     mt_state := mf_state f, mt_file := Some f\<rparr>"

lemma loaded_total:
  assumes "distinct (List.map row_key (mf_rows f))" "additive h" "day_blind P"
  shows "meter_ok (fold_locked loc now (load_file f))"
    "total P h (mt_rows (fold_locked loc now (load_file f))) =
       sum_list (List.map (\<lambda>r. if P (row_key r) then h r else 0) (mf_rows f))"
    "mt_state (fold_locked loc now (load_file f)) = mf_state f"
proof -
  have ok: "meter_ok (load_file f)" using assms(1) by (simp add: meter_ok_def load_file_def keyed_reload)
  show "meter_ok (fold_locked loc now (load_file f))" by (rule fold_locked_total(1) [OF ok assms(2,3)])
  show "total P h (mt_rows (fold_locked loc now (load_file f))) =
       sum_list (List.map (\<lambda>r. if P (row_key r) then h r else 0) (mf_rows f))"
    using total_reload [OF assms(1), of P h]
    by (simp only: fold_locked_total(2) [OF ok assms(2,3)]) (simp add: load_file_def)
  show "mt_state (fold_locked loc now (load_file f)) = mf_state f"
    by (simp add: fold_locked_total(3) [OF ok assms(2,3)]) (simp add: load_file_def)
qed

text \<open>
  A restart loses nothing: a meter opened from the file another one wrote, at any later moment,
  reports the same usage per model, the same turns and the same activity; and a file of the first
  version is carried over whole.
\<close>

theorem meter_reopens:
  assumes "meter_ok m" "mo \<noteq> []" "distinct (List.map mu_model (v1_by_model v))" "[] \<notin> mu_model ` set (v1_by_model v)"
  shows "reported (ur_by_model (meter_report (open_meter loc now (MeterFile (file_locked m))))) mo =
      reported (ur_by_model (meter_report m)) mo \<and>
    ur_turns (meter_report (open_meter loc now (MeterFile (file_locked m)))) = ur_turns (meter_report m) \<and>
    ur_state (meter_report (open_meter loc now (MeterFile (file_locked m)))) = ur_state (meter_report m) \<and>
    reported (ur_by_model (meter_report (open_meter loc now (MeterV1 v)))) mo = reported (v1_by_model v) mo \<and>
    ur_turns (meter_report (open_meter loc now (MeterV1 v))) = v1_turns v"
proof -
  have k: "keyed row_key (mt_rows m)" using assms(1) by (simp add: meter_ok_def)
  let ?f = "file_locked m" and ?g = "migrate_v1 v"
  have df: "distinct (List.map row_key (mf_rows ?f))"
    using sorted_rows_distinct [OF k] by (simp add: file_locked_def)
  have dg: "distinct (List.map row_key (mf_rows ?g))"
    using assms(3,4) by (auto simp: migrate_v1_def row_key_def comp_def distinct_map inj_on_def)
  have of: "open_meter loc now (MeterFile ?f) = fold_locked loc now (load_file ?f)"
    by (simp add: open_meter_def read_meter_file_def load_file_def) (simp add: file_locked_def)
  have og: "open_meter loc now (MeterV1 v) = fold_locked loc now (load_file ?g)"
    by (simp add: open_meter_def read_meter_file_def load_file_def)
  note f = loaded_total [OF df additive_fields(1)] loaded_total [OF df additive_fields(2)] loaded_total [OF df additive_fields(3)]
    and g = loaded_total [OF dg additive_fields(1)] loaded_total [OF dg additive_fields(2)] loaded_total [OF dg additive_fields(3)]
  have rows: "mf_rows ?f = sorted_rows row_key (mt_rows m)" "mf_state ?f = mt_state m" by (simp_all add: file_locked_def)
  have sorted_turns: "sum_list (List.map u_turns (sorted_rows row_key (mt_rows m))) = total (\<lambda>_. True) u_turns (mt_rows m)"
    using total_sorted [OF k, of "\<lambda>_. True" u_turns] by simp
  have okf: "meter_ok (open_meter loc now (MeterFile ?f))" "meter_ok (open_meter loc now (MeterV1 v))"
    unfolding of og using f(1) g(1) day_blind_models(2) by blast+
  have F: "reported (ur_by_model (meter_report (open_meter loc now (MeterFile ?f)))) mo = reported (ur_by_model (meter_report m)) mo"
    "ur_turns (meter_report (open_meter loc now (MeterFile ?f))) = ur_turns (meter_report m)"
    by (simp_all add: meter_report_eq [OF okf(1) assms(2)] meter_report_eq [OF assms(1,2)] meter_report_turns)
      (simp_all add: of f day_blind_models rows total_sorted [OF k] sorted_turns)
  have rows1: "mf_rows ?g = \<lparr>u_agent = unattributed, u_model = [], u_day = [], u_usage = 0, u_calls = 0, u_turns = v1_turns v\<rparr> #
      List.map (\<lambda>r. \<lparr>u_agent = unattributed, u_model = mu_model r, u_day = [], u_usage = mu_usage r,
        u_calls = mu_turns r, u_turns = 0\<rparr>) (v1_by_model v)"
    by (simp add: migrate_v1_def)
  have none: "sum_list (List.map (\<lambda>r. 0 :: i64) l) = 0" for l :: "model_usage list" by (induction l) auto
  have V: "reported (ur_by_model (meter_report (open_meter loc now (MeterV1 v)))) mo = reported (v1_by_model v) mo"
    "ur_turns (meter_report (open_meter loc now (MeterV1 v))) = v1_turns v"
    unfolding meter_report_eq [OF okf(2) assms(2)] meter_report_turns
    unfolding og g(2) [OF day_blind_models(1)] g(5) [OF day_blind_models(1)] g(8) [OF day_blind_models(2)] rows1
    using assms(2) by (simp_all add: row_key_def comp_def find_sum [OF assms(3)] reported_find none split: option.splits)
  have "ur_state (meter_report (open_meter loc now (MeterFile ?f))) = ur_state (meter_report m)"
    by (simp add: meter_report_def Let_def of f(3) [OF day_blind_models(2)] rows)
  with F V show ?thesis by blast
qed

theorem meter_reopens_witness:
  "ur_turns (meter_report (open_meter utc 0 (MeterV1 \<lparr>v1_by_model = [], v1_turns = 4,
      v1_state = \<lparr>ms_duration = 0, ms_activity = None\<rparr>\<rparr>))) = 4"
  using meter_reopens [of empty_meter "''m''" "\<lparr>v1_by_model = [], v1_turns = 4,
      v1_state = \<lparr>ms_duration = 0, ms_activity = None\<rparr>\<rparr>" utc 0]
  by (simp add: meter_ok_def empty_meter_def keyed_def)

section \<open>Prices\<close>

text \<open>One step of the walk over the price table, and that two steps may change places.\<close>

definition better :: "string \<Rightarrow> string \<times> rat \<times> rat \<Rightarrow> string \<times> rat \<times> rat \<Rightarrow> string \<times> rat \<times> rat" where
  "better model x best = (if prefix (fst x) model \<and> length (fst x) > length (fst best) then x else best)"

lemma best_prefix_fold: "best_prefix model ps best = fold (better model) ps best"
  by (induction model ps best rule: best_prefix.induct) (simp_all add: better_def)

lemma better_commute:
  assumes "fst x = fst y \<Longrightarrow> x = y"
  shows "better model x (better model y b) = better model y (better model x b)"
proof (cases "prefix (fst x) model \<and> prefix (fst y) model \<and> length (fst x) = length (fst y)")
  case True
  then have "fst x = fst y" by (metis prefix_length_prefix order_refl prefix_order.antisym)
  with assms show ?thesis by simp
next
  case False
  then show ?thesis by (auto simp: better_def)
qed

lemma best_prefix_grows: "length (fst best) \<le> length (fst (best_prefix model ps best))"
  by (induction model ps best rule: best_prefix.induct) (auto split: if_splits)

lemma best_prefix_longest:
  "best_prefix model ps best = best \<or> prefix (fst (best_prefix model ps best)) model \<and> best_prefix model ps best \<in> set ps"
  "p \<in> set ps \<Longrightarrow> prefix (fst p) model \<Longrightarrow> length (fst p) \<le> length (fst (best_prefix model ps best))"
proof -
  show "best_prefix model ps best = best \<or> prefix (fst (best_prefix model ps best)) model \<and> best_prefix model ps best \<in> set ps"
    by (induction model ps best rule: best_prefix.induct) auto
  show "length (fst p) \<le> length (fst (best_prefix model ps best))" if "p \<in> set ps" "prefix (fst p) model"
    using that
  proof (induction ps arbitrary: best)
    case (Cons a ps)
    let ?b = "better model a best"
    have step: "best_prefix model (a # ps) best = best_prefix model ps ?b" by (cases a) (simp add: better_def)
    show ?case
    proof (cases "p = a")
      case True
      then have "length (fst p) \<le> length (fst ?b)" using Cons.prems by (auto simp: better_def)
      also have "... \<le> length (fst (best_prefix model ps ?b))" by (rule best_prefix_grows)
      finally show ?thesis unfolding step .
    qed (use Cons step in auto)
  qed simp
qed

text \<open>
  The price of a model is the longest name in the table that begins its id, once the id is written
  the way the table writes it, and it is the same whatever order Go walks the map in.
\<close>

theorem rate_longest:
  assumes "mset table = mset price_table"
  shows "best_prefix (dialect model) table ([], 0, 0) = best_prefix (dialect model) price_table ([], 0, 0) \<and>
    (case rate_for model of
       None \<Rightarrow> list_all (\<lambda>(p, _). \<not> prefix p (dialect model)) table
     | Some r \<Rightarrow> \<exists>best. (best, r) \<in> set table \<and> prefix best (dialect model) \<and>
         list_all (\<lambda>(p, _). prefix p (dialect model) \<longrightarrow> length p \<le> length best) table)"
proof -
  let ?m = "dialect model"
  let ?b = "best_prefix ?m price_table ([], 0, 0)"
  have d: "distinct (List.map fst price_table)" "[] \<notin> fst ` set price_table" by (simp_all add: price_table_def)
  have s: "set table = set price_table" using assms by (rule mset_eq_setD)
  have "fold (better ?m) table = fold (better ?m) price_table"
  proof (rule fold_multiset_equiv [OF _ assms])
    fix x y assume "x \<in> set table" "y \<in> set table"
    with d(1) s have "fst x = fst y \<Longrightarrow> x = y" by (auto simp: distinct_map inj_on_def)
    then show "better ?m x \<circ> better ?m y = better ?m y \<circ> better ?m x"
      using better_commute [of x y ?m] by (simp add: fun_eq_iff)
  qed
  then have 1: "best_prefix ?m table ([], 0, 0) = ?b" by (simp add: best_prefix_fold)
  obtain best r where b: "?b = (best, r)" by (cases ?b)
  have long: "length (fst p) \<le> length best" if "p \<in> set price_table" "prefix (fst p) ?m" for p
    using best_prefix_longest(2) [OF that, of "([], 0, 0)"] b by simp
  have "case rate_for model of
       None \<Rightarrow> list_all (\<lambda>(p, _). \<not> prefix p ?m) table
     | Some r \<Rightarrow> \<exists>best. (best, r) \<in> set table \<and> prefix best ?m \<and>
         list_all (\<lambda>(p, _). prefix p ?m \<longrightarrow> length p \<le> length best) table"
  proof (cases "best = []")
    case True
    then have "rate_for model = None" using b by (simp add: rate_for_def)
    moreover have "list_all (\<lambda>(p, _). \<not> prefix p ?m) table"
      using long d(2) by (force simp: list_all_iff s True)
    ultimately show ?thesis by simp
  next
    case False
    then have "rate_for model = Some r" using b by (simp add: rate_for_def)
    moreover have "(best, r) \<in> set table" "prefix best ?m"
      using best_prefix_longest(1) [of ?m price_table "([], 0, 0)"] b False s by auto
    moreover have "list_all (\<lambda>(p, _). prefix p ?m \<longrightarrow> length p \<le> length best) table"
      using long by (auto simp: list_all_iff s)
    ultimately show ?thesis by auto
  qed
  with 1 show ?thesis by blast
qed

theorem rate_longest_witness:
  "best_prefix (dialect ''anthropic/claude-opus-4.5'') (rev price_table) ([], 0, 0) = (''claude-opus-4-5'', 5, 25)"
proof -
  have "best_prefix (dialect ''anthropic/claude-opus-4.5'') price_table ([], 0, 0) = (''claude-opus-4-5'', 5, 25)"
    by code_simp
  with rate_longest [of "rev price_table" "''anthropic/claude-opus-4.5''"] show ?thesis by simp
qed

definition priced_later :: meter where
  "priced_later = open_meter utc 0 (MeterV1 \<lparr>v1_by_model = [\<lparr>mu_model = ''claude-sonnet-4'',
       mu_usage = Usage 0 0 1000000 0 0 0 0, mu_turns = 9\<rparr>], v1_turns = 9,
     v1_state = \<lparr>ms_duration = 0, ms_activity = None\<rparr>\<rparr>)"

text \<open>
  An endpoint that starts to report its own prices makes earlier spend vanish: a model with a
  million input tokens from before (three dollars by the table) is reported at one cent once one
  more message of it arrives with a price of one cent, because the summed price of a model is taken as the price
  of all its tokens.
\<close>

theorem mixed_pricing_shrinks:
  "tt_cost (price (meter_report priced_later)) = 3 \<and>
   tt_cost (price (meter_report (record_usage True utc 0 ''boss'' ''claude-sonnet-4'' (Usage 0 0 100 20 0 0 (1 / 100)) priced_later))) = 1 / 100"
  by code_simp

end
