(* ===== verification/RosterProps.thy ===== *)
theory RosterProps
  imports Roster MeterProps
begin

text \<open>
  What the roster promises: the boss is always there and leads, ids are safe and never shared, a
  custom agent always has what it must have, nobody changes a shipped agent's role, and a restart
  finds the same agents.
\<close>

section \<open>The table interface\<close>

definition roster_ok :: "roster \<Rightarrow> bool" where
  "roster_ok r \<longleftrightarrow> keyed rc_id (ro_by r)"

lemma saved_table [simp]: "ro_by (snd (saved w x r)) = ro_by r" "look_agent (snd (saved w x r)) = look_agent r"
  by (auto simp: saved_def save_roster_def look_agent_def fun_eq_iff)

lemma set_list_agents: "set (list_agents r) = snd ` set (ro_by r)"
  by (simp add: list_agents_def)

lemma list_agents_look: "roster_ok r \<Longrightarrow> rec \<in> set (list_agents r) \<longleftrightarrow> look_agent r (rc_id rec) = Some rec"
  using keyed_map_of [of rc_id "ro_by r" rec] by (simp add: roster_ok_def set_list_agents look_agent_def)

lemma list_agents_distinct: "roster_ok r \<Longrightarrow> distinct (List.map rc_id (list_agents r))"
proof -
  assume k: "roster_ok r"
  then have "mset (List.map rc_id (list_agents r)) = mset (List.map fst (ro_by r))"
    unfolding list_agents_def roster_ok_def using keyed_keys [of rc_id "ro_by r"]
    by (metis mset_map mset_sort)
  with k show ?thesis by (metis roster_ok_def keyed_def mset_eq_imp_distinct_iff)
qed

definition edit_agent :: "bool \<Rightarrow> string \<Rightarrow> (agent_record \<Rightarrow> agent_record) \<Rightarrow> roster \<Rightarrow> roster" where
  "edit_agent w i f r = snd (update_agent w i (\<lambda>rec. Inr (f rec)) r)"

lemma look_edit_agent: "look_agent (edit_agent w i f r) j = (if j = i then map_option f (look_agent r i) else look_agent r j)"
  by (auto simp: edit_agent_def update_agent_def split: option.splits)
    (auto simp: look_agent_def map_of_edit_entry)

interpretation agents: keyed_table roster_ok look_agent "edit_agent w" list_agents rc_id
proof unfold_locales
  fix r k and f :: "agent_record \<Rightarrow> agent_record"
  assume r: "roster_ok r" and f: "\<And>v. rc_id (f v) = rc_id v"
  show "roster_ok (edit_agent w k f r)"
  proof (cases "look_agent r k")
    case (Some rec)
    then have "rc_id (f rec) = k" using r f keyed_lookD [of rc_id "ro_by r" k rec] by (simp add: roster_ok_def look_agent_def)
    with Some r show ?thesis
      by (auto simp: edit_agent_def update_agent_def roster_ok_def keyed_iff map_of_edit_entry)
  qed (use r in \<open>simp add: edit_agent_def update_agent_def\<close>)
qed (simp_all add: look_edit_agent list_agents_look list_agents_distinct)

section \<open>Ids\<close>

lemma slug_ok: "slug name = [] \<or> agent_id_ok (slug name)"
  by (simp add: slug_def Let_def)

lemma id_start_no_dot: "id_start c \<Longrightarrow> c \<noteq> CHR ''.''"
  by (auto simp: id_start_def is_digit_def)

lemma agent_id_no_dot: "agent_id_ok s \<Longrightarrow> CHR ''.'' \<notin> set s"
  by (cases s) (auto simp: agent_id_ok_def list_all_iff dest: id_start_no_dot)

text \<open>The ids the roster mints: the boss's, or a slug with the suffix that makes it unused.\<close>

definition minted_id :: "string \<Rightarrow> bool" where
  "minted_id i \<longleftrightarrow> i = boss_id \<or> (\<exists>base n. agent_id_ok base \<and> 1 \<le> n \<and> n < 100 \<and> i = id_candidate base n)"

lemma minted_no_dot: "minted_id i \<Longrightarrow> CHR ''.'' \<notin> set i"
  using agent_id_no_dot by (auto simp: minted_id_def id_candidate_def boss_id_def split: if_splits)

lemma agent_id_same: "agent_id_ok s = valid_id s"
  by (simp add: agent_id_ok_def valid_id_def)

lemma free_id_minted:
  assumes "free_id name r = Inr i"
  shows "minted_id i" "look_agent r i = None"
proof -
  have s: "slug name \<noteq> []" using assms by (auto simp: free_id_def Let_def)
  then have f: "List.find (\<lambda>i. look_agent r i = None) (List.map (id_candidate (slug name)) [1..<100]) = Some i"
    using assms by (auto simp: free_id_def Let_def split: option.splits)
  then obtain k where k: "k < 99" "i = id_candidate (slug name) (Suc k)" "look_agent r i = None"
    unfolding find_Some_iff by (auto simp: nth_upt)
  then show "look_agent r i = None" by simp
  show "minted_id i" unfolding minted_id_def using s slug_ok [of name] k
    by (intro disjI2 exI [of _ "slug name"] exI [of _ "Suc k"]) simp
qed

section \<open>Operations\<close>

definition sound_record :: "agent_record \<Rightarrow> bool" where
  "sound_record rec \<longleftrightarrow> minted_id (rc_id rec) \<and> (rc_type rec = custom_type \<longrightarrow> valid_custom rec = None)"

definition roster_sound :: "roster \<Rightarrow> bool" where
  "roster_sound r \<longleftrightarrow> roster_ok r \<and> (\<forall>i rec. look_agent r i = Some rec \<longrightarrow> sound_record rec)"

datatype roster_op =
    OCreate bool int create_req
  | OPatch bool string agent_patch
  | OTask bool string "task option"
  | ORemove bool string
  | OBoss bool int

fun run_roster_op :: "(string \<Rightarrow> bool) \<Rightarrow> roster_op \<Rightarrow> roster \<Rightarrow> roster" where
  "run_roster_op profiles (OCreate w now req) r = snd (create_with profiles w now req r)"
| "run_roster_op profiles (OPatch w i p) r = snd (patch_agent w i p r)"
| "run_roster_op profiles (OTask w i t) r = snd (set_task w i t r)"
| "run_roster_op profiles (ORemove w i) r = snd (remove_agent w i r)"
| "run_roster_op profiles (OBoss w now) r = snd (ensure_boss w now boss_id r)"

lemma look_put: "look_agent (r\<lparr>ro_by := AList.update i rec (ro_by r)\<rparr>) j = (if j = i then Some rec else look_agent r j)"
  by (simp add: look_agent_def update_conv')

lemma look_edit: "look_agent (r\<lparr>ro_by := edit_entry i f (ro_by r)\<rparr>) j = (if j = i then map_option f (look_agent r i) else look_agent r j)"
  by (simp add: look_agent_def map_of_edit_entry)

lemma look_drop: "look_agent (r\<lparr>ro_by := AList.delete i (ro_by r)\<rparr>) j = (if j = i then None else look_agent r j)"
  by (simp add: look_agent_def delete_conv')

lemma roster_ok_iff: "roster_ok r \<longleftrightarrow> distinct (List.map fst (ro_by r)) \<and> (\<forall>i rec. look_agent r i = Some rec \<longrightarrow> rc_id rec = i)"
  by (simp add: roster_ok_def keyed_iff look_agent_def)

text \<open>What a patch may touch.\<close>

lemma apply_patch_keeps:
  assumes "apply_patch p rec = Inr new"
  shows "rc_id new = rc_id rec \<and> rc_type new = rc_type rec \<and> rc_created new = rc_created rec \<and> rc_task new = rc_task rec"
    "rc_type rec = custom_type \<Longrightarrow> valid_custom new = None"
    "rc_type rec \<noteq> custom_type \<Longrightarrow> rc_instructions new = rc_instructions rec \<and> rc_model new = rc_model rec"
  using assms by (auto simp: apply_patch_def patch_model_def Let_def split: if_splits option.splits)

lemma valid_custom_fields:
  "rc_name rec = rc_name new \<Longrightarrow> rc_instructions rec = rc_instructions new \<Longrightarrow> rc_model rec = rc_model new \<Longrightarrow>
   valid_custom rec = valid_custom new"
  unfolding valid_custom_def by metis

lemma edit_sound:
  assumes "roster_sound r" "sound_record new" "rc_id new = i"
  shows "roster_sound (r\<lparr>ro_by := edit_entry i (\<lambda>_. new) (ro_by r)\<rparr>)"
proof -
  have "sound_record rec \<and> rc_id rec = j" if "look_agent (r\<lparr>ro_by := edit_entry i (\<lambda>_. new) (ro_by r)\<rparr>) j = Some rec" for j rec
    using that assms unfolding look_edit roster_sound_def roster_ok_iff by (cases "j = i") auto
  then show ?thesis using assms(1) by (simp add: roster_sound_def roster_ok_iff)
qed

lemma saved_sound [simp]: "roster_sound (snd (saved w x r)) = roster_sound r"
  by (simp add: roster_sound_def roster_ok_def)

lemma update_keeps:
  assumes "roster_sound r" "\<And>rec new. look_agent r i = Some rec \<Longrightarrow> change rec = Inr new \<Longrightarrow> rc_id new = rc_id rec \<and> sound_record new"
  shows "roster_sound (snd (update_agent w i change r))"
    "look_agent r j \<noteq> None \<Longrightarrow> look_agent (snd (update_agent w i change r)) j \<noteq> None"
proof -
  have "roster_sound (snd (update_agent w i change r)) \<and>
    (look_agent r j \<noteq> None \<longrightarrow> look_agent (snd (update_agent w i change r)) j \<noteq> None)"
  proof (cases "\<exists>rec new. look_agent r i = Some rec \<and> change rec = Inr new")
    case True
    then obtain rec new where h: "look_agent r i = Some rec" "change rec = Inr new" by blast
    moreover have "rc_id rec = i" using h(1) assms(1) by (simp add: roster_sound_def roster_ok_iff)
    ultimately show ?thesis using assms(2) [OF h] edit_sound [OF assms(1), of new i] by (simp add: update_agent_def look_edit)
  next
    case False
    then have "update_agent w i change r = (fst (update_agent w i change r), r)"
      by (auto simp: update_agent_def split: option.splits sum.splits)
    then show ?thesis using assms(1) by (metis snd_conv)
  qed
  then show "roster_sound (snd (update_agent w i change r))"
    "look_agent r j \<noteq> None \<Longrightarrow> look_agent (snd (update_agent w i change r)) j \<noteq> None" by auto
qed

lemma put_sound:
  "roster_sound r \<Longrightarrow> sound_record rec \<Longrightarrow> rc_id rec = i \<Longrightarrow> roster_sound (r\<lparr>ro_by := AList.update i rec (ro_by r)\<rparr>)"
  by (auto simp: roster_sound_def roster_ok_iff look_put distinct_update)

lemma valid_custom_named: "valid_custom rec = None \<Longrightarrow> rc_name rec \<noteq> []"
  by (auto simp: valid_custom_def valid_name_def trim_with_def rune_count_def Let_def split: option.splits if_splits)

lemma create_sound:
  assumes "roster_sound r"
  shows "roster_sound (snd (create_with profiles w now req r))"
    "look_agent r j \<noteq> None \<Longrightarrow> look_agent (snd (create_with profiles w now req r)) j \<noteq> None"
proof -
  let ?rec = "\<lparr>rc_id = [], rc_name = cr_name req, rc_type = cr_type req, rc_created = 0, rc_task = None,
    rc_instructions = cr_instructions req, rc_model = cr_model req\<rparr>"
  let ?named = "?rec\<lparr>rc_name := or_default (cr_name req) (cr_type req)\<rparr>"
  have n: "?named = ?rec" if "valid_custom ?rec = None" using valid_custom_named [OF that] by (simp add: or_default_def)
  have "sound_record (?named\<lparr>rc_id := i, rc_created := now\<rparr>)"
    if i: "free_id (rc_name ?named) r = Inr i" and v: "cr_type req = custom_type \<longrightarrow> valid_custom ?rec = None" for i
  proof (cases "cr_type req = custom_type")
    case True
    with v n have "valid_custom ?rec = None" "?named = ?rec" by auto
    moreover from this have "valid_custom (?named\<lparr>rc_id := i, rc_created := now\<rparr>) = valid_custom ?rec"
      by (intro valid_custom_fields) (metis agent_record.select_convs agent_record.update_convs)+
    ultimately show ?thesis using free_id_minted(1) [OF i] by (simp only: sound_record_def) simp
  qed (use free_id_minted(1) [OF i] in \<open>simp add: sound_record_def\<close>)
  then show "roster_sound (snd (create_with profiles w now req r))"
    "look_agent r j \<noteq> None \<Longrightarrow> look_agent (snd (create_with profiles w now req r)) j \<noteq> None"
    using assms by (auto simp: create_with_def add_agent_def Let_def look_put split: if_splits option.splits sum.splits intro!: put_sound)
qed

lemma op_sound:
  assumes "roster_sound r" "look_agent r boss_id \<noteq> None"
  shows "roster_sound (run_roster_op profiles p r)" "look_agent (run_roster_op profiles p r) boss_id \<noteq> None"
proof -
  have "roster_sound (run_roster_op profiles p r) \<and> look_agent (run_roster_op profiles p r) boss_id \<noteq> None"
  proof (cases p)
    case (OCreate w now req)
    with create_sound [OF assms(1)] assms(2) show ?thesis by simp
  next
    case (OPatch w i q)
    have "rc_id new = rc_id rec \<and> sound_record new" if "look_agent r i = Some rec" "apply_patch q rec = Inr new" for rec new
      using apply_patch_keeps [OF that(2)] that(1) assms(1) by (auto simp: roster_sound_def sound_record_def)
    from update_keeps(1) [OF assms(1) this, where w = w] update_keeps(2) [OF assms(1) this, where w = w and j = boss_id] assms(2) OPatch show ?thesis by (simp add: patch_agent_def)
  next
    case (OTask w i t)
    let ?c = "\<lambda>rec. Inr (rec\<lparr>rc_task := t\<rparr>) :: roster_error + agent_record"
    have "rc_id new = rc_id rec \<and> sound_record new" if "look_agent r i = Some rec" "?c rec = Inr new" for rec new
      using that assms(1) valid_custom_fields [of rec "rec\<lparr>rc_task := t\<rparr>"] by (auto simp: roster_sound_def sound_record_def)
    note keeps = update_keeps [OF assms(1), where i = i and change = ?c and w = w, OF this]
    from keeps(1) keeps(2) [of boss_id] assms(2) OTask show ?thesis by (simp add: set_task_def)
  next
    case (ORemove w i)
    with assms show ?thesis
      by (auto simp: remove_agent_def roster_sound_def roster_ok_iff look_drop distinct_delete)
  next
    case (OBoss w now)
    with assms show ?thesis by (auto simp: ensure_boss_def)
  qed
  then show "roster_sound (run_roster_op profiles p r)" "look_agent (run_roster_op profiles p r) boss_id \<noteq> None" by auto
qed

text \<open>
  Whatever is created, patched, given a task or removed, and whether or not each write succeeds:
  the boss stays and leads the list, no two agents share an id, every id is the boss's or a safe slug with at most a
  suffix, and every custom agent has a name, a role and a whole model.
\<close>

theorem roster_stays_sound:
  assumes "roster_sound r" "look_agent r boss_id \<noteq> None"
  shows "roster_sound (fold (run_roster_op profiles) ops r) \<and>
    rc_id (hd (list_agents (fold (run_roster_op profiles) ops r))) = boss_id \<and>
    distinct (List.map rc_id (list_agents (fold (run_roster_op profiles) ops r)))"
proof -
  let ?r = "fold (run_roster_op profiles) ops r"
  have inv: "roster_sound ?r \<and> look_agent ?r boss_id \<noteq> None"
    using assms
  proof (induction ops arbitrary: r)
    case (Cons p ops)
    from Cons.IH [OF op_sound [OF Cons.prems]] show ?case by simp
  qed simp
  then have ok: "roster_ok ?r" by (simp add: roster_sound_def)
  obtain b where b: "look_agent ?r boss_id = Some b" using inv by auto
  then have "rc_id b = boss_id" using ok by (auto simp: roster_ok_iff)
  then have "b \<in> set (list_agents ?r)" using b ok by (simp add: list_agents_look)
  then obtain x xs where l: "list_agents ?r = x # xs" by (cases "list_agents ?r") auto
  have "sorted (List.map roster_order (list_agents ?r))" by (simp add: list_agents_def)
  then have "roster_order x \<le> roster_order b" using l \<open>b \<in> set (list_agents ?r)\<close> by auto
  then have "rc_id x = boss_id" using \<open>rc_id b = boss_id\<close> by (auto simp: roster_order_def less_eq_prod_def)
  with inv ok l list_agents_distinct [OF ok] show ?thesis by simp
qed

theorem roster_stays_sound_witness:
  "let r = snd (ensure_boss True 0 boss_id \<lparr>ro_by = [], ro_file = []\<rparr>)
   in roster_sound (fold (run_roster_op (\<lambda>_. True)) [ORemove True ''boss'', OTask True ''boss'' None] r)"
proof -
  let ?r = "snd (ensure_boss True 0 boss_id \<lparr>ro_by = [], ro_file = []\<rparr>)"
  have l: "look_agent ?r i = (if i = boss_id then Some \<lparr>rc_id = boss_id, rc_name = ''Boss'', rc_type = boss_id, rc_created = 0,
      rc_task = None, rc_instructions = [], rc_model = None\<rparr> else None)" for i
    by (simp add: ensure_boss_def look_agent_def)
  then have "roster_sound ?r"
    by (auto simp: roster_sound_def roster_ok_iff sound_record_def minted_id_def custom_type_def boss_id_def ensure_boss_def
        look_agent_def saved_def save_roster_def)
  moreover have "look_agent ?r boss_id \<noteq> None" by (simp add: l)
  ultimately show ?thesis
    using roster_stays_sound [of ?r "\<lambda>_. True" "[ORemove True ''boss'', OTask True ''boss'' None]"] by (simp add: Let_def)
qed

section \<open>New agents\<close>

text \<open>
  Creating an agent either fails and changes nothing, but for a failed write, or adds one record under an id nobody
  had: the slug of its name, with the least suffix that makes it unused. It fails for want of an id
  only when the name holds no letter or digit or all ninety-nine ids are taken.
\<close>

theorem new_agent_exact:
  "(case free_id name r of
      Inr i \<Rightarrow> look_agent r i = None \<and> agent_id_ok (slug name) \<and>
        (\<exists>n. 1 \<le> n \<and> n < 100 \<and> i = id_candidate (slug name) n \<and>
          list_all (\<lambda>m. look_agent r (id_candidate (slug name) m) \<noteq> None) [1..<n])
    | Inl (NoIdFrom _) \<Rightarrow> slug name = []
    | Inl (TooManyNamed b) \<Rightarrow> b = slug name \<and> list_all (\<lambda>m. look_agent r (id_candidate b m) \<noteq> None) [1..<100]
    | Inl _ \<Rightarrow> False) \<and>
   (case add_agent wrote now rec r of
      (Inr new, r1) \<Rightarrow> look_agent r (rc_id new) = None \<and> look_agent r1 = (look_agent r)(rc_id new \<mapsto> new) \<and>
        ro_file r1 = list_agents r1
    | (Inl RosterUnwritten, r1) \<Rightarrow> \<not> wrote \<and> ro_file r1 = ro_file r
    | (Inl _, r1) \<Rightarrow> r1 = r)"
proof (rule conjI)
  let ?f = "List.find (\<lambda>i. look_agent r i = None) (List.map (id_candidate (slug name)) [1..<100])"
  have up: "[1..<100] ! k = Suc k" if "k < 99" for k using that by (subst nth_upt) auto
  have some: "look_agent r i = None \<and> (\<exists>n. 1 \<le> n \<and> n < 100 \<and> i = id_candidate (slug name) n \<and>
      list_all (\<lambda>m. look_agent r (id_candidate (slug name) m) \<noteq> None) [1..<n])" if "?f = Some i" for i
  proof -
    let ?xs = "List.map (id_candidate (slug name)) [1..<100]"
    have nth: "?xs ! j = id_candidate (slug name) (Suc j)" if "j < 99" for j using up [OF that] that by simp
    from that obtain k where k0: "k < 99" "i = ?xs ! k" "look_agent r (?xs ! k) = None"
      "\<forall>j<k. look_agent r (?xs ! j) \<noteq> None"
      unfolding find_Some_iff by auto
    then have k: "k < 99" "i = id_candidate (slug name) (Suc k)" "look_agent r i = None" by (simp_all only: nth)
    have "look_agent r (id_candidate (slug name) (Suc j)) \<noteq> None" if "j < k" for j
      using k0(4) nth [of j] that k(1) by auto
    note k = k this
    have "look_agent r (id_candidate (slug name) m) \<noteq> None" if "m \<in> set [1..<Suc k]" for m
      using k(4) [of "m - 1"] that by auto
    with k show ?thesis by (intro conjI exI [of _ "Suc k"]) (simp_all add: list_all_iff)
  qed
  show "case free_id name r of
      Inr i \<Rightarrow> look_agent r i = None \<and> agent_id_ok (slug name) \<and>
        (\<exists>n. 1 \<le> n \<and> n < 100 \<and> i = id_candidate (slug name) n \<and>
          list_all (\<lambda>m. look_agent r (id_candidate (slug name) m) \<noteq> None) [1..<n])
    | Inl (NoIdFrom _) \<Rightarrow> slug name = []
    | Inl (TooManyNamed b) \<Rightarrow> b = slug name \<and> list_all (\<lambda>m. look_agent r (id_candidate b m) \<noteq> None) [1..<100]
    | Inl _ \<Rightarrow> False"
  proof (cases ?f)
    case None
    then have "list_all (\<lambda>m. look_agent r (id_candidate (slug name) m) \<noteq> None) [1..<100]"
      unfolding find_None_iff by (auto simp: list_all_iff)
    with None show ?thesis by (simp only: free_id_def Let_def) simp
  next
    case (Some i)
    with some [OF Some] slug_ok [of name] show ?thesis by (simp only: free_id_def Let_def) auto
  qed
  have "look_agent r i = None" if "free_id n r = Inr i" for n i using free_id_minted(2) [OF that] .
  moreover have "\<nexists>n. free_id n r = Inl RosterUnwritten" by (auto simp: free_id_def Let_def split: option.splits)
  ultimately show "case add_agent wrote now rec r of
      (Inr new, r1) \<Rightarrow> look_agent r (rc_id new) = None \<and> look_agent r1 = (look_agent r)(rc_id new \<mapsto> new) \<and>
        ro_file r1 = list_agents r1
    | (Inl RosterUnwritten, r1) \<Rightarrow> \<not> wrote \<and> ro_file r1 = ro_file r
    | (Inl _, r1) \<Rightarrow> r1 = r"
    by (auto simp: add_agent_def Let_def saved_def save_roster_def look_put list_agents_def fun_eq_iff
        split: sum.splits roster_error.splits) (auto simp: look_agent_def update_conv')
qed

section \<open>Restarts\<close>

text \<open>
  A restart finds the same team: a roster loaded from the file a successful write left has the same agents under
  the same ids, lists them in the same order, and is sound again.
\<close>

theorem roster_reopens:
  assumes "roster_ok r" "save_roster True r = (None, r1)"
  shows "\<exists>r2. load_roster (RosterBytes (Some (ro_file r1))) = Inr r2 \<and> look_agent r2 = look_agent r \<and>
    list_agents r2 = list_agents r \<and> roster_ok r2"
proof -
  have f: "ro_file r1 = list_agents r" using assms(2) by (auto simp: save_roster_def)
  have d: "distinct (List.map rc_id (list_agents r))" by (rule list_agents_distinct [OF assms(1)])
  let ?r2 = "\<lparr>ro_by = List.map (\<lambda>rec. (rc_id rec, rec)) (list_agents r), ro_file = ro_file r1\<rparr>"
  have l: "load_roster (RosterBytes (Some (ro_file r1))) = Inr ?r2"
    by (simp add: load_roster_def f reload_rows [OF d])
  have ok: "roster_ok ?r2" using d by (simp add: roster_ok_def keyed_def comp_def list_all_iff)
  have list: "list_agents ?r2 = list_agents r"
    by (simp add: list_agents_def comp_def sort_key_id_if_sorted)
  have "look_agent ?r2 i = look_agent r i" for i
  proof -
    have "look_agent ?r2 i = Some rec \<longleftrightarrow> look_agent r i = Some rec" for rec
      using list_agents_look [OF ok, of rec] list_agents_look [OF assms(1), of rec] ok assms(1)
      unfolding list roster_ok_iff by metis
    then show ?thesis by (metis option.exhaust)
  qed
  with l list ok show ?thesis by (auto simp: fun_eq_iff)
qed

theorem roster_reopens_witness:
  "let r = snd (ensure_boss True 0 boss_id \<lparr>ro_by = [], ro_file = []\<rparr>)
   in \<exists>r2. load_roster (RosterBytes (Some (ro_file r))) = Inr r2 \<and> look_agent r2 = look_agent r"
proof -
  let ?r = "snd (ensure_boss True 0 boss_id \<lparr>ro_by = [], ro_file = []\<rparr>)"
  have "roster_ok ?r" by (simp add: ensure_boss_def look_agent_def roster_ok_def keyed_def)
  moreover have "save_roster True ?r = (None, ?r)"
    by (simp add: ensure_boss_def look_agent_def saved_def save_roster_def list_agents_def)
  ultimately show ?thesis using roster_reopens [of ?r ?r] by (auto simp: Let_def)
qed

text \<open>
  Two agents of one long name: the second's id is thirty-four bytes, not of the shape the ids were
  made to have. And a creation that was reported as failed is there until the next restart.
\<close>

lemma second_id_too_long:
  "free_id (replicate 32 CHR ''a'') \<lparr>ro_by = [(replicate 32 CHR ''a'', rec)], ro_file = []\<rparr> = Inr (replicate 32 CHR ''a'' @ ''-2'') \<and>
   \<not> agent_id_ok (replicate 32 CHR ''a'' @ ''-2'')"
  by code_simp

lemma unsaved_agent_stays:
  assumes "free_id (or_default (rc_name rec) (rc_type rec)) r = Inr i"
  shows "fst (add_agent False now rec r) = Inl RosterUnwritten \<and> look_agent (snd (add_agent False now rec r)) i \<noteq> None"
  using assms by (simp add: add_agent_def Let_def saved_def save_roster_def look_put)

end
