(* ===== verification/FileToolsProps.thy ===== *)
theory FileToolsProps
  imports FileTools RosterProps
begin

text \<open>
  What the file tools promise: a path that is let through lies inside one of the folders it may lie in, element by
  element, although the code compares text; an edit replaces what it says and nothing else; a search
  returns the first results there are, and no more than the cap. And three things they do not do.
\<close>

section \<open>Paths as elements\<close>

definition plain_elem :: "string \<Rightarrow> bool" where
  "plain_elem c \<longleftrightarrow> c \<noteq> [] \<and> CHR ''/'' \<notin> set c \<and> c \<noteq> ''.'' \<and> c \<noteq> ''..''"

lemma split_on_no_sep: "w \<in> set (split_on sep s) \<Longrightarrow> sep \<notin> set w"
  by (induction s arbitrary: w) (auto split: if_splits list.splits)

lemma split_on_join_append:
  "cs \<noteq> [] \<Longrightarrow> \<forall>c \<in> set cs. sep \<notin> set c \<Longrightarrow> split_on sep (join_with [sep] cs @ sep # s) = cs @ split_on sep s"
  by (induction "[sep]" cs rule: join_with.induct) (auto simp: split_on_append)

lemma join_with_append: "cs \<noteq> [] \<Longrightarrow> ds \<noteq> [] \<Longrightarrow> join_with sep (cs @ ds) = join_with sep cs @ sep @ join_with sep ds"
proof (induction sep cs rule: join_with.induct)
  case (2 sep w)
  then show ?case by (cases ds) simp_all
qed simp_all

lemma push_plain:
  assumes "CHR ''/'' \<notin> set c" "\<forall>a \<in> set acc. plain_elem a"
  shows "\<forall>a \<in> set (push_elem True acc c). plain_elem a"
  using assms by (cases acc) (auto simp: push_elem.simps plain_elem_def)

lemma fold_plain:
  "\<forall>c \<in> set cs. CHR ''/'' \<notin> set c \<Longrightarrow> \<forall>a \<in> set acc. plain_elem a \<Longrightarrow> \<forall>a \<in> set (foldl (push_elem True) acc cs). plain_elem a"
proof (induction cs arbitrary: acc)
  case (Cons c cs)
  show ?case using Cons.IH [of "push_elem True acc c"] Cons.prems push_plain [of c acc] by simp
qed simp

lemma path_elems_plain: "is_abs p \<Longrightarrow> \<forall>c \<in> set (path_elems p). plain_elem c"
  using fold_plain [of "split_on CHR ''/'' p" "[]"] split_on_no_sep by (auto simp: path_elems_def)

lemma push_all: "\<forall>c \<in> set cs. plain_elem c \<Longrightarrow> foldl (push_elem r) acc cs = rev cs @ acc"
  by (induction cs arbitrary: acc) (auto simp: push_elem.simps plain_elem_def)

lemma path_elems_render:
  assumes "\<forall>c \<in> set cs. plain_elem c"
  shows "path_elems (render_path True cs) = cs" "is_abs (render_path True cs)"
proof -
  have "split_on CHR ''/'' (render_path True cs) = [] # split_on CHR ''/'' (join_with ''/'' cs)"
    by (simp add: render_path_def)
  moreover have "foldl (push_elem True) [] (split_on CHR ''/'' (join_with ''/'' cs)) = rev cs"
  proof (cases "cs = []")
    case True
    then show ?thesis by (simp add: push_elem.simps)
  next
    case False
    with assms have "split_on CHR ''/'' (join_with ''/'' cs) = cs" by (intro split_join) (auto simp: plain_elem_def)
    with assms show ?thesis by (simp add: push_all)
  qed
  ultimately show "path_elems (render_path True cs) = cs"
    by (simp add: path_elems_def is_abs_def render_path_def push_elem.simps)
  show "is_abs (render_path True cs)" by (simp add: is_abs_def render_path_def)
qed

definition clean_abs :: "string \<Rightarrow> bool" where
  "clean_abs p \<longleftrightarrow> p = render_path True (path_elems p) \<and> (\<forall>c \<in> set (path_elems p). plain_elem c)"

lemma clean_abs_starts: "clean_abs p \<Longrightarrow> is_abs p"
  unfolding clean_abs_def is_abs_def render_path_def by (metis list.distinct(1) list.sel(1))

lemma clean_path_abs: "is_abs p \<Longrightarrow> clean_abs (clean_path p) \<and> path_elems (clean_path p) = path_elems p"
  using path_elems_render [OF path_elems_plain, of p] path_elems_plain [of p]
  by (simp add: clean_abs_def clean_path_def)

lemma clean_path_same: "clean_abs p \<Longrightarrow> clean_path p = p"
proof -
  assume c: "clean_abs p"
  with clean_abs_starts [OF c] show ?thesis by (simp add: clean_path_def clean_abs_def)
qed

lemma join_path_abs: "is_abs a \<Longrightarrow> clean_abs (join_path a b)"
  using clean_path_abs [of a] clean_path_abs [of "a @ ''/'' @ b"] by (auto simp: join_path_def is_abs_def)

lemma abs_path_clean: "abs_path wd p = Some b \<Longrightarrow> (\<And>w. wd = Some w \<Longrightarrow> is_abs w) \<Longrightarrow> clean_abs b"
  by (auto simp: abs_path_def clean_path_abs join_path_abs split: if_splits)

lemma absolute_clean: "absolute wd ws p = Inr full \<Longrightarrow> (\<And>w. wd = Some w \<Longrightarrow> is_abs w) \<Longrightarrow> clean_abs full"
proof -
  assume a: "absolute wd ws p = Inr full" and w: "\<And>w. wd = Some w \<Longrightarrow> is_abs w"
  show ?thesis
  proof (cases "is_abs p")
    case True
    with a show ?thesis by (auto simp: absolute_def clean_path_abs)
  next
    case False
    with a obtain b where b: "abs_path wd ws = Some b" "full = clean_path (join_path b p)"
      by (auto simp: absolute_def split: option.splits)
    have "is_abs b" using abs_path_clean [OF b(1) w] by (rule clean_abs_starts)
    from clean_path_same [OF join_path_abs [OF this]] join_path_abs [OF this] b(2) show ?thesis by simp
  qed
qed

text \<open>The text comparison of \<^verbatim>\<open>under\<close> is the comparison of elements, for a folder other than \<open>/\<close>.\<close>

lemma text_prefix_elems:
  assumes "clean_abs full" "clean_abs base" "path_elems base \<noteq> []"
  shows "full = base \<or> prefix (base @ ''/'') full \<longleftrightarrow> prefix (path_elems base) (path_elems full)"
proof -
  let ?b = "path_elems base" and ?f = "path_elems full"
  have ns: "\<forall>c \<in> set ?b. CHR ''/'' \<notin> set c" "\<forall>c \<in> set ?f. CHR ''/'' \<notin> set c"
    using assms(1,2) by (auto simp: clean_abs_def plain_elem_def)
  have base: "base = CHR ''/'' # join_with ''/'' ?b" and full: "full = CHR ''/'' # join_with ''/'' ?f"
    using assms(1,2) by (auto simp: clean_abs_def render_path_def)
  have "prefix ?b ?f" if p: "prefix (base @ ''/'') full"
  proof -
    obtain rest where r: "full = (base @ ''/'') @ rest" using p unfolding prefix_def by blast
    have "CHR ''/'' # join_with ''/'' ?f = (CHR ''/'' # join_with ''/'' ?b) @ CHR ''/'' # rest"
      using r by (subst (asm) full, subst (asm) base) simp
    then have j: "join_with ''/'' ?f = join_with ''/'' ?b @ CHR ''/'' # rest" by simp
    have "?f \<noteq> []" using j by auto
    then have "?f = split_on CHR ''/'' (join_with ''/'' ?f)" using split_join [of ?f "CHR ''/''"] ns(2) by simp
    also have "\<dots> = ?b @ split_on CHR ''/'' rest" using split_on_join_append [OF assms(3) ns(1), of rest] j by simp
    finally show ?thesis by (metis prefixI)
  qed
  moreover have "full = base \<or> prefix (base @ ''/'') full" if p: "prefix ?b ?f"
  proof -
    obtain es where es: "?f = ?b @ es" using p by (auto simp: prefix_def)
    show ?thesis
    proof (cases "es = []")
      case True
      with es base full show ?thesis by simp
    next
      case False
      then have "join_with ''/'' ?f = join_with ''/'' ?b @ ''/'' @ join_with ''/'' es"
        using join_with_append [OF assms(3) False] es by simp
      then have "full = (base @ ''/'') @ join_with ''/'' es" using base full by (metis append_Cons append_assoc)
      then show ?thesis by (metis prefixI)
    qed
  qed
  ultimately show ?thesis by auto
qed

text \<open>
  C31. Comparing texts decides what lies inside what: for clean absolute paths, and a folder other than the root of the
  disk, \<open>under\<close> answers whether the elements of the folder begin those of the path. A sibling whose name
  merely starts like the folder's is not inside it.
\<close>

theorem under_refines_elements:
  assumes "clean_abs full" "abs_path wd dir = Some base" "\<And>w. wd = Some w \<Longrightarrow> is_abs w" "dir \<noteq> []" "path_elems base \<noteq> []"
  shows "under wd full [dir] = prefix (path_elems base) (path_elems full)"
  using text_prefix_elems [OF assms(1) abs_path_clean [OF assms(2,3)] assms(5)] assms(2,4)
  by (simp add: under_def under_root_def)

theorem under_refines_elements_witness:
  "under None ''/work/a'' [''/work''] \<and> \<not> under None ''/work-old/a'' [''/work'']"
proof -
  have "clean_abs ''/work/a''" "clean_abs ''/work-old/a''" "abs_path None ''/work'' = Some ''/work''" "path_elems ''/work'' \<noteq> []"
    "prefix (path_elems ''/work'') (path_elems ''/work/a'')" "\<not> prefix (path_elems ''/work'') (path_elems ''/work-old/a'')"
    by code_simp+
  with under_refines_elements [of "''/work/a''" None "''/work''" "''/work''"]
    under_refines_elements [of "''/work-old/a''" None "''/work''" "''/work''"]
  show ?thesis by simp
qed

lemma under_inside:
  assumes "under wd full dirs" "clean_abs full" "\<And>w. wd = Some w \<Longrightarrow> is_abs w"
  shows "\<exists>d base. d \<in> set dirs \<and> d \<noteq> [] \<and> abs_path wd d = Some base \<and> prefix (path_elems base) (path_elems full)"
proof -
  obtain d base where d: "d \<in> set dirs" "d \<noteq> []" "abs_path wd d = Some base" "full = base \<or> prefix (base @ ''/'') full"
    using assms(1) by (auto simp: under_def under_root_def list_ex_iff split: if_splits option.splits)
  have "prefix (path_elems base) (path_elems full)"
    using text_prefix_elems [OF assms(2) abs_path_clean [OF d(3) assms(3)]] d(4) by (cases "path_elems base = []") auto
  with d show ?thesis by blast
qed



section \<open>Edits\<close>

lemma scan_skip: "count_from sub k s = count_from sub 0 (drop k s)" "replace_from sub new k s = replace_from sub new 0 (drop k s)"
proof (induction s arbitrary: k)
  case (Cons c cs)
  { case 1 show ?case using Cons(1) [of "k - 1"] by (cases k) simp_all }
  { case 2 show ?case using Cons(2) [of "k - 1"] by (cases k) simp_all }
qed simp_all

lemma join_with_Cons: "ps \<noteq> [] \<Longrightarrow> join_with sep (p # ps) = p @ sep @ join_with sep ps"
  by (cases ps) simp_all

lemma join_with_grow: "join_with sep ((c # p) # ps) = c # join_with sep (p # ps)"
  by (cases ps) simp_all

lemma contains_cons: "contains_str (c # p) sub \<longleftrightarrow> prefix sub (c # p) \<or> contains_str p sub"
  by (simp add: contains_str_def sublist_Cons_right)

text \<open>A text taken apart where the scan finds the other, and put together again with the new one.\<close>

lemma scan_pieces:
  assumes "sub \<noteq> []"
  shows "\<exists>ps. length ps = count_from sub 0 s + 1 \<and> s = join_with sub ps \<and> replace_from sub new 0 s = join_with new ps \<and>
    (\<forall>p \<in> set ps. \<not> contains_str p sub)"
proof (induction s rule: length_induct)
  case (1 s)
  show ?case
  proof (cases s)
    case Nil
    with assms show ?thesis by (intro exI [of _ "[[]]"]) (simp add: contains_str_def)
  next
    case (Cons c cs)
    show ?thesis
    proof (cases "prefix sub s")
      case True
      then obtain t where t: "s = sub @ t" by (auto simp: prefix_def)
      have d: "drop (length sub - 1) cs = t" using t Cons assms by (cases sub) auto
      have "length t < length s" using t assms by (cases sub) auto
      from 1 [rule_format, OF this] obtain ps where ps: "length ps = count_from sub 0 t + 1" "t = join_with sub ps"
        "replace_from sub new 0 t = join_with new ps" "\<forall>p \<in> set ps. \<not> contains_str p sub" by blast
      then have ne: "ps \<noteq> []" by auto
      have "count_from sub 0 s = Suc (count_from sub 0 t)" "replace_from sub new 0 s = new @ replace_from sub new 0 t"
        using True Cons scan_skip [where k = "length sub - 1" and s = cs] d by simp_all
      with ps ne t assms show ?thesis
        by (intro exI [of _ "[] # ps"]) (simp add: join_with_Cons contains_str_def)
    next
      case False
      have "length cs < length s" using Cons by simp
      from 1 [rule_format, OF this] obtain ps where ps: "length ps = count_from sub 0 cs + 1" "cs = join_with sub ps"
        "replace_from sub new 0 cs = join_with new ps" "\<forall>p \<in> set ps. \<not> contains_str p sub" by blast
      then obtain p qs where q: "ps = p # qs" by (cases ps) auto
      have "s = join_with sub ((c # p) # qs)" using ps(2) Cons q by (simp add: join_with_grow)
      moreover have "\<not> prefix sub (c # p)"
      proof
        assume "prefix sub (c # p)"
        moreover have "prefix (c # p) s" using ps(2) Cons q by (cases qs) auto
        ultimately show False using False by (blast intro: prefix_order.trans)
      qed
      ultimately show ?thesis using ps False Cons q
        by (intro exI [of _ "(c # p) # qs"]) (simp add: join_with_grow contains_cons)
    qed
  qed
qed

text \<open>
  An edit replaces what it says it replaced. When it reports \<open>n\<close> replacements, the file was \<open>n + 1\<close> pieces
  that do not hold the old text, joined by it, and is now the same pieces joined by the new text; without
  \<open>replace_all\<close> there was one; no other file has changed. Any other answer has changed nothing.
\<close>

theorem edit_exact:
  assumes "ei_old e \<noteq> []"
  shows "case apply_edit wrote full e s of
      (EditDone n, u) \<Rightarrow>
        (\<exists>ps. length ps = n + 1 \<and> map_of (fs_files s) full = Some (join_with (ei_old e) ps) \<and>
           map_of (fs_files u) full = Some (join_with (ei_new e) ps) \<and> (\<forall>p \<in> set ps. \<not> contains_str p (ei_old e))) \<and>
        (\<forall>f. f \<noteq> full \<longrightarrow> map_of (fs_files u) f = map_of (fs_files s) f) \<and> (ei_all e \<or> n = 1)
    | (_, u) \<Rightarrow> u = s"
proof (cases "map_of (fs_files s) full")
  case (Some body)
  obtain ps where ps: "length ps = count_str body (ei_old e) + 1" "body = join_with (ei_old e) ps"
    "replace_str body (ei_old e) (ei_new e) = join_with (ei_new e) ps" "\<forall>p \<in> set ps. \<not> contains_str p (ei_old e)"
    using scan_pieces [OF assms, of body "ei_new e"] assms by (auto simp: count_str_def replace_str_def)
  let ?n = "count_str body (ei_old e)"
  consider "?n = 0" | "?n > 1" "\<not> ei_all e" | "?n > 0" "ei_all e \<or> ?n = 1" by linarith
  then show ?thesis
  proof cases
    case 3
    then have n: "?n \<noteq> 0" "\<not> (?n > 1 \<and> \<not> ei_all e)" by auto
    show ?thesis
    proof (cases wrote)
      case True
      with n Some have "apply_edit wrote full e s =
          (EditDone ?n, s\<lparr>fs_files := AList.update full (join_with (ei_new e) ps) (fs_files s)\<rparr>)"
        unfolding apply_edit_def by (simp only: option.case Let_def if_False if_True ps(3) simp_thms)
      moreover have "\<exists>ps'. length ps' = ?n + 1 \<and> map_of (fs_files s) full = Some (join_with (ei_old e) ps') \<and>
          Some (join_with (ei_new e) ps) = Some (join_with (ei_new e) ps') \<and> (\<forall>p \<in> set ps'. \<not> contains_str p (ei_old e))"
        using ps Some by (intro exI [of _ ps]) simp
      ultimately show ?thesis using 3 by (simp add: update_conv')
    next
      case False
      with n Some show ?thesis by (simp add: apply_edit_def Let_def)
    qed
  qed (use Some in \<open>simp_all add: apply_edit_def Let_def\<close>)
qed (simp add: apply_edit_def)

theorem edit_exact_witness:
  "let e = \<lparr>ei_path = ''/w/f'', ei_old = ''ab'', ei_new = ''x'', ei_all = True\<rparr>;
       s = \<lparr>fs_files = [(''/w/f'', ''1ab2ab'')], fs_stale = False\<rparr> in
   \<exists>u. apply_edit True ''/w/f'' e s = (EditDone 2, u) \<and> (\<exists>ps. length ps = 3 \<and> map_of (fs_files u) ''/w/f'' = Some (join_with ''x'' ps))"
proof -
  let ?e = "\<lparr>ei_path = ''/w/f'', ei_old = ''ab'', ei_new = ''x'', ei_all = True\<rparr>"
  let ?s = "\<lparr>fs_files = [(''/w/f'', ''1ab2ab'')], fs_stale = False\<rparr>"
  let ?u = "\<lparr>fs_files = [(''/w/f'', ''1x2x'')], fs_stale = False\<rparr>"
  have d: "apply_edit True ''/w/f'' ?e ?s = (EditDone 2, ?u)" by code_simp
  have "ei_old ?e \<noteq> []" by simp
  from edit_exact [OF this, where wrote = True and full = "''/w/f''" and s = ?s] d show ?thesis
    by (auto simp: Let_def numeral_3_eq_3 numeral_2_eq_2)
qed

text \<open>
  The count does not see occurrences that overlap: a text that stands at two places counts once, and the edit
  the tool promises to refuse changes the first of them.
\<close>

lemma overlap_edited:
  "apply_edit True ''f'' \<lparr>ei_path = ''f'', ei_old = ''aa'', ei_new = ''b'', ei_all = False\<rparr> \<lparr>fs_files = [(''f'', ''aaa'')], fs_stale = False\<rparr>
     = (EditDone 1, \<lparr>fs_files = [(''f'', ''ba'')], fs_stale = False\<rparr>)"
  by code_simp

section \<open>Searches\<close>

text \<open>Everything there is to find in a file.\<close>

definition lines_found :: "(string \<Rightarrow> bool) \<Rightarrow> string \<Rightarrow> nat \<Rightarrow> string list \<Rightarrow> string list" where
  "lines_found re rel n ls =
     List.map (\<lambda>(k, l). rel @ '':'' @ dec k @ '': '' @ trim_with is_space l)
       (filter (\<lambda>(k, l). re l) (zip [n..<n + length ls] ls))"

definition file_hits :: "(string \<Rightarrow> bool) \<Rightarrow> string \<Rightarrow> string \<times> string option \<Rightarrow> string list" where
  "file_hits re base f =
     (case snd f of
        Some body \<Rightarrow> if int (length body) > read_cap then [] else lines_found re (rel_to base (fst f)) 1 (split_on newline body)
      | None \<Rightarrow> [])"

lemma match_lines_take: "match_lines re rel n limit ls = take limit (lines_found re rel n ls)"
proof (induction ls arbitrary: n limit)
  case (Cons l ls)
  have u: "[n..<n + length (l # ls)] = n # [Suc n..<Suc n + length ls]" by (subst upt_conv_Cons) (simp_all del: upt_Suc)
  have "lines_found re rel n (l # ls) =
      (if re l then [rel @ '':'' @ dec n @ '': '' @ trim_with is_space l] else []) @ lines_found re rel (Suc n) ls"
    unfolding lines_found_def u by simp
  with Cons.IH show ?case by (cases limit) simp_all
qed (simp add: lines_found_def)

lemma grep_file_take: "grep_file re base limit f = take limit (file_hits re base f)"
  by (auto simp: grep_file_def file_hits_def match_lines_take split: option.splits)

text \<open>
  A search returns the first two hundred of all the lines there are to find, in the order of the walk, each with its file and
  its line number, and never more; files too large to read have none.
\<close>

theorem grep_first_hits:
  assumes "length hits \<le> match_cap"
  shows "grep_files re base hits fs = take match_cap (hits @ List.concat (List.map (file_hits re base) fs))"
  using assms
proof (induction fs arbitrary: hits)
  case (Cons f fs)
  show ?case
  proof (cases "length hits \<ge> match_cap")
    case True
    with Cons show ?thesis by simp
  next
    case False
    let ?h = "hits @ take (match_cap - length hits) (file_hits re base f)"
    have "length ?h \<le> match_cap" using False by simp
    from Cons.IH [OF this] False show ?thesis
      by (cases "length (file_hits re base f) \<le> match_cap - length hits") (simp_all add: grep_file_take)
  qed
qed simp

theorem grep_first_hits_witness:
  "grep_files (\<lambda>l. l = ''b'') ''/w'' [] [(''/w/x'', Some [CHR ''a'', newline, CHR ''b'']), (''/w/y'', Some ''b'')]
     = [''x:2: b'', ''y:1: b'']"
proof -
  let ?fs = "[(''/w/x'', Some [CHR ''a'', newline, CHR ''b'']), (''/w/y'', Some ''b'')]"
  have "take match_cap ([] @ List.concat (List.map (file_hits (\<lambda>l. l = ''b'') ''/w'') ?fs)) = [''x:2: b'', ''y:1: b'']" by code_simp
  with grep_first_hits [of "[]" "\<lambda>l. l = ''b''" "''/w''" ?fs] show ?thesis by simp
qed

section \<open>Globs\<close>

lemma continues_no_slash: "continues c \<Longrightarrow> c \<noteq> CHR ''/''"
  by (auto simp: continues_def)

lemma byte_text_slashes: "count_list (byte_text c) CHR ''/'' = (if c = CHR ''/'' then 1 else 0)"
proof (cases "(of_char c :: nat) < 128")
  case True
  then show ?thesis by (simp add: byte_text_def)
next
  case False
  have "(of_char c :: nat) mod 256 < 256" by simp
  then have "(of_char c :: nat) < 256" by simp
  have less_256: "192 + (of_char c :: nat) div 64 < 256" using \<open>of_char c < 256\<close> less_mult_imp_div_less [of "of_char c" 4 64] by simp
  have "char_of (192 + of_char c div 64 :: nat) \<noteq> CHR ''/''" "char_of (128 + of_char c mod 64 :: nat) \<noteq> CHR ''/''"
  proof -
    have "of_char (char_of (192 + of_char c div 64 :: nat)) = (192 + of_char c div 64 :: nat)"
      "of_char (char_of (128 + of_char c mod 64 :: nat)) = (128 + of_char c mod 64 :: nat)"
      using less_256 by (simp_all add: of_char_of)
    then show "char_of (192 + of_char c div 64 :: nat) \<noteq> CHR ''/''" "char_of (128 + of_char c mod 64 :: nat) \<noteq> CHR ''/''"
      by (auto simp del: of_char_of dest: arg_cong [where f = "of_char :: char \<Rightarrow> nat"])
  qed
  moreover have "c \<noteq> CHR ''/''" using False by auto
  ultimately show ?thesis using False by (simp add: byte_text_def Let_def)
qed

lemma drop_rune_slashes: "s \<noteq> [] \<Longrightarrow> hd s \<noteq> CHR ''/'' \<Longrightarrow> count_list (drop_rune s) CHR ''/'' = count_list s CHR ''/''"
proof (cases s)
  case (Cons c cs)
  have "count_list (dropWhile continues cs) CHR ''/'' = count_list cs CHR ''/''"
    by (induction cs) (auto dest: continues_no_slash)
  moreover assume "hd s \<noteq> CHR ''/''"
  ultimately show ?thesis using Cons by simp
qed simp

lemma glob_depth: "glob_match ts s \<Longrightarrow> GDeep \<notin> set ts \<Longrightarrow> count_list s CHR ''/'' = count_list ts (GByte CHR ''/'')"
proof (induction ts s rule: glob_match.induct)
  case (2 c ts s)
  then obtain u where "s = byte_text c @ u" by (auto simp: prefix_def)
  with 2 byte_text_slashes [of c] show ?case by auto
next
  case (3 ts s)
  then show ?case by (auto simp: drop_rune_slashes split: if_splits)
next
  case (4 ts s)
  then show ?case by (auto simp: glob_match.simps(4) [of ts s] drop_rune_slashes split: if_splits)
qed simp_all

text \<open>A letter with an accent, two bytes of UTF-8, does not match itself.\<close>

lemma accent_unmatched: "\<not> glob_ok [CHR 0xC3, CHR 0xA9] [CHR 0xC3, CHR 0xA9]"
  by code_simp

text \<open>A search asked to look in a dot folder finds nothing in it.\<close>

lemma dot_folder_unsearched: "walk ''/w/.config'' ''.config'' (Folder [(''f'', File (Some ''x''))]) = []"
  by code_simp

end
