(* ===== verification/GuestWireProps.thy ===== *)
theory GuestWireProps
  imports GuestWire FileToolsProps
begin

text \<open>
  What the hop promises: every request the host's client makes lands on the handler it is meant for, with the names
  it carries and the place to resume from, and none of them purges.
\<close>

lemmas asks_defs = asks_for_def events_request_def shot_request_def attachment_request_def stream_request_def

section \<open>Escapes\<close>

lemma pct_digits: "list_all (\<lambda>n. pct_digit (digit_char n) = Some n \<and> is_alnum (digit_char n)) [0..<16]"
  by code_simp

lemma pct_digit_char: "n < 16 \<Longrightarrow> pct_digit (digit_char n) = Some n"
  and digit_hex_alnum: "n < 16 \<Longrightarrow> is_alnum (digit_char n)"
  using pct_digits by (simp_all add: list_all_iff)

lemma char_halves: "char_of (16 * ((of_char c :: nat) div 16) + (of_char c :: nat) mod 16) = c"
  by simp

lemma half_digit: "(of_char c :: nat) div 16 < 16"
  using nat_of_char_less_256 [of c] by linarith

lemma unescape_escape: "url_unescape False (path_escape s) = Some s"
proof (induction s)
  case (Cons c s)
  have "CHR ''%'' \<notin> set ''-_.~$&+:=@''" "\<not> is_alnum CHR ''%''" by (simp_all add: is_alnum_def is_digit_def Let_def)
  with Cons show ?case
    by (auto simp: path_escape_def Let_def pct_digit_char half_digit)
qed (simp add: path_escape_def)

lemma escape_plain: "c \<in> set (path_escape s) \<Longrightarrow> is_alnum c \<or> c \<in> set ''-_.~$&+:=@%''"
  by (auto simp: path_escape_def Let_def digit_hex_alnum half_digit split: if_splits)

lemma escape_same: "\<forall>c \<in> set s. is_alnum c \<or> c \<in> set ''-_.~$&+:=@'' \<Longrightarrow> path_escape s = s"
  by (induction s) (auto simp: path_escape_def)

text \<open>A name made only of what agent, approval and schedule ids are made of; and any name a file can have.\<close>

definition plain_name :: "string \<Rightarrow> bool" where
  "plain_name s \<longleftrightarrow> s \<notin> {[], ''.'', ''..''} \<and> (\<forall>c \<in> set s. is_alnum c \<or> c \<in> set ''-_.'')"

definition file_name :: "string \<Rightarrow> bool" where
  "file_name s \<longleftrightarrow> s \<notin> {[], ''.'', ''..'', ''/''}"

lemma plain_is_file: "plain_name s \<Longrightarrow> file_name s"
  by (auto simp: plain_name_def file_name_def is_alnum_def is_digit_def Let_def)

lemma plain_escape: "plain_name s \<Longrightarrow> path_escape s = s"
  by (intro escape_same) (auto simp: plain_name_def)

lemma escape_seg:
  assumes "file_name s"
  shows "plain_elem (path_escape s)" "CHR ''?'' \<notin> set (path_escape s)"
proof -
  have ne: "path_escape s \<noteq> []" "path_escape s \<noteq> ''.''" "path_escape s \<noteq> ''..''"
    using assms unescape_escape [of s] by (auto simp: file_name_def)
  have "c \<notin> set (path_escape s)" if "c \<in> {CHR ''/'', CHR ''?''}" for c
    using escape_plain [of c s] that by (auto simp: is_alnum_def is_digit_def Let_def)
  with ne show "plain_elem (path_escape s)" "CHR ''?'' \<notin> set (path_escape s)" by (auto simp: plain_elem_def)
qed

section \<open>Where a request lands\<close>

lemma join_last: "ws \<noteq> [] \<Longrightarrow> \<forall>w \<in> set ws. plain_elem w \<Longrightarrow> join_with ''/'' ws \<noteq> [] \<and> List.last (join_with ''/'' ws) \<noteq> CHR ''/''"
proof (induction "''/''" ws rule: join_with.induct)
  case (2 w)
  then show ?case by (metis join_with.simps(2) last_in_set list.set_intros(1) plain_elem_def)
next
  case (3 w v ws)
  then show ?case by (simp add: plain_elem_def)
qed simp

lemma mux_clean_segs:
  assumes "ws \<noteq> []" "\<forall>w \<in> set ws. plain_elem w"
  shows "mux_clean (render_path True ws) = render_path True ws"
proof -
  have "clean_abs (render_path True ws)"
    using path_elems_render [OF assms(2)] assms(2) by (simp add: clean_abs_def)
  then have "clean_path (render_path True ws) = render_path True ws" by (rule clean_path_same)
  moreover have "List.last (render_path True ws) \<noteq> CHR ''/''" "render_path True ws \<noteq> []"
    using join_last [OF assms] by (simp_all add: render_path_def)
  ultimately show ?thesis by (simp add: mux_clean_def Let_def render_path_def)
qed

lemma path_segs_render:
  assumes "ws \<noteq> []" "\<forall>w \<in> set ws. plain_elem w" "list_all2 (\<lambda>w v. url_unescape False w = Some v) ws vs"
  shows "path_segs (render_path True ws) = vs"
proof -
  have "split_on CHR ''/'' (join_with ''/'' ws) = ws"
    using assms(1,2) by (intro split_join) (auto simp: plain_elem_def)
  then have "path_segs (render_path True ws) = List.map (\<lambda>w. the (url_unescape False w)) ws"
    using assms(2,3) by (auto simp: path_segs_def render_path_def plain_elem_def list_all2_conv_all_nth in_set_conv_nth split: option.splits)
  also have "\<dots> = vs" using assms(3) by (simp add: list_all2_conv_all_nth list_eq_iff_nth_eq)
  finally show ?thesis .
qed

lemma route_segs:
  assumes "ws \<noteq> []" "\<forall>w \<in> set ws. plain_elem w" "list_all2 (\<lambda>w v. url_unescape False w = Some v) ws vs"
  shows "route_guest verb (render_path True ws) =
    (let fits = List.map_filter (\<lambda>(v, ps, h). map_option (\<lambda>ws. (v, h, ws)) (match_segs ps vs)) guest_routes in
        case List.find (\<lambda>(v, h, ws). v = verb \<or> (verb = ''HEAD'' \<and> v = ''GET'')) fits of
          Some (v, h, ws) \<Rightarrow> MuxCalls h ws
        | None \<Rightarrow> MuxStatus (if fits = [] then 404 else 405))"
  using mux_clean_segs [OF assms(1,2)] path_segs_render [OF assms] by (simp add: route_guest_def)

fun lands_on :: "guest_call \<Rightarrow> guest_handler \<times> string list" where
  "lands_on GcHealth = (GhHealth, [])"
| "lands_on GcUsage = (GhUsage, [])"
| "lands_on GcAgentUsage = (GhAgentUsage, [])"
| "lands_on GcAgents = (GhList, [])"
| "lands_on GcAgentTypes = (GhTypes, [])"
| "lands_on (GcEventsSince i n) = (GhEvents, [i])"
| "lands_on (GcSendMessage i key) = (GhMessage, [i])"
| "lands_on (GcPostMessage i) = (GhMessage, [i])"
| "lands_on GcCreateAgent = (GhCreate, [])"
| "lands_on (GcUpdateAgent i) = (GhUpdate, [i])"
| "lands_on (GcDeleteAgent i) = (GhDelete, [i])"
| "lands_on GcPending = (GhPending, [])"
| "lands_on (GcResolve i) = (GhResolve, [i])"
| "lands_on (GcInterrupt i) = (GhInterrupt, [i])"
| "lands_on GcPerson = (GhGetPerson, [])"
| "lands_on GcSetPerson = (GhPutPerson, [])"
| "lands_on GcSetApps = (GhPutApps, [])"
| "lands_on GcSchedules = (GhListSchedules, [])"
| "lands_on (GcDeleteSchedule i) = (GhDeleteSchedule, [i])"
| "lands_on GcUpload = (GhUpload, [])"
| "lands_on (GcShot i n) = (GhShot, [i, n])"
| "lands_on (GcAttachment i n) = (GhAttachment, [i, n])"
| "lands_on (GcStream i n) = (GhEvents, [i])"
| "lands_on GcStreamPending = (GhPendingEvents, [])"

text \<open>Agent, approval and schedule ids are plain; a file may have any name; a place to resume from is the id of an event.\<close>

fun sane_call :: "guest_call \<Rightarrow> bool" where
  "sane_call (GcEventsSince i n) \<longleftrightarrow> plain_name i \<and> 0 \<le> n \<and> n < 2 ^ 63"
| "sane_call (GcStream i n) \<longleftrightarrow> plain_name i \<and> 0 \<le> n \<and> n < 2 ^ 63"
| "sane_call (GcShot i n) \<longleftrightarrow> plain_name i \<and> file_name n"
| "sane_call (GcAttachment i n) \<longleftrightarrow> file_name i \<and> file_name n"
| "sane_call (GcSendMessage i key) \<longleftrightarrow> plain_name i"
| "sane_call (GcPostMessage i) \<longleftrightarrow> plain_name i"
| "sane_call (GcUpdateAgent i) \<longleftrightarrow> plain_name i"
| "sane_call (GcDeleteAgent i) \<longleftrightarrow> plain_name i"
| "sane_call (GcResolve i) \<longleftrightarrow> plain_name i"
| "sane_call (GcInterrupt i) \<longleftrightarrow> plain_name i"
| "sane_call (GcDeleteSchedule i) \<longleftrightarrow> plain_name i"
| "sane_call _ \<longleftrightarrow> True"

lemma plain_seg:
  assumes "plain_name i"
  shows "plain_elem i" "url_unescape False i = Some i" "CHR ''?'' \<notin> set i" "i \<noteq> ''/''"
  using escape_seg [OF plain_is_file [OF assms]] unescape_escape [of i] plain_escape [OF assms] plain_is_file [OF assms]
  by (simp_all add: file_name_def)

lemma target_path_stop: "CHR ''?'' \<notin> set p \<Longrightarrow> target_path (p @ CHR ''?'' # q) = p \<and> target_path p = p"
  by (induction p) (auto simp: target_path_def)

lemmas route_eval = guest_routes_def map_filter_simps Let_def render_path_def

lemma plain_lits:
  "\<forall>w \<in> {''agents'', ''messages'', ''interrupt'', ''events'', ''shots'', ''outbox'', ''approvals'', ''schedules''}.
     plain_elem w \<and> url_unescape False w = Some w"
  by (simp add: plain_elem_def)

lemma lands_id:
  assumes "plain_elem w" "url_unescape False w = Some i" "i \<noteq> ''/''"
  shows "route_guest ''PATCH'' (''/agents/'' @ w) = MuxCalls GhUpdate [i]"
    "route_guest ''DELETE'' (''/agents/'' @ w) = MuxCalls GhDelete [i]"
    "route_guest ''POST'' (''/approvals/'' @ w) = MuxCalls GhResolve [i]"
    "route_guest ''DELETE'' (''/schedules/'' @ w) = MuxCalls GhDeleteSchedule [i]"
  using assms plain_lits route_segs [of "[''agents'', w]" "[''agents'', i]"] route_segs [of "[''approvals'', w]" "[''approvals'', i]"]
    route_segs [of "[''schedules'', w]" "[''schedules'', i]"]
  by (simp_all add: route_eval)

lemma lands_under_agent:
  assumes "plain_elem w" "url_unescape False w = Some i" "i \<noteq> ''/''"
  shows "route_guest ''POST'' (''/agents/'' @ w @ ''/messages'') = MuxCalls GhMessage [i]"
    "route_guest ''POST'' (''/agents/'' @ w @ ''/interrupt'') = MuxCalls GhInterrupt [i]"
    "route_guest ''GET'' (''/agents/'' @ w @ ''/events'') = MuxCalls GhEvents [i]"
  using assms plain_lits route_segs [of "[''agents'', w, ''messages'']" "[''agents'', i, ''messages'']"]
    route_segs [of "[''agents'', w, ''interrupt'']" "[''agents'', i, ''interrupt'']"]
    route_segs [of "[''agents'', w, ''events'']" "[''agents'', i, ''events'']"]
  by (simp_all add: route_eval)

lemma lands_on_file:
  assumes "plain_elem w" "url_unescape False w = Some i" "i \<noteq> ''/''" "plain_elem u" "url_unescape False u = Some n" "n \<noteq> ''/''"
  shows "route_guest ''GET'' (''/agents/'' @ w @ ''/shots/'' @ u) = MuxCalls GhShot [i, n]"
    "route_guest ''GET'' (''/agents/'' @ w @ ''/outbox/'' @ u) = MuxCalls GhAttachment [i, n]"
  using assms plain_lits route_segs [of "[''agents'', w, ''shots'', u]" "[''agents'', i, ''shots'', n]"]
    route_segs [of "[''agents'', w, ''outbox'', u]" "[''agents'', i, ''outbox'', n]"]
  by (simp_all add: route_eval)

text \<open>Numbers survive the query and the header.\<close>

lemma atoi_show: "0 \<le> n \<Longrightarrow> n < 2 ^ 63 \<Longrightarrow> atoi (show_int n) = Some n"
proof -
  assume n: "0 \<le> n" "n < 2 ^ 63"
  have "is_digit (hd (dec (nat n)))" by (rule dec_digits [OF hd_in_set [OF dec_not_Nil]])
  then have "hd (dec (nat n)) \<noteq> CHR ''-''" "hd (dec (nat n)) \<noteq> CHR ''+''" by (auto simp: is_digit_def)
  moreover have "list_all is_digit (dec (nat n))" by (simp add: list_all_iff dec_digits)
  ultimately show ?thesis using n by (simp add: show_int_def atoi_def atoi_clamped_def Let_def num_of_of_dec)
qed

lemma atoi_nil: "atoi [] = None"
  by (simp add: atoi_def atoi_clamped_def)

lemma digits_plain:
  assumes "\<forall>c \<in> set s. is_digit c"
  shows "url_unescape True s = Some s" "CHR '';'' \<notin> set s" "CHR ''&'' \<notin> set s" "CHR ''='' \<notin> set s"
  using assms by (induction s) (auto simp: is_digit_def)

lemma since_fields:
  assumes "0 \<le> n" "CHR ''?'' \<notin> set p"
  shows "query_fields (p @ ''?poll=1&since='' @ show_int n) = [(''poll'', ''1''), (''since'', show_int n)]"
proof -
  have s: "\<forall>c \<in> set (show_int n). is_digit c" using assms(1) by (auto simp: show_int_def dec_digits)
  have "dropWhile (\<lambda>c. c \<noteq> CHR ''?'') (p @ ''?poll=1&since='' @ show_int n) = ''?poll=1&since='' @ show_int n"
    using assms(2) by (induction p) auto
  moreover have "split_on CHR ''&'' (''poll=1&since='' @ show_int n) = [''poll=1'', ''since='' @ show_int n]"
    using digits_plain(3) [OF s] split_on_append [of "CHR ''&''" "''poll=1''" "''since='' @ show_int n"]
    by (simp add: split_on_plain)
  ultimately show ?thesis
    using digits_plain [OF s] by (simp add: query_fields_def map_filter_simps)
qed

lemma no_fields: "CHR ''?'' \<notin> set p \<Longrightarrow> query_fields p = []"
proof -
  assume "CHR ''?'' \<notin> set p"
  then have "dropWhile (\<lambda>c. c \<noteq> CHR ''?'') p = []" by (induction p) auto
  then show ?thesis by (simp only: query_fields_def drop_Nil split_on.simps map_filter_simps) simp
qed

definition lands :: "wire_call \<Rightarrow> guest_handler \<times> string list \<Rightarrow> bool" where
  "lands r hv \<longleftrightarrow> route_guest (gr_method r) (target_path (gr_target r)) = MuxCalls (fst hv) (snd hv) \<and>
     query_get (gr_target r) ''purge'' \<noteq> ''true''"

lemma landsI:
  assumes "gr_target r = p" "gr_method r = m" "CHR ''?'' \<notin> set p" "route_guest m p = MuxCalls h vs"
  shows "lands r (h, vs)"
  using assms target_path_stop [of p] by (simp add: lands_def query_get_def no_fields)

lemma bare_calls_land:
  "\<forall>c \<in> {GcHealth, GcUsage, GcAgentUsage, GcAgents, GcAgentTypes, GcCreateAgent, GcPending, GcPerson, GcSetPerson, GcSetApps,
      GcSchedules, GcUpload, GcStreamPending}. lands (request_for c) (lands_on c)"
  unfolding ball_simps lands_def by (intro conjI ballI TrueI; code_simp)

lemma no_mark: "CHR ''?'' \<notin> set i \<Longrightarrow> CHR ''?'' \<notin> set (''/agents/'' @ i @ w) \<longleftrightarrow> CHR ''?'' \<notin> set w"
  by simp

lemma poll_lands:
  assumes "plain_name i" "0 \<le> n"
  shows "lands (request_for (GcEventsSince i n)) (GhEvents, [i])"
proof -
  let ?p = "''/agents/'' @ i @ ''/events''"
  have m: "CHR ''?'' \<notin> set ?p" using plain_seg [OF assms(1)] by simp
  have t: "gr_target (request_for (GcEventsSince i n)) = ?p @ ''?poll=1&since='' @ show_int n" by (simp add: asks_defs)
  have "target_path (?p @ ''?poll=1&since='' @ show_int n) = ?p"
    using target_path_stop [OF m, of "''poll=1&since='' @ show_int n"] by simp
  with t show ?thesis
    using lands_under_agent(3) [of i i] plain_seg [OF assms(1)] since_fields [OF assms(2) m]
    by (simp add: lands_def query_get_def asks_defs)
qed

lemma named_calls_land:
  assumes "plain_name i"
  shows "lands (request_for (GcSendMessage i key)) (GhMessage, [i])" "lands (request_for (GcPostMessage i)) (GhMessage, [i])"
    "lands (request_for (GcUpdateAgent i)) (GhUpdate, [i])" "lands (request_for (GcDeleteAgent i)) (GhDelete, [i])"
    "lands (request_for (GcResolve i)) (GhResolve, [i])" "lands (request_for (GcInterrupt i)) (GhInterrupt, [i])"
    "lands (request_for (GcDeleteSchedule i)) (GhDeleteSchedule, [i])" "lands (request_for (GcStream i n)) (GhEvents, [i])"
  using plain_seg [OF assms] lands_id [of i i] lands_under_agent [of i i]
  by (auto intro!: landsI [OF refl refl] simp: asks_defs)

lemma file_calls_land:
  assumes "file_name n"
  shows "plain_name i \<Longrightarrow> lands (request_for (GcShot i n)) (GhShot, [i, n])"
    and "file_name i \<Longrightarrow> lands (request_for (GcAttachment i n)) (GhAttachment, [i, n])"
  using escape_seg [OF assms] unescape_escape [of n] assms plain_seg [of i] escape_seg [of i] unescape_escape [of i]
    lands_on_file(1) [of i i "path_escape n" n] lands_on_file(2) [of "path_escape i" i "path_escape n" n]
  by (auto intro!: landsI [OF refl refl] simp: asks_defs file_name_def)

lemma call_lands: "sane_call c \<Longrightarrow> lands (request_for c) (lands_on c)"
  using bare_calls_land
  by (cases c) (auto simp del: request_for.simps simp: named_calls_land file_calls_land poll_lands)



end
