(* ===== verification/AppsCatalogProps.thy ===== *)
theory AppsCatalogProps
  imports AppsCatalog GuestWireProps
begin

text \<open>
  What the directory and the provider's client promise: a walk over an honest chain of pages is the pages up to its bound, a cursor is
  read back as the place it was written for, so following cursors shows every matching app once and in order; a row's connection is the
  person's own and works if any does; a link is minted only for an app on offer and against that app's own configuration.
\<close>

section \<open>Walking pages\<close>

text \<open>The pages a provider answers a walk with, up to the one that names no next.\<close>

fun pages_from :: "(nat \<Rightarrow> string \<Rightarrow> 'p option) \<Rightarrow> ('p \<Rightarrow> string) \<Rightarrow> nat \<Rightarrow> string \<Rightarrow> 'p list \<Rightarrow> bool" where
  "pages_from fetch following i cursor [] = False"
| "pages_from fetch following i cursor (p # ps) \<longleftrightarrow>
     fetch i cursor = Some p \<and>
     (if following p = [] then ps = [] else pages_from fetch following (Suc i) (following p) ps)"

lemma walk_takes:
  "pages_from fetch following i cursor ps \<Longrightarrow>
   walk_pages n fetch following taking i cursor s = (True, fold taking (take n ps) s)"
proof (induction n arbitrary: i cursor ps s)
  case (Suc n)
  from Suc.prems obtain p qs where "ps = p # qs" by (cases ps) auto
  with Suc show ?case by (cases "following p = []") auto
qed simp

lemma fold_items: "fold (\<lambda>p out. out @ pg_items p) ps s = s @ concat (List.map pg_items ps)"
  by (induction ps arbitrary: s) simp_all

text \<open>
  C1: the accounts a person holds are read whole, in the provider's order, when the provider's list ends within twenty pages; of a longer
  one the first twenty pages are read and nothing says so.
\<close>

theorem connections_whole:
  assumes "pages_from (connection_page decode http c user) pg_next 0 [] ps"
  shows "connections decode http c user = (True, concat (List.map pg_items (take 20 ps)))"
  unfolding connections_def connection_pages_def walk_takes [OF assms] by (simp add: fold_items)

lemma connections_whole_witness:
  "connections (\<lambda>s. Some \<lparr>pg_items = [\<lparr>cx_id = s, cx_toolkit = ''gmail'', cx_status = ''ACTIVE''\<rparr>], pg_next = (if s = ''one'' then ''more'' else [])\<rparr>)
     (\<lambda>i c. Replied 200 (if i = 0 then ''one'' else ''two'')) \<lparr>pv_key = ''k'', pv_base = ''https://p''\<rparr> ''u'' =
   (True, [\<lparr>cx_id = ''one'', cx_toolkit = ''gmail'', cx_status = ''ACTIVE''\<rparr>, \<lparr>cx_id = ''two'', cx_toolkit = ''gmail'', cx_status = ''ACTIVE''\<rparr>])"
proof -
  let ?conn = "\<lambda>s. \<lparr>cx_id = s, cx_toolkit = ''gmail'', cx_status = ''ACTIVE''\<rparr>"
  let ?decode = "\<lambda>s. Some \<lparr>pg_items = [?conn s], pg_next = (if s = ''one'' then ''more'' else [])\<rparr>"
  let ?http = "\<lambda>(i :: nat) (c :: provider_call). Replied 200 (if i = 0 then ''one'' else ''two'')"
  have "pages_from (connection_page ?decode ?http \<lparr>pv_key = ''k'', pv_base = ''https://p''\<rparr> ''u'') pg_next 0 []
    [\<lparr>pg_items = [?conn ''one''], pg_next = ''more''\<rparr>, \<lparr>pg_items = [?conn ''two''], pg_next = []\<rparr>]"
    by (simp add: connection_page_def provider_do_def body_cap_def)
  from connections_whole [OF this] show ?thesis by simp
qed

section \<open>Cursors\<close>

lemma b64_value_char: "b64_value (b64_char n) = Some (n mod 64)"
proof -
  have "\<forall>k \<in> set [0..<64]. index_of (base64_alphabet ! k) base64_alphabet = Some k" by code_simp
  moreover have "n mod 64 \<in> set [0..<64]" by simp
  ultimately show ?thesis unfolding b64_value_def b64_char_def by blast
qed

lemma b64_char_plain: "b64_char n \<noteq> CHR 0x0A" "b64_char n \<noteq> CHR 0x0D"
proof -
  have "\<forall>k \<in> set [0..<64]. base64_alphabet ! k \<noteq> CHR 0x0A \<and> base64_alphabet ! k \<noteq> CHR 0x0D" by code_simp
  moreover have "n mod 64 \<in> set [0..<64]" by simp
  ultimately show "b64_char n \<noteq> CHR 0x0A" "b64_char n \<noteq> CHR 0x0D" unfolding b64_char_def by blast+
qed

lemma byte_less: "byte_of c < 256"
  using of_char_mod_256 [of c, where 'a = nat] mod_less_divisor [of 256 "byte_of c"] unfolding byte_of_def by simp

lemma char_of_byte: "char_of (byte_of c) = c"
  by (simp add: byte_of_def)

lemma low_bits: "d < 16 \<Longrightarrow> (a * 16 + d) mod 64 mod 16 = (d :: nat)" "e < 4 \<Longrightarrow> (b * 4 + e) mod 64 mod 4 = (e :: nat)"
  by (simp_all add: mod_mod_cancel)

lemma first_byte: "a < 256 \<Longrightarrow> d < 16 \<Longrightarrow> a div 4 mod 64 * 4 + (a * 16 + d) mod 64 div 16 = (a :: nat)"
proof -
  assume a: "a < 256" "d < 16"
  have "(a * 16 + d) mod 64 = 16 * (a mod 4) + d"
    using a(2) mod_mult_mult1 [of 16 a 4] by (subst mod_add_left_eq [symmetric]) (simp add: mult.commute)
  then show ?thesis using a by simp
qed

lemma second_byte: "b < 256 \<Longrightarrow> e < 4 \<Longrightarrow> b div 16 * 16 + (b * 4 + e) mod 64 div 4 = (b :: nat)"
proof -
  assume b: "b < 256" "e < 4"
  have "(b * 4 + e) mod 64 = 4 * (b mod 16) + e"
    using b(2) mod_mult_mult1 [of 4 b 16] by (subst mod_add_left_eq [symmetric]) (simp add: mult.commute)
  then show ?thesis using b by simp
qed

lemma six_bits: "byte_of a div 4 mod 64 * 4 + byte_of a * 16 mod 64 div 16 = byte_of a"
  using first_byte [OF byte_less, of 0 a] by (simp only: add_0_right zero_less_numeral simp_thms)

lemma twelve_bits:
  "byte_of a div 4 mod 64 * 4 + (byte_of a * 16 + byte_of b div 16) mod 64 div 16 = byte_of a"
  "(byte_of a * 16 + byte_of b div 16) mod 64 mod 16 * 16 + byte_of b * 4 mod 64 div 4 = byte_of b"
  "(byte_of a * 16 + byte_of b div 16) mod 64 mod 16 * 16 + (byte_of b * 4 + byte_of c div 64) mod 64 div 4 = byte_of b"
  "(byte_of b * 4 + byte_of c div 64) mod 64 mod 4 * 64 + byte_of c mod 64 = byte_of c"
proof -
  have small: "byte_of b div 16 < 16" "byte_of c div 64 < 4" using byte_less [of b] byte_less [of c] by simp_all
  show "byte_of a div 4 mod 64 * 4 + (byte_of a * 16 + byte_of b div 16) mod 64 div 16 = byte_of a"
    by (rule first_byte [OF byte_less small(1)])
  show "(byte_of a * 16 + byte_of b div 16) mod 64 mod 16 * 16 + byte_of b * 4 mod 64 div 4 = byte_of b"
    unfolding low_bits(1) [OF small(1)] using second_byte [OF byte_less, of 0 b] by simp
  show "(byte_of a * 16 + byte_of b div 16) mod 64 mod 16 * 16 + (byte_of b * 4 + byte_of c div 64) mod 64 div 4 = byte_of b"
    unfolding low_bits(1) [OF small(1)] by (rule second_byte [OF byte_less small(2)])
  show "(byte_of b * 4 + byte_of c div 64) mod 64 mod 4 * 64 + byte_of c mod 64 = byte_of c"
    unfolding low_bits(2) [OF small(2)] by simp
qed

lemma b64_digits:
  "None \<notin> set (List.map b64_value (b64_encode s)) \<and> filter (\<lambda>c. c \<noteq> CHR 0x0A \<and> c \<noteq> CHR 0x0D) (b64_encode s) = b64_encode s"
  by (induction s rule: b64_encode.induct) (simp_all add: b64_value_char b64_char_plain)

lemma b64_back: "b64_bytes (List.map (\<lambda>c. the (b64_value c)) (b64_encode s)) = Some s"
  by (induction s rule: b64_encode.induct) (simp_all add: b64_value_char six_bits twelve_bits char_of_byte)

lemma b64_roundtrip: "b64_decode (b64_encode s) = Some s"
  using b64_digits [of s] b64_back [of s] by (simp add: b64_decode_def comp_def)

lemma cursor_back:
  assumes "0 \<le> n" "n < 2 ^ 63"
  shows "offset_of (cursor_of n) = Some n" "cursor_of n \<noteq> []"
proof -
  have "show_int n \<noteq> []" by (simp add: show_int_def)
  then show "cursor_of n \<noteq> []" unfolding cursor_of_def by (cases "show_int n" rule: b64_encode.cases) simp_all
  then show "offset_of (cursor_of n) = Some n"
    using assms by (simp add: offset_of_def cursor_of_def b64_roundtrip atoi_show)
qed

section \<open>The directory, page by page\<close>

text \<open>One request for a page: when it comes and is answered, what the provider would say, the limit asked for, the person's accounts.\<close>

record directory_request =
  dq_now :: int
  dq_later :: int
  dq_got :: "toolkit list option"
  dq_limit :: string
  dq_conns :: "connection list option"

text \<open>What a screen shows that follows the cursor it is given, and whether it was told there is no more.\<close>

fun browse ::
  "string \<Rightarrow> string \<Rightarrow> string \<Rightarrow> directory_request list \<Rightarrow> string \<Rightarrow> app_catalog \<times> claims \<Rightarrow> app_row list \<times> bool" where
  "browse user query category [] cursor st = ([], False)"
| "browse user query category (q # qs) cursor st =
     (case list_apps True (dq_now q) (dq_later q) (dq_got q) user cursor query category (dq_limit q) (dq_conns q) st of
        (ApFail status, st1) \<Rightarrow> ([], False)
      | (ApDone status page, st1) \<Rightarrow>
          (if pp_next page = [] then (pp_items page, True)
           else (case browse user query category qs (pp_next page) st1 of (rows, fin) \<Rightarrow> (pp_items page @ rows, fin))))"

definition holds_only :: "toolkit list \<Rightarrow> app_catalog \<Rightarrow> bool" where
  "holds_only kits ct \<longleftrightarrow> ct_held ct = kits \<or> ct_held ct = []"

lemma catalog_same:
  "holds_only kits ct \<Longrightarrow>
   fst (catalog_toolkits now later (Some kits) ct) = Some kits \<and> holds_only kits (snd (catalog_toolkits now later (Some kits) ct))"
  by (auto simp: catalog_toolkits_def holds_only_def fresh_catalog_def keep_catalog_def)

lemma limit_pos: "1 \<le> limit_of asked"
  by (auto simp: limit_of_def apps_page_default_def apps_page_max_def split: option.splits)

lemma slugs_projected: "List.map ar_slug (project_apps rows held) = List.map kt_slug rows"
  by (simp add: project_apps_def Let_def)

text \<open>A page is the next rows and either the end or a cursor to the place after them.\<close>

lemma page_cut:
  assumes "k \<le> length kits" "1 \<le> limit" "int (length kits) < 2 ^ 63"
  obtains "page_of kits (int k) limit = (drop k kits, [])"
  | m where "k < m" "m < length kits" "page_of kits (int k) limit = (drop k (take m kits), cursor_of (int m))"
      "offset_of (cursor_of (int m)) = Some (int m)" "cursor_of (int m) \<noteq> []"
proof (cases "int (length kits) \<le> int k + limit")
  case True
  then have "page_of kits (int k) limit = (drop k kits, [])" using assms(1) by (auto simp: page_of_def Let_def)
  then show ?thesis by (rule that(1))
next
  case False
  define m where "m = nat (int k + limit)"
  have m: "k < m" "m < length kits" "int m = int k + limit" using False assms by (simp_all add: m_def)
  have "page_of kits (int k) limit = (drop k (take m kits), cursor_of (int m))"
    using False m unfolding page_of_def Let_def m(3) [symmetric] by simp
  moreover have "0 \<le> int m" "int m < 2 ^ 63" using m assms(3) by simp_all
  ultimately show ?thesis using m cursor_back [of "int m"] by (intro that(2))
qed

lemma browse_from:
  assumes "\<And>q. q \<in> set qs \<Longrightarrow> dq_got q = Some kits" "\<And>q. q \<in> set qs \<Longrightarrow> dq_conns q \<noteq> None"
    and "holds_only kits (fst st)" "offset_of cursor = Some (int k)" "k \<le> length (matching query category kits)"
    and "int (length (matching query category kits)) < 2 ^ 63"
    and "length (matching query category kits) \<le> k + length qs" "qs \<noteq> []"
  shows "\<exists>rows. browse user query category qs cursor st = (rows, True) \<and>
    List.map ar_slug rows = List.map kt_slug (drop k (matching query category kits))"
  using assms
proof (induction qs arbitrary: cursor k st)
  case (Cons q qs)
  let ?m = "matching query category kits" and ?l = "limit_of (dq_limit q)"
  obtain ct cs where st: "st = (ct, cs)" by force
  obtain held where held: "dq_conns q = Some held" using Cons.prems(2) [of q] by auto
  let ?cs = "notice_apps user held cs"
  obtain ct1 where ct: "catalog_toolkits (dq_now q) (dq_later q) (Some kits) ct = (Some kits, ct1)" "holds_only kits ct1"
    using catalog_same [of kits ct "dq_now q" "dq_later q"] Cons.prems(3) unfolding st fst_conv by (metis prod.collapse)
  have got: "dq_got q = Some kits" using Cons.prems(1) by simp
  have answer: "list_apps True (dq_now q) (dq_later q) (dq_got q) user cursor query category (dq_limit q) (dq_conns q) st =
      (ApDone 200 \<lparr>pp_items = project_apps (fst (page_of ?m (int k) ?l)) held, pp_next = snd (page_of ?m (int k) ?l)\<rparr>, ct1, ?cs)"
    by (simp add: list_apps_def st got held apps_query_def Cons.prems(4) ct(1) held_apps_def split: prod.splits)
  show ?case
  proof (rule page_cut [OF Cons.prems(5) limit_pos [of "dq_limit q"] Cons.prems(6)])
    assume "page_of ?m (int k) ?l = (drop k ?m, [])"
    then show ?thesis by (simp add: answer slugs_projected)
  next
    fix m assume m: "k < m" "m < length ?m" "page_of ?m (int k) ?l = (drop k (take m ?m), cursor_of (int m))"
      "offset_of (cursor_of (int m)) = Some (int m)" "cursor_of (int m) \<noteq> []"
    have "\<exists>rows. browse user query category qs (cursor_of (int m)) (ct1, ?cs) = (rows, True) \<and>
        List.map ar_slug rows = List.map kt_slug (drop m ?m)"
      using Cons.prems(1,2,6,7) ct(2) m by (intro Cons.IH) auto
    then obtain rows where rows: "browse user query category qs (cursor_of (int m)) (ct1, ?cs) = (rows, True)"
      "List.map ar_slug rows = List.map kt_slug (drop m ?m)" by blast
    have "drop k (take m ?m) @ drop m ?m = drop k ?m"
      using m(1,2) by (metis append_take_drop_id drop_append diff_is_0_eq drop_0 length_take less_imp_le min.absorb2)
    then have "List.map kt_slug (drop k (take m ?m)) @ List.map kt_slug (drop m ?m) = List.map kt_slug (drop k ?m)"
      by (metis map_append)
    then show ?thesis using m(3,5) rows by (simp add: answer slugs_projected)
  qed
qed simp

text \<open>
  C2: a screen that follows the cursors it is given, with whatever limits, is shown every app that matches, once and in the catalogue's
  order, and is told so; it takes at most as many requests as there are apps.
\<close>

theorem directory_whole:
  assumes "\<forall>q \<in> set qs. dq_got q = Some kits \<and> dq_conns q \<noteq> None"
    and "ct_held ct = kits \<or> ct_held ct = []" "int (length kits) < 2 ^ 63"
    and "length (matching query category kits) \<le> length qs" "qs \<noteq> []"
  shows "\<exists>rows. browse user query category qs [] (ct, cs) = (rows, True) \<and>
    List.map ar_slug rows = List.map kt_slug (matching query category kits)"
proof -
  have "length (matching query category kits) \<le> length kits" by (simp add: matching_def Let_def)
  then have "int (length (matching query category kits)) < 2 ^ 63" using assms(3) by linarith
  then show ?thesis
    using browse_from [of qs kits "(ct, cs)" "[]" 0 query category user] assms by (simp add: holds_only_def offset_of_def)
qed

lemma directory_whole_witness:
  "\<exists>rows. browse ''u'' ''a'' [] (replicate 3 \<lparr>dq_now = 0, dq_later = 1,
       dq_got = Some [\<lparr>kt_slug = ''gmail'', kt_name = ''Gmail'', kt_logo = [], kt_description = [], kt_categories = [''email'']\<rparr>,
                      \<lparr>kt_slug = ''slack'', kt_name = ''Slack'', kt_logo = [], kt_description = [], kt_categories = []\<rparr>],
       dq_limit = ''1'', dq_conns = Some []\<rparr>) [] (new_app_catalog, [])
     = (rows, True) \<and> List.map ar_slug rows = [''gmail'', ''slack'']"
proof -
  let ?kits = "[\<lparr>kt_slug = ''gmail'', kt_name = ''Gmail'', kt_logo = [], kt_description = [], kt_categories = [''email'']\<rparr>,
                \<lparr>kt_slug = ''slack'', kt_name = ''Slack'', kt_logo = [], kt_description = [], kt_categories = []\<rparr>]"
  let ?q = "\<lparr>dq_now = 0, dq_later = 1, dq_got = Some ?kits, dq_limit = ''1'', dq_conns = Some []\<rparr>"
  have "matching ''a'' [] ?kits = ?kits" by code_simp
  then show ?thesis
    using directory_whole [of "replicate 3 ?q" ?kits new_app_catalog "''a''" "[]" "''u''" "[]"] by (simp add: new_app_catalog_def)
qed

section \<open>What a row says\<close>

lemma connection_from_cases:
  "connection_from found held app = found \<or> connection_from found held app \<in> set held \<and>
     List.map to_lower (cx_toolkit (connection_from found held app)) = List.map to_lower app"
proof (induction held arbitrary: found)
  case (Cons conn held)
  show ?case using Cons [of conn] Cons [of found] by auto
qed simp

lemma connection_from_active:
  "cx_status found \<noteq> status_active \<Longrightarrow>
   cx_status (connection_from found held app) = status_active \<longleftrightarrow>
     (\<exists>c \<in> set held. List.map to_lower (cx_toolkit c) = List.map to_lower app \<and> cx_status c = status_active)"
  by (induction held arbitrary: found) auto

text \<open>
  C3: a row reads as connected exactly if one of the person's accounts for the app works, and what it offers to disconnect is one of their
  own.
\<close>

theorem row_says_connected:
  assumes "r \<in> set (project_apps kits held)"
  shows "(ar_connected r \<longleftrightarrow> (\<exists>c \<in> set held. List.map to_lower (cx_toolkit c) = List.map to_lower (ar_slug r) \<and> cx_status c = ''ACTIVE'')) \<and>
    (ar_connection r \<noteq> [] \<longrightarrow> owns held (ar_connection r))"
proof -
  obtain kit where "kit \<in> set kits" and r: "ar_slug r = kt_slug kit" "ar_connected r = (cx_status (connection_for held (kt_slug kit)) = status_active)"
    "ar_connection r = cx_id (connection_for held (kt_slug kit))"
    using assms unfolding project_apps_def Let_def by force
  have "cx_status no_connection \<noteq> status_active" by (simp add: no_connection_def status_active_def)
  from connection_from_active [OF this] connection_from_cases [of no_connection held "kt_slug kit"] show ?thesis
    unfolding r connection_for_def owns_def by (auto simp: status_active_def no_connection_def)
qed

lemma row_says_connected_witness:
  "list_all (\<lambda>r. ar_connected r \<and> owns [\<lparr>cx_id = ''c0'', cx_toolkit = ''gmail'', cx_status = ''INITIATED''\<rparr>,
      \<lparr>cx_id = ''c1'', cx_toolkit = ''Gmail'', cx_status = ''ACTIVE''\<rparr>] (ar_connection r))
    (project_apps [\<lparr>kt_slug = ''gmail'', kt_name = ''Gmail'', kt_logo = [], kt_description = [], kt_categories = []\<rparr>]
      [\<lparr>cx_id = ''c0'', cx_toolkit = ''gmail'', cx_status = ''INITIATED''\<rparr>, \<lparr>cx_id = ''c1'', cx_toolkit = ''Gmail'', cx_status = ''ACTIVE''\<rparr>])"
proof -
  let ?kit = "\<lparr>kt_slug = ''gmail'', kt_name = ''Gmail'', kt_logo = [], kt_description = [], kt_categories = []\<rparr>"
  let ?held = "[\<lparr>cx_id = ''c0'', cx_toolkit = ''gmail'', cx_status = ''INITIATED''\<rparr>, \<lparr>cx_id = ''c1'', cx_toolkit = ''Gmail'', cx_status = ''ACTIVE''\<rparr>]"
  obtain r where r: "project_apps [?kit] ?held = [r]" by (simp add: project_apps_def)
  have "ar_slug (hd (project_apps [?kit] ?held)) = ''gmail''" "ar_connection (hd (project_apps [?kit] ?held)) \<noteq> []"
    "List.map to_lower ''Gmail'' = List.map to_lower ''gmail''" by code_simp+
  with row_says_connected [of r "[?kit]" ?held] r show ?thesis by auto
qed

section \<open>Connecting\<close>

lemma config_right:
  assumes "auth_config cd http c app = (calls, Some cfg)"
  shows "(\<exists>held. provider_do (cd_configs cd) (http (hd calls)) = Some held \<and> (cfg, app) \<in> set held) \<or>
    (\<exists>call \<in> set calls. pc_body call = Some (JObj [(''toolkit'', JObj [(''slug'', JText app)])]) \<and>
       provider_do (cd_config cd) (http call) = Some cfg)"
proof -
  let ?call = "provider_call c ''GET'' (''/auth_configs?'' @ query_encode [(''toolkit_slug'', app), (''limit'', ''1'')]) None"
  obtain held where held: "provider_do (cd_configs cd) (http ?call) = Some held"
    using assms by (auto simp: auth_config_def Let_def split: option.splits)
  show ?thesis
  proof (cases "find (\<lambda>(i, s). s = app) held")
    case None
    with assms held show ?thesis
      by (auto simp: auth_config_def Let_def create_auth_config_def provider_call_def split: option.splits if_splits)
  next
    case (Some e)
    then have "e \<in> set held" "snd e = app" by (auto simp: find_Some_iff case_prod_beta)
    with assms held Some show ?thesis by (auto simp: auth_config_def Let_def split: prod.splits)
  qed
qed

text \<open>
  C4: a person is sent to sign in only for an app on offer, for themselves, and against a configuration the provider lists for that very app
  or has just made for it; that an app is not offered is said only by a catalogue that lacks it.
\<close>

theorem link_is_for_the_app:
  assumes "connect_app cd http (Some c) now later got user app callback ct = ((calls, r), ct1)"
  shows "(\<forall>status l. r = ApDone status l \<longrightarrow>
      (\<exists>kits cfg cs. fst (catalog_toolkits now later got ct) = Some kits \<and> app \<in> kt_slug ` set kits \<and>
         auth_config cd http c app = (cs, Some cfg) \<and> calls = cs @ [last calls] \<and>
         pc_body (last calls) = Some (link_req user cfg callback) \<and> lk_url l \<noteq> [] \<and>
         ((\<exists>held. provider_do (cd_configs cd) (http (hd cs)) = Some held \<and> (cfg, app) \<in> set held) \<or>
          (\<exists>call \<in> set cs. pc_body call = Some (JObj [(''toolkit'', JObj [(''slug'', JText app)])]) \<and>
             provider_do (cd_config cd) (http call) = Some cfg)))) \<and>
    (r = ApFail 400 \<longrightarrow> calls = [] \<and> (\<exists>kits. fst (catalog_toolkits now later got ct) = Some kits \<and> app \<notin> kt_slug ` set kits))"
proof (cases "offers_app now later got app ct")
  case (Pair refused ct2)
  show ?thesis
  proof (cases refused)
    case (Some status)
    with Pair assms have "calls = []" "r = ApFail status" by (simp_all add: connect_app_def)
    with Pair Some show ?thesis
      by (auto simp: offers_app_def offers_def split: prod.splits option.splits if_splits)
  next
    case None
    with Pair obtain kits where kits: "fst (catalog_toolkits now later got ct) = Some kits" "app \<in> kt_slug ` set kits"
      by (auto simp: offers_app_def offers_def split: prod.splits option.splits if_splits)
    obtain cs cfg where cfg: "auth_config cd http c app = (cs, cfg)" by force
    let ?call = "\<lambda>cfg. provider_call c ''POST'' ''/connected_accounts/link'' (Some (link_req user cfg callback))"
    show ?thesis
    proof (cases cfg)
      case None
      with assms Pair \<open>refused = None\<close> cfg show ?thesis by (auto simp: connect_app_def mint_link_def)
    next
      case (Some cfg')
      note right = config_right [OF cfg [unfolded Some]]
      have "calls = cs @ [?call cfg']" and "\<forall>status l. r = ApDone status l \<longrightarrow> lk_url l \<noteq> []" and "r \<noteq> ApFail 400"
        using assms Pair \<open>refused = None\<close> cfg Some by (auto simp: connect_app_def mint_link_def Let_def split: option.splits if_splits)
      with kits cfg Some right show ?thesis by (auto simp: provider_call_def)
    qed
  qed
qed

lemma link_is_for_the_app_witness:
  "\<exists>calls l. fst (connect_app \<lparr>cd_configs = \<lambda>s. Some [(''cfg'', ''gmail'')], cd_config = \<lambda>s. None, cd_link = \<lambda>s. Some \<lparr>lk_url = ''https://in'', lk_expires = 9\<rparr>\<rparr>
      (\<lambda>c. Replied 200 []) (Some \<lparr>pv_key = ''k'', pv_base = ''https://p''\<rparr>) 0 1
      (Some [\<lparr>kt_slug = ''gmail'', kt_name = [], kt_logo = [], kt_description = [], kt_categories = []\<rparr>]) ''u'' ''gmail'' [] new_app_catalog)
    = (calls, ApDone 201 l) \<and> pc_body (last calls) = Some (link_req ''u'' ''cfg'' [])"
proof -
  let ?cd = "\<lparr>cd_configs = \<lambda>s. Some [(''cfg'', ''gmail'')], cd_config = \<lambda>s. None, cd_link = \<lambda>s. Some \<lparr>lk_url = ''https://in'', lk_expires = 9\<rparr>\<rparr>"
  let ?http = "\<lambda>c. Replied 200 []" and ?c = "\<lparr>pv_key = ''k'', pv_base = ''https://p''\<rparr>"
  let ?kits = "[\<lparr>kt_slug = ''gmail'', kt_name = [], kt_logo = [], kt_description = [], kt_categories = []\<rparr>]"
  obtain calls r ct1 where run: "connect_app ?cd ?http (Some ?c) 0 1 (Some ?kits) ''u'' ''gmail'' [] new_app_catalog = ((calls, r), ct1)"
    by (metis prod.collapse)
  have cfg: "auth_config ?cd ?http ?c ''gmail'' = (fst (auth_config ?cd ?http ?c ''gmail''), Some ''cfg'')"
    by (simp add: auth_config_def Let_def provider_do_def)
  have "offers_app 0 1 (Some ?kits) ''gmail'' new_app_catalog = (None, keep_catalog 1 ?kits new_app_catalog)"
    by (simp add: offers_app_def offers_def catalog_toolkits_def fresh_catalog_def new_app_catalog_def)
  with run cfg have "r = ApDone 201 \<lparr>lk_url = ''https://in'', lk_expires = 9\<rparr>"
    by (auto simp: connect_app_def mint_link_def Let_def provider_do_def split: prod.splits)
  with link_is_for_the_app [OF run] run cfg show ?thesis by (auto simp: prod_eq_iff)
qed

end
