(* ===== verification/EventStream.thy ===== *)
theory EventStream
  imports Gate
begin

text \<open>
  The two streams between a machine and the host as bytes (\<^verbatim>\<open>routes.go\<close>, \<^verbatim>\<open>routes_pending.go\<close> of
  \<^verbatim>\<open>internal/agentd\<close>; \<^verbatim>\<open>stream.go\<close> of \<^verbatim>\<open>internal/agent\<close>): what the daemon writes for an
  event, a beat and a change of the raised hands, in which order replay and live feed come, and what the host's scanner makes of it.
\<close>

section \<open>What the daemon writes\<close>

definition sse_head :: string where "sse_head = ''retry: 2000'' @ [newline, newline]"

definition sse_beat :: string where "sse_beat = '': beat'' @ [newline, newline]"

definition show_id :: "int \<Rightarrow> string" where
  "show_id n = (if n < 0 then CHR ''-'' # dec (nat (- n)) else dec (nat n))"

definition event_frame :: "int \<Rightarrow> string \<Rightarrow> string \<Rightarrow> string" where
  "event_frame i type text =
     ''id: '' @ show_id i @ [newline] @ ''event: '' @ type @ [newline] @ ''data: '' @ text @ [newline, newline]"

text \<open>The mark and the bytes so far; an event not newer than the mark, or one that will not encode, writes nothing.\<close>

definition emit_sse :: "event_json \<Rightarrow> event \<Rightarrow> int \<times> string \<Rightarrow> int \<times> string" where
  "emit_sse js e s =
     (if ev_id e \<le> fst s then s
      else (case js_enc js e of
              None \<Rightarrow> s
            | Some text \<Rightarrow> (ev_id e, snd s @ event_frame (ev_id e) (ev_type e) text)))"

text \<open>
  A client of an agent's log: the channel it subscribed with, the mark, the bytes written, and whether the replay is over and it is
  being fed live.
\<close>

record sse_stream =
  ss_log :: event_log
  ss_chan :: nat
  ss_sent :: int
  ss_out :: string
  ss_live :: bool

definition open_stream :: "nat \<Rightarrow> int \<Rightarrow> event_log \<Rightarrow> sse_stream" where
  "open_stream c since l =
     \<lparr>ss_log = log_subscribe c l, ss_chan = c, ss_sent = since, ss_out = sse_head, ss_live = False\<rparr>"

definition queued :: "sse_stream \<Rightarrow> event list" where
  "queued s = (case map_of (lg_subs (ss_log s)) (ss_chan s) of Some q \<Rightarrow> q | None \<Rightarrow> [])"

definition put_sse :: "int \<times> string \<Rightarrow> sse_stream \<Rightarrow> sse_stream" where
  "put_sse mo s = s\<lparr>ss_sent := fst mo, ss_out := snd mo\<rparr>"

text \<open>
  What can happen while the client is there: the agent logs an event, the stream replays what was missed, it forwards what
  waits in its channel, it beats. A log that cannot be read ends the stream.
\<close>

datatype sse_step = SseAppend int event | SseReplay | SseTake | SseBeat

fun sse_do :: "event_json \<Rightarrow> sse_step \<Rightarrow> sse_stream \<Rightarrow> sse_stream option" where
  "sse_do js (SseAppend now e) s = Some (s\<lparr>ss_log := snd (append_event js WrittenAll now e (ss_log s))\<rparr>)"
| "sse_do js SseReplay s =
     (if ss_live s then None
      else (case log_since js (ss_sent s) (ss_log s) of
              None \<Rightarrow> None
            | Some es \<Rightarrow> Some ((put_sse (fold (emit_sse js) es (ss_sent s, ss_out s)) s)\<lparr>ss_live := True\<rparr>)))"
| "sse_do js SseTake s =
     (case queued s of
        e # q \<Rightarrow>
          if ss_live s
          then Some (put_sse (emit_sse js e (ss_sent s, ss_out s))
                 (s\<lparr>ss_log := (ss_log s)\<lparr>lg_subs := AList.update (ss_chan s) q (lg_subs (ss_log s))\<rparr>\<rparr>))
          else None
      | [] \<Rightarrow> None)"
| "sse_do js SseBeat s = (if ss_live s then Some (s\<lparr>ss_out := ss_out s @ sse_beat\<rparr>) else None)"

text \<open>The raised hands: those up now first, then each change. \<open>enc\<close> is \<^verbatim>\<open>json.Marshal\<close> of a change.\<close>

definition change_frame :: "(pending_change \<Rightarrow> string option) \<Rightarrow> pending_change \<Rightarrow> string" where
  "change_frame enc c =
     (case enc c of
        None \<Rightarrow> []
      | Some text \<Rightarrow>
          ''event: '' @ (case c of HandDown i \<Rightarrow> if i \<noteq> [] then ''cleared'' else ''raised'' | HandUp r \<Rightarrow> ''raised'') @ [newline] @
          ''data: '' @ text @ [newline, newline])"

definition pending_head :: "(pending_change \<Rightarrow> string option) \<Rightarrow> hub \<Rightarrow> string" where
  "pending_head enc h = sse_head @ concat (List.map (\<lambda>r. change_frame enc (HandUp r)) (list_hands h))"

section \<open>What the host reads\<close>

definition stream_line_max :: int where "stream_line_max = 4 * 1024 * 1024"

text \<open>The payloads of the lines, and whether the scanner came to the end: it stops at a line that does not fit its buffer.\<close>

fun sse_payloads :: "string list \<Rightarrow> string list \<times> bool" where
  "sse_payloads [] = ([], True)"
| "sse_payloads (w # ws) =
     (if int (length w) \<ge> stream_line_max then ([], False)
      else (case sse_payloads ws of (ps, fine) \<Rightarrow>
        (if prefix ''data:'' (drop_cr w) then trim_with is_space (drop 5 (drop_cr w)) # ps else ps, fine)))"

definition decode_line :: "event_json \<Rightarrow> string \<Rightarrow> event option" where
  "decode_line js payload = (case js_dec js payload of Some e \<Rightarrow> if ev_id e > 0 then Some e else None | None \<Rightarrow> None)"

definition client_events :: "event_json \<Rightarrow> string \<Rightarrow> event list" where
  "client_events js bytes = List.map_filter (decode_line js) (fst (sse_payloads (scan_lines bytes)))"

text \<open>A change that says neither who raised a hand nor which came down is dropped.\<close>

definition deliver_change :: "(string \<Rightarrow> pending_change option) \<Rightarrow> string \<Rightarrow> pending_change option" where
  "deliver_change unmarshal payload =
     (case unmarshal payload of
        Some (HandDown i) \<Rightarrow> if i \<noteq> [] then Some (HandDown i) else None
      | other \<Rightarrow> other)"

definition client_changes :: "(string \<Rightarrow> pending_change option) \<Rightarrow> string \<Rightarrow> pending_change list" where
  "client_changes unmarshal bytes = List.map_filter (deliver_change unmarshal) (fst (sse_payloads (scan_lines bytes)))"

end
