(* ===== verification/GuestApi.thy ===== *)
theory GuestApi
  imports GuestWire EventStream Team Answers
begin

text \<open>
  The daemon's handlers about agents (\<^verbatim>\<open>routes.go\<close>, \<^verbatim>\<open>routes_pending.go\<close>, \<^verbatim>\<open>server.go\<close> of
  \<^verbatim>\<open>internal/agentd\<close>) over the models of the team, the roster, the gate and the log: what each answers on every branch.
  The wording of a refusal is not modelled, its code and status are. A handler that talks to the team in steps is its steps: what comes
  before the send, and what it answers once the team has.
\<close>

section \<open>Replies\<close>

datatype guest_body =
    GbNothing
  | GbError string string
  | GbQueued string string int
  | GbReplayed string
  | GbInterrupted bool string
  | GbEvents "event list" int
  | GbDecided string string
  | GbDeleted string
  | GbAgent agent_status
  | GbAgents "agent_status list"
  | GbHealth nat nat nat string
  | GbHands "raised list"

record guest_reply =
  gy_status :: int
  gy_retry :: "nat option"
  gy_body :: guest_body

definition answer :: "int \<Rightarrow> guest_body \<Rightarrow> guest_reply" where
  "answer status b = \<lparr>gy_status = status, gy_retry = None, gy_body = b\<rparr>"

definition fail_guest :: "int \<Rightarrow> string \<Rightarrow> string \<Rightarrow> guest_reply" where
  "fail_guest status code resource = answer status (GbError code resource)"

section \<open>Finding an agent, queueing a message\<close>

text \<open>\<open>got\<close> is what looking the agent up came to, as the team answers it.\<close>

definition resolve_agent :: "send_result \<Rightarrow> guest_reply + nat" where
  "resolve_agent got =
     (case got of
        SendOk k \<Rightarrow> Inr k
      | SendNoRoom \<Rightarrow> Inl ((fail_guest 503 ''capacity_exhausted'' ''agents'')\<lparr>gy_retry := Some 10\<rparr>)
      | _ \<Rightarrow> Inl (fail_guest 404 ''not_found'' ''agent''))"

definition send_failed :: "send_result \<Rightarrow> guest_reply" where
  "send_failed r =
     (case r of
        SendBusy \<Rightarrow> (fail_guest 503 ''busy'' ''agent'')\<lparr>gy_retry := Some 5\<rparr>
      | SendStopped \<Rightarrow> (fail_guest 503 ''busy'' ''agent'')\<lparr>gy_retry := Some 5\<rparr>
      | SendNoRoom \<Rightarrow> (fail_guest 503 ''capacity_exhausted'' ''agents'')\<lparr>gy_retry := Some 10\<rparr>
      | _ \<Rightarrow> fail_guest 500 ''internal'' [])"

record guest_server =
  gv_seen :: "(string \<times> string) list"
  gv_seq :: int

definition new_server :: guest_server where
  "new_server = \<lparr>gv_seen = [], gv_seq = 0\<rparr>"

definition next_message_id :: "string \<Rightarrow> guest_server \<Rightarrow> (string \<times> bool) \<times> guest_server" where
  "next_message_id key s =
     (case (if key \<noteq> [] then map_of (gv_seen s) key else None) of
        Some i \<Rightarrow> ((i, True), s)
      | None \<Rightarrow>
          (let n = gv_seq s + 1; i = ''m_'' @ pad3 n in
           ((i, False), s\<lparr>gv_seq := n, gv_seen := (if key \<noteq> [] then AList.update key i (gv_seen s) else gv_seen s)\<rparr>)))"

text \<open>The body of a message: one that cannot be read, or what it says.\<close>

datatype msg_body = MsgUnreadable | MsgSays string "sent_file option"

text \<open>\<^verbatim>\<open>handleMessage\<close> up to the send: it answers at once, or a message goes to the team under an id.\<close>

definition handle_message ::
  "send_result \<Rightarrow> msg_body \<Rightarrow> string \<Rightarrow> guest_server \<Rightarrow> (guest_reply + string \<times> inbound) \<times> guest_server" where
  "handle_message got b key s =
     (case resolve_agent got of
        Inl r \<Rightarrow> (Inl r, s)
      | Inr _ \<Rightarrow>
          (case b of
             MsgUnreadable \<Rightarrow> (Inl (fail_guest 400 ''bad_request'' []), s)
           | MsgSays text f \<Rightarrow>
               if text = [] \<and> f = None then (Inl (fail_guest 400 ''bad_request'' []), s)
               else (case next_message_id key s of
                       ((i, True), s1) \<Rightarrow> (Inl (answer 200 (GbReplayed i)), s1)
                     | ((i, False), s1) \<Rightarrow> (Inr (i, said_by_person text f), s1))))"

text \<open>What it answers once the team has taken the message or not.\<close>

definition message_sent :: "string \<Rightarrow> send_result \<Rightarrow> team \<Rightarrow> guest_reply" where
  "message_sent i r t =
     (case r of
        SendOk k \<Rightarrow> answer 202 (GbQueued i (in_state (tm_insts t ! k)) (log_last_id (in_log (tm_insts t ! k))))
      | _ \<Rightarrow> send_failed r)"

section \<open>Agents\<close>

definition handle_list_agents :: "event_json \<Rightarrow> (string \<Rightarrow> string \<times> bool) \<Rightarrow> team \<Rightarrow> guest_reply" where
  "handle_list_agents js about t = answer 200 (GbAgents (list_status js about t))"

definition handle_health :: "event_json \<Rightarrow> (string \<Rightarrow> string \<times> bool) \<Rightarrow> team \<Rightarrow> guest_reply" where
  "handle_health js about t =
     (let sts = list_status js about t; working = length (filter (\<lambda>st. st_state st = ''working'') sts) in
      answer 200 (GbHealth (length sts) (live_count t) working (if working > 0 then ''working'' else ''idle'')))"

text \<open>\<open>req\<close> is the decoded body, if it could be read.\<close>

definition handle_create_agent ::
  "event_json \<Rightarrow> (string \<Rightarrow> string \<times> bool) \<Rightarrow> (string \<Rightarrow> bool) \<Rightarrow> bool \<Rightarrow> int \<Rightarrow> create_req option \<Rightarrow> team \<Rightarrow> guest_reply \<times> team" where
  "handle_create_agent js about profiles wrote now req t =
     (case req of
        None \<Rightarrow> (fail_guest 400 ''bad_request'' [], t)
      | Some q \<Rightarrow>
          if cr_type q = [] then (fail_guest 400 ''bad_request'' [], t)
          else (case create_with profiles wrote now q (tm_roster t) of
                  (Inl _, r) \<Rightarrow> (fail_guest 400 ''bad_request'' ''agent'', t\<lparr>tm_roster := r\<rparr>)
                | (Inr rec, r) \<Rightarrow> (let u = t\<lparr>tm_roster := r\<rparr> in (answer 201 (GbAgent (status_for js about u rec)), u))))"

definition handle_update_agent ::
  "event_json \<Rightarrow> (string \<Rightarrow> string \<times> bool) \<Rightarrow> bool \<Rightarrow> string \<Rightarrow> agent_patch option \<Rightarrow> team \<Rightarrow> guest_reply \<times> team" where
  "handle_update_agent js about wrote i patch t =
     (case patch of
        None \<Rightarrow> (fail_guest 400 ''bad_request'' [], t)
      | Some p \<Rightarrow>
          if look_agent (tm_roster t) i = None then (fail_guest 404 ''not_found'' ''agent'', t)
          else (case patch_agent wrote i p (tm_roster t) of
                  (Inl e, r) \<Rightarrow>
                    (if e = NotCustom then fail_guest 409 ''conflict'' ''agent'' else fail_guest 400 ''bad_request'' ''agent'',
                     t\<lparr>tm_roster := r\<rparr>)
                | (Inr rec, r) \<Rightarrow>
                    (let u = refresh_agent i (t\<lparr>tm_roster := r\<rparr>) in (answer 200 (GbAgent (status_for js about u rec)), u))))"

definition handle_delete_agent :: "bool \<Rightarrow> string \<Rightarrow> string \<Rightarrow> team \<Rightarrow> guest_reply \<times> team" where
  "handle_delete_agent wrote i target t =
     (case delete_agent wrote i (query_get target ''purge'' = ''true'') t of
        (True, u) \<Rightarrow> (answer 200 (GbDeleted i), u)
      | (False, u) \<Rightarrow> (fail_guest 409 ''conflict'' ''agent'', u))"

section \<open>Events and answers\<close>

definition poll_events :: "event_json \<Rightarrow> string \<Rightarrow> int \<Rightarrow> team \<Rightarrow> guest_reply" where
  "poll_events js i since t =
     (case history js i since t of
        None \<Rightarrow> fail_guest 404 ''not_found'' ''agent''
      | Some (es, n) \<Rightarrow> answer 200 (GbEvents es n))"

text \<open>A poll is answered from the disk; a stream needs the agent running. \<open>c\<close> names the channel.\<close>

definition handle_events ::
  "event_json \<Rightarrow> send_result \<Rightarrow> nat \<Rightarrow> string \<Rightarrow> string \<Rightarrow> string \<Rightarrow> team \<Rightarrow> guest_reply + sse_stream" where
  "handle_events js got c i header target t =
     (let since = watermark header target in
      if query_has target ''poll'' then Inl (poll_events js i since t)
      else (case resolve_agent got of
              Inl r \<Rightarrow> Inl r
            | Inr k \<Rightarrow> Inr (open_stream c since (in_log (tm_insts t ! k)))))"

definition handle_pending :: "hub \<Rightarrow> guest_reply" where
  "handle_pending h = answer 200 (GbHands (list_hands h))"

text \<open>\<open>gates\<close> is the gate of each instance; an answer goes to the one the id names, if it runs.\<close>

definition resolve_approval :: "int \<Rightarrow> string \<Rightarrow> decision \<Rightarrow> team \<Rightarrow> (nat \<Rightarrow> gate_state) \<Rightarrow> bool \<times> (nat \<Rightarrow> gate_state)" where
  "resolve_approval now apid d t gates =
     (case resolve_target apid t of
        None \<Rightarrow> (False, gates)
      | Some k \<Rightarrow> (case resolve now apid d (gates k) of (fine, g) \<Rightarrow> (fine, gates(k := g))))"

definition handle_resolve ::
  "int \<Rightarrow> string \<Rightarrow> decision option \<Rightarrow> team \<Rightarrow> (nat \<Rightarrow> gate_state) \<Rightarrow> guest_reply \<times> (nat \<Rightarrow> gate_state)" where
  "handle_resolve now apid body t gates =
     (case body of
        None \<Rightarrow> (fail_guest 400 ''bad_request'' [], gates)
      | Some d0 \<Rightarrow>
          (let d = normalise d0 in
           case resolve_approval now apid d t gates of
             (False, gs) \<Rightarrow> (fail_guest 404 ''not_found'' ''approval'', gs)
           | (True, gs) \<Rightarrow> (answer 200 (GbDecided apid (d_decision d)), gs)))"

text \<open>\<^verbatim>\<open>Interrupt\<close>: every grant and every wait goes first; \<open>turning\<close> is whether a turn is there to cancel.\<close>

definition handle_interrupt :: "string list \<Rightarrow> bool \<Rightarrow> nat \<Rightarrow> team \<Rightarrow> (nat \<Rightarrow> gate_state) \<Rightarrow> guest_reply \<times> (nat \<Rightarrow> gate_state)" where
  "handle_interrupt ids turning k t gates =
     (answer 200 (GbInterrupted turning (in_state (tm_insts t ! k))), gates(k := snd (revoke_all ids (gates k))))"

end
