(* ===== verification/ScheduleRun.thy ===== *)
theory ScheduleRun
  imports ScheduleForm Tables
begin

text \<open>
  The schedules of a machine and what runs them (\<^verbatim>\<open>schedule.go\<close>, the half that keeps state,
  with the tool and the routes that create and cancel): the store with its file, the zone file,
  the sweep. A write can fail: operations that write take the outcome as an argument. What the
  rest of the daemon answers (is the agent known, what state is it in, does it take the message)
  is a record of functions of the messages sent so far.
\<close>

section \<open>The store\<close>

record schedule =
  sc_id :: string
  sc_name :: string
  sc_agent :: string
  sc_task :: string
  sc_expr :: string
  sc_next :: int
  sc_last :: "int option"
  sc_fires :: nat
  sc_enabled :: bool

text \<open>\<open>ss_by\<close> is the map in memory, \<open>ss_file\<close> what \<^verbatim>\<open>schedules.json\<close> holds.\<close>

record sched_store =
  ss_by :: "(string \<times> schedule) list"
  ss_file :: "schedule list"

datatype store_error = WriteFailed | ReadFailed | DecodeFailed | IdsExhausted

definition list_schedules :: "sched_store \<Rightarrow> schedule list" where
  "list_schedules s = sorted_rows sc_id (ss_by s)"

definition save_schedules :: "bool \<Rightarrow> sched_store \<Rightarrow> store_error option \<times> sched_store" where
  "save_schedules wrote s =
     (if wrote then (None, s\<lparr>ss_file := list_schedules s\<rparr>) else (Some WriteFailed, s))"

text \<open>What reading the file gave: not there, an error, or its bytes, decoded or not.\<close>

datatype file_read = FileMissing | FileUnreadable | FileRecords "schedule list option"

definition load_schedules :: "file_read \<Rightarrow> store_error + sched_store" where
  "load_schedules r =
     (case r of
        FileMissing \<Rightarrow> Inr \<lparr>ss_by = [], ss_file = []\<rparr>
      | FileUnreadable \<Rightarrow> Inl ReadFailed
      | FileRecords None \<Rightarrow> Inl DecodeFailed
      | FileRecords (Some recs) \<Rightarrow>
          Inr \<lparr>ss_by = fold (\<lambda>rec. AList.update (sc_id rec) rec) recs [], ss_file = recs\<rparr>)"

definition look_schedule :: "sched_store \<Rightarrow> string \<Rightarrow> schedule option" where
  "look_schedule s i = map_of (ss_by s) i"

definition hex_lower :: "nat \<Rightarrow> string" where
  "hex_lower n = List.map to_lower (hex_upper n)"

definition mint_schedule_id :: "nat \<Rightarrow> string" where
  "mint_schedule_id r = ''sch-'' @ pad_left 6 (hex_lower r)"

text \<open>The draws are the random numbers (below \<open>2 ^ 24\<close>) the loop consumes: the first id not in use is taken.\<close>

fun mint_unused :: "nat list \<Rightarrow> sched_store \<Rightarrow> string option" where
  "mint_unused [] s = None"
| "mint_unused (r # rs) s =
     (if look_schedule s (mint_schedule_id r) = None then Some (mint_schedule_id r) else mint_unused rs s)"

definition add_schedule ::
  "nat list \<Rightarrow> bool \<Rightarrow> schedule \<Rightarrow> sched_store \<Rightarrow> (store_error + schedule) \<times> sched_store" where
  "add_schedule draws wrote sc s =
     (case mint_unused draws s of
        None \<Rightarrow> (Inl IdsExhausted, s)
      | Some i \<Rightarrow>
          (let rec = sc\<lparr>sc_id := i, sc_enabled := True\<rparr> in
           case save_schedules wrote (s\<lparr>ss_by := AList.update i rec (ss_by s)\<rparr>) of
             (None, s1) \<Rightarrow> (Inr rec, s1)
           | (Some e, s1) \<Rightarrow> (Inl e, s1)))"

definition delete_schedule :: "bool \<Rightarrow> string \<Rightarrow> sched_store \<Rightarrow> (store_error + bool) \<times> sched_store" where
  "delete_schedule wrote i s =
     (case look_schedule s i of
        None \<Rightarrow> (Inr False, s)
      | Some rec \<Rightarrow>
          (case save_schedules wrote (s\<lparr>ss_by := AList.delete i (ss_by s)\<rparr>) of
             (None, s1) \<Rightarrow> (Inr True, s1)
           | (Some e, s1) \<Rightarrow> (Inl e, s1\<lparr>ss_by := AList.update i rec (ss_by s1)\<rparr>)))"

definition owner :: "string \<Rightarrow> sched_store \<Rightarrow> string option" where
  "owner i s = map_option sc_agent (look_schedule s i)"

definition update_schedule ::
  "bool \<Rightarrow> string \<Rightarrow> (schedule \<Rightarrow> schedule) \<Rightarrow> sched_store \<Rightarrow> sched_store" where
  "update_schedule wrote i edit s =
     (if look_schedule s i = None then s
      else snd (save_schedules wrote (s\<lparr>ss_by := edit_entry i edit (ss_by s)\<rparr>)))"

text \<open>The store's invariant: records under their own ids, each once.\<close>

definition store_ok :: "sched_store \<Rightarrow> bool" where
  "store_ok s \<longleftrightarrow> keyed sc_id (ss_by s)"

lemma look_update_schedule [simp]:
  "look_schedule (update_schedule w i f s) j =
     (if j = i then map_option f (look_schedule s i) else look_schedule s j)"
  by (auto simp: update_schedule_def save_schedules_def look_schedule_def map_of_edit_entry)

lemma store_ok_update [inv_intros]:
  "store_ok s \<Longrightarrow> (\<And>v. sc_id (f v) = sc_id v) \<Longrightarrow> store_ok (update_schedule w i f s)"
  by (simp add: store_ok_def update_schedule_def save_schedules_def keyed_edit)

lemma store_ok_load [inv_intros]: "load_schedules r = Inr s \<Longrightarrow> store_ok s"
proof -
  have "keyed sc_id (fold (\<lambda>rec. AList.update (sc_id rec) rec) recs al)" if "keyed sc_id al" for recs al
    using that by (induction recs arbitrary: al) (simp_all add: keyed_update)
  moreover have "keyed sc_id ([] :: (string \<times> schedule) list)" by (simp add: keyed_def)
  ultimately show "load_schedules r = Inr s \<Longrightarrow> store_ok s"
    by (auto simp: load_schedules_def store_ok_def split: file_read.splits option.splits)
qed

lemma store_ok_add [inv_intros]: "store_ok s \<Longrightarrow> store_ok (snd (add_schedule ds w sc s))"
  by (auto simp: add_schedule_def store_ok_def save_schedules_def Let_def keyed_update split: option.splits)

lemma store_ok_delete [inv_intros]:
  assumes "store_ok s"
  shows "store_ok (snd (delete_schedule w i s))"
proof -
  have "sc_id rec = i" if "look_schedule s i = Some rec" for rec
    using that assms keyed_lookD by (simp add: look_schedule_def store_ok_def)
  with assms show ?thesis
    by (auto simp: delete_schedule_def store_ok_def save_schedules_def keyed_update keyed_delete split: option.splits)
qed

text \<open>The table interface, provided by the store whatever its writes do.\<close>

interpretation schedules: keyed_table store_ok look_schedule "update_schedule w" list_schedules sc_id
proof unfold_locales
  fix s k and f :: "schedule \<Rightarrow> schedule"
  assume "store_ok s" "\<And>v. sc_id (f v) = sc_id v"
  then show "store_ok (update_schedule w k f s)" by (rule store_ok_update)
qed (auto simp: list_schedules_def set_sorted_rows look_schedule_def store_ok_def sorted_rows_distinct
      simp flip: look_schedule_def)

section \<open>The zone\<close>

text \<open>
  A machine: its schedules, the text of its zone file, the \<^verbatim>\<open>TZ\<close> it exports, and the messages
  the sweep has delivered (agent, name, task).
\<close>

record machine =
  m_store :: sched_store
  m_zone :: string
  m_tz :: string
  m_sent :: "(string \<times> string \<times> string) list"

definition valid_zone :: "(string \<Rightarrow> location option) \<Rightarrow> string \<Rightarrow> bool" where
  "valid_zone tz z \<longleftrightarrow> z \<noteq> [] \<and> z \<noteq> ''Local'' \<and> tz z \<noteq> None"

text \<open>The zone file as \<^verbatim>\<open>readStateFile\<close> gives it back: trimmed.\<close>

definition read_zone_file :: "machine \<Rightarrow> string" where
  "read_zone_file m = trim_with is_space (m_zone m)"

text \<open>\<^verbatim>\<open>time.Parse(time.RFC3339, v)\<close>: the offset of a stamp, 0 for \<^verbatim>\<open>Z\<close>.\<close>

definition rfc3339_offset :: "string \<Rightarrow> int option" where
  "rfc3339_offset v =
     (case (parse_iso_date (take 10 v), drop 10 v) of
        (Some _, t # h1 # h2 # c1 # m1 # m2 # c2 # s1 # s2 # r) \<Rightarrow>
          (let zone = (case r of d # f # fs \<Rightarrow> if (d = CHR ''.'' \<or> d = CHR '','') \<and> is_digit f then dropWhile is_digit fs else r | _ \<Rightarrow> r) in
           if t = CHR ''T'' \<and> c1 = CHR '':'' \<and> c2 = CHR '':'' \<and> list_all is_digit [h1, h2, m1, m2, s1, s2] \<and>
              num_of [h1, h2] < 24 \<and> num_of [m1, m2] < 60 \<and> num_of [s1, s2] < 60 then
             (case zone of
                [z] \<Rightarrow> if z = CHR ''Z'' then Some 0 else None
              | [g, a, b, c, d, e] \<Rightarrow>
                  if (g = CHR ''+'' \<or> g = CHR ''-'') \<and> c = CHR '':'' \<and> list_all is_digit [a, b, d, e] \<and>
                     num_of [a, b] \<le> 24 \<and> num_of [d, e] < 60 then
                    Some ((if g = CHR ''+'' then 1 else -1) * (num_of [a, b] * 3600 + num_of [d, e] * 60))
                  else None
              | _ \<Rightarrow> None)
           else None)
      | _ \<Rightarrow> None)"

definition load_zone :: "(string \<Rightarrow> location option) \<Rightarrow> machine \<Rightarrow> location" where
  "load_zone tz m =
     (case tz (read_zone_file m) of
        Some loc \<Rightarrow> loc
      | None \<Rightarrow> (case rfc3339_offset (read_zone_file m) of
                   Some off \<Rightarrow> if off = 0 then utc else \<lparr>loc_name = [], loc_first = off, loc_changes = []\<rparr>
                 | None \<Rightarrow> utc))"

definition remember_zone_file :: "(string \<Rightarrow> location option) \<Rightarrow> bool \<Rightarrow> string \<Rightarrow> machine \<Rightarrow> bool \<times> machine" where
  "remember_zone_file tz wrote z m =
     (if \<not> valid_zone tz z then (False, m)
      else if z = read_zone_file m then (False, m)
      else if wrote then (True, m\<lparr>m_zone := z\<rparr>) else (False, m))"

definition on_store :: "(sched_store \<Rightarrow> sched_store) \<Rightarrow> machine \<Rightarrow> machine" where
  "on_store f m = m\<lparr>m_store := f (m_store m)\<rparr>"

definition set_next :: "bool \<Rightarrow> string \<Rightarrow> int \<Rightarrow> machine \<Rightarrow> machine" where
  "set_next w i a = on_store (update_schedule w i (\<lambda>x. x\<lparr>sc_next := a\<rparr>))"

definition rezone_one ::
  "(string \<Rightarrow> location option) \<Rightarrow> bool \<Rightarrow> int \<Rightarrow> location \<Rightarrow> schedule \<Rightarrow> machine \<Rightarrow> machine" where
  "rezone_one tz w now loc sc m =
     (if \<not> sc_enabled sc then m
      else (case parse_schedule tz (sc_expr sc) loc of
              Inl _ \<Rightarrow> m
            | Inr sp \<Rightarrow>
                if sp_every sp > 0 \<or> sp_pinned sp then m
                else (case next_run sp now of None \<Rightarrow> m | Some a \<Rightarrow> set_next w (sc_id sc) a m)))"

definition rezone :: "(string \<Rightarrow> location option) \<Rightarrow> bool \<Rightarrow> int \<Rightarrow> machine \<Rightarrow> machine" where
  "rezone tz w now m = fold (rezone_one tz w now (load_zone tz m)) (list_schedules (m_store m)) m"

definition remember_zone ::
  "(string \<Rightarrow> location option) \<Rightarrow> bool \<Rightarrow> bool \<Rightarrow> int \<Rightarrow> string \<Rightarrow> machine \<Rightarrow> bool \<times> machine" where
  "remember_zone tz wrote w now z m =
     (case remember_zone_file tz wrote z m of
        (False, m1) \<Rightarrow> (False, m1)
      | (True, m1) \<Rightarrow> (True, rezone tz w now (m1\<lparr>m_tz := z\<rparr>)))"

definition adopt_zone :: "(string \<Rightarrow> location option) \<Rightarrow> machine \<Rightarrow> location \<times> machine" where
  "adopt_zone tz m =
     (let zone = read_zone_file m in
      if zone = [] then (utc, m)
      else (load_zone tz m, if valid_zone tz zone then m\<lparr>m_tz := zone\<rparr> else m))"

section \<open>The sweep\<close>

definition one_shot_grace :: int where "one_shot_grace = hour_ns"

text \<open>
  The daemon around the sweep: is an agent on the roster, the state \<^verbatim>\<open>List\<close> reports for it
  (\<open>None\<close>: not listed), and whether \<^verbatim>\<open>sendTo\<close> delivers to it.
\<close>

record daemon_env =
  de_known :: "(string \<times> string \<times> string) list \<Rightarrow> string \<Rightarrow> bool"
  de_state :: "(string \<times> string \<times> string) list \<Rightarrow> string \<Rightarrow> string option"
  de_takes :: "(string \<times> string \<times> string) list \<Rightarrow> string \<Rightarrow> bool"

definition agent_idle :: "daemon_env \<Rightarrow> string \<Rightarrow> machine \<Rightarrow> bool" where
  "agent_idle env i m \<longleftrightarrow> (case de_state env (m_sent m) i of Some st \<Rightarrow> st = ''idle'' | None \<Rightarrow> False)"

definition disable_schedule :: "bool \<Rightarrow> schedule \<Rightarrow> machine \<Rightarrow> machine" where
  "disable_schedule w sc = on_store (update_schedule w (sc_id sc) (\<lambda>x. x\<lparr>sc_enabled := False\<rparr>))"

definition deliver_schedule ::
  "daemon_env \<Rightarrow> bool \<Rightarrow> int \<Rightarrow> bool \<Rightarrow> schedule \<Rightarrow> machine \<Rightarrow> machine" where
  "deliver_schedule env w now final sc m =
     (if \<not> de_known env (m_sent m) (sc_agent sc) then disable_schedule w sc m
      else if \<not> agent_idle env (sc_agent sc) m then m
      else if \<not> de_takes env (m_sent m) (sc_agent sc) then m
      else on_store (update_schedule w (sc_id sc)
             (\<lambda>x. x\<lparr>sc_last := Some now, sc_fires := sc_fires x + 1, sc_enabled := \<not> final\<rparr>))
             (m\<lparr>m_sent := m_sent m @ [(sc_agent sc, sc_name sc, sc_task sc)]\<rparr>))"

definition fire ::
  "(string \<Rightarrow> location option) \<Rightarrow> daemon_env \<Rightarrow> bool \<Rightarrow> int \<Rightarrow> schedule \<Rightarrow> machine \<Rightarrow> machine" where
  "fire tz env w now sc m =
     (case parse_schedule tz (sc_expr sc) (load_zone tz m) of
        Inl _ \<Rightarrow> disable_schedule w sc m
      | Inr sp \<Rightarrow>
          (case next_run sp now of
             Some a \<Rightarrow> deliver_schedule env w now False sc (set_next w (sc_id sc) a m)
           | None \<Rightarrow>
               if now - sc_next sc > one_shot_grace then disable_schedule w sc m
               else deliver_schedule env w now True sc m))"

definition sweep_one ::
  "(string \<Rightarrow> location option) \<Rightarrow> daemon_env \<Rightarrow> bool \<Rightarrow> int \<Rightarrow> schedule \<Rightarrow> machine \<Rightarrow> machine" where
  "sweep_one tz env w now sc m =
     (if sc_enabled sc \<and> \<not> now < sc_next sc then fire tz env w now sc m else m)"

definition sweep ::
  "(string \<Rightarrow> location option) \<Rightarrow> daemon_env \<Rightarrow> bool \<Rightarrow> int \<Rightarrow> machine \<Rightarrow> machine" where
  "sweep tz env w now m = fold (sweep_one tz env w now) (list_schedules (m_store m)) m"

definition roll_one :: "(string \<Rightarrow> location option) \<Rightarrow> bool \<Rightarrow> int \<Rightarrow> schedule \<Rightarrow> machine \<Rightarrow> machine" where
  "roll_one tz w now sc m =
     (if now < sc_next sc then m
      else (case parse_schedule tz (sc_expr sc) (load_zone tz m) of
              Inl _ \<Rightarrow> m
            | Inr sp \<Rightarrow> (case next_run sp now of None \<Rightarrow> m | Some a \<Rightarrow> set_next w (sc_id sc) a m)))"

definition roll_forward :: "(string \<Rightarrow> location option) \<Rightarrow> bool \<Rightarrow> int \<Rightarrow> machine \<Rightarrow> machine" where
  "roll_forward tz w now m = fold (roll_one tz w now) (list_schedules (m_store m)) m"

section \<open>Creating and cancelling\<close>

datatype booking =
    Booked schedule bool
  | BadExpression parse_error
  | Refused string
  | NotSaved store_error
  | NoSuchAgent
  | MissingField

text \<open>\<^verbatim>\<open>CreateSchedule\<close>, the gated tool: the gate's answer is \<open>Some\<close> words when refused.\<close>

definition create_schedule ::
  "(string \<Rightarrow> location option) \<Rightarrow> string option \<Rightarrow> nat list \<Rightarrow> bool \<Rightarrow> int \<Rightarrow>
   string \<Rightarrow> string \<Rightarrow> string \<Rightarrow> string \<Rightarrow> machine \<Rightarrow> booking \<times> machine" where
  "create_schedule tz gate draws w now self nm whn task m =
     (case plan_schedule tz whn (load_zone tz m) now of
        Inl e \<Rightarrow> (BadExpression e, m)
      | Inr (sp, expr, a) \<Rightarrow>
          (case gate of
             Some words \<Rightarrow> (Refused words, m)
           | None \<Rightarrow>
              (case add_schedule draws w
                 \<lparr>sc_id = [], sc_name = nm, sc_agent = self, sc_task = task, sc_expr = expr,
                  sc_next = a, sc_last = None, sc_fires = 0, sc_enabled = False\<rparr> (m_store m) of
                 (Inl e, s) \<Rightarrow> (NotSaved e, m\<lparr>m_store := s\<rparr>)
               | (Inr sc, s) \<Rightarrow> (Booked sc (sp_once sp), m\<lparr>m_store := s\<rparr>))))"

definition handle_create_schedule ::
  "(string \<Rightarrow> location option) \<Rightarrow> (string \<Rightarrow> bool) \<Rightarrow> nat list \<Rightarrow> bool \<Rightarrow> int \<Rightarrow>
   string \<Rightarrow> string \<Rightarrow> string \<Rightarrow> string \<Rightarrow> machine \<Rightarrow> booking \<times> machine" where
  "handle_create_schedule tz known draws w now nm agent task expr m =
     (let who = (if agent = [] then ''boss'' else agent) in
      if nm = [] \<or> task = [] \<or> expr = [] then (MissingField, m)
      else if \<not> known who then (NoSuchAgent, m)
      else create_schedule tz None draws w now who nm expr task m)"

datatype cancel_result = Cancelled | NoSchedule | StillScheduled store_error

definition cancel_schedule :: "bool \<Rightarrow> string \<Rightarrow> string \<Rightarrow> machine \<Rightarrow> cancel_result \<times> machine" where
  "cancel_schedule w self i m =
     (if owner i (m_store m) \<noteq> Some self then (NoSchedule, m)
      else (case delete_schedule w i (m_store m) of
              (Inl e, s) \<Rightarrow> (StillScheduled e, m\<lparr>m_store := s\<rparr>)
            | (Inr deleted, s) \<Rightarrow> (if deleted then Cancelled else NoSchedule, m\<lparr>m_store := s\<rparr>)))"

definition handle_delete_schedule :: "bool \<Rightarrow> string \<Rightarrow> machine \<Rightarrow> cancel_result \<times> machine" where
  "handle_delete_schedule w i m =
     (case delete_schedule w i (m_store m) of
        (Inl e, s) \<Rightarrow> (StillScheduled e, m\<lparr>m_store := s\<rparr>)
      | (Inr deleted, s) \<Rightarrow> (if deleted then Cancelled else NoSchedule, m\<lparr>m_store := s\<rparr>))"

definition render_schedules :: "location \<Rightarrow> (int \<Rightarrow> string) \<Rightarrow> string \<Rightarrow> schedule list \<Rightarrow> string" where
  "render_schedules loc stamp self scs =
     (let out = List.map (\<lambda>sc. sc_id sc @ '' '' @ sc_name sc @ '' ('' @ sc_expr sc @ '') next '' @ stamp (sc_next sc) @
                   (if sc_enabled sc then [] else '' [off]''))
                 (filter (\<lambda>sc. sc_agent sc = self) scs)
      in if out = [] then ''You have no scheduled jobs.'' else join_with [CHR 0x0A] out)"

end
