(* ===== verification/GuestFiles.thy ===== *)
theory GuestFiles
  imports GuestApi FileTools ScheduleRun AppPolicy
begin

text \<open>
  The daemon's handlers about the machine (\<^verbatim>\<open>routes_person.go\<close>, \<^verbatim>\<open>routes_apps.go\<close>,
  \<^verbatim>\<open>routes_files.go\<close>, \<^verbatim>\<open>person.go\<close>): who it works for and where they are, the session it dials, the
  files that come in and go out. A write of a file is an outcome of the environment; so is what the disk has at a path.
\<close>

section \<open>Files as the handlers write them\<close>

text \<open>\<^verbatim>\<open>os.WriteFile\<close>: not opened, or truncated and then written whole or in part.\<close>

definition write_file :: "write_outcome \<Rightarrow> string \<Rightarrow> string option \<Rightarrow> bool \<times> string option" where
  "write_file o1 new old =
     (case o1 of NotOpened \<Rightarrow> (False, old) | WrittenAll \<Rightarrow> (True, Some new) | WrittenOnly n \<Rightarrow> (False, Some (take n new)))"

text \<open>
  \<^verbatim>\<open>readCapped\<close> of \<^verbatim>\<open>prompt.go\<close>: trimmed, cut back to a whole character of valid UTF-8, and said to be cut.
\<close>

definition is_tail_byte :: "char \<Rightarrow> bool" where
  "is_tail_byte c \<longleftrightarrow> 128 \<le> (of_char c :: nat) \<and> (of_char c :: nat) < 192"

fun rune_cut :: "string \<Rightarrow> nat \<Rightarrow> nat" where
  "rune_cut s 0 = 0"
| "rune_cut s (Suc n) = (if Suc n < length s \<and> is_tail_byte (s ! Suc n) then rune_cut s n else Suc n)"

definition read_capped :: "nat \<Rightarrow> string option \<Rightarrow> string" where
  "read_capped budget file =
     (case file of
        None \<Rightarrow> []
      | Some buf \<Rightarrow>
          (let body = trim_with is_space buf in
           if length body \<le> budget then body
           else take (rune_cut body budget) body @ [newline] @ ''[truncated: shorten this file, it is over the budget]''))"

section \<open>The person\<close>

record person_req =
  pq_name :: string
  pq_work :: string
  pq_notes :: string
  pq_tz :: string
  pq_country :: string

text \<open>The files of the machine: the profile, the country, and with its clock and schedules the zone.\<close>

record home =
  hm_machine :: machine
  hm_person :: "string option"
  hm_country :: "string option"

definition person_cap :: nat where "person_cap = 16000"

definition read_person :: "home \<Rightarrow> string" where
  "read_person h = read_capped person_cap (hm_person h)"

definition render_person :: "person_req \<Rightarrow> string" where
  "render_person p =
     join_with [newline]
       ([''# '' @ or_default (pq_name p) ''The person'', []] @
        (if pq_name p \<noteq> [] then [''- They go by **'' @ pq_name p @ ''**. Call them that.''] else []) @
        (if pq_work p \<noteq> [] then [''- What they do: '' @ pq_work p] else []) @
        [[], ''## What we have learned'', []] @
        (if pq_notes p \<noteq> [] then [pq_notes p] else [])) @ [newline]"

definition write_person :: "write_outcome \<Rightarrow> person_req \<Rightarrow> home \<Rightarrow> bool \<times> home" where
  "write_person o1 p h = (case write_file o1 (render_person p) (hm_person h) of (fine, f) \<Rightarrow> (fine, h\<lparr>hm_person := f\<rparr>))"

text \<open>One more fact, on a line of its own, dated; appended, so what is there stays.\<close>

definition append_about_person :: "location \<Rightarrow> write_outcome \<Rightarrow> int \<Rightarrow> string \<Rightarrow> string \<Rightarrow> home \<Rightarrow> bool \<times> home" where
  "append_about_person loc o1 now learned who h =
     (if trim_with is_space learned = [] then (True, h)
      else (let line = ''- '' @ trim_with is_space learned @ '' _('' @ who @ '', '' @ date_of loc now @ '')_'' @ [newline];
                old = (case hm_person h of Some s \<Rightarrow> s | None \<Rightarrow> []) in
        case o1 of
          NotOpened \<Rightarrow> (False, h)
        | WrittenAll \<Rightarrow> (True, h\<lparr>hm_person := Some (old @ line)\<rparr>)
        | WrittenOnly n \<Rightarrow> (False, h\<lparr>hm_person := Some (old @ take n line)\<rparr>)))"

definition valid_country :: "string \<Rightarrow> bool" where
  "valid_country c \<longleftrightarrow> length c = 2 \<and> list_all (\<lambda>x. 65 \<le> (of_char x :: nat) \<and> (of_char x :: nat) \<le> 90) c"

definition read_state_file :: "string option \<Rightarrow> string" where
  "read_state_file f = (case f of None \<Rightarrow> [] | Some s \<Rightarrow> trim_with is_space s)"

definition store_state_file :: "write_outcome \<Rightarrow> string \<Rightarrow> string option \<Rightarrow> bool \<times> string option" where
  "store_state_file o1 v f = (if v = read_state_file f then (False, f) else write_file o1 v f)"

definition remember_country :: "write_outcome \<Rightarrow> string \<Rightarrow> home \<Rightarrow> bool \<times> home" where
  "remember_country o1 c h =
     (if \<not> valid_country c then (False, h)
      else (case store_state_file o1 c (hm_country h) of (put, f) \<Rightarrow> (put, h\<lparr>hm_country := f\<rparr>)))"

definition where_they_are :: "home \<Rightarrow> string" where
  "where_they_are h =
     (if read_state_file (hm_country h) \<noteq> [] then ''- Country: '' @ read_state_file (hm_country h) @ [newline]
      else if read_zone_file (hm_machine h) \<noteq> [] then ''- Their clock is '' @ read_zone_file (hm_machine h) @ ''.'' @ [newline]
      else [])"

definition render_person_section :: "home \<Rightarrow> string" where
  "render_person_section h =
     (if read_person h = [] then []
      else ''## About the person you work for'' @ blank_line @ read_person h @ where_they_are h @ [newline] @
        ''When you learn something durable about them, record it with '' @
        ''remember_about_person. Passing preferences for one task are not worth keeping.'')"

definition only_machine_state :: "person_req \<Rightarrow> bool" where
  "only_machine_state p \<longleftrightarrow> (pq_tz p \<noteq> [] \<or> pq_country p \<noteq> []) \<and> pq_name p = [] \<and> pq_work p = [] \<and> pq_notes p = []"

text \<open>What \<^verbatim>\<open>GET /person\<close> answers: the notes, whether there are any, the zone, the country.\<close>

definition get_person :: "home \<Rightarrow> string \<times> bool \<times> string \<times> string" where
  "get_person h =
     (read_person h, read_person h \<noteq> [], read_zone_file (hm_machine h), read_state_file (hm_country h))"

text \<open>
  \<^verbatim>\<open>PUT /person\<close>: the status, whether the idle agents are put away, and the machine. The outcomes are of writing the
  profile, the zone, the schedules and the country.
\<close>

definition put_person ::
  "(string \<Rightarrow> location option) \<Rightarrow> write_outcome \<Rightarrow> bool \<Rightarrow> bool \<Rightarrow> write_outcome \<Rightarrow> int \<Rightarrow> person_req option \<Rightarrow> home \<Rightarrow> int \<times> bool \<times> home" where
  "put_person tz po zo so co now body h =
     (case body of
        None \<Rightarrow> (400, False, h)
      | Some p \<Rightarrow>
          if pq_tz p \<noteq> [] \<and> \<not> valid_zone tz (pq_tz p) then (400, False, h)
          else if pq_country p \<noteq> [] \<and> \<not> valid_country (pq_country p) then (400, False, h)
          else
            (let writes = \<not> only_machine_state p \<or> read_person h = [];
                 fh = (if writes then write_person po p h else (True, h)) in
             if \<not> fst fh then (500, False, snd fh)
             else (case remember_zone tz zo so now (pq_tz p) (hm_machine (snd fh)) of
                     (moved, m) \<Rightarrow>
                       (case remember_country co (pq_country p) ((snd fh)\<lparr>hm_machine := m\<rparr>) of
                          (placed, h2) \<Rightarrow> (204, writes \<or> moved \<or> placed, h2)))))"

section \<open>The session\<close>

record apps_push =
  au_url :: string
  au_session :: string
  au_actions :: "(string \<times> string) list"

definition no_push :: apps_push where
  "no_push = \<lparr>au_url = [], au_session = [], au_actions = []\<rparr>"

text \<open>
  \<open>parse\<close> is \<^verbatim>\<open>url.Parse\<close> as far as it is used: scheme, host with its port, host name. \<open>private\<close> says of a host whether
  \<^verbatim>\<open>netip\<close> reads it as a private or loopback address.
\<close>

definition valid_session_url :: "(string \<Rightarrow> (string \<times> string \<times> string) option) \<Rightarrow> (string \<Rightarrow> bool) \<Rightarrow> string \<Rightarrow> bool" where
  "valid_session_url parse private raw =
     (raw = [] \<or>
      (case parse raw of
         None \<Rightarrow> False
       | Some (scheme, host, name) \<Rightarrow> host \<noteq> [] \<and> (scheme = ''https'' \<or> scheme = ''http'' \<and> private name)))"

definition surface_changed :: "apps_push \<Rightarrow> apps_push \<Rightarrow> bool" where
  "surface_changed had now \<longleftrightarrow> (au_url had = []) \<noteq> (au_url now = []) \<or> au_session had \<noteq> au_session now"

record apps_home =
  ah_file :: apps_push
  ah_server :: apps_server

definition apply_apps :: "apps_push \<Rightarrow> apps_push \<Rightarrow> apps_home \<Rightarrow> bool \<times> apps_home" where
  "apply_apps had now a =
     (surface_changed had now, a\<lparr>ah_server := set_config (au_url now) (au_actions now) (ah_server a)\<rparr>)"

text \<open>\<^verbatim>\<open>PUT /apps\<close>: the status, whether the idle agents are put away; \<open>wrote\<close> is whether the file was replaced.\<close>

definition put_apps ::
  "(string \<Rightarrow> (string \<times> string \<times> string) option) \<Rightarrow> (string \<Rightarrow> bool) \<Rightarrow> bool \<Rightarrow> apps_push option \<Rightarrow> apps_home \<Rightarrow> int \<times> bool \<times> apps_home" where
  "put_apps parse private wrote body a =
     (case body of
        None \<Rightarrow> (400, False, a)
      | Some p \<Rightarrow>
          if \<not> valid_session_url parse private (au_url p) then (400, False, a)
          else if \<not> wrote then (500, False, a)
          else (case apply_apps (ah_file a) p (a\<lparr>ah_file := p\<rparr>) of (evict, b) \<Rightarrow> (204, evict, b)))"

section \<open>Names\<close>

text \<open>\<^verbatim>\<open>filepath.Base\<close>, \<^verbatim>\<open>filepath.Ext\<close>.\<close>

definition base_name :: "string \<Rightarrow> string" where
  "base_name p =
     (if p = [] then ''.''
      else (let q = rev (dropWhile (\<lambda>c. c = CHR ''/'') (rev p)); b = List.last (split_on CHR ''/'' q) in
            if b = [] then ''/'' else b))"

definition ext_of :: "string \<Rightarrow> string" where
  "ext_of p =
     (let r = takeWhile (\<lambda>c. c \<noteq> CHR ''.'' \<and> c \<noteq> CHR ''/'') (rev p) in
      case drop (length r) (rev p) of
        c # _ \<Rightarrow> if c = CHR ''.'' then CHR ''.'' # rev r else []
      | [] \<Rightarrow> [])"

text \<open>Of valid UTF-8: a character that is not a byte of the alphabet is one dash.\<close>

definition safe_byte :: "char \<Rightarrow> bool" where
  "safe_byte c \<longleftrightarrow> is_alnum c \<or> c \<in> set ''.-_''"

definition trimmed_name :: "string \<Rightarrow> string" where
  "trimmed_name n = (if n = [] then ''file'' else take 120 n)"

definition safe_name :: "string \<Rightarrow> string" where
  "safe_name n =
     (let b = base_name (List.map (\<lambda>c. if c = CHR 92 then CHR ''/'' else c) n);
          s = List.map_filter (\<lambda>c. if safe_byte c then Some c else if is_tail_byte c then None else Some CHR ''-'') b in
      trimmed_name (trim_with (\<lambda>c. c \<in> set ''.-'') s))"

section \<open>Files in\<close>

definition max_upload :: nat where "max_upload = 20 * 1024 * 1024"

definition uploads_dir :: "string \<Rightarrow> string" where
  "uploads_dir ws = join_path ws ''uploads''"

text \<open>
  The files under the workspace, by path. \<open>made\<close> and \<open>opened\<close>: the folder was there or made, the file opened;
  \<open>arrived\<close> is what came of the body before it ended or broke, \<open>whole\<close> whether it ended; \<open>unlinked\<close> whether a file too
  large could be removed.
\<close>

definition save_upload ::
  "location \<Rightarrow> bool \<Rightarrow> bool \<Rightarrow> string \<Rightarrow> bool \<Rightarrow> bool \<Rightarrow> int \<Rightarrow> string \<Rightarrow> string \<Rightarrow> (string \<rightharpoonup> string) \<Rightarrow> sent_file option \<times> (string \<rightharpoonup> string)" where
  "save_upload loc made opened arrived whole unlinked now ws name files =
     (let clean = date_of loc now @ ''-'' @ safe_name name; path = join_path (uploads_dir ws) clean;
          kept = take (max_upload + 1) arrived; f1 = files(path \<mapsto> kept) in
      if \<not> made \<or> \<not> opened then (None, files)
      else if \<not> whole \<and> length arrived \<le> max_upload then (None, f1)
      else if length kept > max_upload then (None, if unlinked then f1(path := None) else f1)
      else (Some \<lparr>sf_name = clean, sf_path = path, sf_size = int (length kept)\<rparr>, f1))"

text \<open>\<open>part\<close> is the part of the form named \<open>file\<close>, if there is one: its name.\<close>

definition handle_upload ::
  "location \<Rightarrow> bool \<Rightarrow> bool \<Rightarrow> string \<Rightarrow> bool \<Rightarrow> bool \<Rightarrow> int \<Rightarrow> string \<Rightarrow> string option \<Rightarrow> (string \<rightharpoonup> string) \<Rightarrow> (int \<times> sent_file option) \<times> (string \<rightharpoonup> string)" where
  "handle_upload loc made opened arrived whole unlinked now ws part files =
     (case part of
        None \<Rightarrow> ((400, None), files)
      | Some name \<Rightarrow>
          (case save_upload loc made opened arrived whole unlinked now ws name files of
             (None, f) \<Rightarrow> ((500, None), f)
           | (Some sf, f) \<Rightarrow> ((201, Some sf), f)))"

section \<open>Files out\<close>

definition dir_for :: "string \<Rightarrow> string \<Rightarrow> string" where
  "dir_for state i = join_path (join_path state ''agents'') i"

definition shots_dir :: "string \<Rightarrow> string" where
  "shots_dir d = join_path d ''shots''"

definition outbox_dir :: "string \<Rightarrow> string" where
  "outbox_dir d = (if d = [] then [] else join_path d ''outbox'')"

definition attachment_images :: "(string \<times> string) list" where
  "attachment_images =
     [(''.png'', ''image/png''), (''.jpg'', ''image/jpeg''), (''.jpeg'', ''image/jpeg''), (''.gif'', ''image/gif''), (''.webp'', ''image/webp'')]"

definition attachment_mime :: "string \<Rightarrow> string \<times> bool" where
  "attachment_mime name =
     (case map_of attachment_images (List.map to_lower (ext_of name)) of
        Some t \<Rightarrow> (t, True)
      | None \<Rightarrow> (''application/octet-stream'', False))"

text \<open>\<^verbatim>\<open>http.ServeFile\<close> serves no request whose path, read back, has a \<^verbatim>\<open>..\<close> in it.\<close>

definition has_dotdot :: "string \<Rightarrow> bool" where
  "has_dotdot p \<longleftrightarrow> list_ex (\<lambda>w. ''..'' \<in> set (split_on CHR 92 w)) (split_on CHR ''/'' p)"

datatype served = ServedFile string string bool | NotServed int

text \<open>\<open>there\<close> is what \<^verbatim>\<open>os.Stat\<close> finds; \<open>i\<close> and \<open>name\<close> are the wildcards of the route.\<close>

definition handle_shot :: "(string \<Rightarrow> bool) \<Rightarrow> string \<Rightarrow> string \<Rightarrow> string \<Rightarrow> served" where
  "handle_shot there state i name =
     (let n = base_name name; path = join_path (shots_dir (dir_for state i)) n in
      if ext_of n \<noteq> ''.png'' then NotServed 400
      else if \<not> there path then NotServed 404
      else if has_dotdot (''/agents/'' @ i @ ''/shots/'' @ name) then NotServed 400
      else ServedFile path ''image/png'' False)"

text \<open>The last part of the answer is whether the browser is told to save the file rather than show it.\<close>

definition handle_attachment :: "(string \<Rightarrow> bool) \<Rightarrow> string \<Rightarrow> string \<Rightarrow> string \<Rightarrow> served" where
  "handle_attachment there state i name =
     (let n = base_name name; path = join_path (outbox_dir (dir_for state i)) n in
      if \<not> there path then NotServed 404
      else if has_dotdot (''/agents/'' @ i @ ''/outbox/'' @ name) then NotServed 400
      else (case attachment_mime n of (t, pic) \<Rightarrow> ServedFile path t (\<not> pic)))"

end
