(* ===== verification/Numbered.thy ===== *)
theory Numbered
  imports GuestFiles
begin

text \<open>
  The two folders an agent numbers its files in: what it has sent the person (\<^verbatim>\<open>outbox.go\<close>, \<^verbatim>\<open>tools_send.go\<close>)
  and the page snapshots it spilled (\<^verbatim>\<open>snapshot_store.go\<close>). Both hand out numbers from memory, take them up again from the
  disk after a restart, and name a file by its number; one keeps everything, the other the newest twenty. A folder is its files, newest
  write of a name first or in place.
\<close>

section \<open>A folder of numbered files\<close>

record shelf =
  sh_seq :: i64
  sh_files :: "(string \<times> string) list"

text \<open>\<^verbatim>\<open>fmt.Sprintf("%04d", n)\<close>.\<close>

definition pad4 :: "int \<Rightarrow> string" where
  "pad4 n = (if n < 0 then CHR ''-'' # pad_left 3 (dec (nat (- n))) else pad_left 4 (dec (nat n)))"

definition highest_seq :: "(string \<Rightarrow> int) \<Rightarrow> string list \<Rightarrow> int" where
  "highest_seq number_of names = foldl (\<lambda>high w. if number_of w > high then number_of w else high) 0 names"

text \<open>Opening the folder, which may not be readable, takes the numbering up where the files leave it.\<close>

definition open_shelf :: "(string \<Rightarrow> int) \<Rightarrow> bool \<Rightarrow> (string \<times> string) list \<Rightarrow> shelf" where
  "open_shelf number_of readable files =
     \<lparr>sh_seq = of_int (if readable then highest_seq number_of (List.map fst files) else 0), sh_files = files\<rparr>"

definition next_number :: "shelf \<Rightarrow> int \<times> shelf" where
  "next_number s = (let n = sh_seq s + 1 in (sint n, s\<lparr>sh_seq := n\<rparr>))"

definition put_on :: "string \<Rightarrow> string \<Rightarrow> shelf \<Rightarrow> shelf" where
  "put_on name bytes s = s\<lparr>sh_files := AList.update name bytes (sh_files s)\<rparr>"

definition take_off :: "string \<Rightarrow> shelf \<Rightarrow> shelf" where
  "take_off name s = s\<lparr>sh_files := AList.delete name (sh_files s)\<rparr>"

section \<open>What was sent\<close>

text \<open>The prefix \<^verbatim>\<open>^(\d{4,})-\<close> of a name: its digits and what follows the dash. A number out of range is the largest there is.\<close>

definition attachment_prefix :: "string \<Rightarrow> (string \<times> string) option" where
  "attachment_prefix name =
     (let ds = takeWhile is_digit name in
      if length ds < 4 then None
      else (case drop (length ds) name of
              c # rest \<Rightarrow> if c = CHR ''-'' then Some (ds, rest) else None
            | [] \<Rightarrow> None))"

definition attachment_seq :: "string \<Rightarrow> int" where
  "attachment_seq name = (case attachment_prefix name of None \<Rightarrow> 0 | Some (ds, rest) \<Rightarrow> fst (atoi_clamped ds))"

definition readable_name :: "string \<Rightarrow> string" where
  "readable_name name = (case attachment_prefix name of None \<Rightarrow> name | Some (ds, rest) \<Rightarrow> rest)"

definition outbox_name :: "int \<Rightarrow> string \<Rightarrow> string" where
  "outbox_name n label = pad4 n @ ''-'' @ label"

text \<open>\<open>dir\<close> is the outbox's folder, empty on an agent without one; \<open>made\<close> whether it was there or made.\<close>

definition reserve :: "string \<Rightarrow> bool \<Rightarrow> string \<Rightarrow> shelf \<Rightarrow> (int \<times> string) option \<times> shelf" where
  "reserve dir made label s =
     (if dir = [] \<or> \<not> made then (None, s)
      else (case next_number s of (n, s1) \<Rightarrow> (Some (n, outbox_name n label), s1)))"

datatype stat_result = StatFails | StatFolder | StatOdd | StatFile int

definition check_sendable ::
  "string option \<Rightarrow> roots \<Rightarrow> (string \<Rightarrow> stat_result) \<Rightarrow> string \<Rightarrow> string option" where
  "check_sendable wd r stat path =
     (case resolve_read wd r path of
        Inl _ \<Rightarrow> None
      | Inr full \<Rightarrow> (case stat full of StatFile k \<Rightarrow> if k > int max_upload then None else Some full | _ \<Rightarrow> None))"

text \<open>
  The copy: the bytes the source had while it was read, none if it could not be opened; whether the copy could be opened; how much was
  copied if it broke off; whether it closed. What it answers is the size, and what is left on the disk.
\<close>

record copying =
  cp_source :: "string option"
  cp_opened :: bool
  cp_broke :: "nat option"
  cp_closed :: bool

definition copy_file :: "copying \<Rightarrow> nat option \<times> string option" where
  "copy_file c =
     (case cp_source c of
        None \<Rightarrow> (None, None)
      | Some src \<Rightarrow>
          if \<not> cp_opened c then (None, None)
          else (case cp_broke c of
                  Some n \<Rightarrow> (None, Some (take n src))
                | None \<Rightarrow>
                    (let kept = take (max_upload + 1) src in
                     (if length kept > max_upload \<or> \<not> cp_closed c then None else Some (length kept), Some kept))))"

definition announced :: "int \<Rightarrow> string \<Rightarrow> nat \<Rightarrow> string \<Rightarrow> attachment" where
  "announced n name k thumb =
     \<lparr>at_seq = n, at_name = name, at_display = readable_name name,
      at_kind = (if snd (attachment_mime name) then ''image'' else ''file''), at_size = int k, at_thumb = thumb\<rparr>"

datatype sent = NotSent | Sent attachment

text \<open>A copy that failed is removed, if it can be.\<close>

definition send_file ::
  "string option \<Rightarrow> roots \<Rightarrow> (string \<Rightarrow> stat_result) \<Rightarrow> string \<Rightarrow> bool \<Rightarrow> copying \<Rightarrow> bool \<Rightarrow> string \<Rightarrow> shelf \<Rightarrow> sent \<times> shelf" where
  "send_file wd r stat dir made c unlinked path s =
     (case check_sendable wd r stat path of
        None \<Rightarrow> (NotSent, s)
      | Some full \<Rightarrow>
          (case reserve dir made (safe_name (base_name full)) s of
             (None, s1) \<Rightarrow> (NotSent, s1)
           | (Some (n, name), s1) \<Rightarrow>
               (case copy_file c of
                  (Some k, Some bytes) \<Rightarrow> (Sent (announced n name k []), put_on name bytes s1)
                | (_, left) \<Rightarrow>
                    (NotSent, (case left of Some bytes \<Rightarrow> if unlinked then s1 else put_on name bytes s1 | None \<Rightarrow> s1)))))"

text \<open>\<^verbatim>\<open>scrot\<close>: the picture and, when it wrote one, the thumbnail beside it; a capture that failed leaves neither.\<close>

definition thumb_name :: "string \<Rightarrow> string" where
  "thumb_name name = take (length name - length (ext_of name)) name @ ''-thumb'' @ ext_of name"

definition send_screenshot :: "string \<Rightarrow> bool \<Rightarrow> (string \<times> string option) option \<Rightarrow> shelf \<Rightarrow> sent \<times> shelf" where
  "send_screenshot dir made shot s =
     (case reserve dir made ''screen.png'' s of
        (None, s1) \<Rightarrow> (NotSent, s1)
      | (Some (n, name), s1) \<Rightarrow>
          (case shot of
             None \<Rightarrow> (NotSent, take_off (thumb_name name) (take_off name s1))
           | Some (bytes, None) \<Rightarrow> (Sent (announced n name (length bytes) []), put_on name bytes s1)
           | Some (bytes, Some thumb) \<Rightarrow>
               (Sent (announced n name (length bytes) (thumb_name name)), put_on (thumb_name name) thumb (put_on name bytes s1))))"

section \<open>Spilled snapshots\<close>

definition snapshot_passthrough :: nat where "snapshot_passthrough = 2 * 1024"
definition snapshot_inline_cap :: nat where "snapshot_inline_cap = 16 * 1024"
definition snapshot_keep :: nat where "snapshot_keep = 20"

definition snap_name :: "int \<Rightarrow> string" where
  "snap_name n = ''snap-'' @ pad4 n @ ''.txt''"

text \<open>\<^verbatim>\<open>^snap-(\d{4,})\.txt$\<close>\<close>

definition snap_seq :: "string \<Rightarrow> int" where
  "snap_seq name =
     (let ds = takeWhile is_digit (drop 5 name) in
      if take 5 name = ''snap-'' \<and> length ds \<ge> 4 \<and> drop (5 + length ds) name = ''.txt'' then fst (atoi_clamped ds) else 0)"

definition rotate_snaps :: "shelf \<Rightarrow> shelf" where
  "rotate_snaps s =
     (let seqs = filter (\<lambda>n. n > 0) (List.map (snap_seq \<circ> fst) (sh_files s)) in
      if length seqs \<le> snapshot_keep then s
      else fold (\<lambda>n. take_off (snap_name n)) (drop snapshot_keep (rev (sort seqs))) s)"

text \<open>\<open>o1\<close> is the outcome of writing the file.\<close>

definition write_snapshot :: "string \<Rightarrow> write_outcome \<Rightarrow> string \<Rightarrow> shelf \<Rightarrow> string option \<times> shelf" where
  "write_snapshot dir o1 full s =
     (case next_number s of
        (n, s1) \<Rightarrow>
          (case o1 of
             WrittenAll \<Rightarrow> (Some (join_path dir (snap_name n)), rotate_snaps (put_on (snap_name n) full s1))
           | WrittenOnly k \<Rightarrow> (None, put_on (snap_name n) (take k full) s1)
           | NotOpened \<Rightarrow> (None, s1)))"

definition last_newline :: "string \<Rightarrow> nat option" where
  "last_newline s = (let r = dropWhile (\<lambda>c. c \<noteq> newline) (rev s) in if r = [] then None else Some (length r - 1))"

definition trim_snapshot :: "string \<Rightarrow> string \<Rightarrow> string" where
  "trim_snapshot full path =
     (if length full \<le> snapshot_inline_cap then full @ blank_line @ ''[full snapshot: '' @ path @ '']''
      else (let cut1 = take snapshot_inline_cap full;
                kept = (case last_newline cut1 of Some i \<Rightarrow> if i > 0 then take i cut1 else cut1 | None \<Rightarrow> cut1) in
        kept @ blank_line @ ''[snapshot truncated here]'' @ [newline] @ ''[full snapshot: '' @ path @
          '' - use Read or Grep on it to see the rest]''))"

text \<open>What the model sees, and whether the full text could be kept.\<close>

definition digest :: "string \<Rightarrow> write_outcome \<Rightarrow> string \<Rightarrow> shelf \<Rightarrow> (string \<times> bool) \<times> shelf" where
  "digest dir o1 full s =
     (if length full \<le> snapshot_passthrough then ((full, True), s)
      else (case write_snapshot dir o1 full s of
              (None, s1) \<Rightarrow> ((cap_text_at full (int snapshot_inline_cap), False), s1)
            | (Some path, s1) \<Rightarrow> ((trim_snapshot full path, True), s1)))"

end
