(* ===== verification/GuestFilesProps.thy ===== *)
theory GuestFilesProps
  imports GuestFiles FileToolsProps
begin

text \<open>
  What the machine's routes promise: moving a clock does not forget a person, a name from outside stays in the folder it is for, nothing
  is served from outside an agent's state. And what they do not: a second file of a name replaces the first.
\<close>

section \<open>Paths without a way up\<close>

definition steps_in :: "string \<Rightarrow> string list" where
  "steps_in b = filter (\<lambda>c. c \<noteq> [] \<and> c \<noteq> ''.'') (split_on CHR ''/'' b)"

lemma push_down:
  "''..'' \<notin> set cs \<Longrightarrow> foldl (push_elem r) acc cs = rev (filter (\<lambda>c. c \<noteq> [] \<and> c \<noteq> ''.'') cs) @ acc"
  by (induction cs arbitrary: acc) (auto simp: push_elem.simps)

lemma split_on_sep: "split_on sep (a @ sep # b) = split_on sep a @ split_on sep b"
  by (induction a) (auto split: list.splits)

lemma path_elems_join:
  assumes "is_abs a" "''..'' \<notin> set (split_on CHR ''/'' b)" "b \<noteq> []"
  shows "path_elems (join_path a b) = path_elems a @ steps_in b" "clean_abs (join_path a b)"
proof -
  have j: "join_path a b = clean_path (a @ ''/'' @ b)" using assms by (auto simp: join_path_def is_abs_def)
  have abs: "is_abs (a @ ''/'' @ b)" using assms(1) by (auto simp: is_abs_def)
  have "path_elems (a @ ''/'' @ b) = path_elems a @ steps_in b"
    using abs assms(1) push_down [OF assms(2), of True "foldl (push_elem True) [] (split_on CHR ''/'' a)"]
    by (simp add: path_elems_def split_on_sep steps_in_def)
  then show "path_elems (join_path a b) = path_elems a @ steps_in b" "clean_abs (join_path a b)"
    using clean_path_abs [OF abs] j by simp_all
qed

lemma steps_plain: "plain_elem b \<Longrightarrow> steps_in b = [b] \<and> ''..'' \<notin> set (split_on CHR ''/'' b) \<and> b \<noteq> []"
  by (auto simp: steps_in_def split_on_plain plain_elem_def)

lemma join_plain:
  assumes "is_abs a" "plain_elem b"
  shows "path_elems (join_path a b) = path_elems a @ [b]" "is_abs (join_path a b)" "clean_abs (join_path a b)"
  using path_elems_join [OF assms(1), of b] steps_plain [OF assms(2)] clean_abs_starts by auto

section \<open>Names from outside\<close>

lemma trim_with_ends: "trim_with p s \<noteq> [] \<Longrightarrow> \<not> p (hd (trim_with p s))"
proof -
  assume ne: "trim_with p s \<noteq> []"
  let ?t = "dropWhile p s"
  have "?t \<noteq> []"
  proof
    assume "?t = []"
    then have "trim_with p s = []" unfolding trim_with_def by (simp only: rev.simps dropWhile.simps)
    with ne show False by simp
  qed
  have "prefix (trim_with p s) ?t"
    using suffix_dropWhile [of p "rev ?t"] by (simp add: trim_with_def suffix_to_prefix)
  with ne have "hd (trim_with p s) = hd ?t" by (metis hd_append2 prefixE)
  with \<open>?t \<noteq> []\<close> show ?thesis using hd_dropWhile [of p s] by simp
qed

lemma trim_with_set: "set (trim_with p s) \<subseteq> set s"
  by (auto simp: trim_with_def dest!: set_dropWhileD)

lemma safe_name_ok:
  "safe_name n \<noteq> []" "length (safe_name n) \<le> 120" "\<forall>c \<in> set (safe_name n). safe_byte c" "hd (safe_name n) \<notin> {CHR ''.'', CHR ''-''}"
proof -
  let ?b = "base_name (List.map (\<lambda>c. if c = CHR 92 then CHR ''/'' else c) n)"
  let ?f = "\<lambda>c. if safe_byte c then Some c else if is_tail_byte c then None else Some CHR ''-''"
  let ?t = "trim_with (\<lambda>c. c \<in> set ''.-'') (List.map_filter ?f ?b)"
  have n: "safe_name n = trimmed_name ?t" by (simp add: safe_name_def Let_def)
  have "\<forall>c \<in> set (List.map_filter ?f ?b). safe_byte c"
    by (auto simp: map_filter_def safe_byte_def split: if_splits)
  then have t: "\<forall>c \<in> set ?t. safe_byte c" using trim_with_set by blast
  show "safe_name n \<noteq> []" "length (safe_name n) \<le> 120" by (auto simp: n trimmed_name_def)
  show "\<forall>c \<in> set (safe_name n). safe_byte c"
    using t set_take_subset [of 120 ?t] by (auto simp: n trimmed_name_def safe_byte_def is_alnum_def)
  show "hd (safe_name n) \<notin> {CHR ''.'', CHR ''-''}"
    using trim_with_ends [of "\<lambda>c. c \<in> set ''.-''" "List.map_filter ?f ?b"] by (cases ?t) (auto simp: n trimmed_name_def)
qed

lemma idec_digits: "c \<in> set (idec n) \<Longrightarrow> is_digit c"
proof (induction n rule: idec.induct)
  case (1 n)
  then show ?case by (auto simp: idec.simps [of n] nat_less_iff split: if_splits)
qed

lemma pad_dec_no_slash: "CHR ''/'' \<notin> set (pad_dec w n)"
  using idec_digits [of "CHR ''/''"] by (auto simp: pad_dec_def pad_left_def is_digit_def)

lemma date_no_slash: "CHR ''/'' \<notin> set (date_of loc now)"
  by (auto simp: date_of_def format_date_def pad_dec_no_slash split: prod.splits)

lemma upload_name:
  "plain_elem (date_of loc now @ ''-'' @ safe_name n)"
proof -
  have "CHR ''/'' \<notin> set (safe_name n)" using safe_name_ok(3) [of n] by (auto simp: safe_byte_def is_alnum_def is_digit_def Let_def)
  moreover have "date_of loc now @ ''-'' @ safe_name n \<noteq> w" if "set w \<subseteq> {CHR ''.''}" for w
  proof
    assume "date_of loc now @ ''-'' @ safe_name n = w"
    then have "CHR ''-'' \<in> set w" by (metis in_set_conv_decomp append_Cons append_Nil)
    with that show False by auto
  qed
  from this [of "''.''"] this [of "''..''"] have "date_of loc now @ ''-'' @ safe_name n \<notin> {''.'', ''..''}" by simp
  ultimately show ?thesis using date_no_slash [of loc now] unfolding plain_elem_def by simp
qed

lemma upload_outcome:
  assumes "is_abs ws" "save_upload loc made opened arrived whole unlinked now ws name files = (r, f)"
  defines "clean \<equiv> date_of loc now @ ''-'' @ safe_name name"
  defines "path \<equiv> render_path True (path_elems ws @ [''uploads'', clean])"
  shows "r = None \<or> r = Some \<lparr>sf_name = clean, sf_path = path, sf_size = int (length arrived)\<rparr> \<and> f path = Some arrived \<and>
      length arrived \<le> max_upload" "q \<noteq> path \<Longrightarrow> f q = files q"
proof -
  have u: "plain_elem ''uploads''" by (simp add: plain_elem_def)
  have c: "plain_elem clean" unfolding clean_def by (rule upload_name)
  have p: "join_path (uploads_dir ws) clean = path"
    using join_plain [OF join_plain(2) [OF assms(1) u] c] join_plain(1) [OF assms(1) u] c
    by (simp add: uploads_dir_def path_def clean_abs_def)
  have t: "take (max_upload + 1) arrived = arrived" if "length (take (max_upload + 1) arrived) \<le> max_upload"
    using that by (cases "length arrived \<le> max_upload + 1") auto
  note s = assms(2) [unfolded save_upload_def Let_def, folded clean_def, unfolded p]
  show "r = None \<or> r = Some \<lparr>sf_name = clean, sf_path = path, sf_size = int (length arrived)\<rparr> \<and> f path = Some arrived \<and>
      length arrived \<le> max_upload" using s t by (auto split: if_splits)
  show "f q = files q" if "q \<noteq> path" using s that by (auto split: if_splits)
qed



text \<open>
  But a name is used again: two files sent on one day whose names come to the same (a phone calls every picture the same) are one file, and
  the path a message already carries then leads to the later one.
\<close>

theorem second_upload_replaces:
  assumes "is_abs ws" "safe_name n1 = safe_name n2" "date_of loc t1 = date_of loc t2"
    and "save_upload loc m1 o1 a1 w1 u1 t1 ws n1 files = (Some sf1, f1)"
    and "save_upload loc m2 o2 a2 w2 u2 t2 ws n2 f1 = (Some sf2, f2)"
  shows "sf_path sf2 = sf_path sf1 \<and> f1 (sf_path sf1) = Some a1 \<and> f2 (sf_path sf1) = Some a2"
  using upload_outcome(1) [OF assms(1,4)] upload_outcome(1) [OF assms(1,5)] assms(2,3) by auto

lemma upload_taken:
  "length arrived \<le> max_upload \<Longrightarrow>
   \<exists>sf f. save_upload loc True True arrived True True now ws name files = (Some sf, f)"
  by (simp add: save_upload_def Let_def)

theorem second_upload_replaces_witness:
  "\<exists>sf f g. save_upload utc True True ''a'' True True 0 ''/work'' ''my photo.jpg'' Map.empty = (Some sf, f) \<and>
     save_upload utc True True ''b'' True True 0 ''/work'' ''my-photo.jpg'' f = (Some sf, g) \<and> g (sf_path sf) = Some ''b''"
proof -
  have l: "length ''a'' \<le> max_upload" "length ''b'' \<le> max_upload" by (simp_all add: max_upload_def)
  obtain sf1 f where f: "save_upload utc True True ''a'' True True 0 ''/work'' ''my photo.jpg'' Map.empty = (Some sf1, f)"
    using upload_taken [OF l(1)] by blast
  obtain sf2 g where g: "save_upload utc True True ''b'' True True 0 ''/work'' ''my-photo.jpg'' f = (Some sf2, g)"
    using upload_taken [OF l(2)] by blast
  have w: "is_abs ''/work''" "safe_name ''my photo.jpg'' = safe_name ''my-photo.jpg''" by code_simp+
  from second_upload_replaces [OF w refl f g] have "sf_path sf2 = sf_path sf1" "g (sf_path sf1) = Some ''b''" by auto
  moreover have "sf2 = sf1"
    using upload_outcome(1) [OF w(1) f] upload_outcome(1) [OF w(1) g] w(2) by auto
  ultimately show ?thesis using f g by blast
qed

section \<open>What is served\<close>

lemma base_in: "base_name p \<in> {''.'', ''/''} \<union> set (split_on CHR ''/'' p)"
proof (cases "p = []")
  case False
  let ?q = "rev (dropWhile (\<lambda>c. c = CHR ''/'') (rev p))"
  have sp: "set (split_on CHR ''/'' ?q) \<subseteq> set (split_on CHR ''/'' p)"
  proof -
    obtain k where "p = ?q @ replicate k CHR ''/''"
    proof -
      have "rev p = takeWhile (\<lambda>c. c = CHR ''/'') (rev p) @ dropWhile (\<lambda>c. c = CHR ''/'') (rev p)" by simp
      then have "p = ?q @ rev (takeWhile (\<lambda>c. c = CHR ''/'') (rev p))" by (metis rev_append rev_rev_ident)
      moreover have "takeWhile (\<lambda>c. c = CHR ''/'') (rev p) = replicate (length (takeWhile (\<lambda>c. c = CHR ''/'') (rev p))) CHR ''/''"
        by (metis (full_types) replicate_length_same set_takeWhileD)
      ultimately show ?thesis using that by (metis rev_replicate)
    qed
    moreover have "set (split_on CHR ''/'' w) \<subseteq> set (split_on CHR ''/'' (w @ replicate k CHR ''/''))" for w k
    proof (cases k)
      case (Suc m)
      then show ?thesis by (simp add: split_on_sep)
    qed simp
    ultimately show ?thesis by metis
  qed
  have "List.last (split_on CHR ''/'' ?q) \<in> set (split_on CHR ''/'' ?q)" by (rule last_in_set) simp
  from subsetD [OF sp this] False show ?thesis by (simp add: base_name_def Let_def)
qed (simp add: base_name_def)

lemma dotdot_split:
  assumes "\<not> has_dotdot (''/agents/'' @ i @ CHR ''/'' # w @ CHR ''/'' # name)"
  shows "''..'' \<notin> set (split_on CHR ''/'' i)" "''..'' \<notin> set (split_on CHR ''/'' name)"
proof -
  have "split_on CHR 92 ''..'' = [''..'']" by (simp add: split_on_plain)
  moreover have "split_on CHR ''/'' (''/agents/'' @ i @ CHR ''/'' # w @ CHR ''/'' # name) =
      [[], ''agents''] @ split_on CHR ''/'' i @ split_on CHR ''/'' w @ split_on CHR ''/'' name"
    using split_on_sep [of "CHR ''/''" "''/agents''" "i @ CHR ''/'' # w @ CHR ''/'' # name"] by (simp add: split_on_sep)
  ultimately have "''..'' \<notin> set (split_on CHR ''/'' i) \<union> set (split_on CHR ''/'' name)"
    using assms unfolding has_dotdot_def list_ex_iff by (metis Un_iff list.set_intros(1) set_append)
  then show "''..'' \<notin> set (split_on CHR ''/'' i)" "''..'' \<notin> set (split_on CHR ''/'' name)" by simp_all
qed

lemma under_agents:
  assumes "is_abs state" "''..'' \<notin> set (split_on CHR ''/'' i)" "i \<noteq> []"
  shows "path_elems (dir_for state i) = path_elems state @ ''agents'' # steps_in i" "is_abs (dir_for state i)"
proof -
  have a: "plain_elem ''agents''" by (simp add: plain_elem_def)
  note j = join_plain [OF assms(1) a]
  show "path_elems (dir_for state i) = path_elems state @ ''agents'' # steps_in i" "is_abs (dir_for state i)"
    using path_elems_join [OF j(2) assms(2,3)] clean_abs_starts j(1) by (auto simp: dir_for_def)
qed

lemma served_under:
  assumes "is_abs state" "\<not> has_dotdot (''/agents/'' @ i @ CHR ''/'' # w @ CHR ''/'' # name)" "i \<noteq> []" "plain_elem w"
  shows "path_elems (join_path (join_path (dir_for state i) w) (base_name name)) =
    path_elems state @ ''agents'' # steps_in i @ w # steps_in (base_name name)"
    "length (steps_in (base_name name)) \<le> 1"
proof -
  note d = dotdot_split [OF assms(2)] and u = under_agents [OF assms(1) dotdot_split(1) [OF assms(2)] assms(3)]
  note j = join_plain [OF u(2) assms(4)]
  let ?b = "base_name name"
  consider "?b = ''.''" | "?b = ''/''" | "?b \<in> set (split_on CHR ''/'' name)" using base_in [of name] by blast
  then have b: "''..'' \<notin> set (split_on CHR ''/'' ?b) \<and> length (steps_in ?b) \<le> 1 \<and> ?b \<noteq> []"
  proof cases
    case 3
    have "?b \<noteq> []" by (simp add: base_name_def Let_def)
    moreover have "split_on CHR ''/'' ?b = [?b]" using split_on_plain [OF split_on_no_sep [OF 3]] .
    moreover have "?b \<noteq> ''..''" using 3 d(2) by metis
    ultimately show ?thesis by (simp add: steps_in_def)
  qed (simp_all add: steps_in_def)
  with path_elems_join(1) [OF j(2), of ?b] j(1) u(1)
  show "path_elems (join_path (join_path (dir_for state i) w) ?b) = path_elems state @ ''agents'' # steps_in i @ w # steps_in ?b"
    "length (steps_in ?b) \<le> 1" by auto
qed

lemma attachment_served:
  assumes "is_abs state" "i \<noteq> []" "handle_attachment there state i name = ServedFile p t save"
  shows "path_elems p = path_elems state @ ''agents'' # steps_in i @ ''outbox'' # steps_in (base_name name) \<and>
    length (steps_in (base_name name)) \<le> 1" "attachment_mime (base_name name) = (t, \<not> save)"
proof -
  have dd: "\<not> has_dotdot (''/agents/'' @ i @ CHR ''/'' # ''outbox'' @ CHR ''/'' # name)"
    using assms(3) by (simp add: handle_attachment_def Let_def split: if_splits)
  have "outbox_dir (dir_for state i) = join_path (dir_for state i) ''outbox''"
    using under_agents [OF assms(1) dotdot_split(1) [OF dd] assms(2)] by (auto simp: outbox_dir_def is_abs_def)
  then have p: "p = join_path (join_path (dir_for state i) ''outbox'') (base_name name)" "attachment_mime (base_name name) = (t, \<not> save)"
    using assms(3) by (auto simp: handle_attachment_def Let_def split: if_splits prod.splits)
  have "plain_elem ''outbox''" by (simp add: plain_elem_def)
  from served_under [OF assms(1) dd assms(2) this] p(1)
  show "path_elems p = path_elems state @ ''agents'' # steps_in i @ ''outbox'' # steps_in (base_name name) \<and>
    length (steps_in (base_name name)) \<le> 1" by simp
  show "attachment_mime (base_name name) = (t, \<not> save)" by (rule p(2))
qed

lemma shot_served:
  assumes "is_abs state" "i \<noteq> []" "handle_shot there state i name = ServedFile p t save"
  shows "path_elems p = path_elems state @ ''agents'' # steps_in i @ ''shots'' # steps_in (base_name name) \<and>
    length (steps_in (base_name name)) \<le> 1 \<and> t = ''image/png''"
proof -
  have dd: "\<not> has_dotdot (''/agents/'' @ i @ CHR ''/'' # ''shots'' @ CHR ''/'' # name)"
    and p: "p = join_path (join_path (dir_for state i) ''shots'') (base_name name)" "t = ''image/png''"
    using assms(3) by (simp_all add: handle_shot_def Let_def shots_dir_def split: if_splits)
  have "plain_elem ''shots''" by (simp add: plain_elem_def)
  from served_under [OF assms(1) dd assms(2) this] p show ?thesis by simp
qed

lemma mime_saved: "attachment_mime n = (t, pic) \<Longrightarrow> (pic \<longleftrightarrow> t \<in> snd ` set attachment_images) \<and> (\<not> pic \<longrightarrow> t = ''application/octet-stream'')"
  by (auto simp: attachment_mime_def attachment_images_def split: option.splits if_splits)

text \<open>
  C33. Nothing is served from outside an agent's folder: whatever an id and a name are made of, a file the daemon hands out lies under the agents'
  folder, below the shots or the outbox of the id, at most one element down; a picture is served as itself only if its name says it is
  one, and everything else is bytes to be saved.
\<close>

theorem served_stays_inside:
  assumes "is_abs state" "i \<noteq> []"
  shows "(handle_attachment there state i name = ServedFile p t save \<longrightarrow>
      (\<exists>below. path_elems p = path_elems state @ ''agents'' # steps_in i @ ''outbox'' # below \<and> length below \<le> 1) \<and>
      (save \<longleftrightarrow> t \<notin> snd ` set attachment_images) \<and> (save \<longrightarrow> t = ''application/octet-stream'')) \<and>
    (handle_shot there state i name = ServedFile p t save \<longrightarrow>
      (\<exists>below. path_elems p = path_elems state @ ''agents'' # steps_in i @ ''shots'' # below \<and> length below \<le> 1) \<and> t = ''image/png'')"
proof (intro conjI impI)
  assume h: "handle_attachment there state i name = ServedFile p t save"
  note m = mime_saved [OF attachment_served(2) [OF assms h]]
  show "\<exists>below. path_elems p = path_elems state @ ''agents'' # steps_in i @ ''outbox'' # below \<and> length below \<le> 1"
    using attachment_served(1) [OF assms h] by blast
  show "save \<longleftrightarrow> t \<notin> snd ` set attachment_images" using m by blast
  show "t = ''application/octet-stream''" if save using m that by blast
next
  assume h: "handle_shot there state i name = ServedFile p t save"
  show "\<exists>below. path_elems p = path_elems state @ ''agents'' # steps_in i @ ''shots'' # below \<and> length below \<le> 1"
    using shot_served [OF assms h] by blast
  show "t = ''image/png''" using shot_served [OF assms h] by blast
qed

theorem served_stays_inside_witness:
  "handle_attachment (\<lambda>_. True) ''/var/state'' ''boss'' ''a/0001-report.html'' =
     ServedFile ''/var/state/agents/boss/outbox/0001-report.html'' ''application/octet-stream'' True \<and>
   (\<exists>below. path_elems ''/var/state/agents/boss/outbox/0001-report.html'' =
      path_elems ''/var/state'' @ ''agents'' # steps_in ''boss'' @ ''outbox'' # below)"
proof -
  have h: "is_abs ''/var/state''" "''boss'' \<noteq> []"
    "handle_attachment (\<lambda>_. True) ''/var/state'' ''boss'' ''a/0001-report.html'' =
       ServedFile ''/var/state/agents/boss/outbox/0001-report.html'' ''application/octet-stream'' True" by code_simp+
  with served_stays_inside [OF h(1,2)] show ?thesis by blast
qed

section \<open>The person and their clock\<close>

lemma remember_country_rest:
  "remember_country o1 c h = (b, h') \<Longrightarrow> hm_person h' = hm_person h \<and> hm_machine h' = hm_machine h"
  by (auto simp: remember_country_def split: if_splits prod.splits)

lemma store_same: "store_state_file o1 v f = (True, g) \<Longrightarrow> g = Some v"
  by (auto simp: store_state_file_def write_file_def split: if_splits write_outcome.splits)

lemma remember_country_same:
  "remember_country o1 c h = (False, h') \<Longrightarrow> o1 = NotOpened \<or> \<not> valid_country c \<or> c = read_state_file (hm_country h) \<Longrightarrow> h' = h"
  by (auto simp: remember_country_def store_state_file_def write_file_def split: if_splits prod.splits write_outcome.splits)

lemma remember_zone_file_moves:
  "remember_zone_file tz wrote z m = (b, m') \<Longrightarrow> (b \<longrightarrow> m_zone m' = z) \<and> (\<not> b \<longrightarrow> m' = m)"
  by (auto simp: remember_zone_file_def split: if_splits)

lemma rezone_zone: "m_zone (rezone tz w now m) = m_zone m"
proof -
  have one: "m_zone (rezone_one tz w now loc sc m) = m_zone m" for loc sc m
    by (auto simp: rezone_one_def set_next_def on_store_def split: sum.splits option.splits)
  have "m_zone (fold (rezone_one tz w now loc) scs m) = m_zone m" for loc scs
    by (induction scs arbitrary: m) (simp_all add: one)
  then show ?thesis by (simp add: rezone_def)
qed

lemma remember_zone_zone:
  assumes "remember_zone tz wrote w now z m = (b, m')"
  shows "\<not> b \<Longrightarrow> m' = m" "b \<Longrightarrow> m_zone m' = z"
  using assms remember_zone_file_moves [of tz wrote z m] rezone_zone
  by (auto simp: remember_zone_def split: prod.splits bool.splits)

text \<open>
  Moving does not make anyone forgotten: a request that only says where the person is leaves what the machine knows about them as it was
  once it knows something; one that names a clock or a country the machine could not use is refused and changes nothing; and one that is
  taken, with its writes landing, leaves the machine on that clock.
\<close>

theorem clock_change_keeps_person:
  assumes "put_person tz po zo so co now (Some p) h = (code, evict, h')"
  shows "(only_machine_state p \<and> read_person h \<noteq> [] \<longrightarrow> hm_person h' = hm_person h) \<and>
    (code = 400 \<longrightarrow> h' = h \<and> \<not> evict) \<and>
    (code = 400 \<longleftrightarrow> (pq_tz p \<noteq> [] \<and> \<not> valid_zone tz (pq_tz p)) \<or> (pq_country p \<noteq> [] \<and> \<not> valid_country (pq_country p))) \<and>
    (code = 204 \<and> zo \<and> pq_tz p \<noteq> [] \<and> trim_with is_space (pq_tz p) = pq_tz p \<longrightarrow> read_zone_file (hm_machine h') = pq_tz p) \<and>
    (code = 204 \<and> \<not> evict \<longrightarrow> hm_machine h' = hm_machine h \<and> hm_person h' = hm_person h)"
proof (cases "(pq_tz p \<noteq> [] \<and> \<not> valid_zone tz (pq_tz p)) \<or> (pq_country p \<noteq> [] \<and> \<not> valid_country (pq_country p))")
  case True
  then have "put_person tz po zo so co now (Some p) h = (400, False, h)" by (elim disjE) (simp_all add: put_person_def)
  with assms have "code = 400" "\<not> evict" "h' = h" by simp_all
  with True show ?thesis by simp
next
  case False
  define fh where "fh = (if \<not> only_machine_state p \<or> read_person h = [] then write_person po p h else (True, h))"
  obtain moved m where m: "remember_zone tz zo so now (pq_tz p) (hm_machine (snd fh)) = (moved, m)" by fastforce
  obtain placed h2 where h2: "remember_country co (pq_country p) ((snd fh)\<lparr>hm_machine := m\<rparr>) = (placed, h2)" by fastforce
  have fm: "hm_machine (snd fh) = hm_machine h" by (auto simp: fh_def write_person_def split: prod.splits)
  have out: "if fst fh then code = 204 \<and> (evict \<longleftrightarrow> \<not> only_machine_state p \<or> read_person h = [] \<or> moved \<or> placed) \<and> h' = h2
      else code = 500 \<and> h' = snd fh"
  proof -
    have g: "\<not> (pq_tz p \<noteq> [] \<and> \<not> valid_zone tz (pq_tz p))" "\<not> (pq_country p \<noteq> [] \<and> \<not> valid_country (pq_country p))"
      using False by blast+
    have "put_person tz po zo so co now (Some p) h =
      (if \<not> fst fh then (500, False, snd fh) else (204, (\<not> only_machine_state p \<or> read_person h = []) \<or> moved \<or> placed, h2))"
      unfolding put_person_def option.case if_not_P [OF g(1)] if_not_P [OF g(2)] Let_def fh_def [symmetric] m h2 prod.case ..
    with assms show ?thesis by (auto split: if_splits)
  qed
  note c = remember_country_rest [OF h2] and z = remember_zone_zone [OF m]
  have zone: "read_zone_file m = pq_tz p" if "zo" "pq_tz p \<noteq> []" "trim_with is_space (pq_tz p) = pq_tz p"
    using that False m z fm by (cases moved) (auto simp: read_zone_file_def remember_zone_def remember_zone_file_def split: if_splits)
  show ?thesis using out c z zone False fm by (auto simp: fh_def split: if_splits)
qed

definition demo_home :: home where
  "demo_home = \<lparr>hm_machine = \<lparr>m_store = \<lparr>ss_by = [], ss_file = []\<rparr>, m_zone = ''Asia/Tokyo'', m_tz = [], m_sent = []\<rparr>,
     hm_person = Some ''# Ann'', hm_country = None\<rparr>"

definition demo_move :: person_req where
  "demo_move = \<lparr>pq_name = [], pq_work = [], pq_notes = [], pq_tz = ''Europe/Berlin'', pq_country = ''DE''\<rparr>"

definition demo_zones :: "string \<Rightarrow> location option" where
  "demo_zones z = (if z = ''Europe/Berlin'' then Some utc else None)"

theorem clock_change_keeps_person_witness:
  "hm_person (snd (snd (put_person demo_zones NotOpened True True WrittenAll 0 (Some demo_move) demo_home))) = Some ''# Ann'' \<and>
   read_zone_file (hm_machine (snd (snd (put_person demo_zones NotOpened True True WrittenAll 0 (Some demo_move) demo_home)))) =
     ''Europe/Berlin''"
proof -
  let ?r = "put_person demo_zones NotOpened True True WrittenAll 0 (Some demo_move) demo_home"
  have c: "fst ?r = 204" "only_machine_state demo_move \<and> read_person demo_home \<noteq> []" "pq_tz demo_move \<noteq> []"
    "trim_with is_space (pq_tz demo_move) = pq_tz demo_move" by code_simp+
  obtain code e h where r: "?r = (code, e, h)" by (cases ?r)
  from clock_change_keeps_person [OF r] c r show ?thesis by (simp add: demo_move_def demo_home_def)
qed

text \<open>
  But a clock that could not be written is a 204 as well: both sides then believe it has moved.
\<close>

theorem unwritten_clock_accepted:
  assumes "only_machine_state p" "read_person h \<noteq> []" "valid_zone tz (pq_tz p)" "pq_country p = []"
  shows "put_person tz po False so co now (Some p) h = (204, False, h)"
proof -
  have "remember_zone tz False so now (pq_tz p) (hm_machine h) = (False, hm_machine h)"
    by (simp add: remember_zone_def remember_zone_file_def)
  moreover have "remember_country co [] h = (False, h)" by (simp add: remember_country_def valid_country_def)
  ultimately show ?thesis using assms by (simp add: put_person_def)
qed

theorem unwritten_clock_accepted_witness:
  "put_person demo_zones NotOpened False True WrittenAll 0 (Some (demo_move\<lparr>pq_country := []\<rparr>)) demo_home = (204, False, demo_home)"
  by (rule unwritten_clock_accepted) code_simp+

end
