(* ===== verification/EventLogProps.thy ===== *)
theory EventLogProps
  imports EventLog
begin

text \<open>
  What the event log promises: every event appended is read back, numbered from one without a gap,
  across any number of restarts, as long as each write is whole; and what a torn write costs.
\<close>

section \<open>Lines\<close>

definition as_lines :: "string list \<Rightarrow> string" where
  "as_lines ts = concat (List.map (\<lambda>t. t @ [newline]) ts)"

lemma as_lines_simps [simp]:
  "as_lines [] = []" "as_lines (t # ts) = t @ newline # as_lines ts"
  "as_lines (ts @ us) = as_lines ts @ as_lines us"
  by (simp_all add: as_lines_def)

lemma split_as_lines:
  "list_all (\<lambda>t. newline \<notin> set t) ts \<Longrightarrow> newline \<notin> set w \<Longrightarrow> split_on newline (as_lines ts @ w) = ts @ [w]"
  by (induction ts) (auto simp: split_on_append split_on_plain)

lemma scan_as_lines:
  assumes "list_all (\<lambda>t. newline \<notin> set t) ts" "newline \<notin> set w"
  shows "scan_lines (as_lines ts @ w) = (if w = [] then ts else ts @ [w])"
  by (simp add: scan_lines_def split_as_lines [OF assms] Let_def butlast_append)

text \<open>An event whose text is one line that fits the scanner and decodes to it.\<close>

definition carries :: "event_json \<Rightarrow> event \<Rightarrow> bool" where
  "carries js e = (case js_enc js e of
     None \<Rightarrow> False
   | Some t \<Rightarrow> newline \<notin> set t \<and> drop_cr t = t \<and> int (length t) < max_line \<and> js_dec js t = Some e)"

definition text_of :: "event_json \<Rightarrow> event \<Rightarrow> string" where
  "text_of js e = the (js_enc js e)"

lemma carriesD:
  assumes "carries js e"
  shows "js_enc js e = Some (text_of js e)" "newline \<notin> set (text_of js e)" "drop_cr (text_of js e) = text_of js e"
    "int (length (text_of js e)) < max_line" "js_dec js (text_of js e) = Some e"
  using assms by (auto simp: carries_def text_of_def split: option.splits)

lemma scan_from_texts:
  assumes "list_all (carries js) es" "list_all (\<lambda>e. ev_id e > 0) es"
  shows "scan_from js (List.map (text_of js) es @ ws) = (case scan_from js ws of (fs, fine) \<Rightarrow> (es @ fs, fine))"
  using assms by (induction es) (auto simp: carriesD not_le split: prod.splits)

section \<open>A run\<close>

datatype log_op = LAppend int event | LRestart

fun run_log :: "event_json \<Rightarrow> log_op list \<Rightarrow> event_log \<Rightarrow> event_log option" where
  "run_log js [] l = Some l"
| "run_log js (LAppend now e # ops) l = run_log js ops (snd (append_event js WrittenAll now e l))"
| "run_log js (LRestart # ops) l =
     (case open_log js (lg_agent l) (lg_disk l) of None \<Rightarrow> None | Some m \<Rightarrow> run_log js ops m)"

text \<open>The events a run appends, as they are stamped when nothing is ever lost.\<close>

fun stamped :: "string \<Rightarrow> int \<Rightarrow> log_op list \<Rightarrow> event list" where
  "stamped agent n [] = []"
| "stamped agent n (LAppend now e # ops) =
     e\<lparr>ev_id := n, ev_agent := agent, ev_ts := now\<rparr> # stamped agent (n + 1) ops"
| "stamped agent n (LRestart # ops) = stamped agent n ops"

definition ids_from_one :: "event list \<Rightarrow> bool" where
  "ids_from_one es \<longleftrightarrow> List.map ev_id es = List.map int [1..<Suc (length es)]"

definition holds :: "event_json \<Rightarrow> string \<Rightarrow> event list \<Rightarrow> event_log \<Rightarrow> bool" where
  "holds js agent es l \<longleftrightarrow> lg_agent l = agent \<and> list_all (carries js) es \<and> ids_from_one es \<and>
     lg_next l = 1 + int (length es) \<and> lg_disk l \<noteq> LockedLog \<and>
     log_bytes (lg_disk l) = as_lines (List.map (text_of js) es)"

lemma ids_snoc: "ids_from_one (es @ [e]) \<longleftrightarrow> ids_from_one es \<and> ev_id e = 1 + int (length es)"
  by (auto simp: ids_from_one_def)

lemma ids_positive: "ids_from_one es \<Longrightarrow> list_all (\<lambda>e. ev_id e > 0) es"
  by (induction es rule: rev_induct) (auto simp: ids_snoc)

lemma ids_last: "ids_from_one es \<Longrightarrow> es \<noteq> [] \<Longrightarrow> ev_id (List.last es) = int (length es)"
  by (cases es rule: rev_cases) (auto simp: ids_snoc)

lemma ids_after: "ids_from_one es \<Longrightarrow> after_id es i = filter (\<lambda>e. ev_id e > i) es"
proof -
  assume "ids_from_one es"
  then have s: "sorted_wrt (\<lambda>e f. ev_id e < ev_id f) es"
    unfolding ids_from_one_def
    by (metis (no_types, lifting) of_nat_less_iff sorted_wrt_map sorted_wrt_mono_rel sorted_wrt_upt)
  show ?thesis using s by (induction es) (auto intro!: filter_True [symmetric])
qed

lemma holds_texts: "holds js agent es l \<Longrightarrow> list_all (\<lambda>t. newline \<notin> set t) (List.map (text_of js) es)"
  by (auto simp: holds_def list_all_iff carriesD)

lemma holds_read:
  assumes "holds js agent es l"
  shows "read_all js (lg_disk l) = Some es"
proof -
  have "scan_events js (as_lines (List.map (text_of js) es)) = Some es"
    using scan_as_lines [OF holds_texts [OF assms], of "[]"] scan_from_texts [of js es "[]"] assms
    by (simp add: scan_events_def holds_def ids_positive)
  moreover have "es = []" if "lg_disk l = NoLog" using that assms by (cases es) (auto simp: holds_def log_bytes_def)
  ultimately show ?thesis using assms by (auto simp: read_all_def holds_def log_bytes_def split: log_disk.splits)
qed

lemma holds_append:
  assumes "holds js agent es l" "carries js (e\<lparr>ev_id := 1 + int (length es), ev_agent := agent, ev_ts := now\<rparr>)"
  shows "holds js agent (es @ [e\<lparr>ev_id := 1 + int (length es), ev_agent := agent, ev_ts := now\<rparr>])
    (snd (append_event js WrittenAll now e l))"
  using assms carriesD(1) [OF assms(2)]
  by (auto simp: holds_def append_event_def Let_def write_event_def log_bytes_def ids_snoc split: log_disk.splits)

lemma holds_open:
  assumes "holds js agent es l"
  shows "\<exists>m. open_log js agent (lg_disk l) = Some m \<and> holds js agent es m \<and> lg_disk m = lg_disk l"
  using assms by (auto simp: open_log_def holds_read holds_def ids_last)

lemma run_log_holds:
  assumes "holds js agent es l" "list_all (carries js) (stamped agent (1 + int (length es)) ops)"
  shows "\<exists>m. run_log js ops l = Some m \<and> holds js agent (es @ stamped agent (1 + int (length es)) ops) m"
  using assms
proof (induction ops arbitrary: es l)
  case (Cons op ops)
  show ?case
  proof (cases op)
    case (LAppend now e)
    let ?e = "e\<lparr>ev_id := 1 + int (length es), ev_agent := agent, ev_ts := now\<rparr>"
    have "holds js agent (es @ [?e]) (snd (append_event js WrittenAll now e l))"
      using Cons.prems LAppend by (intro holds_append) auto
    from Cons.IH [OF this] Cons.prems(2) LAppend show ?thesis by (simp add: add.commute add.left_commute)
  next
    case LRestart
    from holds_open [OF Cons.prems(1)] obtain m
      where "open_log js agent (lg_disk l) = Some m" "holds js agent es m" by blast
    with Cons.IH [of es m] Cons.prems LRestart show ?thesis by (simp add: holds_def)
  qed
qed simp

text \<open>
  C30. However appends and restarts are mixed, an agent's log is read back whole: every event appended,
  in order, numbered from one without a gap, and a client asking for what came after an id gets
  exactly the later events. The hypothesis is that each event is one line of JSON the reader takes.
\<close>

theorem log_survives_restarts:
  assumes "list_all (carries js) (stamped agent 1 ops)" "open_log js agent NoLog = Some l0"
  shows "\<exists>l. run_log js ops l0 = Some l \<and> read_all js (lg_disk l) = Some (stamped agent 1 ops) \<and>
    ids_from_one (stamped agent 1 ops) \<and> log_last_id l = int (length (stamped agent 1 ops)) \<and>
    log_since js i l = Some (filter (\<lambda>e. ev_id e > i) (stamped agent 1 ops))"
proof -
  have "holds js agent [] l0"
    using assms(2) by (auto simp: holds_def open_log_def read_all_def ids_from_one_def log_bytes_def)
  from run_log_holds [OF this, of ops] assms(1) obtain m
    where m: "run_log js ops l0 = Some m" "holds js agent (stamped agent 1 ops) m" by auto
  then have "ids_from_one (stamped agent 1 ops)" "log_last_id m = int (length (stamped agent 1 ops))"
    by (simp_all add: holds_def log_last_id_def)
  with m holds_read [OF m(2)] show ?thesis by (simp add: log_since_def ids_after)
qed

text \<open>A codec for the witnesses: an event of one agent is its number in unary between braces.\<close>

definition toy_event :: "int \<Rightarrow> event" where
  "toy_event n = (blank_event ''text'')\<lparr>ev_id := n, ev_agent := ''a''\<rparr>"

definition toy_json :: event_json where
  "toy_json = \<lparr>js_enc = \<lambda>e. Some (''{'' @ replicate (nat (ev_id e)) CHR ''1'' @ ''}''),
     js_dec = \<lambda>s. if s = ''{1}'' then Some (toy_event 1) else if s = ''{11}'' then Some (toy_event 2) else None\<rparr>"

theorem log_survives_restarts_witness:
  "map_option (\<lambda>l. log_since toy_json 1 l)
     (run_log toy_json [LAppend 0 (blank_event ''text''), LRestart, LAppend 0 (blank_event ''text'')]
        (the (open_log toy_json ''a'' NoLog))) = Some (Some [toy_event 2])"
proof -
  let ?ops = "[LAppend 0 (blank_event ''text''), LRestart, LAppend 0 (blank_event ''text'')]"
  have s: "stamped ''a'' 1 ?ops = [toy_event 1, toy_event 2]" by (simp add: toy_event_def blank_event_def)
  have c: "list_all (carries toy_json) (stamped ''a'' 1 ?ops)"
    unfolding s by (simp add: carries_def toy_json_def toy_event_def newline_def drop_cr_def max_line_def numeral_2_eq_2)
  have o: "open_log toy_json ''a'' NoLog = Some (the (open_log toy_json ''a'' NoLog))"
    by (simp add: open_log_def read_all_def)
  from log_survives_restarts [OF c o, of 1] show ?thesis unfolding s by (auto simp: toy_event_def)
qed

text \<open>
  A torn write costs the next event too. After a write that stopped inside the line, a restart
  gives the next event the same number, glues it to the torn text, and so loses it; and the restart after
  that hands the number out a third time. Clients that saw the live events have seen that number.
\<close>

theorem torn_tail_loses_next:
  assumes l: "holds js agent es l"
    and torn: "js_enc js (fst (append_event js (WrittenOnly n) now e l)) = Some t"
      "0 < n" "n < length t" "newline \<notin> set t" "js_dec js (drop_cr (take n t)) = None"
    and reopened: "open_log js agent (lg_disk (snd (append_event js (WrittenOnly n) now e l))) = Some l2"
    and later: "js_enc js (fst (append_event js WrittenAll later e2 l2)) = Some t2" "newline \<notin> set t2"
      "int (n + length t2) < max_line" "js_dec js (drop_cr (take n t @ t2)) = None"
  shows "ev_id (fst (append_event js WrittenAll later e2 l2)) = ev_id (fst (append_event js (WrittenOnly n) now e l)) \<and>
    read_all js (lg_disk (snd (append_event js WrittenAll later e2 l2))) = Some es \<and>
    map_option lg_next (open_log js agent (lg_disk (snd (append_event js WrittenAll later e2 l2)))) = Some (lg_next l)"
proof -
  let ?ts = "List.map (text_of js) es" and ?w = "take n t"
  have w: "?w \<noteq> []" "newline \<notin> set ?w" "int (length ?w) < max_line" "length ?w = n"
    using torn later(3) by (auto dest: in_set_takeD)
  have nl: "list_all (\<lambda>t. newline \<notin> set t) ?ts" by (rule holds_texts [OF l])
  have es: "list_all (carries js) es" "list_all (\<lambda>e. ev_id e > 0) es" using l by (auto simp: holds_def ids_positive)
  have scan: "scan_events js (as_lines ?ts @ v) = Some es"
    if "newline \<notin> set v" "v \<noteq> []" "int (length v) < max_line" "js_dec js (drop_cr v) = None" for v
    using that scan_as_lines [OF nl that(1)] scan_from_texts [OF es, of "[v]"]
    by (simp add: scan_events_def)
  have d1: "lg_disk (snd (append_event js (WrittenOnly n) now e l)) = LogBytes (as_lines ?ts @ ?w)"
    using l torn by (auto simp: append_event_def Let_def write_event_def holds_def split: log_disk.splits)
  have r1: "read_all js (LogBytes (as_lines ?ts @ ?w)) = Some es"
    using scan [of ?w] w torn by (simp add: read_all_def)
  have open1: "lg_disk l2 = LogBytes (as_lines ?ts @ ?w)" "lg_next l2 = lg_next l"
    using reopened l by (auto simp: d1 open_log_def r1 holds_def ids_last split: if_splits)
  have "as_lines ?ts @ ?w @ t2 @ [newline] = as_lines (?ts @ [?w @ t2])" by simp
  then have d2: "lg_disk (snd (append_event js WrittenAll later e2 l2)) = LogBytes (as_lines (?ts @ [?w @ t2]) @ [])"
    using later open1 by (simp add: append_event_def Let_def write_event_def log_bytes_def)
  have nl2: "list_all (\<lambda>t. newline \<notin> set t) (?ts @ [?w @ t2])" using nl w later by simp
  have "scan_lines (as_lines (?ts @ [?w @ t2]) @ []) = ?ts @ [?w @ t2]" using scan_as_lines [OF nl2, of "[]"] by simp
  then have "scan_events js (as_lines (?ts @ [?w @ t2]) @ []) = Some es"
    unfolding scan_events_def
    using scan_from_texts [OF es, of "[?w @ t2]"] w later by (simp only:) simp
  then have r2: "read_all js (lg_disk (snd (append_event js WrittenAll later e2 l2))) = Some es"
    unfolding d2 by (simp add: read_all_def)
  moreover have "map_option lg_next (open_log js agent (lg_disk (snd (append_event js WrittenAll later e2 l2)))) = Some (lg_next l)"
    using r2 l by (auto simp: open_log_def holds_def ids_last)
  ultimately show ?thesis using open1 by (simp add: append_event_def Let_def)
qed

theorem torn_tail_loses_next_witness:
  "let l = the (open_log toy_json ''a'' NoLog);
       l1 = snd (append_event toy_json (WrittenOnly 2) 0 (blank_event ''text'') l);
       l2 = the (open_log toy_json ''a'' (lg_disk l1));
       (e, l3) = append_event toy_json WrittenAll 0 (blank_event ''text'') l2
   in ev_id e = 1 \<and> read_all toy_json (lg_disk l3) = Some [] \<and>
      map_option lg_next (open_log toy_json ''a'' (lg_disk l3)) = Some 1"
proof -
  let ?l = "the (open_log toy_json ''a'' NoLog)"
  let ?l1 = "snd (append_event toy_json (WrittenOnly 2) 0 (blank_event ''text'') ?l)"
  let ?l2 = "the (open_log toy_json ''a'' (lg_disk ?l1))"
  have l: "holds toy_json ''a'' [] ?l" "lg_next ?l = 1"
    by (auto simp: holds_def open_log_def read_all_def ids_from_one_def log_bytes_def)
  have l1: "lg_disk ?l1 = LogBytes ''{1''"
    by (simp add: append_event_def Let_def write_event_def open_log_def read_all_def toy_json_def blank_event_def log_bytes_def)
  have l2: "?l2 = \<lparr>lg_agent = ''a'', lg_next = 1, lg_disk = LogBytes ''{1'', lg_subs = []\<rparr>"
    unfolding l1 by (simp add: open_log_def read_all_def scan_events_def scan_lines_def newline_def toy_json_def drop_cr_def max_line_def)
  have o: "open_log toy_json ''a'' (lg_disk ?l1) = Some ?l2"
    unfolding l1 by (simp add: open_log_def read_all_def scan_events_def scan_lines_def newline_def toy_json_def drop_cr_def max_line_def)
  have "ev_id (fst (append_event toy_json WrittenAll 0 (blank_event ''text'') ?l2)) = 1 \<and>
    read_all toy_json (lg_disk (snd (append_event toy_json WrittenAll 0 (blank_event ''text'') ?l2))) = Some [] \<and>
    map_option lg_next (open_log toy_json ''a'' (lg_disk (snd (append_event toy_json WrittenAll 0 (blank_event ''text'') ?l2)))) = Some 1"
    using torn_tail_loses_next [OF l(1) _ _ _ _ _ o, of "''{1}''" 0 "blank_event ''text''" "''{1}''"] l(2) unfolding l2
    by (simp add: append_event_def Let_def open_log_def read_all_def toy_json_def blank_event_def newline_def drop_cr_def max_line_def)
  then show ?thesis by (simp add: Let_def split_def)
qed

end
