(* ===== verification/GateProps.thy ===== *)
theory GateProps
  imports Gate EventLogProps
begin

text \<open>
  What asking a person promises, over every interleaving of the handlers, the answers and the
  interrupts: an answer is delivered at most once and never blocks, a call goes on only with a
  consent, a card left up is the one an interrupt took before it was raised, a batch consent is
  spent at most as often as it says, and an id is not used again after a restart.
\<close>

section \<open>Interleavings\<close>

definition acts :: "gate_state \<Rightarrow> action list" where
  "acts s = concat (gs_threads s)"

definition raised_yet :: "gate_state \<Rightarrow> string \<Rightarrow> bool" where
  "raised_yet s i \<longleftrightarrow> list_all (\<lambda>a. case a of ARaise r \<Rightarrow> ra_id r \<noteq> i | _ \<Rightarrow> True) (acts s)"

text \<open>In a careful run nothing is answered or interrupted before its card is up.\<close>

definition allowed :: "bool \<Rightarrow> gate_state \<Rightarrow> string list \<Rightarrow> bool" where
  "allowed careful s ids \<longleftrightarrow> \<not> careful \<or> list_all (raised_yet s) ids"

definition own_id :: "string \<Rightarrow> string \<Rightarrow> bool" where
  "own_id agent i \<longleftrightarrow> prefix (agent @ ''.'') i"

inductive gate_step :: "bool \<Rightarrow> event_json \<Rightarrow> gate_state \<Rightarrow> gate_state \<Rightarrow> bool" for careful js where
  step_check: "gate_step careful js s (snd (check_call now tool preview input s))"
| step_ask: "gate_step careful js s (ask_call grabbed question u s)"
| step_resolve: "allowed careful s [i] \<Longrightarrow> gate_step careful js s (snd (resolve now i d s))"
| step_revoke: "mset ids = mset (List.map fst (gt_pending (gs_gate s))) \<Longrightarrow> allowed careful s ids \<Longrightarrow>
    gate_step careful js s (snd (revoke_all ids s))"
| step_run: "run_thread js w now k n s = Some t \<Longrightarrow> gate_step careful js s t"
| step_raise: "\<not> own_id (lg_agent (gs_log s)) (ra_id r) \<Longrightarrow>
    gate_step careful js s (s\<lparr>gs_hub := raise_hand now r (gs_hub s)\<rparr>)"
| step_clear: "\<not> own_id (lg_agent (gs_log s)) i \<Longrightarrow>
    gate_step careful js s (s\<lparr>gs_hub := clear_hand i (gs_hub s)\<rparr>)"

text \<open>A run starts at a fresh gate over a log whose numbers are positive, on a hub with no card of its own.\<close>

inductive gate_reach :: "bool \<Rightarrow> event_json \<Rightarrow> gate_state \<Rightarrow> bool" for careful js where
  reach_start: "0 < lg_next l \<Longrightarrow> list_all (\<lambda>(i, _). \<not> own_id (lg_agent l) i) (hb_raised h) \<Longrightarrow>
    gate_reach careful js (new_gate_state l h)"
| reach_step: "gate_reach careful js s \<Longrightarrow> gate_step careful js s t \<Longrightarrow> gate_reach careful js t"

section \<open>Ids\<close>

lemma of_dec_zeros: "of_dec (replicate k CHR ''0'' @ s) = of_dec s"
proof (induction k)
  case (Suc k)
  have "digit_val CHR ''0'' = 0" by (simp add: digit_val_def)
  with Suc show ?case by (simp add: of_dec_def)
qed simp

lemma pad3_inj: "0 \<le> m \<Longrightarrow> 0 \<le> n \<Longrightarrow> pad3 m = pad3 n \<longleftrightarrow> m = n"
proof
  assume "0 \<le> m" "0 \<le> n" "pad3 m = pad3 n"
  then have "of_dec (pad_left 3 (dec (nat m))) = of_dec (pad_left 3 (dec (nat n)))" by (simp add: pad3_def)
  with \<open>0 \<le> m\<close> \<open>0 \<le> n\<close> show "m = n" by (simp add: pad_left_def of_dec_zeros)
qed simp

lemma ask_id_inj:
  assumes "0 \<le> m" "0 \<le> n" "ask_id agent kind m = ask_id agent kind' n"
  shows "m = n"
  using assms pad3_inj [OF assms(1,2)] by (auto simp: ask_id_def split: if_splits)

lemma ask_id_own: "own_id agent (ask_id agent kind n)"
  by (simp add: own_id_def ask_id_def)

definition old_id :: "gate_state \<Rightarrow> string \<Rightarrow> bool" where
  "old_id s i \<longleftrightarrow> (\<exists>kind n. 0 \<le> n \<and> n \<le> gt_seq (gs_gate s) \<and> i = ask_id (lg_agent (gs_log s)) kind n)"

section \<open>Weights of the outstanding actions\<close>

definition weight :: "(action \<Rightarrow> 'a :: comm_monoid_add) \<Rightarrow> action list \<Rightarrow> 'a" where
  "weight f xs = sum_list (List.map f xs)"

lemma weight_simps [simp]:
  "weight f [] = 0" "weight f (a # xs) = f a + weight f xs" "weight f (xs @ ys) = weight f xs + weight f ys"
  by (simp_all add: weight_def)

text \<open>A thread that ran: the other threads stand before and behind it.\<close>

lemma run_split:
  assumes "run_thread js w now k n s = Some t"
  obtains pre a rest post new s1 where "gs_threads s = pre @ (a # rest) # post" "act js w now k a s = Some (new, s1)"
    "t = s1\<lparr>gs_threads := pre @ (new @ rest) # post\<rparr>"
proof -
  obtain a rest new s1 where n: "n < length (gs_threads s)" "gs_threads s ! n = a # rest" "act js w now k a s = Some (new, s1)"
    "t = s1\<lparr>gs_threads := (gs_threads s1)[n := new @ rest]\<rparr>"
    using assms by (auto simp: run_thread_def split: if_splits list.splits option.splits)
  have f: "gs_threads s1 = gs_threads s"
    using n(3) by (cases a) (auto split: if_splits prod.splits option.splits wake.splits)
  have 1: "gs_threads s = take n (gs_threads s) @ (a # rest) # drop (Suc n) (gs_threads s)"
    unfolding n(2) [symmetric] by (rule id_take_nth_drop [OF n(1)])
  have 2: "(gs_threads s)[n := new @ rest] = take n (gs_threads s) @ (new @ rest) # drop (Suc n) (gs_threads s)"
    by (rule upd_conv_take_nth_drop [OF n(1)])
  show thesis by (rule that [OF 1 n(3)]) (simp only: n(4) f 2)
qed

section \<open>The invariant\<close>

definition names :: "action \<Rightarrow> string set" where
  "names a = (case a of ARaise r \<Rightarrow> {ra_id r} | AClear i \<Rightarrow> {i} | ASelect i \<Rightarrow> {i} | ASend i _ \<Rightarrow> {i}
     | AForget i \<Rightarrow> {i} | AReturn i _ \<Rightarrow> {i} | _ \<Rightarrow> {})"

definition has_key :: "('k \<times> 'v) list \<Rightarrow> 'k \<Rightarrow> bool" where
  "has_key al k \<longleftrightarrow> map_of al k \<noteq> None"

lemma has_key_simps [simp]:
  "has_key (AList.update k v al) j \<longleftrightarrow> j = k \<or> has_key al j"
  "has_key (AList.delete k al) j \<longleftrightarrow> j \<noteq> k \<and> has_key al j"
  "\<not> has_key [] j"
  by (auto simp: has_key_def update_conv' delete_conv')

definition live_id :: "gate_state \<Rightarrow> string \<Rightarrow> bool" where
  "live_id s i \<longleftrightarrow> (\<exists>a \<in> set (acts s). i \<in> names a) \<or> has_key (gt_pending (gs_gate s)) i \<or> has_key (gs_chan s) i"

definition ids_old :: "gate_state \<Rightarrow> bool" where
  "ids_old s \<longleftrightarrow> 0 \<le> gt_seq (gs_gate s) \<and> distinct (List.map fst (gt_pending (gs_gate s))) \<and>
     (\<forall>i. live_id s i \<longrightarrow> old_id s i)"

lemma old_id_mono:
  "old_id s i \<Longrightarrow> lg_agent (gs_log t) = lg_agent (gs_log s) \<Longrightarrow> gt_seq (gs_gate s) \<le> gt_seq (gs_gate t) \<Longrightarrow> old_id t i"
  by (fastforce simp: old_id_def)

lemma old_id_new:
  "0 \<le> gt_seq (gs_gate s) \<Longrightarrow> lg_agent (gs_log t) = lg_agent (gs_log s) \<Longrightarrow> gt_seq (gs_gate t) = gt_seq (gs_gate s) + 1 \<Longrightarrow>
   old_id t (ask_id (lg_agent (gs_log s)) kind (gt_seq (gs_gate s) + 1))"
  unfolding old_id_def by (intro exI [of _ kind] exI [of _ "gt_seq (gs_gate s) + 1"]) simp

lemma fresh_id: "0 \<le> gt_seq (gs_gate s) \<Longrightarrow> \<not> old_id s (ask_id (lg_agent (gs_log s)) kind (gt_seq (gs_gate s) + 1))"
  unfolding old_id_def by (auto dest!: ask_id_inj [rotated 2])

lemma act_agent: "act js w now k a s = Some (new, s1) \<Longrightarrow> lg_agent (gs_log s1) = lg_agent (gs_log s) \<and> gt_seq (gs_gate s) \<le> gt_seq (gs_gate s1)"
  by (cases a) (auto simp: append_event_def Let_def register_def forget_pending_def split: if_splits prod.splits option.splits wake.splits)

lemma step_agent: "gate_step c js s t \<Longrightarrow> lg_agent (gs_log t) = lg_agent (gs_log s) \<and> gt_seq (gs_gate s) \<le> gt_seq (gs_gate t)"
proof (induction rule: gate_step.induct)
  case (step_run w now k n s t)
  then show ?case by (elim run_split) (auto dest: act_agent)
qed (auto simp: check_call_def ask_call_def resolve_def revoke_all_def split: prod.splits bool.splits option.splits)

definition new_id :: "action \<Rightarrow> gate_state \<Rightarrow> string set" where
  "new_id a s = (case a of AStart tool e \<Rightarrow> {ask_id (lg_agent (gs_log s)) (ev_type e) (gt_seq (gs_gate s) + 1)} | _ \<Rightarrow> {})"

lemma act_ids:
  assumes "act js w now k a s = Some (new, s1)"
  shows "b \<in> set new \<Longrightarrow> i \<in> names b \<Longrightarrow> i \<in> names a \<union> new_id a s"
    "has_key (gt_pending (gs_gate s1)) i \<Longrightarrow> has_key (gt_pending (gs_gate s)) i \<or> i \<in> new_id a s"
    "has_key (gs_chan s1) i \<Longrightarrow> has_key (gs_chan s) i \<or> i \<in> names a"
    "distinct (List.map fst (gt_pending (gs_gate s))) \<Longrightarrow> distinct (List.map fst (gt_pending (gs_gate s1)))"
proof -
  show "i \<in> names a \<union> new_id a s" if "b \<in> set new" "i \<in> names b"
    using assms that by (cases a) (auto simp: names_def new_id_def register_def Let_def await_actions_def raised_from_def
        wake_actions_def split: if_splits option.splits wake.splits)
  show "has_key (gt_pending (gs_gate s)) i \<or> i \<in> new_id a s" if "has_key (gt_pending (gs_gate s1)) i"
    using assms that by (cases a) (auto simp: forget_pending_def new_id_def register_def Let_def
        split: if_splits option.splits wake.splits)
  show "has_key (gs_chan s) i \<or> i \<in> names a" if "has_key (gs_chan s1) i"
    using assms that by (cases a) (auto simp: names_def register_def Let_def
        split: if_splits option.splits wake.splits)
  show "distinct (List.map fst (gt_pending (gs_gate s1)))" if "distinct (List.map fst (gt_pending (gs_gate s)))"
    using assms that by (cases a) (auto simp: forget_pending_def register_def Let_def distinct_delete distinct_update
        simp del: update.simps split: if_splits option.splits wake.splits)
qed

lemma new_id_old:
  assumes "ids_old s" "act js w now k a s = Some (new, s1)" "i \<in> new_id a s"
  shows "old_id (s1\<lparr>gs_threads := ts\<rparr>) i"
  using assms by (cases a) (auto simp: new_id_def register_def Let_def ids_old_def intro!: old_id_new)

lemma run_ids_old:
  assumes "ids_old s" "gs_threads s = pre @ (a # rest) # post" "act js w now k a s = Some (new, s1)"
  shows "ids_old (s1\<lparr>gs_threads := pre @ (new @ rest) # post\<rparr>)"
proof -
  let ?t = "s1\<lparr>gs_threads := pre @ (new @ rest) # post\<rparr>"
  have "live_id s i \<or> i \<in> new_id a s" if "live_id ?t i" for i
    using that act_ids(1-3) [OF assms(3), where i = i] assms(2) unfolding live_id_def acts_def by auto
  then have "old_id ?t i" if "live_id ?t i" for i
    using that assms(1) new_id_old [OF assms(1,3)] act_agent [OF assms(3)] unfolding ids_old_def
    by (auto elim!: allE [of _ i] intro: old_id_mono)
  then show ?thesis
    using act_ids(4) [OF assms(3)] act_agent [OF assms(3)] assms(1) unfolding ids_old_def by auto
qed

lemma ids_old_mono:
  assumes "ids_old s" "lg_agent (gs_log t) = lg_agent (gs_log s)" "gt_seq (gs_gate s) \<le> gt_seq (gs_gate t)"
    "distinct (List.map fst (gt_pending (gs_gate t)))" "\<And>i. live_id t i \<Longrightarrow> live_id s i"
  shows "ids_old t"
  using assms old_id_mono unfolding ids_old_def by fastforce

lemma ids_old_keep:
  assumes "ids_old s" "lg_agent (gs_log t) = lg_agent (gs_log s)" "gt_seq (gs_gate t) = gt_seq (gs_gate s)"
    "gt_pending (gs_gate t) = gt_pending (gs_gate s)" "gs_chan t = gs_chan s"
    "\<And>a. a \<in> set (acts t) \<Longrightarrow> a \<in> set (acts s) \<or> names a = {}"
  shows "ids_old t"
  by (rule ids_old_mono [OF assms(1,2)]) (use assms in \<open>auto simp: ids_old_def live_id_def\<close>)

lemma has_key_fst: "has_key al i \<longleftrightarrow> i \<in> fst ` set al"
  by (auto simp: has_key_def map_of_eq_None_iff)

lemma step_ids_old: "gate_step c js s t \<Longrightarrow> ids_old s \<Longrightarrow> ids_old t"
proof (induction rule: gate_step.induct)
  case (step_run w now k n s t)
  from step_run(1) show ?case by (rule run_split) (use step_run(2) run_ids_old in blast)
next
  case (step_revoke ids s)
  have "set ids = fst ` set (gt_pending (gs_gate s))" using mset_eq_setD [OF step_revoke(1)] by simp
  then have i: "has_key (gt_pending (gs_gate s)) i" if "i \<in> set ids" for i using that by (simp add: has_key_fst)
  show ?case
    using i by (rule_tac ids_old_mono [OF step_revoke(3)]) (auto simp: live_id_def acts_def revoke_all_def revoke_actions_def names_def)
next
  case (step_resolve s i now d)
  have "live_id s j" if "live_id (snd (resolve now i d s)) j" for j
    using that by (auto simp: live_id_def acts_def resolve_def resolve_actions_def names_def split: option.splits)
      (auto simp: has_key_def)
  then show ?case
    using step_resolve(2) by (rule_tac ids_old_mono [OF step_resolve(2)])
      (auto simp: resolve_def ids_old_def distinct_delete split: option.splits)
next
  case (step_check s now tool preview input)
  then show ?case by (rule ids_old_keep) (auto simp: acts_def check_call_def names_def split: prod.splits bool.splits)
next
  case (step_ask s grabbed question u)
  then show ?case by (rule ids_old_keep) (auto simp: acts_def ask_call_def names_def split: if_splits)
next
  case (step_raise s r now)
  from step_raise(2) show ?case by (rule ids_old_keep) (auto simp: acts_def)
next
  case (step_clear s i)
  from step_clear(2) show ?case by (rule ids_old_keep) (auto simp: acts_def)
qed

lemma reach_ids_old: "gate_reach c js s \<Longrightarrow> ids_old s"
proof (induction rule: gate_reach.induct)
  case (reach_start l h)
  then show ?case
    by (simp add: ids_old_def live_id_def acts_def new_gate_state_def new_gate_def log_last_id_def)
next
  case (reach_step s t)
  then show ?case by (metis step_ids_old)
qed

section \<open>One answer per question\<close>

definition sends :: "string \<Rightarrow> action \<Rightarrow> nat" where
  "sends i a = (case a of ASend j _ \<Rightarrow> if j = i then 1 else 0 | _ \<Rightarrow> 0)"

text \<open>A question is waiting for its answer, or the answer is on its way, or it has arrived.\<close>

definition answers :: "string \<Rightarrow> gate_state \<Rightarrow> nat" where
  "answers i s = of_bool (has_key (gt_pending (gs_gate s)) i) + weight (sends i) (acts s) + of_bool (has_key (gs_chan s) i)"

definition at_most_one :: "gate_state \<Rightarrow> bool" where
  "at_most_one s \<longleftrightarrow> (\<forall>i. answers i s \<le> 1)"

lemma weight_zero: "(\<And>a. a \<in> set xs \<Longrightarrow> f a = 0) \<Longrightarrow> weight f xs = 0"
  by (induction xs) auto

lemma not_live_answers: "\<not> live_id s i \<Longrightarrow> answers i s = 0"
  by (auto simp: answers_def live_id_def sends_def names_def intro!: weight_zero split: action.splits)

lemma act_answers:
  assumes "act js w now k a s = Some (new, s1)" "i \<notin> new_id a s" "gs_threads s = pre @ (a # rest) # post"
  shows "answers i (s1\<lparr>gs_threads := pre @ (new @ rest) # post\<rparr>) \<le> answers i s"
  using assms by (cases a) (auto simp: answers_def acts_def sends_def new_id_def register_def Let_def forget_pending_def
      await_actions_def wake_actions_def has_key_def [symmetric] split: if_splits option.splits wake.splits)

lemma act_answers_new:
  assumes "act js w now k a s = Some (new, s1)" "i \<in> new_id a s" "gs_threads s = pre @ (a # rest) # post" "answers i s = 0"
  shows "answers i (s1\<lparr>gs_threads := pre @ (new @ rest) # post\<rparr>) \<le> 1"
  using assms by (cases a) (auto simp: answers_def acts_def sends_def new_id_def register_def Let_def
      await_actions_def split: if_splits option.splits wake.splits)

lemma new_id_fresh: "ids_old s \<Longrightarrow> i \<in> new_id a s \<Longrightarrow> \<not> live_id s i"
  by (auto simp: ids_old_def new_id_def fresh_id split: action.splits)

lemma weight_revoke: "weight (sends i) (revoke_actions ids) = count (mset ids) i"
  by (induction ids) (auto simp: revoke_actions_def sends_def)

lemma count_keys: "distinct (List.map fst al) \<Longrightarrow> count (mset (List.map fst al)) i = of_bool (has_key al i)"
  by (auto simp: distinct_count_atmost_1 has_key_def map_of_eq_None_iff count_eq_zero_iff)

lemma answers_quiet:
  "answers i (snd (check_call now tool preview input s)) = answers i s"
  "answers i (ask_call grabbed question u s) = answers i s" "answers i (s\<lparr>gs_hub := h\<rparr>) = answers i s"
  by (auto simp: answers_def acts_def check_call_def ask_call_def sends_def split: prod.splits bool.splits)

lemma step_at_most_one: "gate_step c js s t \<Longrightarrow> ids_old s \<Longrightarrow> at_most_one s \<Longrightarrow> at_most_one t"
proof (induction rule: gate_step.induct)
  case (step_run w now k n s t)
  from step_run(1) show ?case
  proof (rule run_split)
    fix pre a rest post new s1
    assume h: "gs_threads s = pre @ (a # rest) # post" "act js w now k a s = Some (new, s1)"
      "t = s1\<lparr>gs_threads := pre @ (new @ rest) # post\<rparr>"
    show ?thesis unfolding at_most_one_def
    proof
      fix i
      show "answers i t \<le> 1"
      proof (cases "i \<in> new_id a s")
        case True
        then show ?thesis
          using act_answers_new [OF h(2) True h(1) not_live_answers [OF new_id_fresh [OF step_run(2) True]]] h(3) by simp
      next
        case False
        have "answers i s \<le> 1" using step_run(3) by (simp add: at_most_one_def)
        with act_answers [OF h(2) False h(1)] h(3) show ?thesis by simp
      qed
    qed
  qed
next
  case (step_revoke ids s)
  have d: "distinct (List.map fst (gt_pending (gs_gate s)))" using step_revoke(3) by (simp add: ids_old_def)
  have "answers i (snd (revoke_all ids s)) = answers i s" for i
    unfolding answers_def revoke_all_def acts_def
    by (simp add: weight_revoke step_revoke(1) count_keys [OF d, simplified])
  with step_revoke(4) show ?case by (simp add: at_most_one_def)
next
  case (step_resolve s i now d)
  have "answers j (snd (resolve now i d s)) \<le> answers j s" for j
    by (auto simp: answers_def resolve_def acts_def resolve_actions_def sends_def has_key_def [symmetric] split: option.splits)
      (simp_all add: has_key_def)
  with step_resolve show ?case unfolding at_most_one_def by (metis le_trans)
qed (simp_all add: at_most_one_def answers_quiet)

lemma reach_at_most_one: "gate_reach c js s \<Longrightarrow> at_most_one s"
proof (induction rule: gate_reach.induct)
  case (reach_start l h)
  then show ?case
    by (simp add: at_most_one_def answers_def acts_def new_gate_state_def new_gate_def)
next
  case (reach_step s t)
  then show ?case by (metis step_at_most_one reach_ids_old)
qed

section \<open>People waited on\<close>

text \<open>What an action still adds to the count of waits; a select stands for the wait it is in.\<close>

definition still_waits :: "action \<Rightarrow> int" where
  "still_waits a = (case a of AWait n \<Rightarrow> n | ASelect _ \<Rightarrow> - 1 | _ \<Rightarrow> 0)"

definition waits_balance :: "gate_state \<Rightarrow> bool" where
  "waits_balance s \<longleftrightarrow> gs_waiting s + weight still_waits (acts s) = 0"

lemma weight_waits_revoke: "weight still_waits (revoke_actions ids) = 0"
  by (induction ids) (auto simp: revoke_actions_def still_waits_def)

lemma act_waits:
  "act js w now k a s = Some (new, s1) \<Longrightarrow> gs_waiting s1 + weight still_waits new = gs_waiting s + still_waits a"
  by (cases a) (auto simp: still_waits_def register_def Let_def await_actions_def wake_actions_def
      split: if_splits option.splits wake.splits)

lemma step_waits: "gate_step c js s t \<Longrightarrow> waits_balance s \<Longrightarrow> waits_balance t"
proof (induction rule: gate_step.induct)
  case (step_run w now k n s t)
  from step_run(1) show ?case
    by (rule run_split) (use step_run(2) act_waits in \<open>fastforce simp: waits_balance_def acts_def\<close>)
next
  case (step_resolve s i now d)
  then show ?case by (auto simp: waits_balance_def acts_def resolve_def resolve_actions_def still_waits_def split: option.splits)
qed (auto simp: waits_balance_def acts_def check_call_def ask_call_def revoke_all_def weight_waits_revoke still_waits_def
    split: prod.splits bool.splits)

section \<open>Answers come from a person\<close>

definition said_or_stopped :: "gate_state \<Rightarrow> string \<Rightarrow> decision \<Rightarrow> bool" where
  "said_or_stopped s i d \<longleftrightarrow> (i, d) \<in> set (gs_said s) \<or> d = interrupted"

definition claims :: "string \<Rightarrow> decision \<Rightarrow> action \<Rightarrow> bool" where
  "claims i d a \<longleftrightarrow> a = ASend i d \<or> a = AReturn i (Answered d)"

definition carried :: "gate_state \<Rightarrow> string \<Rightarrow> decision \<Rightarrow> bool" where
  "carried s i d \<longleftrightarrow> map_of (gs_chan s) i = Some d \<or> (i, Answered d) \<in> set (gs_returned s)"

definition sourced :: "gate_state \<Rightarrow> bool" where
  "sourced s \<longleftrightarrow> (\<forall>i d. carried s i d \<or> (\<exists>a \<in> set (acts s). claims i d a) \<longrightarrow> said_or_stopped s i d)"

lemma act_claims:
  assumes "act js w now k a s = Some (new, s1)"
  shows "gs_said s1 = gs_said s"
    "b \<in> set new \<Longrightarrow> claims i d b \<Longrightarrow> claims i d a \<or> carried s i d"
    "carried s1 i d \<Longrightarrow> claims i d a \<or> carried s i d"
  using assms by (cases a; auto simp: claims_def carried_def register_def Let_def await_actions_def wake_actions_def
      update_conv' delete_conv' split: if_splits option.splits wake.splits)+

lemma act_sourced:
  assumes "act js w now k a s = Some (new, s1)" "gs_threads s = pre @ (a # rest) # post" "sourced s"
  shows "sourced (s1\<lparr>gs_threads := pre @ (new @ rest) # post\<rparr>)"
proof -
  let ?t = "s1\<lparr>gs_threads := pre @ (new @ rest) # post\<rparr>"
  have t: "carried ?t i d \<longleftrightarrow> carried s1 i d" "said_or_stopped ?t i d \<longleftrightarrow> said_or_stopped s i d" for i d
    using act_claims(1) [OF assms(1)] by (simp_all add: carried_def said_or_stopped_def)
  have "carried s i d \<or> (\<exists>a \<in> set (acts s). claims i d a)" if "carried ?t i d \<or> (\<exists>a \<in> set (acts ?t). claims i d a)" for i d
    using that act_claims(2,3) [OF assms(1), where i = i and d = d] assms(2) unfolding t acts_def by auto
  with assms(3) show ?thesis unfolding sourced_def t by blast
qed

lemma step_sourced: "gate_step c js s t \<Longrightarrow> sourced s \<Longrightarrow> sourced t"
proof (induction rule: gate_step.induct)
  case (step_run w now k n s t)
  from step_run(1) show ?case by (rule run_split) (use step_run(2) act_sourced in blast)
qed (auto simp: sourced_def said_or_stopped_def carried_def claims_def acts_def check_call_def ask_call_def revoke_all_def
    revoke_actions_def resolve_def resolve_actions_def split: prod.splits bool.splits option.splits if_splits)

lemma reach_sourced: "gate_reach c js s \<Longrightarrow> waits_balance s \<and> sourced s"
proof (induction rule: gate_reach.induct)
  case (reach_start l h)
  then show ?case
    by (simp add: waits_balance_def sourced_def carried_def acts_def new_gate_state_def new_gate_def)
next
  case (reach_step s t)
  then show ?case by (blast intro: step_waits step_sourced)
qed

section \<open>Cards in a careful run\<close>

definition raises :: "string \<Rightarrow> action \<Rightarrow> bool" where
  "raises i a = (case a of ARaise r \<Rightarrow> ra_id r = i | _ \<Rightarrow> False)"

definition wait_of :: "string \<Rightarrow> action \<Rightarrow> bool" where
  "wait_of i a = (raises i a \<or> a = ASelect i \<or> a = AForget i)"

definition owners :: "string \<Rightarrow> gate_state \<Rightarrow> nat" where
  "owners i s = length (filter (list_ex (wait_of i)) (gs_threads s))"

fun thread_ok :: "action list \<Rightarrow> bool" where
  "thread_ok [] = True"
| "thread_ok (a # rest) =
     ((case a of AShot _ _ _ \<Rightarrow> rest = [] | AStart _ _ \<Rightarrow> rest = [] | ASelect _ \<Rightarrow> rest = []
         | AForget i \<Rightarrow> AClear i \<in> set rest \<and> \<not> list_ex (raises i) rest | _ \<Rightarrow> True) \<and> thread_ok rest)"

definition one_owner :: "gate_state \<Rightarrow> bool" where
  "one_owner s \<longleftrightarrow> list_all thread_ok (gs_threads s) \<and> (\<forall>i. owners i s \<le> 1)"

lemma thread_ok_effects: "list_all (\<lambda>a. case a of AClear _ \<Rightarrow> True | ASend _ _ \<Rightarrow> True | _ \<Rightarrow> False) xs \<Longrightarrow> thread_ok xs"
  by (induction xs) (auto split: action.splits)

lemma revoke_effects:
  "list_all (\<lambda>a. case a of AClear _ \<Rightarrow> True | ASend _ _ \<Rightarrow> True | _ \<Rightarrow> False) (revoke_actions ids)"
  "\<not> list_ex (wait_of i) (revoke_actions ids)"
  by (auto simp: revoke_actions_def wait_of_def raises_def list_all_iff list_ex_iff)

lemma not_live_owners: "\<not> live_id s i \<Longrightarrow> owners i s = 0"
proof -
  have "i \<in> names a" if "wait_of i a" for a using that by (auto simp: wait_of_def raises_def names_def split: action.splits)
  then show "\<not> live_id s i \<Longrightarrow> owners i s = 0"
    unfolding owners_def live_id_def acts_def by (auto simp: filter_empty_conv list_ex_iff)
qed

lemma act_waits_of:
  assumes "act js w now k a s = Some (new, s1)"
  shows "list_ex (wait_of i) new \<Longrightarrow> i \<notin> new_id a s \<Longrightarrow> wait_of i a"
    "thread_ok (a # rest) \<Longrightarrow> thread_ok (new @ rest)"
  using assms by (cases a; auto simp: wait_of_def raises_def new_id_def register_def Let_def await_actions_def raised_from_def
      wake_actions_def split: if_splits option.splits wake.splits)+

lemma run_one_owner:
  assumes "act js w now k a s = Some (new, s1)" "gs_threads s = pre @ (a # rest) # post" "one_owner s" "ids_old s"
  shows "one_owner (s1\<lparr>gs_threads := pre @ (new @ rest) # post\<rparr>)"
proof -
  let ?t = "s1\<lparr>gs_threads := pre @ (new @ rest) # post\<rparr>"
  have "owners i ?t \<le> 1" for i
  proof (cases "i \<in> new_id a s")
    case True
    have "owners i s = 0" by (rule not_live_owners [OF new_id_fresh [OF assms(4) True]])
    then show ?thesis using assms(2) by (auto simp: owners_def split: if_splits)
  next
    case False
    then have "owners i ?t \<le> owners i s" using act_waits_of(1) [OF assms(1)] assms(2) by (auto simp: owners_def)
    with assms(3) show ?thesis by (auto simp: one_owner_def intro: order_trans)
  qed
  moreover have "thread_ok (a # rest)" "list_all thread_ok (pre @ post)" using assms(2,3) by (auto simp: one_owner_def)
  ultimately show ?thesis using act_waits_of(2) [OF assms(1), of rest] by (simp add: one_owner_def)
qed

lemma step_one_owner: "gate_step c js s t \<Longrightarrow> ids_old s \<Longrightarrow> one_owner s \<Longrightarrow> one_owner t"
proof (induction rule: gate_step.induct)
  case (step_run w now k n s t)
  from step_run(1) show ?case by (rule run_split) (use step_run(2,3) run_one_owner in blast)
next
  case (step_revoke ids s)
  have "thread_ok (revoke_actions ids)" by (rule thread_ok_effects [OF revoke_effects(1)])
  with step_revoke(4) show ?case by (simp add: one_owner_def owners_def revoke_all_def revoke_effects(2))
qed (auto simp: one_owner_def owners_def check_call_def ask_call_def resolve_def resolve_actions_def wait_of_def raises_def
    split: prod.splits bool.splits option.splits)

lemma reach_one_owner: "gate_reach c js s \<Longrightarrow> one_owner s"
proof (induction rule: gate_reach.induct)
  case (reach_start l h)
  then show ?case by (simp add: one_owner_def owners_def new_gate_state_def)
next
  case (reach_step s t)
  then show ?case by (metis step_one_owner reach_ids_old)
qed

text \<open>Every card about to go up waits for its answer; every card that is up waits or is about to be cleared.\<close>

definition cards_ok :: "gate_state \<Rightarrow> bool" where
  "cards_ok s \<longleftrightarrow>
     (\<forall>i. list_ex (raises i) (acts s) \<longrightarrow> has_key (gt_pending (gs_gate s)) i) \<and>
     (\<forall>i. has_key (hb_raised (gs_hub s)) i \<and> own_id (lg_agent (gs_log s)) i \<longrightarrow>
        has_key (gt_pending (gs_gate s)) i \<or> AClear i \<in> set (acts s))"

lemma hub_keys:
  "has_key (hb_raised (raise_hand now r h)) i \<longleftrightarrow> i = ra_id r \<or> has_key (hb_raised h) i"
  "has_key (hb_raised (clear_hand j h)) i \<longleftrightarrow> i \<noteq> j \<and> has_key (hb_raised h) i"
  by (auto simp: raise_hand_def clear_hand_def publish_def Let_def)

text \<open>When a wait is given up its card has gone up already.\<close>

lemma forget_after_raise:
  assumes "one_owner s" "gs_threads s = pre @ (AForget i # rest) # post"
  shows "\<not> list_ex (raises i) (acts s)" "AClear i \<in> set rest"
proof -
  have "owners i s \<le> 1" "thread_ok (AForget i # rest)" using assms by (auto simp: one_owner_def)
  then have "\<not> list_ex (raises i) rest" "AClear i \<in> set rest" "list_all (\<lambda>th. \<not> list_ex (wait_of i) th) (pre @ post)"
    using assms(2) by (auto simp: owners_def wait_of_def list_all_iff filter_empty_conv)
  moreover have "\<not> raises i (AForget i)" by (simp add: raises_def)
  ultimately show "\<not> list_ex (raises i) (acts s)" "AClear i \<in> set rest"
    using assms(2) by (auto simp: acts_def list_ex_iff list_all_iff wait_of_def)
qed

lemma run_cards_ok:
  assumes "act js w now k a s = Some (new, s1)" "gs_threads s = pre @ (a # rest) # post" "cards_ok s" "one_owner s"
  shows "cards_ok (s1\<lparr>gs_threads := pre @ (new @ rest) # post\<rparr>)"
proof -
  have f: "\<not> list_ex (raises i) (acts s) \<and> AClear i \<in> set rest" if "a = AForget i" for i
    using forget_after_raise [OF assms(4)] assms(2) that by blast
  show ?thesis
  proof (cases a)
    case (AForget i)
    with assms(1-3) f [OF AForget] show ?thesis
      by (auto simp: cards_ok_def acts_def raises_def forget_pending_def)
  next
    case (AStart tool e)
    with assms(1-3) show ?thesis
      by (auto simp: cards_ok_def acts_def raises_def register_def Let_def await_actions_def raised_from_def)
  next
    case (ARaise r)
    with assms(1-3) show ?thesis
      by (auto simp: cards_ok_def acts_def raises_def hub_keys) blast+
  qed (use assms(1-3) in \<open>auto simp: cards_ok_def acts_def raises_def hub_keys append_event_def Let_def wake_actions_def
        split: if_splits option.splits wake.splits\<close>)
qed

lemma not_raised_yet: "raised_yet s i \<longleftrightarrow> \<not> list_ex (raises i) (acts s)"
  by (auto simp: raised_yet_def raises_def list_all_iff list_ex_iff split: action.splits)

lemma step_cards_ok: "gate_step True js s t \<Longrightarrow> one_owner s \<Longrightarrow> cards_ok s \<Longrightarrow> cards_ok t"
proof (induction rule: gate_step.induct)
  case (step_run w now k n s t)
  from step_run(1) show ?case by (rule run_split) (use step_run(2,3) run_cards_ok in blast)
next
  case (step_revoke ids s)
  have "set ids = fst ` set (gt_pending (gs_gate s))" using mset_eq_setD [OF step_revoke(1)] by simp
  then have i: "i \<in> set ids \<longleftrightarrow> has_key (gt_pending (gs_gate s)) i" for i by (simp add: has_key_fst)
  have "\<not> list_ex (raises i) (revoke_actions ids)" for i using revoke_effects(2) [of i ids] by (auto simp: wait_of_def list_ex_iff)
  moreover have "AClear i \<in> set (revoke_actions ids) \<longleftrightarrow> i \<in> set ids" for i by (auto simp: revoke_actions_def)
  ultimately show ?case
    using step_revoke(2,4) i by (auto simp: cards_ok_def revoke_all_def acts_def allowed_def not_raised_yet list_all_iff)
next
  case (step_resolve s i now d)
  then show ?case
    by (auto simp: cards_ok_def resolve_def resolve_actions_def acts_def allowed_def not_raised_yet raises_def list_ex_iff
        split: option.splits)
qed (auto simp: cards_ok_def check_call_def ask_call_def acts_def raises_def hub_keys split: prod.splits bool.splits)

lemma reach_cards_ok: "gate_reach True js s \<Longrightarrow> cards_ok s"
proof (induction rule: gate_reach.induct)
  case (reach_start l h)
  then show ?case
    by (auto simp: cards_ok_def new_gate_state_def acts_def has_key_fst list_all_iff)
next
  case (reach_step s t)
  then show ?case by (metis step_cards_ok reach_one_owner)
qed

section \<open>Numbers and the log\<close>

definition logs :: "action \<Rightarrow> int" where
  "logs a = (case a of ALog _ \<Rightarrow> 1 | _ \<Rightarrow> 0)"

definition seq_logged :: "gate_state \<Rightarrow> bool" where
  "seq_logged s \<longleftrightarrow> gt_seq (gs_gate s) \<le> log_last_id (gs_log s) + weight logs (acts s)"

lemma act_logs:
  "act js w now k a s = Some (new, s1) \<Longrightarrow>
   gt_seq (gs_gate s1) - log_last_id (gs_log s1) - weight logs new = gt_seq (gs_gate s) - log_last_id (gs_log s) - logs a"
  by (cases a) (auto simp: logs_def register_def Let_def await_actions_def wake_actions_def append_event_def log_last_id_def
      forget_pending_def split: if_splits option.splits wake.splits)

lemma weight_logs_revoke: "weight logs (revoke_actions ids) = 0"
  by (induction ids) (auto simp: revoke_actions_def logs_def)

lemma step_seq_logged: "gate_step c js s t \<Longrightarrow> seq_logged s \<Longrightarrow> seq_logged t"
proof (induction rule: gate_step.induct)
  case (step_run w now k n s t)
  from step_run(1) show ?case
    by (rule run_split) (use step_run(2) act_logs in \<open>fastforce simp: seq_logged_def acts_def\<close>)
next
  case (step_resolve s i now d)
  then show ?case by (auto simp: seq_logged_def acts_def resolve_def resolve_actions_def logs_def split: option.splits)
qed (auto simp: seq_logged_def acts_def check_call_def ask_call_def revoke_all_def weight_logs_revoke logs_def
    split: prod.splits bool.splits)

lemma reach_seq_logged: "gate_reach c js s \<Longrightarrow> seq_logged s"
proof (induction rule: gate_reach.induct)
  case (reach_start l h)
  then show ?case by (simp add: seq_logged_def acts_def new_gate_state_def new_gate_def)
next
  case (reach_step s t)
  then show ?case by (metis step_seq_logged)
qed

section \<open>Runs that compute\<close>

datatype gate_move =
    MCheck int string string string
  | MAsk bool string ui
  | MResolve int string decision
  | MRevoke
  | MRun nat wake

fun move :: "event_json \<Rightarrow> gate_move \<Rightarrow> gate_state \<Rightarrow> gate_state option" where
  "move js (MCheck now tool preview input) s = Some (snd (check_call now tool preview input s))"
| "move js (MAsk grabbed question u) s = Some (ask_call grabbed question u s)"
| "move js (MResolve now i d) s = Some (snd (resolve now i d s))"
| "move js MRevoke s = Some (snd (revoke_all (List.map fst (gt_pending (gs_gate s))) s))"
| "move js (MRun n k) s = run_thread js WrittenAll 0 k n s"

fun moves :: "event_json \<Rightarrow> gate_move list \<Rightarrow> gate_state \<Rightarrow> gate_state option" where
  "moves js [] s = Some s"
| "moves js (m # ms) s = (case move js m s of None \<Rightarrow> None | Some t \<Rightarrow> moves js ms t)"

lemma move_step: "move js m s = Some t \<Longrightarrow> gate_step False js s t"
  by (cases m) (auto simp: allowed_def intro: gate_step.intros)

lemma moves_reach: "moves js ms s = Some t \<Longrightarrow> gate_reach False js s \<Longrightarrow> gate_reach False js t"
proof (induction ms arbitrary: s)
  case (Cons m ms)
  from Cons.prems(1) obtain u where u: "move js m s = Some u" "moves js ms u = Some t" by (auto split: option.splits)
  show ?case by (rule Cons.IH [OF u(2) reach_step [OF Cons.prems(2) move_step [OF u(1)]]])
qed simp

definition fresh_log :: event_log where
  "fresh_log = \<lparr>lg_agent = ''a'', lg_next = 1, lg_disk = NoLog, lg_subs = []\<rparr>"

lemma fresh_reach: "gate_reach c js (new_gate_state fresh_log new_hub)"
  by (rule reach_start) (simp_all add: fresh_log_def new_hub_def)

section \<open>The promises\<close>

text \<open>
  C8. In every interleaving of handlers, answers, timeouts and interrupts, delivering an answer never
  blocks the one who answers, each question gets at most one answer, and a gated call is let through
  only with an answer \<open>allow\<close> that a person gave to that very question.
\<close>

theorem answers_delivered_once:
  assumes "gate_reach careful js s"
  shows "(gs_threads s ! n = ASend i d # rest \<and> n < length (gs_threads s) \<longrightarrow>
      run_thread js w now k n s =
        Some (s\<lparr>gs_chan := AList.update i d (gs_chan s), gs_threads := (gs_threads s)[n := rest]\<rparr>)) \<and>
    answers i s \<le> 1 \<and>
    ((i, v) \<in> set (gs_returned s) \<and> check_result v = Inr () \<longrightarrow>
      (\<exists>d. (i, d) \<in> set (gs_said s) \<and> d_decision d = ''allow''))"
proof (intro conjI impI)
  have one: "answers i s \<le> 1" using reach_at_most_one [OF assms] by (simp add: at_most_one_def)
  then show "answers i s \<le> 1" .
  assume "gs_threads s ! n = ASend i d # rest \<and> n < length (gs_threads s)"
  then have n: "n < length (gs_threads s)" "gs_threads s ! n = ASend i d # rest" by simp_all
  obtain pre post where "gs_threads s = pre @ (ASend i d # rest) # post"
    using id_take_nth_drop [OF n(1)] n(2) by metis
  with one have "\<not> has_key (gs_chan s) i" by (auto simp: answers_def acts_def sends_def)
  with n show "run_thread js w now k n s =
        Some (s\<lparr>gs_chan := AList.update i d (gs_chan s), gs_threads := (gs_threads s)[n := rest]\<rparr>)"
    by (simp add: run_thread_def has_key_def)
next
  assume "(i, v) \<in> set (gs_returned s) \<and> check_result v = Inr ()"
  then obtain d where "(i, Answered d) \<in> set (gs_returned s)" "d_decision d = ''allow''"
    by (auto simp: check_result_def split: verdict.splits if_splits)
  moreover from this have "said_or_stopped s i d"
    using reach_sourced [OF assms] by (auto simp: sourced_def carried_def)
  ultimately show "\<exists>d. (i, d) \<in> set (gs_said s) \<and> d_decision d = ''allow''"
    by (auto simp: said_or_stopped_def interrupted_def)
qed

definition yes :: decision where
  "yes = \<lparr>d_decision = ''allow'', d_reason = [], d_answer = [], d_scope = [], d_max_uses = 0, d_ttl = 0\<rparr>"

definition asked :: gate_state where
  "asked = the (moves toy_json [MCheck 0 ''Bash'' ''p'' ''i'', MRun 0 TakeTimer, MRun 0 TakeTimer, MRun 0 TakeTimer,
     MRun 0 TakeTimer, MResolve 0 ''a.ap_001'' yes, MRun 1 TakeTimer, MRun 1 TakeTimer, MRun 1 TakeTimer,
     MRun 0 TakeAnswer, MRun 0 TakeTimer, MRun 0 TakeTimer] (new_gate_state fresh_log new_hub))"

lemma asked_eval:
  "moves toy_json [MCheck 0 ''Bash'' ''p'' ''i'', MRun 0 TakeTimer, MRun 0 TakeTimer, MRun 0 TakeTimer,
     MRun 0 TakeTimer, MResolve 0 ''a.ap_001'' yes, MRun 1 TakeTimer, MRun 1 TakeTimer, MRun 1 TakeTimer,
     MRun 0 TakeAnswer, MRun 0 TakeTimer, MRun 0 TakeTimer] (new_gate_state fresh_log new_hub) = Some asked"
  "gs_returned asked = [(''a.ap_001'', Answered yes)]" "hb_raised (gs_hub asked) = []" "gs_threads asked = [[], []]"
  unfolding asked_def by code_simp+

theorem answers_delivered_once_witness:
  "check_result (Answered yes) = Inr () \<and> (\<exists>d. (''a.ap_001'', d) \<in> set (gs_said asked) \<and> d_decision d = ''allow'')"
proof -
  have c: "check_result (Answered yes) = Inr ()" by (simp add: check_result_def yes_def)
  have "gate_reach False toy_json asked" by (rule moves_reach [OF asked_eval(1) fresh_reach])
  from answers_delivered_once [OF this, where i = "''a.ap_001''" and v = "Answered yes"] c asked_eval(2)
  show ?thesis by auto
qed


definition shown :: gate_state where
  "shown = snd (check_call 0 ''Bash'' ''p'' ''i'' (new_gate_state fresh_log new_hub))"


text \<open>
  An interrupt between registering a question and showing its card leaves the card up for good: the
  handler is told no and is done, nothing is pending, nobody is waited on, and no answer to the
  card is ever accepted.
\<close>

theorem early_interrupt_leaves_card:
  "\<exists>s. gate_reach False toy_json s \<and> acts s = [] \<and> gs_waiting s = 0 \<and>
     gs_returned s = [(''a.ap_001'', Answered interrupted)] \<and>
     List.map ra_id (list_hands (gs_hub s)) = [''a.ap_001''] \<and>
     (\<forall>now d. resolve now ''a.ap_001'' d s = (False, s))"
proof -
  let ?ms = "[MCheck 0 ''Bash'' ''p'' ''i'', MRun 0 TakeTimer, MRevoke, MRun 1 TakeTimer, MRun 1 TakeTimer,
     MRun 0 TakeTimer, MRun 0 TakeTimer, MRun 0 TakeTimer, MRun 0 TakeAnswer, MRun 0 TakeTimer, MRun 0 TakeTimer]"
  let ?s = "the (moves toy_json ?ms (new_gate_state fresh_log new_hub))"
  have "moves toy_json ?ms (new_gate_state fresh_log new_hub) = Some ?s" by code_simp
  from moves_reach [OF this fresh_reach] have "gate_reach False toy_json ?s" .
  moreover have "acts ?s = []" "gs_waiting ?s = 0" "gs_returned ?s = [(''a.ap_001'', Answered interrupted)]"
    "List.map ra_id (list_hands (gs_hub ?s)) = [''a.ap_001'']"
    unfolding acts_def by code_simp+
  moreover have "gt_pending (gs_gate ?s) = []" by code_simp
  ultimately show ?thesis by (intro exI [of _ ?s]) (simp add: resolve_def)
qed

section \<open>Batch consent\<close>

datatype consent_op = GScope int string decision | GConsume int string | GRevoke

fun grant_op :: "consent_op \<Rightarrow> grant list \<Rightarrow> bool \<times> grant list" where
  "grant_op (GScope now tool d) gs = (False, apply_scope now tool d gs)"
| "grant_op (GConsume now tool) gs = consume now tool gs"
| "grant_op GRevoke gs = (False, [])"

text \<open>How often a run lets a tool through without asking, and what its consents allow.\<close>

fun uses :: "string \<Rightarrow> consent_op list \<Rightarrow> grant list \<Rightarrow> int" where
  "uses tool [] gs = 0"
| "uses tool (p # ps) gs =
     (case grant_op p gs of (spent, gs1) \<Rightarrow>
        (if spent \<and> (case p of GConsume _ t \<Rightarrow> t = tool | _ \<Rightarrow> False) then 1 else 0) + uses tool ps gs1)"

definition consent :: "string \<Rightarrow> consent_op \<Rightarrow> int" where
  "consent tool p = (case p of GScope _ t d \<Rightarrow>
     if t = tool \<and> tool \<noteq> [] \<and> d_scope d = ''batch'' \<and> d_decision d = ''allow'' then max 0 (or_zero (d_max_uses d) 10) else 0
   | _ \<Rightarrow> 0)"

definition budget :: "string \<Rightarrow> grant list \<Rightarrow> int" where
  "budget tool gs = sum_list (List.map (\<lambda>g. if gr_tool g = tool then max 0 (gr_remaining g) else 0) gs)"

lemma budget_simps [simp]:
  "budget tool [] = 0"
  "budget tool (g # gs) = (if gr_tool g = tool then max 0 (gr_remaining g) else 0) + budget tool gs"
  "budget tool (gs @ hs) = budget tool gs + budget tool hs"
  by (simp_all add: budget_def)

lemma budget_consume:
  "budget tool (snd (consume now t gs)) + (if fst (consume now t gs) \<and> t = tool then 1 else 0) = budget tool gs"
  by (induction gs) (auto split: prod.splits)

lemma budget_op:
  "budget tool (snd (grant_op p gs)) + (if fst (grant_op p gs) \<and> (case p of GConsume _ t \<Rightarrow> t = tool | _ \<Rightarrow> False) then 1 else 0)
     \<le> budget tool gs + consent tool p"
proof (cases p)
  case (GConsume now t)
  then show ?thesis using budget_consume [of tool now t gs] by (simp add: consent_def)
next
  case GRevoke
  have "0 \<le> budget tool gs" by (induction gs) auto
  with GRevoke show ?thesis by (simp add: consent_def)
qed (auto simp: apply_scope_def consent_def)

fun after_ops :: "consent_op list \<Rightarrow> grant list \<Rightarrow> grant list" where
  "after_ops [] gs = gs"
| "after_ops (p # ps) gs = after_ops ps (snd (grant_op p gs))"

text \<open>
  C15. A batch consent covers what it says: over any sequence of batch answers, gated calls and
  interrupts, the calls of a tool let through without asking, with what its grants still allow, are
  never more than its consents added up. A call is let through exactly when some grant
  of its own tool has a use left and has not expired, and an interrupt leaves none.
\<close>

theorem batch_consent_bounded:
  "uses tool ops gs + budget tool (after_ops ops gs) \<le> budget tool gs + sum_list (List.map (consent tool) ops) \<and>
   fst (consume now tool gs) = list_ex (\<lambda>g. gr_tool g = tool \<and> gr_remaining g > 0 \<and> gr_expires g > now) gs \<and>
   budget tool (gt_grants (gs_gate (snd (revoke_all ids s)))) = 0"
proof -
  have "uses tool ops gs + budget tool (after_ops ops gs) \<le> budget tool gs + sum_list (List.map (consent tool) ops)"
  proof (induction ops arbitrary: gs)
    case (Cons p ops)
    have "uses tool ops (snd (grant_op p gs)) + budget tool (after_ops ops (snd (grant_op p gs)))
        \<le> budget tool (snd (grant_op p gs)) + sum_list (List.map (consent tool) ops)" by (rule Cons.IH)
    with budget_op [of tool p gs] show ?case by (simp add: split_def)
  qed simp
  moreover have "fst (consume now tool gs) = list_ex (\<lambda>g. gr_tool g = tool \<and> gr_remaining g > 0 \<and> gr_expires g > now) gs"
    by (induction gs) (auto split: prod.splits)
  ultimately show ?thesis by (simp add: revoke_all_def)
qed

theorem batch_consent_bounded_witness:
  "uses ''Bash'' [GScope 0 ''Bash'' (yes\<lparr>d_scope := ''batch'', d_max_uses := 2\<rparr>), GConsume 1 ''Bash'', GConsume 1 ''Bash'',
     GConsume 1 ''Bash''] [] \<le> 2"
  using batch_consent_bounded [of "''Bash''" "[GScope 0 ''Bash'' (yes\<lparr>d_scope := ''batch'', d_max_uses := 2\<rparr>),
     GConsume 1 ''Bash'', GConsume 1 ''Bash'', GConsume 1 ''Bash'']" "[]"]
  by (simp add: consent_def or_zero_def yes_def apply_scope_def ttl_ns_def ns_per_sec_def)

section \<open>Ids after a restart\<close>

text \<open>
  Once every ask is on the log, a gate built after a restart never mints an id this one has used,
  whatever it has asked and however it was answered.
\<close>

theorem ids_fresh_after_restart:
  assumes "gate_reach careful js s" "weight logs (acts s) = 0" "log_last_id l = log_last_id (gs_log s)"
    "lg_agent l = lg_agent (gs_log s)" "gt_seq (new_gate l) \<le> gt_seq g"
  shows "\<not> old_id s (fst (register (lg_agent l) kind tool g))"
proof -
  have "gt_seq (gs_gate s) \<le> gt_seq g"
    using reach_seq_logged [OF assms(1)] assms(2,3,5) by (simp add: seq_logged_def new_gate_def)
  moreover have "0 \<le> gt_seq (gs_gate s)" using reach_ids_old [OF assms(1)] by (simp add: ids_old_def)
  ultimately show ?thesis
    unfolding old_id_def assms(4) by (auto simp: register_def Let_def dest!: ask_id_inj [rotated 2])
qed

theorem ids_fresh_after_restart_witness:
  "fst (register ''a'' ''question'' [] (new_gate (gs_log asked))) = ''a.q_003'' \<and> \<not> old_id asked ''a.q_003''"
proof -
  have r: "gate_reach False toy_json asked" by (rule moves_reach [OF asked_eval(1) fresh_reach])
  have w: "weight logs (acts asked) = 0" by (simp add: acts_def asked_eval(4))
  have l: "lg_agent (gs_log asked) = ''a''" "fst (register ''a'' ''question'' [] (new_gate (gs_log asked))) = ''a.q_003''"
    unfolding asked_def by code_simp+
  with ids_fresh_after_restart [OF r w refl refl order_refl, of "''question''" "[]"] show ?thesis by simp
qed

text \<open>
  A crash between two asks breaks it: of two handlers that have registered, the second is on the log
  and its card is up, the first is not; the next gate mints the second's id again.
\<close>

lemma crash_repeats_id:
  "\<exists>s. gate_reach False toy_json s \<and> List.map ra_id (list_hands (gs_hub s)) = [''a.ap_002''] \<and>
     fst (register ''a'' ''approval_required'' ''Bash'' (new_gate (gs_log s))) = ''a.ap_002''"
proof -
  let ?ms = "[MCheck 0 ''Bash'' ''p'' ''i'', MCheck 0 ''Bash'' ''p'' ''i'', MRun 0 TakeTimer, MRun 1 TakeTimer,
     MRun 1 TakeTimer, MRun 1 TakeTimer]"
  let ?s = "the (moves toy_json ?ms (new_gate_state fresh_log new_hub))"
  have "moves toy_json ?ms (new_gate_state fresh_log new_hub) = Some ?s" by code_simp
  from moves_reach [OF this fresh_reach] have "gate_reach False toy_json ?s" .
  moreover have "List.map ra_id (list_hands (gs_hub ?s)) = [''a.ap_002'']"
    "fst (register ''a'' ''approval_required'' ''Bash'' (new_gate (gs_log ?s))) = ''a.ap_002''"
    by code_simp+
  ultimately show ?thesis by (intro exI [of _ ?s] conjI)
qed

text \<open>Two handlers that take a picture at once name it alike: the name is read before either registers.\<close>

lemma handoff_pictures_collide:
  "\<exists>s. gate_reach False toy_json s \<and>
     List.map (\<lambda>r. (ra_id r, ra_shot r)) (list_hands (gs_hub s)) =
       [(''a.q_001'', ''handoff-001.png''), (''a.q_002'', ''handoff-001.png'')]"
proof -
  let ?u = "\<lparr>ui_kind = ''handoff'', ui_options = [], ui_url = []\<rparr>"
  let ?ms = "[MAsk True ''p'' ?u, MAsk True ''q'' ?u, MRun 0 TakeTimer, MRun 1 TakeTimer, MRun 0 TakeTimer, MRun 1 TakeTimer,
     MRun 0 TakeTimer, MRun 0 TakeTimer, MRun 1 TakeTimer, MRun 1 TakeTimer]"
  let ?s = "the (moves toy_json ?ms (new_gate_state fresh_log new_hub))"
  have "moves toy_json ?ms (new_gate_state fresh_log new_hub) = Some ?s" by code_simp
  from moves_reach [OF this fresh_reach] have "gate_reach False toy_json ?s" .
  moreover have "List.map (\<lambda>r. (ra_id r, ra_shot r)) (list_hands (gs_hub ?s)) =
       [(''a.q_001'', ''handoff-001.png''), (''a.q_002'', ''handoff-001.png'')]" by code_simp
  ultimately show ?thesis by (intro exI [of _ ?s] conjI)
qed

end
