(* ===== verification/NumberedProps.thy ===== *)
theory NumberedProps
  imports Numbered GuestFilesProps GuestWireProps GateProps
begin

text \<open>
  What numbering promises, stated once for a folder whose names give their numbers back, and used for both: a number is never handed out
  over a file that is there, across restarts, failed writes and rotations, so what a message or a conversation refers to stays what it was.
\<close>

section \<open>The highest number\<close>

lemma highest_ge_start: "a \<le> foldl (\<lambda>high w. if f w > high then f w else high) a (ws :: string list)" for a :: int
proof (induction ws arbitrary: a)
  case (Cons w ws)
  show ?case using Cons [of a] Cons [of "f w"] by auto
qed simp

lemma highest_ge_each:
  "w \<in> set ws \<Longrightarrow> f w \<le> foldl (\<lambda>high w. if f w > high then f w else high) a (ws :: string list)" for a :: int
proof (induction ws arbitrary: a)
  case (Cons v ws)
  then show ?case
    using highest_ge_start [of "if f v > a then f v else a" f ws] by (auto split: if_splits)
qed simp

lemma highest_le: "a \<le> k \<Longrightarrow> (\<And>w. w \<in> set ws \<Longrightarrow> f w \<le> k) \<Longrightarrow>
    foldl (\<lambda>high w. if f w > high then f w else high) a (ws :: string list) \<le> k" for a :: int
  by (induction ws arbitrary: a) simp_all

lemma highest_upper: "w \<in> set ws \<Longrightarrow> f w \<le> highest_seq f ws"
  and highest_nonneg: "0 \<le> highest_seq f ws"
  by (simp_all add: highest_seq_def highest_ge_each highest_ge_start)

lemma highest_least: "0 \<le> k \<Longrightarrow> (\<And>w. w \<in> set ws \<Longrightarrow> f w \<le> k) \<Longrightarrow> highest_seq f ws \<le> k"
  by (simp add: highest_seq_def highest_le)

section \<open>A folder, by what is in it\<close>

definition held :: "shelf \<Rightarrow> string \<Rightarrow> string option" where
  "held s = map_of (sh_files s)"

lemma held_put: "held (put_on w b s) = (held s)(w \<mapsto> b)"
  by (simp add: held_def put_on_def update_conv')

lemma held_off: "held (take_off w s) v = (if v = w then None else held s v)"
  by (simp add: held_def take_off_def delete_conv')

lemma seq_put [simp]: "sh_seq (put_on w b s) = sh_seq s" "sh_seq (take_off w s) = sh_seq s"
  by (simp_all add: put_on_def take_off_def)

lemma held_dom: "dom (held s) = set (List.map fst (sh_files s))"
  by (simp add: held_def dom_map_of_conv_image_fst)

text \<open>In step: no file has a number past the last one handed out.\<close>

definition in_step :: "(string \<Rightarrow> int) \<Rightarrow> shelf \<Rightarrow> bool" where
  "in_step number_of s \<longleftrightarrow> 0 \<le> sint (sh_seq s) \<and> (\<forall>w b. held s w = Some b \<longrightarrow> number_of w \<le> sint (sh_seq s))"

lemma in_stepD: "in_step f s \<Longrightarrow> held s w = Some b \<Longrightarrow> f w \<le> sint (sh_seq s)"
  by (simp add: in_step_def)

lemma in_step_put: "in_step f s \<Longrightarrow> f w \<le> sint (sh_seq s) \<Longrightarrow> in_step f (put_on w b s)"
  by (auto simp: in_step_def held_put)

lemma in_step_off: "in_step f s \<Longrightarrow> in_step f (take_off w s)"
  by (auto simp: in_step_def held_off split: if_splits)

locale numbered =
  fixes number_of :: "string \<Rightarrow> int" and name_of :: "int \<Rightarrow> string \<Rightarrow> string"
  assumes number_name: "1 \<le> n \<Longrightarrow> n < 2 ^ 63 \<Longrightarrow> number_of (name_of n l) = n"
begin

lemma counted:
  assumes "next_number s = (n, s')" "in_step number_of s" "sint (sh_seq s) < 2 ^ 63 - 1"
  shows "n = sint (sh_seq s) + 1" "sint (sh_seq s') = n" "held s' = held s" "in_step number_of s'" "1 \<le> n" "n < 2 ^ 63"
proof -
  have "sint (sh_seq s + 1) = sint (sh_seq s) + 1"
    using assms(2, 3) by (simp add: in_step_def sint_word_ariths(1) signed_take_bit_int_eq_self_iff)
  with assms show "n = sint (sh_seq s) + 1" "sint (sh_seq s') = n" "held s' = held s" "in_step number_of s'" "1 \<le> n" "n < 2 ^ 63"
    by (auto simp: next_number_def Let_def in_step_def held_def) fastforce
qed

lemma unused:
  assumes "next_number s = (n, s')" "in_step number_of s" "sint (sh_seq s) < 2 ^ 63 - 1" "number_of w = n"
  shows "held s w = None"
  using counted(1) [OF assms(1-3)] in_stepD [OF assms(2), of w] assms(4) by (cases "held s w") auto

lemma fresh:
  assumes "next_number s = (n, s')" "in_step number_of s" "sint (sh_seq s) < 2 ^ 63 - 1"
  shows "held s (name_of n l) = None"
  by (rule unused [OF assms number_name [OF counted(5, 6) [OF assms]]])

lemma reopened:
  assumes "in_step number_of s"
  shows "in_step number_of (open_shelf number_of True (sh_files s))" "held (open_shelf number_of True (sh_files s)) = held s"
    "sint (sh_seq (open_shelf number_of True (sh_files s))) \<le> sint (sh_seq s)"
proof -
  let ?h = "highest_seq number_of (List.map fst (sh_files s))"
  have "number_of w \<le> sint (sh_seq s)" if "w \<in> set (List.map fst (sh_files s))" for w
    using that in_stepD [OF assms, of w] unfolding held_dom [symmetric] by auto
  then have le: "?h \<le> sint (sh_seq s)" using assms by (intro highest_least) (auto simp: in_step_def)
  moreover have "sint (sh_seq s) < 2 ^ 63" using sint_lt [of "sh_seq s"] by simp
  ultimately have seq: "sint (of_int ?h :: i64) = ?h"
    using highest_nonneg [of number_of "List.map fst (sh_files s)"] by (simp add: sint_sbintrunc' signed_take_bit_int_eq_self)
  show "held (open_shelf number_of True (sh_files s)) = held s" by (simp add: held_def open_shelf_def)
  show "sint (sh_seq (open_shelf number_of True (sh_files s))) \<le> sint (sh_seq s)" using le seq by (simp add: open_shelf_def)
  have "number_of w \<le> ?h" if "held s w = Some b" for w b
    using that held_dom [of s] by (intro highest_upper) auto
  then show "in_step number_of (open_shelf number_of True (sh_files s))"
    using seq highest_nonneg [of number_of "List.map fst (sh_files s)"] by (simp add: in_step_def open_shelf_def held_def)
qed

end

section \<open>Names give their numbers back\<close>

lemma pad4_digits: "0 \<le> n \<Longrightarrow> \<forall>c \<in> set (pad4 n). is_digit c"
  by (auto simp: pad4_def pad_left_def is_digit_def dest: dec_digits)

lemma pad4_length: "0 \<le> n \<Longrightarrow> 4 \<le> length (pad4 n)"
  by (simp add: pad4_def pad_left_def)

lemma pad4_number: "0 \<le> n \<Longrightarrow> n < 2 ^ 63 \<Longrightarrow> atoi_clamped (pad4 n) = (n, True)"
proof -
  assume n: "0 \<le> n" "n < 2 ^ 63"
  have ds: "list_all is_digit (pad4 n)" "pad4 n \<noteq> []" using pad4_digits [OF n(1)] pad4_length [OF n(1)] by (auto simp: list_all_iff)
  then have "is_digit (hd (pad4 n))" by (cases "pad4 n") auto
  then have "hd (pad4 n) \<noteq> CHR ''-''" "hd (pad4 n) \<noteq> CHR ''+''" by (auto simp: is_digit_def)
  moreover have "num_of (pad4 n) = n" using n by (simp add: num_of_of_dec pad4_def pad_left_def of_dec_zeros)
  ultimately show ?thesis using n ds by (simp add: atoi_clamped_def Let_def)
qed

lemma digits_then: "\<forall>c \<in> set ds. is_digit c \<Longrightarrow> \<not> is_digit c \<Longrightarrow> takeWhile is_digit (ds @ c # w) = ds"
  by (simp add: takeWhile_append2)

lemma prefix_named: "0 \<le> n \<Longrightarrow> attachment_prefix (pad4 n @ CHR ''-'' # w) = Some (pad4 n, w)"
  using pad4_digits [of n] pad4_length [of n]
  by (simp add: attachment_prefix_def Let_def digits_then is_digit_def not_less)

lemma seq_named: "0 \<le> n \<Longrightarrow> n < 2 ^ 63 \<Longrightarrow> attachment_seq (pad4 n @ CHR ''-'' # w) = n"
  by (simp add: attachment_seq_def prefix_named pad4_number)

interpretation outbox: numbered attachment_seq outbox_name
  by unfold_locales (simp add: outbox_name_def seq_named)

interpretation snaps: numbered snap_seq "\<lambda>n _. snap_name n"
proof
  fix n :: int assume n: "1 \<le> n" "n < 2 ^ 63"
  have "takeWhile is_digit (pad4 n @ ''.txt'') = pad4 n" using digits_then [OF pad4_digits, of n "CHR ''.''"] n by (simp add: is_digit_def)
  then show "snap_seq (snap_name n) = n"
    using n pad4_length [of n] by (simp add: snap_seq_def snap_name_def Let_def pad4_number eval_nat_numeral)
qed


section \<open>Sending\<close>

text \<open>What an agent's outbox goes through: a file sent, the screen sent, and the daemon starting again over the same folder.\<close>

datatype outbox_event =
    Sends string "string \<Rightarrow> stat_result" bool copying bool
  | Shoots bool "(string \<times> string option) option"
  | StartsAgain

fun outbox_step :: "string option \<Rightarrow> roots \<Rightarrow> string \<Rightarrow> outbox_event \<Rightarrow> shelf \<Rightarrow> sent \<times> shelf" where
  "outbox_step wd r dir (Sends path stat made c unlinked) s = send_file wd r stat dir made c unlinked path s"
| "outbox_step wd r dir (Shoots made shot) s = send_screenshot dir made shot s"
| "outbox_step wd r dir StartsAgain s = (NotSent, open_shelf attachment_seq True (sh_files s))"

definition outbox_run :: "string option \<Rightarrow> roots \<Rightarrow> string \<Rightarrow> outbox_event list \<Rightarrow> shelf \<Rightarrow> shelf" where
  "outbox_run wd r dir es s = fold (\<lambda>e s. snd (outbox_step wd r dir e s)) es s"

lemma reserve_cases:
  assumes "reserve dir made l s = (x, s')"
  obtains "x = None" "s' = s" | n where "x = Some (n, outbox_name n l)" "next_number s = (n, s')"
  using assms by (auto simp: reserve_def split: if_splits prod.splits)

lemma copied: "copy_file c = (Some k, rest) \<Longrightarrow> \<exists>b. rest = Some b \<and> length b = k"
  by (cases c; cases "cp_source c"; cases "cp_broke c") (auto simp: copy_file_def Let_def split: if_splits)

text \<open>A step writes and removes only names with a number not handed out before.\<close>

lemma send_file_keeps:
  assumes "send_file wd r stat dir made c unlinked path s = (x, s')" "in_step attachment_seq s" "sint (sh_seq s) < 2 ^ 63 - 1"
  shows "in_step attachment_seq s' \<and> sint (sh_seq s') \<le> sint (sh_seq s) + 1 \<and> (\<forall>w b. held s w = Some b \<longrightarrow> held s' w = Some b)"
proof (cases "check_sendable wd r stat path")
  case None
  with assms show ?thesis by (auto simp: send_file_def)
next
  case (Some full)
  obtain y s1 where res: "reserve dir made (safe_name (base_name full)) s = (y, s1)" by force
  from res show ?thesis
  proof (cases rule: reserve_cases)
    case 1
    with assms Some res show ?thesis by (auto simp: send_file_def)
  next
    case (2 n)
    note facts = outbox.counted [OF 2(2) assms(2, 3)] outbox.fresh [OF 2(2) assms(2, 3), of "safe_name (base_name full)"]
    have "s' = s1 \<or> (\<exists>b. s' = put_on (outbox_name n (safe_name (base_name full))) b s1)"
      using assms(1) Some res 2 by (auto simp: send_file_def split: option.splits prod.splits if_splits)
    then show ?thesis
      using facts outbox.number_name [of n "safe_name (base_name full)"] by (auto simp: held_put intro: in_step_put)
  qed
qed

lemma shot_thumb: "thumb_name (outbox_name n ''screen.png'') = outbox_name n ''screen-thumb.png''"
proof -
  have "ext_of (outbox_name n ''screen.png'') = ''.png''" by (simp add: ext_of_def outbox_name_def)
  then show ?thesis by (simp add: thumb_name_def outbox_name_def)
qed

lemma send_screenshot_keeps:
  assumes "send_screenshot dir made shot s = (x, s')" "in_step attachment_seq s" "sint (sh_seq s) < 2 ^ 63 - 1"
  shows "in_step attachment_seq s' \<and> sint (sh_seq s') \<le> sint (sh_seq s) + 1 \<and> (\<forall>w b. held s w = Some b \<longrightarrow> held s' w = Some b)"
proof -
  obtain y s1 where res: "reserve dir made ''screen.png'' s = (y, s1)" by force
  from res show ?thesis
  proof (cases rule: reserve_cases)
    case 1
    with assms res show ?thesis by (auto simp: send_screenshot_def)
  next
    case (2 n)
    let ?w = "outbox_name n ''screen.png''" and ?t = "outbox_name n ''screen-thumb.png''"
    note facts = outbox.counted [OF 2(2) assms(2, 3)] outbox.fresh [OF 2(2) assms(2, 3), of "''screen.png''"]
      outbox.fresh [OF 2(2) assms(2, 3), of "''screen-thumb.png''"]
    have "s' = take_off ?t (take_off ?w s1) \<or> (\<exists>b. s' = put_on ?w b s1) \<or> (\<exists>b t. s' = put_on ?t t (put_on ?w b s1))"
      using assms(1) res 2 by (auto simp: send_screenshot_def shot_thumb split: option.splits prod.splits)
    then show ?thesis
      using facts outbox.number_name [of n "''screen.png''"] outbox.number_name [of n "''screen-thumb.png''"]
      by (auto simp: held_put held_off intro!: in_step_put in_step_off)
  qed
qed

lemma outbox_step_keeps:
  assumes "in_step attachment_seq s" "sint (sh_seq s) < 2 ^ 63 - 1"
  shows "in_step attachment_seq (snd (outbox_step wd r dir e s))"
    "sint (sh_seq (snd (outbox_step wd r dir e s))) \<le> sint (sh_seq s) + 1"
    "held s w = Some b \<Longrightarrow> held (snd (outbox_step wd r dir e s)) w = Some b"
proof -
  have "in_step attachment_seq (snd (outbox_step wd r dir e s)) \<and>
        sint (sh_seq (snd (outbox_step wd r dir e s))) \<le> sint (sh_seq s) + 1 \<and>
        (\<forall>w b. held s w = Some b \<longrightarrow> held (snd (outbox_step wd r dir e s)) w = Some b)"
    using send_file_keeps [OF prod.collapse [symmetric] assms] send_screenshot_keeps [OF prod.collapse [symmetric] assms]
      outbox.reopened [OF assms(1)] by (cases e) auto
  then show "in_step attachment_seq (snd (outbox_step wd r dir e s))"
    "sint (sh_seq (snd (outbox_step wd r dir e s))) \<le> sint (sh_seq s) + 1"
    "held s w = Some b \<Longrightarrow> held (snd (outbox_step wd r dir e s)) w = Some b" by auto
qed

lemma outbox_run_keeps:
  assumes "in_step attachment_seq s" "sint (sh_seq s) + int (length es) < 2 ^ 63"
  shows "in_step attachment_seq (outbox_run wd r dir es s) \<and>
    sint (sh_seq (outbox_run wd r dir es s)) \<le> sint (sh_seq s) + int (length es) \<and>
    (\<forall>w b. held s w = Some b \<longrightarrow> held (outbox_run wd r dir es s) w = Some b)"
  using assms
proof (induction es arbitrary: s)
  case (Cons e es)
  let ?s = "snd (outbox_step wd r dir e s)"
  have "sint (sh_seq s) < 2 ^ 63 - 1" using Cons.prems(2) by simp
  note step = outbox_step_keeps [OF Cons.prems(1) this, where e = e and wd = wd and r = r and dir = dir]
  have "sint (sh_seq ?s) + int (length es) < 2 ^ 63" using step(2) Cons.prems(2) by simp
  from Cons.IH [OF step(1) this] step(2)
  have "in_step attachment_seq (outbox_run wd r dir es ?s)"
    "sint (sh_seq (outbox_run wd r dir es ?s)) \<le> sint (sh_seq s) + int (length (e # es))"
    "\<forall>w b. held ?s w = Some b \<longrightarrow> held (outbox_run wd r dir es ?s) w = Some b" by simp_all
  moreover have "outbox_run wd r dir (e # es) s = outbox_run wd r dir es ?s" by (simp add: outbox_run_def)
  ultimately show ?case using step(3) by simp
qed (simp add: outbox_run_def)

text \<open>What is announced: a name nothing had, holding as many bytes as the message says.\<close>

lemma announced_file:
  assumes "send_file wd r stat dir made c unlinked path s = (Sent a, s')"
  shows "\<exists>n s1 l b. next_number s = (n, s1) \<and> at_name a = outbox_name n l \<and> at_seq a = n \<and>
          held s' (at_name a) = Some b \<and> int (length b) = at_size a"
proof -
  obtain full where full: "check_sendable wd r stat path = Some full"
    using assms by (cases "check_sendable wd r stat path") (simp_all add: send_file_def)
  let ?l = "safe_name (base_name full)"
  obtain y s1 where res: "reserve dir made ?l s = (y, s1)" by force
  from res show ?thesis
  proof (cases rule: reserve_cases)
    case 1
    with assms full res show ?thesis by (simp add: send_file_def)
  next
    case (2 n)
    obtain k kept where c: "copy_file c = (k, kept)" by force
    then obtain k' where k: "k = Some k'" using assms full res 2 by (cases k) (auto simp: send_file_def)
    from copied [OF c [unfolded k]] obtain bytes where "kept = Some bytes" "length bytes = k'" by blast
    with assms full res 2 c k show ?thesis by (auto simp: send_file_def announced_def held_put)
  qed
qed

lemma announced_shot:
  assumes "send_screenshot dir made shot s = (Sent a, s')"
  shows "\<exists>n s1 l b. next_number s = (n, s1) \<and> at_name a = outbox_name n l \<and> at_seq a = n \<and>
          held s' (at_name a) = Some b \<and> int (length b) = at_size a"
proof -
  obtain y s1 where res: "reserve dir made ''screen.png'' s = (y, s1)" by force
  from res show ?thesis
  proof (cases rule: reserve_cases)
    case 1
    with assms res show ?thesis by (simp add: send_screenshot_def)
  next
    case (2 n)
    with assms res show ?thesis
      by (auto simp: send_screenshot_def announced_def held_put shot_thumb split: option.splits prod.splits)
        (auto simp: outbox_name_def)
  qed
qed

lemma announced_is_new:
  assumes "outbox_step wd r dir e s = (Sent a, s')" "in_step attachment_seq s" "sint (sh_seq s) < 2 ^ 63 - 1"
  shows "held s (at_name a) = None" "attachment_seq (at_name a) = at_seq a" "\<exists>b. held s' (at_name a) = Some b \<and> int (length b) = at_size a"
proof -
  have "\<exists>n s1 l b. next_number s = (n, s1) \<and> at_name a = outbox_name n l \<and> at_seq a = n \<and>
          held s' (at_name a) = Some b \<and> int (length b) = at_size a"
  proof (cases e)
    case (Sends path stat made c unlinked)
    then show ?thesis using announced_file assms(1) by simp
  next
    case (Shoots made shot)
    then show ?thesis using announced_shot assms(1) by simp
  qed (use assms(1) in simp)
  then obtain n s1 l b where n: "next_number s = (n, s1)" "at_name a = outbox_name n l" "at_seq a = n"
    and b: "held s' (at_name a) = Some b \<and> int (length b) = at_size a" by blast
  show "held s (at_name a) = None" unfolding n(2) by (rule outbox.fresh [OF n(1) assms(2, 3)])
  show "attachment_seq (at_name a) = at_seq a"
    unfolding n(2, 3) by (rule outbox.number_name [OF outbox.counted(5, 6) [OF n(1) assms(2, 3)]])
  show "\<exists>b. held s' (at_name a) = Some b \<and> int (length b) = at_size a" using b by blast
qed

lemma opened_in_step: "highest_seq attachment_seq (List.map fst files) < 2 ^ 63 - 1 \<Longrightarrow>
    in_step attachment_seq (open_shelf attachment_seq True files) \<and>
    sint (sh_seq (open_shelf attachment_seq True files)) = highest_seq attachment_seq (List.map fst files)"
  using highest_nonneg [of attachment_seq "List.map fst files"]
  by (force simp: in_step_def open_shelf_def held_def sint_sbintrunc' signed_take_bit_int_eq_self
      intro: highest_upper dest: map_of_SomeD)

text \<open>
  C17. C1: a file the person was told of stays what they were told.
\<close>

theorem sent_stays_sent:
  assumes "highest_seq attachment_seq (List.map fst files) + int (length before + length after) < 2 ^ 63 - 2"
    and "outbox_step wd r dir e (outbox_run wd r dir before (open_shelf attachment_seq True files)) = (Sent a, s)"
  shows "at_name a \<notin> fst ` set (sh_files (outbox_run wd r dir before (open_shelf attachment_seq True files))) \<and>
    attachment_seq (at_name a) = at_seq a \<and>
    (\<exists>b. map_of (sh_files s) (at_name a) = Some b \<and> int (length b) = at_size a \<and>
         map_of (sh_files (outbox_run wd r dir after s)) (at_name a) = Some b)"
proof -
  let ?o = "open_shelf attachment_seq True files"
  let ?s = "outbox_run wd r dir before ?o"
  from assms(1) have top: "highest_seq attachment_seq (List.map fst files) < 2 ^ 63 - 1" by linarith
  note opened = opened_in_step [OF this]
  have o: "sint (sh_seq ?o) + int (length before) < 2 ^ 63" using opened assms(1) by linarith
  note before = outbox_run_keeps [OF conjunct1 [OF opened] o, of wd r dir]
  then have s: "in_step attachment_seq ?s" "sint (sh_seq ?s) + int (length after) + 1 < 2 ^ 63 - 1"
    using opened assms(1) by linarith+
  then have room: "sint (sh_seq ?s) < 2 ^ 63 - 1" by linarith
  have s': "in_step attachment_seq s" "sint (sh_seq s) + int (length after) < 2 ^ 63"
    using outbox_step_keeps(1, 2) [OF s(1) room, of wd r dir e] s(2) unfolding assms(2) by simp_all
  from announced_is_new [OF assms(2) s(1) room] obtain b
    where new: "held ?s (at_name a) = None" "attachment_seq (at_name a) = at_seq a"
      "held s (at_name a) = Some b" "int (length b) = at_size a" by auto
  have "at_name a \<notin> fst ` set (sh_files ?s)" using new(1) by (simp add: held_def map_of_eq_None_iff)
  with new(2-4) outbox_run_keeps [OF s', of wd r dir] show ?thesis by (simp add: held_def)
qed

lemma sent_stays_sent_witness:
  "\<exists>a s. outbox_step None \<lparr>rt_workspace = ''/w'', rt_own = ''/a'', rt_builtin = ''/b''\<rparr> ''/a/outbox'' (Shoots True (Some (''pixels'', None)))
        (open_shelf attachment_seq True [(''0007-report.pdf'', ''x'')]) = (Sent a, s) \<and>
      at_name a = ''0008-screen.png'' \<and>
      map_of (sh_files (outbox_run None \<lparr>rt_workspace = ''/w'', rt_own = ''/a'', rt_builtin = ''/b''\<rparr> ''/a/outbox'' [StartsAgain, Shoots True None] s)) ''0008-screen.png''
        = Some ''pixels''"
proof -
  let ?r = "\<lparr>rt_workspace = ''/w'', rt_own = ''/a'', rt_builtin = ''/b''\<rparr>" and ?fs = "[(''0007-report.pdf'', ''x'')]"
  let ?a = "\<lparr>at_seq = 8, at_name = ''0008-screen.png'', at_display = ''screen.png'', at_kind = ''image'', at_size = 6, at_thumb = []\<rparr>"
  let ?s = "\<lparr>sh_seq = 8, sh_files = [(''0007-report.pdf'', ''x''), (''0008-screen.png'', ''pixels'')]\<rparr>"
  have few: "highest_seq attachment_seq (List.map fst ?fs) + int (length ([] :: outbox_event list) + length [StartsAgain, Shoots True None]) < 2 ^ 63 - 2"
    by code_simp
  have sends: "outbox_step None ?r ''/a/outbox'' (Shoots True (Some (''pixels'', None)))
      (outbox_run None ?r ''/a/outbox'' [] (open_shelf attachment_seq True ?fs)) = (Sent ?a, ?s)" by code_simp
  have "map_of (sh_files ?s) ''0008-screen.png'' = Some ''pixels''" by simp
  with sent_stays_sent [OF few sends] sends show ?thesis by (intro exI [of _ ?a] exI [of _ ?s]) (simp add: outbox_run_def)
qed

section \<open>Spilling\<close>

lemma sort_snoc_max: "\<forall>x \<in> set xs. x < n \<Longrightarrow> sort (xs @ [n]) = sort xs @ [n]" for n :: int
  by (rule properties_for_sort) (auto simp: sorted_append intro: less_imp_le)

lemma held_removed: "snap_name n \<notin> snap_name ` set ns \<Longrightarrow> held (fold (\<lambda>m. take_off (snap_name m)) ns s) (snap_name n) = held s (snap_name n)"
  by (induction ns arbitrary: s) (auto simp: held_off)

lemma names_put_new: "held s w = None \<Longrightarrow> List.map fst (sh_files (put_on w b s)) = List.map fst (sh_files s) @ [w]"
  by (simp add: put_on_def update_keys held_def map_of_eq_None_iff)

lemma rotation_spares_new:
  assumes below: "\<forall>w b. held s w = Some b \<longrightarrow> snap_seq w < n" and "1 \<le> n" "n < 2 ^ 63" "s2 = put_on (snap_name n) b s"
  shows "held (rotate_snaps s2) (snap_name n) = Some b"
proof -
  have num: "snap_seq (snap_name m) = m" if "1 \<le> m" "m < 2 ^ 63" for m by (rule snaps.number_name [OF that])
  have new: "held s (snap_name n) = None"
    using below num [OF assms(2, 3)] by (cases "held s (snap_name n)") auto
  define old where "old = filter (\<lambda>m. m > 0) (List.map (snap_seq \<circ> fst) (sh_files s))"
  have less: "0 < m \<and> m < n" if "m \<in> set old" for m
    using that below held_dom [of s] by (fastforce simp: old_def)
  have "filter (\<lambda>m. m > 0) (List.map (snap_seq \<circ> fst) (sh_files s2)) = old @ [n]"
    using names_put_new [OF new, of b] num [OF assms(2, 3)] assms(2) unfolding assms(4) old_def List.map_map [symmetric] by simp
  moreover have "drop snapshot_keep (rev (sort (old @ [n]))) = drop 19 (rev (sort old))"
    using less by (subst sort_snoc_max) (simp_all add: snapshot_keep_def)
  moreover have "snap_name n \<notin> snap_name ` set (drop 19 (rev (sort old)))"
  proof
    assume "snap_name n \<in> snap_name ` set (drop 19 (rev (sort old)))"
    then obtain m where m: "m \<in> set old" "snap_name n = snap_name m" using set_drop_subset by fastforce
    then have "n = m" using num [of n] num [of m] less [OF m(1)] assms(2, 3) by simp
    with less [OF m(1)] show False by simp
  qed
  ultimately show ?thesis
    by (simp add: rotate_snaps_def Let_def held_removed assms(4) held_put del: List.map_map)
qed

lemma trim_names_path: "\<exists>w1 w2. trim_snapshot full path = w1 @ path @ w2"
proof (cases "length full \<le> snapshot_inline_cap")
  case True
  then have "trim_snapshot full path = (full @ blank_line @ ''[full snapshot: '') @ path @ '']''" by (simp add: trim_snapshot_def)
  then show ?thesis by blast
next
  case False
  then have "\<exists>cut1. trim_snapshot full path = (cut1 @ blank_line @ ''[snapshot truncated here]'' @ [newline] @ ''[full snapshot: '') @
      path @ '' - use Read or Grep on it to see the rest]''"
    unfolding trim_snapshot_def Let_def by (simp only: if_False append_assoc) blast
  then show ?thesis by blast
qed

text \<open>
  C2: a page too long to show is written down whole, and the path seen is the path of a file that did not exist before and is not among
  the ones rotated away, so the model can read the rest.
\<close>

theorem spilled_is_there:
  assumes "in_step snap_seq s" "sint (sh_seq s) < 2 ^ 63 - 1" "length full > snapshot_passthrough"
    and "digest dir o1 full s = ((seen, True), s')"
  shows "\<exists>n w1 w2. seen = w1 @ join_path dir (snap_name n) @ w2 \<and> map_of (sh_files s) (snap_name n) = None \<and>
           map_of (sh_files s') (snap_name n) = Some full"
proof -
  obtain n s1 where n: "next_number s = (n, s1)" by force
  note count = snaps.counted [OF n assms(1, 2)]
  have "o1 = WrittenAll"
    using assms(3, 4) n by (cases o1) (simp_all add: digest_def write_snapshot_def)
  with assms(3, 4) n have seen: "seen = trim_snapshot full (join_path dir (snap_name n))"
    and s': "s' = rotate_snaps (put_on (snap_name n) full s1)"
    by (simp_all add: digest_def write_snapshot_def)
  have "held s (snap_name n) = None" by (rule snaps.fresh [OF n assms(1, 2)])
  moreover have "\<forall>w b. held s1 w = Some b \<longrightarrow> snap_seq w < n"
    using in_stepD [OF assms(1)] count(1, 3) by fastforce
  then have "held s' (snap_name n) = Some full"
    unfolding s' by (rule rotation_spares_new [OF _ count(5, 6) refl])
  moreover have "\<exists>w1 w2. seen = w1 @ join_path dir (snap_name n) @ w2"
    unfolding seen by (rule trim_names_path)
  ultimately show ?thesis unfolding held_def by blast
qed

lemma spilled_is_there_witness:
  "\<exists>seen s' n w1 w2. digest ''/a'' WrittenAll (replicate 3000 CHR ''x'') \<lparr>sh_seq = 4, sh_files = [(''snap-0004.txt'', ''y'')]\<rparr> = ((seen, True), s') \<and>
     seen = w1 @ join_path ''/a'' (snap_name n) @ w2 \<and> map_of (sh_files s') (snap_name n) = Some (replicate 3000 CHR ''x'')"
proof -
  let ?s = "\<lparr>sh_seq = 4, sh_files = [(''snap-0004.txt'', ''y'')]\<rparr>" and ?w = "replicate 3000 CHR ''x''"
  have "snap_seq ''snap-0004.txt'' = 4" "sint (4 :: i64) = 4" by code_simp+
  then have here: "in_step snap_seq ?s" "sint (sh_seq ?s) < 2 ^ 63 - 1" by (simp_all add: in_step_def held_def)
  have long: "length ?w > snapshot_passthrough" by (simp add: snapshot_passthrough_def)
  then obtain seen s' where got: "digest ''/a'' WrittenAll ?w ?s = ((seen, True), s')"
    by (cases "next_number ?s") (auto simp: digest_def write_snapshot_def)
  from spilled_is_there [OF here long got] got show ?thesis by blast
qed

end
