(* ===== verification/TeamProps.thy ===== *)
theory TeamProps
  imports Team RosterProps GateProps
begin

text \<open>
  What running the team promises, over every interleaving of senders, goroutines and stops: a
  message an agent accepted is taken once, in order, and is never left in a stopped agent's inbox;
  making room drops the agent longest unused of those that may go; an answer finds the agent that asked.
  And what it does not: the ceiling on running agents can be crept past, a message just taken can be lost to
  a stop, and event numbers can repeat.
\<close>

section \<open>Steps\<close>

text \<open>\<open>ends\<close> says whether agents may be stopped by deletion or by closing the machine.\<close>

inductive team_step :: "bool \<Rightarrow> event_json \<Rightarrow> (string \<Rightarrow> bool) \<Rightarrow> team \<Rightarrow> team \<Rightarrow> bool" for ends js profiles where
  team_send: "team_step ends js profiles t (send_to i m t)"
| team_caller: "run_caller js profiles now n t = Some u \<Longrightarrow> team_step ends js profiles t u"
| team_agent: "run_agent js now quit r k t = Some u \<Longrightarrow> team_step ends js profiles t u"
| team_wait: "k < length (tm_insts t) \<Longrightarrow> team_step ends js profiles t (add_wait js now delta k t)"
| team_evict: "team_step ends js profiles t (evict_idle t)"
| team_refresh: "team_step ends js profiles t (refresh_agent i t)"
| team_delegate: "team_step ends js profiles t (snd (delegate i d t))"
| team_task: "team_step ends js profiles t (snd (start_task js loc ws made w now i title name t))"
| team_roster: "team_step ends js profiles t (t\<lparr>tm_roster := run_roster_op profiles op (tm_roster t)\<rparr>)"
| team_delete: "ends \<Longrightarrow> team_step ends js profiles t (snd (delete_agent w i purge t))"
| team_close: "ends \<Longrightarrow> team_step ends js profiles t (close_team t)"

inductive team_reach :: "bool \<Rightarrow> event_json \<Rightarrow> (string \<Rightarrow> bool) \<Rightarrow> nat \<Rightarrow> roster \<Rightarrow> team \<Rightarrow> bool"
  for ends js profiles n r where
  team_start: "team_reach ends js profiles n r (new_team n r)"
| team_more: "team_reach ends js profiles n r t \<Longrightarrow> team_step ends js profiles t u \<Longrightarrow> team_reach ends js profiles n r u"

inductive_cases team_stepE: "team_step ends js profiles t u"

section \<open>The inbox\<close>

definition inst_ok :: "agent_inst \<Rightarrow> bool" where
  "inst_ok a \<longleftrightarrow> in_accepted a = in_taken a @ in_inbox a \<and> length (in_inbox a) \<le> inbox_depth"

text \<open>No accepted message sits where nothing will take it.\<close>

definition no_dead_letter :: "agent_inst \<Rightarrow> bool" where
  "no_dead_letter a \<longleftrightarrow> (in_stopped a \<longrightarrow> in_inbox a = [])"

lemma insts_edit [simp]:
  "tm_insts (edit_inst k f t) = (tm_insts t)[k := f (tm_insts t ! k)]"
  "tm_threads (edit_inst k f t) = tm_threads t" "tm_live (edit_inst k f t) = tm_live t"
  "tm_roster (edit_inst k f t) = tm_roster t" "tm_max (edit_inst k f t) = tm_max t" "tm_disks (edit_inst k f t) = tm_disks t"
  by (simp_all add: edit_inst_def)

lemma insts_append:
  obtains l where "tm_insts (append_on js now e k t) = (tm_insts t)[k := (tm_insts t ! k)\<lparr>in_log := l\<rparr>]"
  by (auto simp: append_on_def Let_def)

lemma append_frame [simp]:
  "tm_threads (append_on js now e k t) = tm_threads t" "tm_live (append_on js now e k t) = tm_live t"
  "tm_roster (append_on js now e k t) = tm_roster t" "tm_max (append_on js now e k t) = tm_max t"
  by (simp_all add: append_on_def Let_def)

lemma list_all_upd:
  "list_all P xs \<Longrightarrow> (k < length xs \<Longrightarrow> P (xs ! k) \<Longrightarrow> P y) \<Longrightarrow> list_all P (xs[k := y])"
  by (cases "k < length xs") (auto simp: list_all_length nth_list_update)

section \<open>Callers\<close>

text \<open>Only a deletion stops an agent that did not go quiet.\<close>

definition no_stop :: "team_action \<Rightarrow> bool" where
  "no_stop a = (case a of TStop _ \<Rightarrow> False | _ \<Rightarrow> True)"

definition callers_ok :: "bool \<Rightarrow> team \<Rightarrow> bool" where
  "callers_ok ends t \<longleftrightarrow> ends \<or> list_all (list_all no_stop) (tm_threads t)"

lemma stop_frame [simp]:
  "tm_threads (stop_agent i t) = tm_threads t" "tm_threads (snd (try_stop i t)) = tm_threads t"
  by (auto simp: stop_agent_def try_stop_def split: option.splits prod.splits bool.splits)

lemma evict_frame [simp]: "tm_threads (snd (evict_first is t)) = tm_threads t"
proof (induction "is")
  case (Cons i "is")
  obtain ok v where v: "try_stop i t = (ok, v)" by fastforce
  with stop_frame(2) [of i t] have "tm_threads v = tm_threads t" by simp
  with Cons v show ?case by (cases ok) simp_all
qed simp

lemma room_frame [simp]: "tm_threads (snd (make_room i t)) = tm_threads t"
  by (simp add: make_room_def)

lemma team_state_frame [simp]: "tm_threads (put_state js now st k t) = tm_threads t"
  by (simp add: put_state_def)

lemma recycle_frame [simp]: "tm_threads (snd (recycle js now i k t)) = tm_threads t"
  by (auto simp: recycle_def split: option.splits prod.splits bool.splits)

lemma log_for_frame [simp]: "tm_threads (log_for js now i e t) = tm_threads t" "tm_live (log_for js now i e t) = tm_live t"
  by (simp_all add: log_for_def split: option.splits)

lemma task_frame [simp]: "tm_threads (snd (start_task js loc ws made w now i title name t)) = tm_threads t"
  by (auto simp: start_task_def Let_def split: prod.splits sum.splits)

lemma act_frame:
  assumes "team_act js profiles now a t = (new, u)"
  shows "tm_threads u = tm_threads t" "list_all no_stop new"
proof -
  have room: "tm_threads v = tm_threads t" if "make_room i t = (ok, v)" for i ok v
    using that room_frame [of i t] by simp
  show "tm_threads u = tm_threads t" "list_all no_stop new"
    using assms by (cases a; auto simp: get_agent_def build_agent_def Let_def insert_agent_def put_message_def room no_stop_def
        split: option.splits if_splits prod.splits bool.splits enqueued.splits)+
qed

lemma callers_call: "callers_ok ends t \<Longrightarrow> ends \<or> list_all no_stop as \<Longrightarrow> callers_ok ends (call as t)"
  by (auto simp: callers_ok_def call_def)

lemma callers_same: "callers_ok ends t \<Longrightarrow> tm_threads u = tm_threads t \<Longrightarrow> callers_ok ends u"
  by (simp add: callers_ok_def)

lemma callers_send: "callers_ok ends t \<Longrightarrow> callers_ok ends (send_to i m t)"
  by (simp add: send_to_def callers_call no_stop_def)

lemma callers_delegate: "callers_ok ends t \<Longrightarrow> callers_ok ends (snd (delegate i d t))"
  by (simp add: delegate_def callers_call no_stop_def)

lemma callers_run:
  assumes "callers_ok ends t" "run_caller js profiles now n t = Some u"
  shows "callers_ok ends u" "\<exists>a new v. team_act js profiles now a t = (new, v) \<and> (ends \<or> no_stop a) \<and> tm_insts u = tm_insts v"
proof -
  obtain a rest new v where h: "n < length (tm_threads t)" "tm_threads t ! n = a # rest" "team_act js profiles now a t = (new, v)"
    "u = v\<lparr>tm_threads := (tm_threads v)[n := new @ (if goes_on a then rest else [])]\<rparr>"
    using assms(2) by (auto simp: run_caller_def split: if_splits list.splits prod.splits)
  note f = act_frame [OF h(3)]
  have "a # rest \<in> set (tm_threads t)" using h(1,2) nth_mem by metis
  then have ar: "ends \<or> no_stop a \<and> list_all no_stop rest" using assms(1) by (auto simp: callers_ok_def list_all_iff)
  then show "\<exists>a new v. team_act js profiles now a t = (new, v) \<and> (ends \<or> no_stop a) \<and> tm_insts u = tm_insts v"
    using h by (intro exI [of _ a] exI [of _ new] exI [of _ v]) auto
  have "list_all (list_all no_stop) ((tm_threads t)[n := new @ (if goes_on a then rest else [])])" if "\<not> ends"
    using that assms(1) ar f(2) by (intro list_all_upd) (auto simp: callers_ok_def)
  then show "callers_ok ends u" by (cases ends) (simp_all add: callers_ok_def h(4) f(1))
qed

lemma callers_agent: "callers_ok ends t \<Longrightarrow> run_agent js now quit r k t = Some u \<Longrightarrow> callers_ok ends u"
proof -
  assume c: "callers_ok ends t" and r: "run_agent js now quit r k t = Some u"
  have fin: "tm_threads (finish_turn_on js now r k v) = tm_threads v" for v
    by (simp add: finish_turn_on_def Let_def split: turn_end.splits)
  have rep: "callers_ok ends (report_turn js m r k v)" if "callers_ok ends v" for m v
    using that by (simp add: report_turn_def Let_def deliver_def callers_send)
  have stale: "tm_threads (recycle_if_stale js now k v) = tm_threads v" for v
  proof -
    obtain ok w where w: "recycle js now (in_agent (tm_insts v ! k)) k (edit_inst k (\<lambda>a. a\<lparr>in_reload := False\<rparr>) v) = (ok, w)"
      by fastforce
    then have "tm_threads w = tm_threads v"
      using recycle_frame [of js now "in_agent (tm_insts v ! k)" k "edit_inst k (\<lambda>a. a\<lparr>in_reload := False\<rparr>) v"] by simp
    with w show ?thesis by (cases ok) (simp_all add: recycle_if_stale_def Let_def)
  qed
  have "tm_threads u = tm_threads t \<or> (\<exists>m. u = end_turn js now m r k t)"
    using r by (auto simp: run_agent_def Let_def begin_turn_def stale split: if_splits phase.splits list.splits)
  then show "callers_ok ends u"
  proof
    assume "\<exists>m. u = end_turn js now m r k t"
    then obtain m where "u = end_turn js now m r k t" by blast
    moreover have "callers_ok ends (finish_turn_on js now r k t)" using c by (simp add: callers_ok_def fin)
    ultimately show ?thesis using rep by (simp add: end_turn_def callers_ok_def)
  qed (use c in \<open>rule callers_same\<close>)
qed

lemma callers_step: "team_step ends js profiles t u \<Longrightarrow> callers_ok ends t \<Longrightarrow> callers_ok ends u"
proof (induction rule: team_step.induct)
  case (team_evict t)
  have "tm_threads (fold (\<lambda>i u. snd (try_stop i u)) is v) = tm_threads v" for "is" v
    by (induction "is" arbitrary: v) simp_all
  with team_evict show ?case by (simp add: evict_idle_def callers_ok_def)
next
  case (team_refresh t i)
  obtain ok v where v: "try_stop i t = (ok, v)" by fastforce
  then have "tm_threads v = tm_threads t" using stop_frame(2) [of i t] by simp
  with team_refresh v show ?case by (cases "live_inst i t"; cases ok) (auto simp: refresh_agent_def callers_ok_def)
next
  case (team_delete t w i purge)
  then show ?case by (simp add: callers_ok_def)
next
  case (team_close t)
  then show ?case by (simp add: callers_ok_def)
qed (auto intro: callers_send callers_delegate callers_run(1) callers_agent callers_same simp: add_wait_def Let_def)

lemma callers_reach: "team_reach ends js profiles n r t \<Longrightarrow> callers_ok ends t"
proof (induction rule: team_reach.induct)
  case (team_more t u)
  show ?case by (rule callers_step [OF team_more(2,3)])
qed (simp add: callers_ok_def new_team_def)

section \<open>Invariants of instances\<close>

text \<open>
  What an operation may do to one instance: the interface of an invariant of instances. The log, the state and the
  bookkeeping of a turn do not matter to it; taking mail, taking a message off, going quiet and being
  stopped keep it; being stopped unasked keeps it only where agents may be ended.
\<close>

locale inst_invariant =
  fixes P :: "agent_inst \<Rightarrow> bool" and ends :: bool
  assumes quiet: "P (a\<lparr>in_log := l\<rparr>) = P a" "P (a\<lparr>in_state := st\<rparr>) = P a" "P (a\<lparr>in_waiting := w\<rparr>) = P a"
      "P (a\<lparr>in_reload := rl\<rparr>) = P a" "P (a\<lparr>in_turn_from := n\<rparr>) = P a" "P (a\<lparr>in_phase := p\<rparr>) = P a"
    and fresh: "P (new_inst i l)"
    and mail: "P a \<Longrightarrow> P (snd (enqueue m a))"
    and taken: "P a \<Longrightarrow> in_inbox a = m # ms \<Longrightarrow> P (a\<lparr>in_inbox := ms, in_taken := in_taken a @ [m], in_phase := Took m\<rparr>)"
    and quiesced: "P a \<Longrightarrow> quiesce a = (True, b) \<Longrightarrow> P b \<and> P (stop_inst b)"
    and ended: "ends \<Longrightarrow> P a \<Longrightarrow> P (stop_inst a)"
begin

definition holds_all :: "team \<Rightarrow> bool" where
  "holds_all t \<longleftrightarrow> list_all P (tm_insts t)"

lemma all_edit: "holds_all t \<Longrightarrow> (\<And>a. P a \<Longrightarrow> P (f a)) \<Longrightarrow> holds_all (edit_inst k f t)"
  by (simp add: holds_all_def list_all_upd)

lemma all_append: "holds_all t \<Longrightarrow> holds_all (append_on js now e k t)"
  by (rule insts_append [of js now e k t]) (simp add: holds_all_def quiet list_all_upd)

lemma all_same: "holds_all t \<Longrightarrow> tm_insts u = tm_insts t \<Longrightarrow> holds_all u"
  by (simp add: holds_all_def)

lemma all_call: "holds_all t \<Longrightarrow> holds_all (call as t)"
  by (simp add: holds_all_def call_def)

lemma all_send: "holds_all t \<Longrightarrow> holds_all (send_to i m t)"
  by (simp add: send_to_def all_call)

lemma all_note: "holds_all t \<Longrightarrow> holds_all (log_for js now i e t)"
  by (simp add: log_for_def all_append split: option.splits)

lemma all_delegate: "holds_all t \<Longrightarrow> holds_all (snd (delegate i d t))"
  by (simp add: delegate_def all_call)

lemma all_task: "holds_all t \<Longrightarrow> holds_all (snd (start_task js loc ws made w now i title name t))"
  by (auto simp: start_task_def Let_def intro: all_note elim!: all_same [OF all_note] split: prod.splits sum.splits)

lemma all_stop: "ends \<Longrightarrow> holds_all t \<Longrightarrow> holds_all (stop_agent i t)"
proof (cases "live_inst i t")
  case (Some k)
  assume "ends" "holds_all t"
  then have "holds_all (edit_inst k stop_inst t)" by (intro all_edit ended)
  from all_same [OF this] show ?thesis unfolding stop_agent_def Some by simp
qed (simp add: stop_agent_def)

lemma all_stop_quiesced:
  assumes "holds_all t" "live_inst i t = Some k" "quiesce (tm_insts t ! k) = (True, b)"
  shows "holds_all (stop_agent i (edit_inst k (\<lambda>_. b) t))"
    "holds_all (stop_agent i (append_on js now e j (edit_inst k (\<lambda>_. b) t)))"
proof -
  have b: "P (stop_inst b)" if "k < length (tm_insts t)" using assms(1,3) that quiesced by (auto simp: holds_all_def list_all_length)
  have l: "live_inst i (edit_inst k (\<lambda>_. b) t) = Some k" using assms(2) by (simp add: live_inst_def)
  show "holds_all (stop_agent i (edit_inst k (\<lambda>_. b) t))"
    using assms(1) b by (auto simp: stop_agent_def l holds_all_def nth_list_update intro!: list_all_upd) 
  let ?u = "append_on js now e j (edit_inst k (\<lambda>_. b) t)"
  have lu: "live_inst i ?u = Some k" using assms(2) by (simp add: live_inst_def)
  obtain l where u: "tm_insts ?u = ((tm_insts t)[k := b])[j := ((tm_insts t)[k := b] ! j)\<lparr>in_log := l\<rparr>]"
    by (rule insts_append [of js now e j "edit_inst k (\<lambda>_. b) t"]) simp
  have "holds_all (edit_inst k (\<lambda>_. b) t)" using assms(1) quiesced [OF _ assms(3)]
    by (simp add: holds_all_def list_all_upd)
  from all_append [OF this] have h: "holds_all ?u" .
  have "P (stop_inst (tm_insts ?u ! k))" if "k < length (tm_insts t)"
  proof -
    have "tm_insts ?u ! k = b \<or> (\<exists>l. tm_insts ?u ! k = b\<lparr>in_log := l\<rparr>)" using that by (auto simp: u nth_list_update)
    moreover have "stop_inst (b\<lparr>in_log := l\<rparr>) = (stop_inst b)\<lparr>in_log := l\<rparr>" for l by (simp add: stop_inst_def)
    ultimately show ?thesis using b [OF that] by (auto simp: quiet)
  qed
  then show "holds_all (stop_agent i ?u)"
    using h by (auto simp: stop_agent_def lu holds_all_def u intro!: list_all_upd)
qed

lemma all_try_stop: "holds_all t \<Longrightarrow> holds_all (snd (try_stop i t))"
  by (auto simp: try_stop_def all_stop_quiesced split: option.splits prod.splits bool.splits)

lemma all_evict_first: "holds_all t \<Longrightarrow> holds_all (snd (evict_first is t))"
proof (induction "is")
  case (Cons i "is")
  with all_try_stop [of t i] show ?case by (auto split: prod.splits bool.splits)
qed simp

lemma all_set_state: "holds_all t \<Longrightarrow> holds_all (put_state js now st k t)"
  by (simp add: put_state_def all_append all_edit quiet)

lemma all_wait: "holds_all t \<Longrightarrow> holds_all (add_wait js now d k t)"
  by (simp add: add_wait_def Let_def all_set_state all_edit quiet)

lemma all_recycle: "holds_all t \<Longrightarrow> holds_all (snd (recycle js now i k t))"
  by (auto simp: recycle_def all_stop_quiesced split: option.splits prod.splits bool.splits)

lemma all_run_agent:
  assumes "holds_all t" "run_agent js now quit r k t = Some u"
  shows "holds_all u"
proof -
  have park: "holds_all (edit_inst k (\<lambda>a. a\<lparr>in_phase := p\<rparr>) v)" if "holds_all v" for p v
    using that by (simp add: all_edit quiet)
  have fin: "holds_all (finish_turn_on js now r k v)" if "holds_all v" for v
    using that by (simp add: finish_turn_on_def Let_def all_set_state all_append split: turn_end.splits)
  have rep: "holds_all (report_turn js m r k v)" if "holds_all v" for m v
    using that by (simp add: report_turn_def Let_def deliver_def all_send)
  have stale: "holds_all (recycle_if_stale js now k v)" if "holds_all v" for v
  proof -
    have load: "holds_all (edit_inst k (\<lambda>a. a\<lparr>in_reload := b\<rparr>) w)" if "holds_all w" for b w using that by (simp add: all_edit quiet)
    obtain ok w where r: "recycle js now (in_agent (tm_insts v ! k)) k (edit_inst k (\<lambda>a. a\<lparr>in_reload := False\<rparr>) v) = (ok, w)"
      by fastforce
    then have "holds_all w" using all_recycle [OF load [OF that, of False], of js now "in_agent (tm_insts v ! k)" k] by simp
    then show ?thesis using that by (cases ok) (simp_all add: recycle_if_stale_def Let_def r park load)
  qed
  show ?thesis
  proof (cases "in_phase (tm_insts t ! k)")
    case Parked
    have take: "holds_all (edit_inst k (\<lambda>a. a\<lparr>in_inbox := ms, in_taken := in_taken a @ [m], in_phase := Took m\<rparr>) t)"
      if "in_inbox (tm_insts t ! k) = m # ms" for m ms
      using assms(1) taken [OF _ that] by (auto simp: holds_all_def intro!: list_all_upd)
    with Parked assms park show ?thesis by (auto simp: run_agent_def Let_def split: if_splits list.splits)
  next
    case (Took m)
    have "holds_all (edit_inst k (\<lambda>a. a\<lparr>in_turn_from := n, in_phase := Turning m\<rparr>) t)" for n
      using assms(1) by (auto simp: holds_all_def quiet intro!: list_all_upd)
    with Took assms show ?thesis
      by (auto simp: run_agent_def Let_def begin_turn_def all_set_state all_edit quiet split: if_splits)
  next
    case (Turning m)
    with assms show ?thesis by (auto simp: run_agent_def Let_def end_turn_def park rep fin split: if_splits)
  next
    case Settling
    with assms stale show ?thesis by (auto simp: run_agent_def Let_def split: if_splits)
  qed (use assms in \<open>auto simp: run_agent_def Let_def split: if_splits\<close>)
qed

lemma all_new_inst: "holds_all t \<Longrightarrow> holds_all (t\<lparr>tm_insts := tm_insts t @ [new_inst i l]\<rparr>)"
  by (simp add: holds_all_def fresh)

lemma all_act:
  assumes "holds_all t" "ends \<or> no_stop a" "team_act js profiles now a t = (new, u)"
  shows "holds_all u"
proof (cases a)
  case (TGet i m tries)
  with assms show ?thesis by (auto simp: get_agent_def elim!: all_same split: option.splits)
next
  case (TNew rec m tries)
  with assms show ?thesis by (auto simp: build_agent_def Let_def all_append all_new_inst split: if_splits option.splits)
next
  case (TInsert k i m tries)
  have r: "holds_all (snd (make_room i t))" using assms(1) by (simp add: make_room_def all_evict_first)
  obtain ok v where v: "make_room i t = (ok, v)" by fastforce
  with r have h: "holds_all v" by simp
  have "holds_all (v\<lparr>tm_live := l\<rparr>)" for l by (rule all_same [OF h]) simp
  with TInsert assms v h show ?thesis
    by (cases "live_inst i t"; cases ok) (auto simp: insert_agent_def)
next
  case (TPut k i m tries)
  have "holds_all (edit_inst k (\<lambda>_. b) t)" if "enqueue m (tm_insts t ! k) = (Accepted, b)" for b
    using assms(1) mail [of "tm_insts t ! k" m] that by (simp add: holds_all_def list_all_upd)
  with TPut assms show ?thesis by (auto simp: put_message_def split: prod.splits enqueued.splits if_splits)
next
  case (TStop i)
  with assms(2) have "ends" by (simp add: no_stop_def)
  with TStop assms show ?thesis by (auto intro: all_stop)
next
  case (TLog k e)
  with assms show ?thesis by (auto simp: all_append)
next
  case (TNote i e)
  with assms show ?thesis by (auto simp: all_note)
qed (use assms in \<open>auto elim!: all_same\<close>)

lemma all_step: "team_step ends js profiles t u \<Longrightarrow> callers_ok ends t \<Longrightarrow> holds_all t \<Longrightarrow> holds_all u"
proof (induction rule: team_step.induct)
  case (team_caller now n t u)
  obtain a new v where "team_act js profiles now a t = (new, v)" "ends \<or> no_stop a" "tm_insts u = tm_insts v"
    using callers_run(2) [OF team_caller(2,1)] by blast
  with all_act [OF team_caller(3)] show ?case by (metis all_same)
next
  case (team_evict t)
  have "holds_all (fold (\<lambda>i u. snd (try_stop i u)) is v)" if "holds_all v" for "is" v
    using that by (induction "is" arbitrary: v) (simp_all add: all_try_stop)
  with team_evict show ?case by (simp add: evict_idle_def)
next
  case (team_refresh t i)
  obtain ok v where v: "try_stop i t = (ok, v)" by fastforce
  with all_try_stop [OF team_refresh(2), of i] have "holds_all v" by simp
  with team_refresh v show ?case by (cases "live_inst i t"; cases ok) (auto simp: refresh_agent_def all_edit quiet)
next
  case (team_delete t w i purge)
  then show ?case by (auto simp: delete_agent_def call_def split: prod.splits sum.splits elim!: all_same)
next
  case (team_close t)
  have "holds_all (fold stop_agent is v)" if "holds_all v" for "is" v
    using that by (induction "is" arbitrary: v) (simp_all add: all_stop [OF team_close(1)])
  with team_close show ?case by (simp add: close_team_def)
qed (auto intro: all_send all_delegate all_task all_run_agent all_wait elim: all_same)

lemma all_reach: "team_reach ends js profiles n r t \<Longrightarrow> holds_all t"
proof (induction rule: team_reach.induct)
  case team_start
  then show ?case by (simp add: holds_all_def new_team_def)
next
  case (team_more t u)
  show ?case by (rule all_step [OF team_more(2) callers_reach [OF team_more(1)] team_more(3)])
qed

end

interpretation fifo: inst_invariant inst_ok ends
  by unfold_locales (auto simp: inst_ok_def new_inst_def enqueue_def quiesce_def stop_inst_def split: if_splits)

interpretation mailed: inst_invariant no_dead_letter False
  by unfold_locales (auto simp: no_dead_letter_def new_inst_def enqueue_def quiesce_def stop_inst_def split: if_splits)

section \<open>Promises\<close>


section \<open>Runs that compute\<close>

text \<open>A codec that keeps the number of an event, in unary.\<close>

definition unary_json :: event_json where
  "unary_json = \<lparr>js_enc = \<lambda>e. Some (''{'' @ replicate (nat (ev_id e)) CHR ''1'' @ ''}''),
     js_dec = \<lambda>s. if length s \<ge> 2 \<and> s = ''{'' @ replicate (length s - 2) CHR ''1'' @ ''}''
       then Some (toy_event (int (length s - 2))) else None\<rparr>"

datatype team_move = VSend string inbound | VCaller nat | VAgent nat | VEvict | VDelete string

fun team_go :: "bool \<Rightarrow> team_move \<Rightarrow> team \<Rightarrow> team option" where
  "team_go ends (VSend i m) t = Some (send_to i m t)"
| "team_go ends (VCaller n) t = run_caller unary_json (\<lambda>_. True) 0 n t"
| "team_go ends (VAgent k) t = run_agent unary_json 0 False (TurnDone []) k t"
| "team_go ends VEvict t = Some (evict_idle t)"
| "team_go ends (VDelete i) t = (if ends then Some (snd (delete_agent True i False t)) else None)"

fun team_moves :: "bool \<Rightarrow> team_move list \<Rightarrow> team \<Rightarrow> team option" where
  "team_moves ends [] t = Some t"
| "team_moves ends (v # vs) t = (case team_go ends v t of None \<Rightarrow> None | Some u \<Rightarrow> team_moves ends vs u)"

lemma team_go_step: "team_go ends v t = Some u \<Longrightarrow> team_step ends unary_json (\<lambda>_. True) t u"
  by (cases v) (auto intro: team_step.intros split: if_splits)

lemma team_moves_reach:
  "team_moves ends vs t = Some u \<Longrightarrow> team_reach ends unary_json (\<lambda>_. True) n r t \<Longrightarrow> team_reach ends unary_json (\<lambda>_. True) n r u"
proof (induction vs arbitrary: t)
  case (Cons v vs)
  from Cons.prems(1) obtain w where w: "team_go ends v t = Some w" "team_moves ends vs w = Some u" by (auto split: option.splits)
  show ?case by (rule Cons.IH [OF w(2) team_more [OF Cons.prems(2) team_go_step [OF w(1)]]])
qed simp

definition crew_member :: "string \<Rightarrow> string \<times> agent_record" where
  "crew_member i = (i, \<lparr>rc_id = i, rc_name = i, rc_type = i, rc_created = 0, rc_task = None, rc_instructions = [], rc_model = None\<rparr>)"

definition crew :: roster where
  "crew = \<lparr>ro_by = [crew_member ''boss'', crew_member ''a'', crew_member ''b''], ro_file = []\<rparr>"

definition hello :: inbound where "hello = said_by_person ''hi'' None"

text \<open>A send run to its end by the \<open>n\<close>th caller.\<close>

definition sent :: "string \<Rightarrow> nat \<Rightarrow> team_move list" where
  "sent i n = [VSend i hello, VCaller n, VCaller n, VCaller n, VCaller n, VCaller n, VCaller n]"


section \<open>Making room\<close>

definition may_go :: "agent_inst \<Rightarrow> bool" where
  "may_go a \<longleftrightarrow> \<not> in_stopped a \<and> in_state a = ''idle'' \<and> in_inbox a = []"

text \<open>The team without the running agent \<open>i\<close>, instance \<open>k\<close>.\<close>

definition without :: "string \<Rightarrow> nat \<Rightarrow> team \<Rightarrow> team" where
  "without i k t = t\<lparr>tm_live := AList.delete i (tm_live t), tm_insts := (tm_insts t)[k := stop_inst (tm_insts t ! k)]\<rparr>"

lemma quiesce_eq: "quiesce a = (if may_go a then (True, a\<lparr>in_stopped := True\<rparr>) else (False, a))"
  by (simp add: quiesce_def may_go_def)

lemma try_stop_eq:
  assumes "live_inst i t = Some k" "k < length (tm_insts t)"
  shows "try_stop i t = (if may_go (tm_insts t ! k) then (True, without i k t) else (False, t))"
proof -
  have "live_inst i (edit_inst k f t) = Some k" for f using assms(1) by (simp add: live_inst_def)
  then show ?thesis using assms
    by (simp add: try_stop_def quiesce_eq stop_agent_def without_def edit_inst_def stop_inst_def)
qed

lemma evict_first_eq:
  assumes "\<And>i. i \<in> set is \<Longrightarrow> live_inst i t = Some (k i) \<and> k i < length (tm_insts t)"
  shows "evict_first is t = (case filter (\<lambda>i. may_go (tm_insts t ! k i)) is of [] \<Rightarrow> (False, t) | i # _ \<Rightarrow> (True, without i (k i) t))"
  using assms
proof (induction "is")
  case (Cons i "is")
  then have "try_stop i t = (if may_go (tm_insts t ! k i) then (True, without i (k i) t) else (False, t))"
    using try_stop_eq [of i t "k i"] by simp
  with Cons show ?case by simp
qed simp

lemma idle_by_age_hd:
  assumes d: "distinct (List.map fst (tm_live t))"
    and f: "filter (\<lambda>i. may_go (tm_insts t ! k i)) (idle_by_age t) = i # rest"
    and k: "\<And>i l. (i, l) \<in> set (tm_live t) \<Longrightarrow> k i = lv_inst l"
  shows "\<exists>l. (i, l) \<in> set (tm_live t) \<and> may_go (tm_insts t ! lv_inst l) \<and>
    (\<forall>j l2. (j, l2) \<in> set (tm_live t) \<and> may_go (tm_insts t ! lv_inst l2) \<longrightarrow> lv_used l \<le> lv_used l2)"
proof -
  let ?xs = "sort_key (lv_used \<circ> snd) (filter (\<lambda>(_, l). in_state (tm_insts t ! lv_inst l) = ''idle'') (tm_live t))"
  let ?ys = "filter (\<lambda>p. may_go (tm_insts t ! k (fst p))) ?xs"
  have ys: "List.map fst ?ys = i # rest" using f by (simp add: idle_by_age_def filter_map o_def)
  then obtain l zs where y: "?ys = (i, l) # zs" by (cases ?ys) auto
  then have "(i, l) \<in> set ?ys" by simp
  then have i: "(i, l) \<in> set (tm_live t)" "may_go (tm_insts t ! lv_inst l)" using k by auto
  have "sorted (List.map (lv_used \<circ> snd) ?ys)" by (intro sorted_filter) simp
  then have least: "p \<in> set ?ys \<Longrightarrow> lv_used l \<le> lv_used (snd p)" for p by (auto simp: y)
  have "lv_used l \<le> lv_used l2" if "(j, l2) \<in> set (tm_live t)" "may_go (tm_insts t ! lv_inst l2)" for j l2
  proof -
    have "(j, l2) \<in> set ?ys" using that k [OF that(1)] by (auto simp: may_go_def)
    from least [OF this] show ?thesis by simp
  qed
  with i show ?thesis by blast
qed

lemma room_cases:
  assumes "distinct (List.map fst (tm_live t))" "\<forall>p \<in> set (tm_live t). lv_inst (snd p) < length (tm_insts t)"
  shows "evict_first (idle_by_age t) t = (False, t) \<and> (\<forall>i l. (i, l) \<in> set (tm_live t) \<longrightarrow> \<not> may_go (tm_insts t ! lv_inst l)) \<or>
    (\<exists>i l. evict_first (idle_by_age t) t = (True, without i (lv_inst l) t) \<and> (i, l) \<in> set (tm_live t) \<and>
       may_go (tm_insts t ! lv_inst l) \<and>
       (\<forall>j l2. (j, l2) \<in> set (tm_live t) \<and> may_go (tm_insts t ! lv_inst l2) \<longrightarrow> lv_used l \<le> lv_used l2))"
proof -
  let ?k = "\<lambda>i. the (live_inst i t)"
  have k: "live_inst i t = Some (lv_inst l)" if "(i, l) \<in> set (tm_live t)" for i l
    using that assms(1) by (simp add: live_inst_def map_of_is_SomeI)
  have "live_inst i t = Some (?k i) \<and> ?k i < length (tm_insts t)" if "i \<in> set (idle_by_age t)" for i
    using that k assms(2) by (auto simp: idle_by_age_def)
  note e = evict_first_eq [OF this]
  show ?thesis
  proof (cases "filter (\<lambda>i. may_go (tm_insts t ! ?k i)) (idle_by_age t)")
    case Nil
    have "\<not> may_go (tm_insts t ! lv_inst l)" if "(i, l) \<in> set (tm_live t)" for i l
    proof
      assume "may_go (tm_insts t ! lv_inst l)"
      then have "i \<in> set (idle_by_age t)" using that by (force simp: idle_by_age_def may_go_def)
      with Nil have "\<not> may_go (tm_insts t ! ?k i)" by (auto simp: filter_empty_conv)
      with k [OF that] \<open>may_go (tm_insts t ! lv_inst l)\<close> show False by simp
    qed
    with e Nil show ?thesis by simp
  next
    case (Cons i rest)
    obtain l where l: "(i, l) \<in> set (tm_live t)" "may_go (tm_insts t ! lv_inst l)"
      "\<And>j l2. (j, l2) \<in> set (tm_live t) \<Longrightarrow> may_go (tm_insts t ! lv_inst l2) \<Longrightarrow> lv_used l \<le> lv_used l2"
      using idle_by_age_hd [OF assms(1) Cons] k by force
    with e Cons k [OF l(1)] have "evict_first (idle_by_age t) t = (True, without i (lv_inst l) t)" by simp
    with l show ?thesis by blast
  qed
qed

text \<open>
  Room for one more agent: below the ceiling, or for the boss, nothing is touched; otherwise exactly one running
  agent goes, the longest unused of those idle with an empty inbox, stopped and cancelled, every other one
  being left alone; and when there is none such the request is refused and nothing has changed.
\<close>

theorem make_room_exact:
  assumes "distinct (List.map fst (tm_live t))" "\<forall>p \<in> set (tm_live t). lv_inst (snd p) < length (tm_insts t)"
  shows "(if length (tm_live t) < tm_max t \<or> want = boss_id then make_room want t = (True, t)
     else if \<exists>p \<in> set (tm_live t). may_go (tm_insts t ! lv_inst (snd p))
     then (\<exists>i l. (i, l) \<in> set (tm_live t) \<and> make_room want t = (True, without i (lv_inst l) t) \<and>
       may_go (tm_insts t ! lv_inst l) \<and>
       (\<forall>j l2. (j, l2) \<in> set (tm_live t) \<and> may_go (tm_insts t ! lv_inst l2) \<longrightarrow> lv_used l \<le> lv_used l2))
     else make_room want t = (False, t))"
proof -
  show ?thesis
  proof (cases "length (tm_live t) < tm_max t \<or> want = boss_id")
    case True
    then show ?thesis by (auto simp: make_room_def)
  next
    case False
    then have m: "make_room want t = evict_first (idle_by_age t) t" by (simp add: make_room_def)
    from room_cases [OF assms] show ?thesis
    proof
      assume "evict_first (idle_by_age t) t = (False, t) \<and> (\<forall>i l. (i, l) \<in> set (tm_live t) \<longrightarrow> \<not> may_go (tm_insts t ! lv_inst l))"
      with False m show ?thesis by auto
    next
      assume e: "\<exists>i l. evict_first (idle_by_age t) t = (True, without i (lv_inst l) t) \<and> (i, l) \<in> set (tm_live t) \<and>
        may_go (tm_insts t ! lv_inst l) \<and>
        (\<forall>j l2. (j, l2) \<in> set (tm_live t) \<and> may_go (tm_insts t ! lv_inst l2) \<longrightarrow> lv_used l \<le> lv_used l2)"
      then have "\<exists>p \<in> set (tm_live t). may_go (tm_insts t ! lv_inst (snd p))" by force
      with False m e show ?thesis by (simp only: if_False if_True) blast
    qed
  qed
qed

definition two_live :: team where
  "two_live = (new_team 2 crew)\<lparr>
     tm_insts := [new_inst ''a'' \<lparr>lg_agent = ''a'', lg_next = 1, lg_disk = NoLog, lg_subs = []\<rparr>,
                  new_inst ''b'' \<lparr>lg_agent = ''b'', lg_next = 1, lg_disk = NoLog, lg_subs = []\<rparr>],
     tm_live := [(''a'', \<lparr>lv_inst = 0, lv_used = 7\<rparr>), (''b'', \<lparr>lv_inst = 1, lv_used = 3\<rparr>)]\<rparr>"

theorem make_room_exact_witness:
  "\<exists>i l. (i, l) \<in> set (tm_live two_live) \<and> make_room ''c'' two_live = (True, without i (lv_inst l) two_live)"
proof -
  have "distinct (List.map fst (tm_live two_live))" "\<forall>p \<in> set (tm_live two_live). lv_inst (snd p) < length (tm_insts two_live)"
    by code_simp+
  note room = make_room_exact [OF this, of "''c''"]
  have "\<not> (length (tm_live two_live) < tm_max two_live \<or> ''c'' = boss_id)"
    "\<exists>p \<in> set (tm_live two_live). may_go (tm_insts two_live ! lv_inst (snd p))" by code_simp+
  with room show ?thesis by (simp only: if_False if_True) blast
qed

section \<open>What is not promised\<close>

text \<open>
  The ceiling on running agents is no ceiling. With room for one, a worker is busy, the boss is exempt from
  the ceiling and comes in as a second, the idle boss makes room for another worker, and the
  boss comes in again: three agents run, and every worker after gets in the same way.
\<close>

theorem ceiling_drifts:
  "\<exists>t. team_reach False unary_json (\<lambda>_. True) 1 crew t \<and> tm_max t = 1 \<and> live_count t = 3"
proof -
  let ?vs = "sent ''a'' 0 @ [VAgent 0, VAgent 0] @ sent ''boss'' 1 @ [VAgent 1, VAgent 1, VAgent 1, VAgent 1] @
    sent ''b'' 2 @ [VAgent 2, VAgent 2] @ sent ''boss'' 3"
  let ?t = "the (team_moves False ?vs (new_team 1 crew))"
  have m: "team_moves False ?vs (new_team 1 crew) = Some ?t" "tm_max ?t = 1" "live_count ?t = 3" by code_simp+
  from team_moves_reach [OF m(1) team_start] m(2,3) show ?thesis by (intro exI [of _ ?t] conjI)
qed

text \<open>
  A message can fall between the inbox and the turn: its sender has been told it was accepted, the goroutine has
  taken it off the inbox but not yet said it is working, and the agent, which reads idle with
  nothing queued, is stopped and its turn cancelled before it begins.
\<close>

theorem dequeued_message_cancelled:
  "\<exists>t. team_reach False unary_json (\<lambda>_. True) 4 crew t \<and> tm_replies t = [(hello, SendOk 0)] \<and>
     in_phase (tm_insts t ! 0) = Took hello \<and> in_stopped (tm_insts t ! 0) \<and> in_cancelled (tm_insts t ! 0)"
proof -
  let ?vs = "sent ''a'' 0 @ [VAgent 0, VEvict]"
  let ?t = "the (team_moves False ?vs (new_team 4 crew))"
  have m: "team_moves False ?vs (new_team 4 crew) = Some ?t" "tm_replies ?t = [(hello, SendOk 0)]"
    "in_phase (tm_insts ?t ! 0) = Took hello" "in_stopped (tm_insts ?t ! 0)" "in_cancelled (tm_insts ?t ! 0)" by code_simp+
  from team_moves_reach [OF m(1) team_start] m(2-) show ?thesis by (intro exI [of _ ?t] conjI)
qed

text \<open>
  Two callers who start the same agent at once open its log twice; the one who loses has written its
  \<open>ready\<close> under a number the winner then gives to the next event, so two events of the log
  carry the same number.
\<close>

theorem racing_starts_repeat_id:
  "\<exists>t. team_reach False unary_json (\<lambda>_. True) 4 crew t \<and>
     map_option (List.map ev_id) (read_all unary_json (disk_of ''a'' t)) = Some [1, 2, 2]"
proof -
  let ?vs = "[VSend ''a'' hello, VSend ''a'' hello, VCaller 0, VCaller 1, VCaller 0, VCaller 1, VCaller 0, VCaller 0, VCaller 0]"
  let ?t = "the (team_moves False ?vs (new_team 4 crew))"
  have m: "team_moves False ?vs (new_team 4 crew) = Some ?t"
    "map_option (List.map ev_id) (read_all unary_json (disk_of ''a'' ?t)) = Some [1, 2, 2]" by code_simp+
  from team_moves_reach [OF m(1) team_start] m(2) show ?thesis by (intro exI [of _ ?t] conjI)
qed

text \<open>
  An agent deleted while a message to it was on its way is started all the same: the sender read the roster before
  the deletion and starts the agent after it, and the agent runs, and has accepted the message,
  though nobody can find it on the roster.
\<close>

theorem deleted_agent_runs:
  "\<exists>t. team_reach True unary_json (\<lambda>_. True) 4 crew t \<and> look_agent (tm_roster t) ''a'' = None \<and>
     live_inst ''a'' t = Some 0 \<and> in_inbox (tm_insts t ! 0) = [hello]"
proof -
  let ?vs = "[VSend ''a'' hello, VCaller 0, VDelete ''a'', VCaller 1, VCaller 0, VCaller 0, VCaller 0]"
  let ?t = "the (team_moves True ?vs (new_team 4 crew))"
  have m: "team_moves True ?vs (new_team 4 crew) = Some ?t" "look_agent (tm_roster ?t) ''a'' = None"
    "live_inst ''a'' ?t = Some 0" "in_inbox (tm_insts ?t ! 0) = [hello]" by code_simp+
  from team_moves_reach [OF m(1) team_start] m(2-) show ?thesis by (intro exI [of _ ?t] conjI)
qed

section \<open>Answers find their asker\<close>

text \<open>
  C18. The id an agent's ask was given leads the answer back to the running instance of that agent and no other, whoever else
  is on the machine: the ids the roster mints, even where a suffix made them longer than an id
  may be, have no dot.
\<close>

theorem answer_reaches_asker:
  assumes "free_id name r = Inr i \<or> i = boss_id"
  shows "resolve_target (ask_id i kind n) t = live_inst i t"
proof -
  have "minted_id i" using assms free_id_minted(1) by (auto simp: minted_id_def)
  from cut_at_append [OF minted_no_dot [OF this]] show ?thesis by (simp add: resolve_target_def ask_id_def)
qed

theorem answer_reaches_asker_witness:
  "resolve_target (ask_id ''a-2'' ''ap'' 3) two_live = live_inst ''a-2'' two_live"
proof -
  have "free_id ''A'' crew = Inr ''a-2'' \<or> ''a-2'' = boss_id" by code_simp
  from answer_reaches_asker [OF this] show ?thesis .
qed

end
