(* ===== verification/GuestApiProps.thy ===== *)
theory GuestApiProps
  imports GuestApi EventLogProps TeamProps GateProps
begin

text \<open>
  What the daemon's handlers promise: a keyed message goes to the team at most once, a page of a log is the same whether its agent runs or
  not, a refusal reaches the app as what it was. And two things they do not: a message refused as busy is not taken by its own retry, and
  the id answered for a message may be another event's.
\<close>

section \<open>Keyed messages\<close>

type_synonym message_request = "send_result \<times> msg_body \<times> string"

fun message_run :: "message_request list \<Rightarrow> guest_server \<Rightarrow> (string \<times> (guest_reply + string \<times> inbound)) list" where
  "message_run [] s = []"
| "message_run ((got, b, key) # rs) s = (case handle_message got b key s of (r, s1) \<Rightarrow> (key, r) # message_run rs s1)"

text \<open>What went to the team, by key and id; what was answered as said before.\<close>

definition went :: "(string \<times> (guest_reply + string \<times> inbound)) list \<Rightarrow> (string \<times> string) list" where
  "went outs = List.map_filter (\<lambda>(key, r). case r of Inr (i, m) \<Rightarrow> Some (key, i) | Inl _ \<Rightarrow> None) outs"

definition repeated :: "(string \<times> (guest_reply + string \<times> inbound)) list \<Rightarrow> (string \<times> string) list" where
  "repeated outs =
     List.map_filter (\<lambda>(key, r). case r of Inl y \<Rightarrow> (case gy_body y of GbReplayed i \<Rightarrow> Some (key, i) | _ \<Rightarrow> None) | Inr _ \<Rightarrow> None) outs"

lemma went_simps [simp]:
  "went [] = []" "went ((key, Inr (i, m)) # outs) = (key, i) # went outs" "went ((key, Inl y) # outs) = went outs"
  by (simp_all add: went_def map_filter_simps)

lemma repeated_simps [simp]:
  "repeated [] = []" "repeated ((key, Inr im) # outs) = repeated outs"
  "repeated ((key, Inl y) # outs) = (case gy_body y of GbReplayed i \<Rightarrow> (key, i) # repeated outs | _ \<Rightarrow> repeated outs)"
  by (simp_all add: repeated_def map_filter_simps split: guest_body.splits)

definition message_id :: "int \<Rightarrow> string" where "message_id n = ''m_'' @ pad3 n"

definition server_ok :: "guest_server \<Rightarrow> bool" where
  "server_ok s \<longleftrightarrow> gv_seq s \<ge> 0 \<and> distinct (List.map fst (gv_seen s)) \<and>
     (\<forall>(k, i) \<in> set (gv_seen s). k \<noteq> [] \<and> (\<exists>n. 1 \<le> n \<and> n \<le> gv_seq s \<and> i = message_id n))"

lemma refusals_not_repeats:
  "resolve_agent got = Inl y \<Longrightarrow> \<exists>c r. gy_body y = GbError c r"
  by (auto simp: resolve_agent_def fail_guest_def answer_def split: send_result.splits)

text \<open>The three things a request can come to.\<close>

lemma handle_message_cases:
  assumes "handle_message got b key s = (r, s')"
  obtains (refused) c q y where "r = Inl y" "gy_body y = GbError c q" "s' = s"
    | (again) i where "key \<noteq> []" "map_of (gv_seen s) key = Some i" "r = Inl (answer 200 (GbReplayed i))" "s' = s"
    | (sent) m where "key = [] \<or> map_of (gv_seen s) key = None" "r = Inr (message_id (gv_seq s + 1), m)"
        "s' = s\<lparr>gv_seq := gv_seq s + 1,
          gv_seen := (if key \<noteq> [] then AList.update key (message_id (gv_seq s + 1)) (gv_seen s) else gv_seen s)\<rparr>"
proof (cases "resolve_agent got")
  case (Inl y)
  with assms refusals_not_repeats [OF Inl] that(1) show ?thesis by (auto simp: handle_message_def)
next
  case (Inr k)
  show ?thesis
  proof (cases b)
    case MsgUnreadable
    with assms Inr that(1) show ?thesis by (auto simp: handle_message_def fail_guest_def answer_def)
  next
    case (MsgSays w f)
    show ?thesis
    proof (cases "w = [] \<and> f = None")
      case True
      with assms Inr MsgSays that(1) show ?thesis by (auto simp: handle_message_def fail_guest_def answer_def)
    next
      case False
      show ?thesis
      proof (cases "if key \<noteq> [] then map_of (gv_seen s) key else None")
        case None
        show ?thesis
        proof (rule that(3))
          show "key = [] \<or> map_of (gv_seen s) key = None" using None by (auto split: if_splits)
        qed (use assms Inr MsgSays False None in \<open>auto simp: handle_message_def next_message_id_def Let_def message_id_def\<close>)
      next
        case (Some i)
        then have key: "key \<noteq> []" "map_of (gv_seen s) key = Some i" by (auto split: if_splits)
        then have "next_message_id key s = ((i, True), s)" by (simp add: next_message_id_def)
        with assms Inr MsgSays False have "r = Inl (answer 200 (GbReplayed i))" "s' = s" by (simp_all add: handle_message_def)
        then show ?thesis by (rule that(2) [OF key])
      qed
    qed
  qed
qed

definition sends_ok :: "guest_server \<Rightarrow> (string \<times> string) list \<Rightarrow> bool" where
  "sends_ok s ws \<longleftrightarrow> distinct (List.map snd ws) \<and> distinct (filter (\<lambda>k. k \<noteq> []) (List.map fst ws)) \<and>
     (\<forall>(k, i) \<in> set ws. (\<exists>n. n > gv_seq s \<and> i = message_id n) \<and> (k \<noteq> [] \<longrightarrow> map_of (gv_seen s) k = None))"

lemma message_id_inj: "0 \<le> m \<Longrightarrow> 0 \<le> n \<Longrightarrow> message_id m = message_id n \<longleftrightarrow> m = n"
  by (simp add: message_id_def pad3_inj)

lemma update_adds: "set (AList.update k v al) \<subseteq> insert (k, v) (set al)"
  by (induction al) auto

lemma server_sent:
  assumes "server_ok s" "key = [] \<or> map_of (gv_seen s) key = None"
    and "t = s\<lparr>gv_seq := gv_seq s + 1, gv_seen := (if key \<noteq> [] then AList.update key (message_id (gv_seq s + 1)) (gv_seen s) else gv_seen s)\<rparr>"
  shows "server_ok t" "set (gv_seen t) \<subseteq> insert (key, message_id (gv_seq s + 1)) (set (gv_seen s))"
    "sends_ok t ws \<Longrightarrow> sends_ok s ((key, message_id (gv_seq s + 1)) # ws)"
proof -
  have seen: "set (gv_seen t) \<subseteq> insert (key, message_id (gv_seq s + 1)) (set (gv_seen s))"
    "distinct (List.map fst (gv_seen t))"
    using assms(1) unfolding assms(3) by (auto simp: server_ok_def distinct_update dest: subsetD [OF update_adds])
  then show "set (gv_seen t) \<subseteq> insert (key, message_id (gv_seq s + 1)) (set (gv_seen s))" by blast
  have old: "k \<noteq> [] \<and> (\<exists>n. 1 \<le> n \<and> n \<le> gv_seq s + 1 \<and> i = message_id n)" if "(k, i) \<in> set (gv_seen s)" for k i
    using that assms(1) unfolding server_ok_def by fastforce
  have first: "1 \<le> gv_seq s + 1" using assms(1) by (simp add: server_ok_def)
  have "k \<noteq> [] \<and> (\<exists>n. 1 \<le> n \<and> n \<le> gv_seq s + 1 \<and> i = message_id n)" if ki: "(k, i) \<in> set (gv_seen t)" for k i
  proof (cases "key = []")
    case True
    with ki old [of k i] show ?thesis by (simp add: assms(3))
  next
    case False
    from ki seen(1) have "(k, i) = (key, message_id (gv_seq s + 1)) \<or> (k, i) \<in> set (gv_seen s)" by blast
    with False old [of k i] first show ?thesis by blast
  qed
  moreover have q: "gv_seq t = gv_seq s + 1" "gv_seq s \<ge> 0" using assms(1) by (simp_all add: assms(3) server_ok_def)
  ultimately show "server_ok t" using seen(2) unfolding server_ok_def by fastforce
  assume ws: "sends_ok t ws"
  have new: "\<exists>n. n > gv_seq s + 1 \<and> i = message_id n" if "(k, i) \<in> set ws" for k i
    using ws that q unfolding sends_ok_def by auto
  have unseen: "k \<noteq> key \<and> map_of (gv_seen s) k = None" if "(k, i) \<in> set ws" "k \<noteq> []" for k i
  proof -
    from ws that have "map_of (gv_seen t) k = None" unfolding sends_ok_def by blast
    with that(2) show ?thesis unfolding assms(3) by (auto simp: update_conv split: if_splits)
  qed
  have "message_id (gv_seq s + 1) \<notin> snd ` set ws"
  proof
    assume "message_id (gv_seq s + 1) \<in> snd ` set ws"
    then obtain k where "(k, message_id (gv_seq s + 1)) \<in> set ws" by force
    from new [OF this] obtain n where "n > gv_seq s + 1" "message_id (gv_seq s + 1) = message_id n" by blast
    with q message_id_inj [of "gv_seq s + 1" n] show False by simp
  qed
  moreover have "key \<notin> fst ` set ws" if "key \<noteq> []" using unseen that by force
  moreover have "\<exists>n. n > gv_seq s \<and> i = message_id n" if "(k, i) \<in> set ws" for k i
    using new [OF that] by (metis less_add_one order_less_trans)
  moreover have "\<exists>n. n > gv_seq s \<and> message_id (gv_seq s + 1) = message_id n" by (intro exI [of _ "gv_seq s + 1"]) simp
  ultimately show "sends_ok s ((key, message_id (gv_seq s + 1)) # ws)"
    using ws unseen assms(2) unfolding sends_ok_def by (simp add: image_iff) blast
qed

lemma message_run_ok:
  "server_ok s \<Longrightarrow> sends_ok s (went (message_run rs s)) \<and> set (repeated (message_run rs s)) \<subseteq> set (gv_seen s) \<union> set (went (message_run rs s))"
proof (induction rs arbitrary: s)
  case (Cons x rs)
  obtain got b key where x: "x = (got, b, key)" by (cases x) auto
  obtain r t where r: "handle_message got b key s = (r, t)" by fastforce
  show ?case
    using r
  proof (cases rule: handle_message_cases)
    case (refused c q y)
    then show ?thesis using Cons r x by simp
  next
    case (again i)
    then show ?thesis using Cons r x by (simp add: answer_def map_of_SomeD)
  next
    case (sent m)
    note t = server_sent [OF Cons.prems sent(1,3)]
    from Cons.IH [OF t(1)] t(2) show ?thesis using r x sent(2) t(3) by auto
  qed
qed (simp add: sends_ok_def)

text \<open>
  C25. A keyed message goes to the team at most once. Whatever requests a daemon is sent, good and bad, keyed and not: every message that goes
  to the team has an id of its own, no key sends two, and whoever is told a message was already taken is told the id of the one that
  did go under that key.
\<close>

theorem keyed_sends_once:
  "distinct (List.map snd (went (message_run rs new_server))) \<and>
   distinct (filter (\<lambda>k. k \<noteq> []) (List.map fst (went (message_run rs new_server)))) \<and>
   set (repeated (message_run rs new_server)) \<subseteq> set (went (message_run rs new_server))"
proof -
  have "server_ok new_server" by (simp add: server_ok_def new_server_def)
  from message_run_ok [OF this, of rs] show ?thesis by (simp add: sends_ok_def new_server_def)
qed

text \<open>
  And it may go not at all. The key is marked before the team is asked, so a message the team refuses as busy, with the advice to come back
  in five seconds, is answered as taken when it does come back: nothing is sent, then or later.
\<close>

theorem busy_retry_lost:
  assumes "handle_message got b key s = (Inr (i, m), t)" "key \<noteq> []"
  shows "gy_status (message_sent i SendBusy team) = 503 \<and> gy_retry (message_sent i SendBusy team) = Some 5 \<and>
    handle_message got b key t = (Inl (answer 200 (GbReplayed i)), t)"
proof -
  from assms(1) have m: "map_of (gv_seen t) key = Some i"
    by (cases rule: handle_message_cases) (use assms(2) in \<open>auto simp: update_conv\<close>)
  from assms have "\<exists>k w f. resolve_agent got = Inr k \<and> b = MsgSays w f \<and> \<not> (w = [] \<and> f = None)"
    by (auto simp: handle_message_def split: sum.splits msg_body.splits if_splits prod.splits bool.splits)
  with m assms(2) show ?thesis
    by (auto simp: handle_message_def next_message_id_def message_sent_def send_failed_def fail_guest_def answer_def)
qed

theorem busy_retry_lost_witness:
  "fst (handle_message (SendOk 0) (MsgSays ''hi'' None) ''k'' (snd (handle_message (SendOk 0) (MsgSays ''hi'' None) ''k'' new_server))) =
   Inl (answer 200 (GbReplayed ''m_001''))"
proof -
  have h: "handle_message (SendOk 0) (MsgSays ''hi'' None) ''k'' new_server =
    (Inr (''m_001'', said_by_person ''hi'' None), \<lparr>gv_seen = [(''k'', ''m_001'')], gv_seq = 1\<rparr>)" by code_simp
  show ?thesis using busy_retry_lost [OF h] by (simp add: h)
qed

section \<open>A refusal on its way to the app\<close>


section \<open>Reading a log, running or not\<close>

text \<open>
  C26. A page of a conversation costs no agent: what a client is answered for an agent that runs is what it is answered once that agent is
  stopped, read straight off the disk.
\<close>

theorem poll_same_running:
  assumes "live_inst i t = Some k" "holds js i es ((in_log (tm_insts t ! k))\<lparr>lg_disk := disk_of i t\<rparr>)"
    and "look_agent (tm_roster t) i \<noteq> None"
  shows "poll_events js i since t = answer 200 (GbEvents (filter (\<lambda>e. ev_id e > since) es) (int (length es))) \<and>
    poll_events js i since (stop_agent i t) = poll_events js i since t"
proof -
  have read: "read_all js (disk_of i t) = Some es" and ids: "ids_from_one es"
    and last: "log_last_id (in_log (tm_insts t ! k)) = int (length es)"
    using holds_read [OF assms(2)] assms(2) by (simp_all add: holds_def log_last_id_def)
  have run: "history js i since t = Some (filter (\<lambda>e. ev_id e > since) es, int (length es))"
    using assms(1,3) read last ids_after [OF ids] by (simp add: history_def)
  have "stop_agent i t = (edit_inst k stop_inst t)\<lparr>tm_live := AList.delete i (tm_live t)\<rparr>"
    using assms(1) by (simp add: stop_agent_def)
  then have gone: "live_inst i (stop_agent i t) = None" "tm_roster (stop_agent i t) = tm_roster t" "disk_of i (stop_agent i t) = disk_of i t"
    by (simp_all add: live_inst_def edit_inst_def disk_of_def delete_conv')
  have "last_event_id es = int (length es)" using ids_last [OF ids] by (simp add: last_event_id_def)
  then have "read_log_since js (disk_of i t) since = Some (filter (\<lambda>e. ev_id e > since) es, int (length es))"
    using read ids_after [OF ids] by (cases "disk_of i t") (auto simp: read_log_since_def read_all_def)
  with gone assms(3) have "history js i since (stop_agent i t) = history js i since t" using run by (simp add: history_def)
  with run show ?thesis by (simp add: poll_events_def)
qed

section \<open>Whose id\<close>

definition accepted_hello :: "team option" where
  "accepted_hello = team_moves False [VSend ''boss'' hello, VCaller 0, VCaller 0, VCaller 0, VCaller 0] (new_team 3 crew)"

definition raced :: "team option" where
  "raced = team_moves False [VCaller 0, VCaller 0, VAgent 0, VAgent 0] (the accepted_hello)"

text \<open>
  The id answered for a message need not be the message's. The daemon reads the last id of the log once the team has the message, and by
  then the agent may have taken it and said that it is working: the answer then names the event after the message, which the host hands the
  app as the id of the person's line.
\<close>

theorem sent_id_races:
  "tm_threads (the accepted_hello) = [[TLog 0 (received_event hello), TReply hello (SendOk 0)]] \<and>
   log_last_id (in_log (tm_insts (the accepted_hello) ! 0)) + 1 = 2 \<and>
   message_sent ''m_001'' (SendOk 0) (the raced) = answer 202 (GbQueued ''m_001'' ''working'' 3) \<and>
   tm_replies (the raced) = [(hello, SendOk 0)]"
  by code_simp

theorem poll_same_running_witness:
  "poll_events unary_json ''boss'' 1 (stop_agent ''boss'' (the raced)) =
   answer 200 (GbEvents [toy_event 2, toy_event 3] 3)"
proof -
  have h: "live_inst ''boss'' (the raced) = Some 0" "look_agent (tm_roster (the raced)) ''boss'' \<noteq> None"
    "holds unary_json ''boss'' [toy_event 1, toy_event 2, toy_event 3]
       ((in_log (tm_insts (the raced) ! 0))\<lparr>lg_disk := disk_of ''boss'' (the raced)\<rparr>)" by code_simp+
  from poll_same_running [OF h(1,3,2), of 1] show ?thesis by (simp add: toy_event_def)
qed

end
