(* ===== verification/EventStreamProps.thy ===== *)
theory EventStreamProps
  imports EventStream EventLogProps
begin

text \<open>
  What the streams promise: whatever the daemon logs while a client connects, replays and streams_on, the host decodes every event after the
  one it resumed from, once, in order; and the raised hands it is told are the ones that are up.
\<close>

section \<open>Bytes and lines\<close>

definition stream_line :: "string \<Rightarrow> bool" where
  "stream_line w \<longleftrightarrow> newline \<notin> set w \<and> int (length w) < stream_line_max"

lemma payloads_append:
  "list_all stream_line ws \<Longrightarrow> sse_payloads (ws @ vs) = (fst (sse_payloads ws) @ fst (sse_payloads vs), snd (sse_payloads vs))"
  by (induction ws) (auto simp: stream_line_def split: prod.splits)

lemma payloads_lines: "list_all stream_line ws \<Longrightarrow> scan_lines (as_lines ws) = ws"
  using scan_as_lines [of ws "[]"] by (simp add: list_all_iff stream_line_def)

text \<open>Bytes that are whole lines the scanner takes; what streams_on adds its payloads.\<close>

definition whole :: "string \<Rightarrow> string list \<Rightarrow> bool" where
  "whole bytes ps \<longleftrightarrow> (\<exists>ws. bytes = as_lines ws \<and> list_all stream_line ws \<and> fst (sse_payloads ws) = ps)"

lemma whole_payloads: "whole bytes ps \<Longrightarrow> fst (sse_payloads (scan_lines bytes)) = ps"
  by (auto simp: whole_def payloads_lines)

lemma whole_append: "whole a ps \<Longrightarrow> whole b qs \<Longrightarrow> whole (a @ b) (ps @ qs)"
proof -
  assume "whole a ps" "whole b qs"
  then obtain ws vs where w: "a = as_lines ws" "list_all stream_line ws" "fst (sse_payloads ws) = ps"
    "b = as_lines vs" "list_all stream_line vs" "fst (sse_payloads vs) = qs" by (auto simp: whole_def)
  then have "a @ b = as_lines (ws @ vs)" "list_all stream_line (ws @ vs)" "fst (sse_payloads (ws @ vs)) = ps @ qs"
    by (simp_all add: payloads_append)
  then show ?thesis unfolding whole_def by blast
qed

lemma whole_head: "whole sse_head []" and whole_beat: "whole sse_beat []"
proof -
  have "sse_head = as_lines [''retry: 2000'', []]" "sse_beat = as_lines ['': beat'', []]"
    by (simp_all add: sse_head_def sse_beat_def)
  moreover have "list_all stream_line [''retry: 2000'', []]" "list_all stream_line ['': beat'', []]"
    "fst (sse_payloads [''retry: 2000'', []]) = []" "fst (sse_payloads ['': beat'', []]) = []"
    by (simp_all add: stream_line_def newline_def stream_line_max_def drop_cr_def)
  ultimately show "whole sse_head []" "whole sse_beat []"
    unfolding whole_def by metis+
qed

text \<open>A payload the scanner gives back as it was sent.\<close>

definition clean_payload :: "string \<Rightarrow> bool" where
  "clean_payload t \<longleftrightarrow> newline \<notin> set t \<and> drop_cr t = t \<and> trim_with is_space t = t \<and> int (length t) + 6 < stream_line_max"

lemma data_line:
  assumes "clean_payload t"
  shows "stream_line (''data: '' @ t)" "sse_payloads [''data: '' @ t, []] = ([t], True)"
proof -
  have d: "drop_cr (''data: '' @ t) = ''data: '' @ t"
    using assms by (auto simp: clean_payload_def drop_cr_def split: if_splits)
  have "trim_with is_space (CHR '' '' # t) = trim_with is_space t" by (simp add: trim_with_def is_space_def)
  with d assms show "stream_line (''data: '' @ t)" "sse_payloads [''data: '' @ t, []] = ([t], True)"
    by (auto simp: clean_payload_def stream_line_def newline_def stream_line_max_def drop_cr_def [of "[]"])
qed

lemma name_line:
  assumes "stream_line (p @ w)" "p \<in> {''id: '', ''event: ''}"
  shows "fst (sse_payloads [p @ w]) = []"
proof -
  have "\<not> prefix ''data:'' (drop_cr (p @ w))"
    using assms(2) by (auto simp: drop_cr_def prefix_def)
  with assms(1) show ?thesis by (simp add: stream_line_def)
qed

section \<open>Frames\<close>

text \<open>An event whose JSON comes through the file and the wire, under a number and a type that fit a line.\<close>

definition streams :: "event_json \<Rightarrow> event \<Rightarrow> bool" where
  "streams js e \<longleftrightarrow> carries js e \<and> clean_payload (text_of js e) \<and> ev_id e > 0 \<and>
     stream_line (''id: '' @ show_id (ev_id e)) \<and> stream_line (''event: '' @ ev_type e)"

lemma frame_lines:
  "event_frame i type text = as_lines [''id: '' @ show_id i, ''event: '' @ type, ''data: '' @ text, []]"
  by (simp add: event_frame_def)

lemma whole_frame:
  assumes "stream_line (''id: '' @ show_id i)" "stream_line (''event: '' @ type)" "clean_payload text"
  shows "whole (event_frame i type text) [text]"
proof -
  let ?a = "''id: '' @ show_id i" and ?b = "''event: '' @ type"
  have e: "stream_line []" by (simp add: stream_line_def stream_line_max_def)
  have ab: "list_all stream_line [?a, ?b]" using assms(1,2) by simp
  have "fst (sse_payloads [?a, ?b]) = []"
    using payloads_append [of "[?a]" "[?b]"] name_line [OF assms(1)] name_line [OF assms(2)] assms(1) by simp
  then have "fst (sse_payloads ([?a, ?b] @ [''data: '' @ text, []])) = [text]"
    using payloads_append [OF ab] data_line [OF assms(3)] by simp
  then show ?thesis
    using ab e data_line(1) [OF assms(3)] unfolding whole_def frame_lines
    by (intro exI [of _ "[?a, ?b] @ [''data: '' @ text, []]"]) simp
qed

text \<open>What the host has after bytes that carry these events.\<close>

definition told :: "event_json \<Rightarrow> string \<Rightarrow> event list \<Rightarrow> bool" where
  "told js bytes es \<longleftrightarrow> whole bytes (List.map (text_of js) es) \<and> list_all (streams js) es"

lemma told_client: "told js bytes es \<Longrightarrow> client_events js bytes = es"
proof -
  assume t: "told js bytes es"
  have "List.map_filter (decode_line js) (List.map (text_of js) es) = es" if "list_all (streams js) es"
    using that by (induction es) (auto simp: map_filter_simps decode_line_def streams_def carriesD)
  moreover have "fst (sse_payloads (scan_lines bytes)) = List.map (text_of js) es"
    using t by (simp add: told_def whole_payloads)
  ultimately show ?thesis using t by (simp add: client_events_def told_def)
qed

lemma told_beat: "told js bytes es \<Longrightarrow> told js (bytes @ sse_beat) es"
  using whole_append [OF _ whole_beat] by (fastforce simp: told_def)

lemma emit_told:
  assumes "told js out es" "streams js e" "emit_sse js e (sent, out) = (sent', out')"
  shows "told js out' (es @ (if ev_id e > sent then [e] else [])) \<and> sent' = max sent (ev_id e)"
proof (cases "ev_id e > sent")
  case True
  from assms(2) have f: "whole (event_frame (ev_id e) (ev_type e) (text_of js e)) [text_of js e]" "js_enc js e = Some (text_of js e)"
    by (auto simp: streams_def carriesD intro: whole_frame)
  with True assms show ?thesis
    using whole_append [OF _ f(1), of out "List.map (text_of js) es"] by (auto simp: told_def emit_sse_def)
qed (use assms in \<open>auto simp: emit_sse_def\<close>)

definition ascending :: "event list \<Rightarrow> bool" where
  "ascending es \<longleftrightarrow> sorted_wrt (\<lambda>e f. ev_id e < ev_id f) es"

lemma replay_told:
  assumes "ascending es" "list_all (streams js) es" "told js out ds" "\<forall>e\<in>set es. ev_id e > sent"
    and "fold (emit_sse js) es (sent, out) = (sent', out')"
  shows "told js out' (ds @ es) \<and> sent' = (if es = [] then sent else ev_id (List.last es))"
  using assms
proof (induction es arbitrary: sent out ds)
  case (Cons e es)
  obtain s1 o1 where e: "emit_sse js e (sent, out) = (s1, o1)" by fastforce
  with emit_told [OF Cons.prems(3) _ e] Cons.prems have "told js o1 (ds @ [e])" "s1 = ev_id e" by auto
  with Cons.IH [of o1 "ds @ [e]" s1] Cons.prems e show ?case by (auto simp: ascending_def)
qed simp

section \<open>A client's stream\<close>

fun run_sse :: "event_json \<Rightarrow> sse_step list \<Rightarrow> sse_stream \<Rightarrow> sse_stream option" where
  "run_sse js [] s = Some s"
| "run_sse js (x # xs) s = (case sse_do js x s of None \<Rightarrow> None | Some s1 \<Rightarrow> run_sse js xs s1)"

text \<open>The reader keeps up: no event finds its channel full.\<close>

fun keeps_up :: "event_json \<Rightarrow> sse_step list \<Rightarrow> sse_stream \<Rightarrow> bool" where
  "keeps_up js [] s \<longleftrightarrow> True"
| "keeps_up js (x # xs) s \<longleftrightarrow>
     (case x of SseAppend now e \<Rightarrow> length (queued s) < log_queue | _ \<Rightarrow> True) \<and>
     (case sse_do js x s of None \<Rightarrow> True | Some s1 \<Rightarrow> keeps_up js xs s1)"

fun logged :: "sse_step list \<Rightarrow> log_op list" where
  "logged [] = []"
| "logged (SseAppend now e # xs) = LAppend now e # logged xs"
| "logged (_ # xs) = logged xs"

definition streams_on :: "event_json \<Rightarrow> string \<Rightarrow> int \<Rightarrow> event list \<Rightarrow> event list \<Rightarrow> sse_stream \<Rightarrow> bool" where
  "streams_on js agent since es ds s \<longleftrightarrow> holds js agent es (ss_log s) \<and> list_all (streams js) es \<and> told js (ss_out s) ds \<and>
     map_of (lg_subs (ss_log s)) (ss_chan s) \<noteq> None \<and> set (queued s) \<subseteq> set es \<and> ascending (queued s) \<and>
     (if ss_live s
      then ds @ filter (\<lambda>e. ev_id e > ss_sent s) (queued s) = filter (\<lambda>e. ev_id e > since) es \<and>
        (ss_sent s = since \<or> since < ss_sent s \<and> ss_sent s \<le> int (length es))
      else ds = [] \<and> ss_sent s = since)"

lemma holds_ascending: "holds js agent es l \<Longrightarrow> ascending es"
  unfolding holds_def ids_from_one_def ascending_def
  by (metis (no_types, lifting) of_nat_less_iff sorted_wrt_map sorted_wrt_mono_rel sorted_wrt_upt)

lemma holds_bound: "holds js agent es l \<Longrightarrow> e \<in> set es \<Longrightarrow> ev_id e \<le> int (length es)"
proof -
  assume "holds js agent es l" "e \<in> set es"
  then have "ev_id e \<in> set (List.map int [1..<Suc (length es)])"
    by (metis holds_def ids_from_one_def image_eqI list.set_map)
  then show ?thesis by auto
qed

lemma open_streams_on:
  assumes "holds js agent es l" "list_all (streams js) es"
  shows "streams_on js agent since es [] (open_stream c since l)"
  using assms whole_head
  by (simp add: streams_on_def open_stream_def told_def queued_def holds_def log_subscribe_def subscribe_def ascending_def update_conv')

lemma map_of_offer:
  "map_of (offer cap x subs) c = map_option (\<lambda>q. if length q < cap then q @ [x] else q) (map_of subs c)"
  by (induction subs) (auto simp: offer_def)

lemma append_streams_on:
  assumes f: "streams_on js agent since es ds s" and room: "length (queued s) < log_queue"
    and e1: "e1 = e\<lparr>ev_id := 1 + int (length es), ev_agent := agent, ev_ts := now\<rparr>" "streams js e1"
    and step: "sse_do js (SseAppend now e) s = Some t"
  shows "streams_on js agent since (es @ [e1]) ds t"
proof -
  let ?l = "snd (append_event js WrittenAll now e (ss_log s))"
  have h: "holds js agent es (ss_log s)" and t: "t = s\<lparr>ss_log := ?l\<rparr>" using f step by (auto simp: streams_on_def)
  have hl: "holds js agent (es @ [e1]) ?l"
    using holds_append [OF h] e1 by (simp add: streams_def)
  have "lg_subs ?l = offer log_queue e1 (lg_subs (ss_log s))"
    using h e1(1) by (simp add: append_event_def Let_def holds_def)
  then have q: "map_of (lg_subs ?l) (ss_chan s) \<noteq> None" "queued t = queued s @ [e1]"
    using f room by (auto simp: streams_on_def queued_def t map_of_offer)
  have above: "\<forall>x\<in>set es. ev_id x < ev_id e1" using holds_bound [OF h] e1(1) by fastforce
  have a: "ascending (queued t)" "set (queued t) \<subseteq> set (es @ [e1])"
    using f q(2) above by (auto simp: streams_on_def ascending_def sorted_wrt_append)
  have eq: "ds @ filter (\<lambda>e. ev_id e > ss_sent s) (queued t) = filter (\<lambda>e. ev_id e > since) (es @ [e1]) \<and>
      (ss_sent s = since \<or> since < ss_sent s \<and> ss_sent s \<le> int (length (es @ [e1])))" if "ss_live s"
    using f that e1(1) unfolding streams_on_def q(2) by auto
  have "told js (ss_out s) ds" "list_all (streams js) (es @ [e1])" "\<not> ss_live s \<Longrightarrow> ds = [] \<and> ss_sent s = since"
    using f e1(2) by (auto simp: streams_on_def)
  then show ?thesis using hl q(1) a eq unfolding streams_on_def by (simp add: t)
qed

lemma ascending_last: "ascending es \<Longrightarrow> e \<in> set es \<Longrightarrow> ev_id e \<le> ev_id (List.last es)"
  by (induction es rule: rev_induct) (auto simp: ascending_def sorted_wrt_append less_imp_le)

lemma replay_streams_on:
  assumes f: "streams_on js agent since es ds s" and step: "sse_do js SseReplay s = Some t"
  shows "streams_on js agent since es (filter (\<lambda>e. ev_id e > since) es) t"
proof -
  let ?new = "filter (\<lambda>e. ev_id e > since) es"
  have h: "holds js agent es (ss_log s)" and live: "\<not> ss_live s" "ds = []" "ss_sent s = since"
    using f step by (auto simp: streams_on_def split: if_splits)
  have "log_since js since (ss_log s) = Some ?new"
    using holds_read [OF h] h by (simp add: log_since_def ids_after holds_def)
  then obtain m o1 where mo: "fold (emit_sse js) ?new (since, ss_out s) = (m, o1)" "t = s\<lparr>ss_sent := m, ss_out := o1, ss_live := True\<rparr>"
    using step live by (cases "fold (emit_sse js) ?new (since, ss_out s)") (auto simp: put_sse_def)
  have asc: "ascending ?new" using holds_ascending [OF h] by (simp add: ascending_def sorted_wrt_filter)
  have "list_all (streams js) ?new" "told js (ss_out s) ds" using f by (simp_all add: streams_on_def list_all_iff)
  from replay_told [OF asc this _ mo(1)] live(2)
  have r: "told js o1 ?new" "m = (if ?new = [] then since else ev_id (List.last ?new))" by simp_all
  have m: "\<forall>e\<in>set es. \<not> m < ev_id e" "m = since \<or> since < m \<and> m \<le> int (length es)"
  proof -
    show "\<forall>e\<in>set es. \<not> m < ev_id e"
    proof (cases "?new = []")
      case True
      then show ?thesis using r(2) by (auto simp: filter_empty_conv)
    next
      case False
      have "since < m" using last_in_set [OF False] r(2) False by auto
      moreover have "ev_id e \<le> m" if "e \<in> set ?new" for e using ascending_last [OF asc that] r(2) False by simp
      ultimately show ?thesis by fastforce
    qed
    have "List.last ?new \<in> set ?new" if "?new \<noteq> []" using that by (rule last_in_set)
    then show "m = since \<or> since < m \<and> m \<le> int (length es)" using r(2) holds_bound [OF h] by auto
  qed
  then have "filter (\<lambda>e. ev_id e > m) (queued s) = []" using f by (auto simp: streams_on_def filter_empty_conv)
  moreover have "queued t = queued s" by (simp add: mo(2) queued_def)
  ultimately show ?thesis using f r m mo(2) by (auto simp: streams_on_def)
qed

lemma take_streams_on:
  assumes f: "streams_on js agent since es ds s" and step: "sse_do js SseTake s = Some t"
  shows "\<exists>ds'. streams_on js agent since es ds' t"
proof -
  from step obtain e q where q: "queued s = e # q" and live: "ss_live s" by (auto split: list.splits if_splits)
  obtain m o1 where mo: "emit_sse js e (ss_sent s, ss_out s) = (m, o1)" by fastforce
  let ?l = "(ss_log s)\<lparr>lg_subs := AList.update (ss_chan s) q (lg_subs (ss_log s))\<rparr>"
  have t: "t = s\<lparr>ss_log := ?l, ss_sent := m, ss_out := o1\<rparr>" using step q live mo by (simp add: put_sse_def)
  have qt: "queued t = q" "holds js agent es ?l" using f by (auto simp: t queued_def update_conv' streams_on_def holds_def)
  have e: "e \<in> set es" "streams js e" using f q by (auto simp: streams_on_def list_all_iff)
  let ?ds = "ds @ (if ev_id e > ss_sent s then [e] else [])"
  have told: "told js o1 ?ds" "m = max (ss_sent s) (ev_id e)" using emit_told [OF _ e(2) mo] f by (auto simp: streams_on_def)
  have asc: "\<forall>x\<in>set q. ev_id e < ev_id x" "ascending q" using f q by (auto simp: streams_on_def ascending_def)
  have le: "ev_id e \<le> int (length es)" using holds_bound [OF _ e(1)] f by (auto simp: streams_on_def)
  have old: "ds @ filter (\<lambda>x. ev_id x > ss_sent s) (e # q) = filter (\<lambda>x. ev_id x > since) es"
    "ss_sent s = since \<or> since < ss_sent s \<and> ss_sent s \<le> int (length es)"
    using f live q by (auto simp: streams_on_def)
  have "filter (\<lambda>x. ev_id x > m) q = filter (\<lambda>x. ev_id x > ss_sent s) q"
    using asc(1) told(2) by (intro filter_cong) auto
  with old(1) told(2) have "?ds @ filter (\<lambda>x. ev_id x > m) q = filter (\<lambda>x. ev_id x > since) es"
    by (cases "ev_id e > ss_sent s") simp_all
  moreover have "m = since \<or> since < m \<and> m \<le> int (length es)" using old(2) told(2) le by (auto simp: max_def)
  moreover have "map_of (lg_subs ?l) (ss_chan s) \<noteq> None" "set q \<subseteq> set es" "list_all (streams js) es"
    using f q by (auto simp: streams_on_def update_conv')
  ultimately have "streams_on js agent since es ?ds t"
    using qt told(1) asc(2) live unfolding streams_on_def qt(1) by (simp add: t)
  then show ?thesis by blast
qed

lemma beat_streams_on:
  assumes "streams_on js agent since es ds s" "sse_do js SseBeat s = Some t"
  shows "streams_on js agent since es ds t"
  using assms told_beat [of js "ss_out s" ds] by (auto simp: streams_on_def queued_def split: if_splits)

lemma run_streams_on:
  assumes "streams_on js agent since es ds s" "run_sse js xs s = Some t" "keeps_up js xs s"
    and "list_all (streams js) (stamped agent (1 + int (length es)) (logged xs))"
  shows "\<exists>ds'. streams_on js agent since (es @ stamped agent (1 + int (length es)) (logged xs)) ds' t"
  using assms
proof (induction xs arbitrary: es ds s)
  case (Cons x xs)
  from Cons.prems(2) obtain u where u: "sse_do js x s = Some u" "run_sse js xs u = Some t" by (auto split: option.splits)
  have k: "keeps_up js xs u" using Cons.prems(3) u(1) by simp
  show ?case
  proof (cases x)
    case (SseAppend now e)
    let ?e = "e\<lparr>ev_id := 1 + int (length es), ev_agent := agent, ev_ts := now\<rparr>"
    have "streams_on js agent since (es @ [?e]) ds u"
      using Cons.prems SseAppend u(1) by (intro append_streams_on [OF Cons.prems(1) _ refl]) auto
    from Cons.IH [OF this u(2) k] Cons.prems(4) SseAppend show ?thesis by (simp add: add.commute add.left_commute)
  next
    case SseReplay
    with Cons.IH [OF replay_streams_on [OF Cons.prems(1)] u(2) k] u(1) Cons.prems(4) show ?thesis by simp
  next
    case SseTake
    with take_streams_on [OF Cons.prems(1)] u(1) obtain ds' where "streams_on js agent since es ds' u" by blast
    from Cons.IH [OF this u(2) k] Cons.prems(4) SseTake show ?thesis by simp
  next
    case SseBeat
    with Cons.IH [OF beat_streams_on [OF Cons.prems(1)] u(2) k] u(1) Cons.prems(4) show ?thesis by simp
  qed
qed auto

text \<open>
  C24. No gap and nothing twice. However the agent's logging, the replay, the live feed and the beats of a stream fall among each other, as
  long as the reader keeps up with its channel, what the host decodes from the bytes, and what still waits in the channel and is newer,
  are together every event after the one it resumed from, in order, each once; and once the channel is empty the host has them all.
\<close>

theorem stream_has_no_gap:
  assumes "holds js agent es l" "run_sse js xs (open_stream c since l) = Some s" "ss_live s" "keeps_up js xs (open_stream c since l)"
    and "list_all (streams js) (es @ stamped agent (1 + int (length es)) (logged xs))"
  shows "client_events js (ss_out s) @ filter (\<lambda>e. ev_id e > ss_sent s) (queued s) =
    filter (\<lambda>e. ev_id e > since) (es @ stamped agent (1 + int (length es)) (logged xs))"
proof -
  have "streams_on js agent since es [] (open_stream c since l)" using assms(1,5) by (intro open_streams_on) auto
  from run_streams_on [OF this assms(2,4)] assms(5) obtain ds
    where f: "streams_on js agent since (es @ stamped agent (1 + int (length es)) (logged xs)) ds s" by auto
  then have "client_events js (ss_out s) = ds" by (auto simp: streams_on_def told_client)
  with f assms(3) show ?thesis by (simp add: streams_on_def)
qed

definition toy_run :: "sse_stream option" where
  "toy_run = run_sse toy_json [SseAppend 0 (blank_event ''text''), SseReplay, SseAppend 0 (blank_event ''text''), SseBeat, SseTake, SseTake]
     (open_stream 5 0 (the (open_log toy_json ''a'' NoLog)))"

theorem stream_has_no_gap_witness:
  "client_events toy_json (ss_out (the toy_run)) = [toy_event 1, toy_event 2]"
proof -
  let ?xs = "[SseAppend 0 (blank_event ''text''), SseReplay, SseAppend 0 (blank_event ''text''), SseBeat, SseTake, SseTake]"
  let ?l = "the (open_log toy_json ''a'' NoLog)"
  have h: "holds toy_json ''a'' [] ?l" by (simp add: holds_def open_log_def read_all_def ids_from_one_def log_bytes_def)
  have r: "run_sse toy_json ?xs (open_stream 5 0 ?l) = Some (the toy_run)" "ss_live (the toy_run)" "queued (the toy_run) = []"
    "keeps_up toy_json ?xs (open_stream 5 0 ?l)" unfolding toy_run_def by code_simp+
  have st: "[] @ stamped ''a'' (1 + int (length ([] :: event list))) (logged ?xs) = [toy_event 1, toy_event 2]"
    by (simp add: toy_event_def blank_event_def)
  have s: "list_all (streams toy_json) ([] @ stamped ''a'' (1 + int (length ([] :: event list))) (logged ?xs))"
    unfolding st by code_simp
  show ?thesis using stream_has_no_gap [OF h r(1,2,4) s] unfolding st r(3) by (simp add: toy_event_def)
qed

end
