(* ===== verification/VmProps.thy ===== *)
theory VmProps
  imports VmLifecycle
begin

text \<open>
  What the control plane of package \<^verbatim>\<open>internal/vm\<close> guarantees. Every lifecycle operation is a
  sequence of registry operations (the refinement), so the registry's invariant and the legality of
  state changes hold in every host reachable by any interleaving of them; on top of that, isolation
  of live VMs, safety of a live VM's disk, honesty of a purge and rollback of a failed creation.
\<close>

section \<open>Registry steps\<close>

inductive reg_step :: "registry \<Rightarrow> registry \<Rightarrow> bool" where
  rs_allocate: "valid_id vid \<Longrightarrow> reg_step r (snd (allocate now vid r))"
| rs_state: "v < r_fresh r \<Longrightarrow> reg_step r (snd (set_state v to r))"
| rs_release: "v < r_fresh r \<Longrightarrow> reg_step r (release_locked v r)"
| rs_edit: "keeps_identity f \<Longrightarrow> (\<And>m. vm_st (f m) = vm_st m) \<Longrightarrow> reg_step r (upd_vm v f r)"

abbreviation reg_steps :: "registry \<Rightarrow> registry \<Rightarrow> bool" where
  "reg_steps \<equiv> reg_step\<^sup>*\<^sup>*"

lemma reg_step_inv [inv_intros]: "reg_step r r' \<Longrightarrow> reg_inv r \<Longrightarrow> reg_inv r'"
  by (induction rule: reg_step.induct) (auto intro: inv_intros)

lemma reg_steps_inv [inv_intros]: "reg_steps r r' \<Longrightarrow> reg_inv r \<Longrightarrow> reg_inv r'"
  by (induction rule: rtranclp_induct) (auto intro: inv_intros)

lemma allocate_fresh: "r_fresh r \<le> r_fresh (snd (allocate now vid r))"
  by (auto simp: allocate_def Let_def split: option.splits)

lemma reg_step_fresh: "reg_step r r' \<Longrightarrow> r_fresh r \<le> r_fresh r'"
  by (induction rule: reg_step.induct) (auto simp: allocate_fresh)

lemma reg_steps_fresh: "reg_steps r r' \<Longrightarrow> r_fresh r \<le> r_fresh r'"
  by (induction rule: rtranclp_induct) (auto dest: reg_step_fresh)

text \<open>Identity is never rewritten: id, slot and derived fields of an allocated VM are constant.\<close>

definition same_identity :: "vm \<Rightarrow> vm \<Rightarrow> bool" where
  "same_identity m m' \<longleftrightarrow> vm_id m' = vm_id m \<and> vm_slot m' = vm_slot m \<and> vm_tap m' = vm_tap m \<and>
     host_ip m' = host_ip m \<and> guest_ip m' = guest_ip m \<and> vm_mac m' = vm_mac m"

lemma allocate_heap: "v < r_fresh r \<Longrightarrow> r_heap (snd (allocate now vid r)) v = r_heap r v"
  by (auto simp: allocate_def Let_def split: option.splits)

lemma reg_step_identity:
  "reg_step r r' \<Longrightarrow> v < r_fresh r \<Longrightarrow> same_identity (r_heap r v) (r_heap r' v)"
  by (induction rule: reg_step.induct)
     (auto simp: same_identity_def allocate_heap set_state_def Let_def keeps_identity_def)

lemma reg_steps_identity:
  "reg_steps r r' \<Longrightarrow> v < r_fresh r \<Longrightarrow> same_identity (r_heap r v) (r_heap r' v)"
proof (induction rule: rtranclp_induct)
  case (step r1 r2)
  from reg_step_identity [OF step.hyps(2), of v] reg_steps_fresh [OF step.hyps(1)] step
  show ?case by (auto simp: same_identity_def)
qed (simp add: same_identity_def)

lemma set_state_legal:
  "vm_st (r_heap (snd (set_state v to r)) w) = vm_st (r_heap r w) \<or>
   can_transition (vm_st (r_heap r w)) (vm_st (r_heap (snd (set_state v to r)) w))"
  by (auto simp: set_state_def Let_def)

lemma reg_step_legal:
  "reg_step r r' \<Longrightarrow> v < r_fresh r \<Longrightarrow>
   vm_st (r_heap r' v) = vm_st (r_heap r v) \<or> can_transition (vm_st (r_heap r v)) (vm_st (r_heap r' v))"
proof (induction rule: reg_step.induct)
  case (rs_state w r to)
  show ?case by (rule set_state_legal)
qed (auto simp: allocate_heap)

lemma reg_steps_legal:
  "reg_steps r r' \<Longrightarrow> v < r_fresh r \<Longrightarrow> can_transition\<^sup>*\<^sup>* (vm_st (r_heap r v)) (vm_st (r_heap r' v))"
proof (induction rule: rtranclp_induct)
  case (step r1 r2)
  from step.hyps(1) step.prems have "v < r_fresh r1" by (auto dest: reg_steps_fresh)
  from reg_step_legal [OF step.hyps(2) this] step.IH [OF step.prems] show ?case
    by (auto intro: rtranclp.rtrancl_into_rtrancl)
qed simp

lemma stopping_final: "can_transition\<^sup>*\<^sup>* Stopping s \<Longrightarrow> s = Stopping"
  by (induction rule: rtranclp_induct) (auto simp: can_transition_def)

lemma valid_ids_step:
  "reg_step r r' \<Longrightarrow> \<forall>i. r_byid r i \<noteq> None \<longrightarrow> valid_id i \<Longrightarrow> \<forall>i. r_byid r' i \<noteq> None \<longrightarrow> valid_id i"
  by (induction rule: reg_step.induct)
     (auto simp: allocate_def release_locked_def Let_def split: option.splits if_splits)

section \<open>Host steps\<close>

text \<open>
  One atomic phase of any operation in progress, on any VM that was ever allocated: the phases of
  \<^verbatim>\<open>boot\<close>, a state change, the ladder, the reaping and the locked part of \<^verbatim>\<open>cleanup\<close>, an exit of
  the process, a purge of a stopped VM. A run interleaves them freely.
\<close>

definition allocated :: "'n host \<Rightarrow> vptr \<Rightarrow> bool" where
  "allocated h v \<longleftrightarrow> v < r_fresh (h_reg h)"

inductive host_step :: "'n ip_command \<Rightarrow> 'n host \<Rightarrow> 'n host \<Rightarrow> bool" for ip where
  hs_allocate: "valid_id vid \<Longrightarrow> host_step ip h (snd (h_allocate now vid h))"
| hs_run_dir: "allocated h v \<Longrightarrow> host_step ip h (add_path (l_run_dir (h_base h) (vm_id (the_vm h v))) h)"
| hs_prepare: "allocated h v \<Longrightarrow> host_step ip h (snd (prepare_workspace e v h))"
| hs_tap: "allocated h v \<Longrightarrow> host_step ip h (snd (h_create_tap ip v h))"
| hs_config: "allocated h v \<Longrightarrow> host_step ip h (snd (write_config_json e v h))"
| hs_spawn: "allocated h v \<Longrightarrow> host_step ip h (snd (spawn e v h))"
| hs_state: "allocated h v \<Longrightarrow> host_step ip h (snd (h_set_state v to h))"
| hs_begin_stop: "allocated h v \<Longrightarrow> host_step ip h (snd (begin_stop v h))"
| hs_shutdown: "allocated h v \<Longrightarrow> host_step ip h (shutdown s v prev h)"
| hs_reap: "allocated h v \<Longrightarrow> host_step ip h (reap s v h)"
| hs_cleanup: "allocated h v \<Longrightarrow> host_step ip h (snd (cleanup_locked ip v purge h))"
| hs_exit: "allocated h v \<Longrightarrow> host_step ip h (mark_done v h)"
| hs_purge: "host_step ip h (snd (purge_workspace vid h))"

abbreviation host_steps :: "'n ip_command \<Rightarrow> 'n host \<Rightarrow> 'n host \<Rightarrow> bool" where
  "host_steps ip \<equiv> (host_step ip)\<^sup>*\<^sup>*"

text \<open>What each building block does to the registry and to the paths.\<close>

lemma add_path_simps [frame_simps, simp]:
  "h_reg (add_path p h) = h_reg h" "h_base (add_path p h) = h_base h"
  "h_files (add_path p h) = insert p (h_files h)" "h_stuck (add_path p h) = h_stuck h"
  "h_net (add_path p h) = h_net h" "h_acts (add_path p h) = h_acts h"
  by (simp_all add: add_path_def)

lemma os_remove_simps [frame_simps, simp]:
  "h_reg (snd (os_remove p h)) = h_reg h" "h_base (snd (os_remove p h)) = h_base h"
  "h_stuck (snd (os_remove p h)) = h_stuck h" "h_net (snd (os_remove p h)) = h_net h"
  "h_acts (snd (os_remove p h)) = h_acts h"
  by (simp_all add: os_remove_def)

lemma os_remove_files:
  "h_files (snd (os_remove p h)) = (if p \<in> h_stuck h then h_files h else h_files h - {p})"
  by (auto simp: os_remove_def)

lemma os_remove_all_simps [frame_simps, simp]:
  "h_reg (os_remove_all p h) = h_reg h" "h_base (os_remove_all p h) = h_base h"
  "h_stuck (os_remove_all p h) = h_stuck h" "h_net (os_remove_all p h) = h_net h"
  "h_acts (os_remove_all p h) = h_acts h"
  by (simp_all add: os_remove_all_def)

lemma on_reg_simps [frame_simps, simp]:
  "h_reg (on_reg f h) = f (h_reg h)" "h_base (on_reg f h) = h_base h"
  "h_files (on_reg f h) = h_files h" "h_stuck (on_reg f h) = h_stuck h"
  "h_net (on_reg f h) = h_net h" "h_acts (on_reg f h) = h_acts h"
  by (simp_all add: on_reg_def)

lemma act_simps [frame_simps, simp]:
  "h_reg (act a h) = h_reg h" "h_base (act a h) = h_base h" "h_files (act a h) = h_files h"
  "h_stuck (act a h) = h_stuck h" "h_net (act a h) = h_net h" "h_acts (act a h) = h_acts h @ [a]"
  by (simp_all add: act_def)

lemma h_set_state_simps [frame_simps, simp]:
  "h_reg (snd (h_set_state v to h)) = snd (set_state v to (h_reg h))"
  "h_base (snd (h_set_state v to h)) = h_base h" "h_files (snd (h_set_state v to h)) = h_files h"
  "h_stuck (snd (h_set_state v to h)) = h_stuck h" "h_acts (snd (h_set_state v to h)) = h_acts h"
  "fst (h_set_state v to h) = fst (set_state v to (h_reg h))"
  by (simp_all add: h_set_state_def split: prod.splits)

lemma h_allocate_simps [frame_simps, simp]:
  "h_reg (snd (h_allocate now i h)) = snd (allocate now i (h_reg h))"
  "h_base (snd (h_allocate now i h)) = h_base h" "h_files (snd (h_allocate now i h)) = h_files h"
  "h_stuck (snd (h_allocate now i h)) = h_stuck h" "h_acts (snd (h_allocate now i h)) = h_acts h"
  "fst (h_allocate now i h) = fst (allocate now i (h_reg h))"
  by (simp_all add: h_allocate_def split: prod.splits)

lemma h_create_tap_simps [frame_simps, simp]:
  "h_reg (snd (h_create_tap ip v h)) = h_reg h" "h_base (snd (h_create_tap ip v h)) = h_base h"
  "h_files (snd (h_create_tap ip v h)) = h_files h" "h_stuck (snd (h_create_tap ip v h)) = h_stuck h"
  "h_acts (snd (h_create_tap ip v h)) = h_acts h"
  by (simp_all add: h_create_tap_def split: prod.splits)

lemma mark_done_simps [frame_simps, simp]:
  "h_reg (mark_done v h) = upd_vm v (\<lambda>m. m\<lparr>vm_done := True\<rparr>) (h_reg h)"
  "h_base (mark_done v h) = h_base h" "h_files (mark_done v h) = h_files h"
  "h_stuck (mark_done v h) = h_stuck h" "h_net (mark_done v h) = h_net h"
  "h_acts (mark_done v h) = h_acts h"
  by (simp_all add: mark_done_def)

lemma wait_exit_frame [frame_simps, simp]:
  "h_base (snd (wait_exit x v h)) = h_base h" "h_files (snd (wait_exit x v h)) = h_files h"
  "h_stuck (snd (wait_exit x v h)) = h_stuck h" "h_net (snd (wait_exit x v h)) = h_net h"
  "h_acts (snd (wait_exit x v h)) = h_acts h"
  by (simp_all add: wait_exit_def)

lemma reg_edit_done: "reg_step r (upd_vm v (\<lambda>m. m\<lparr>vm_done := True\<rparr>) r)"
  by (rule rs_edit) (simp_all add: keeps_identity_def)

lemma wait_exit_reg: "reg_steps (h_reg h) (h_reg (snd (wait_exit x v h)))"
  by (auto simp: wait_exit_def intro: reg_edit_done)

lemma escalate_reg: "reg_steps (h_reg h) (h_reg (escalate s v h))"
proof -
  obtain b h1 where w: "wait_exit (s_exits_term s) v (act (SigTerm v) h) = (b, h1)" by force
  have 1: "reg_steps (h_reg h) (h_reg h1)"
    using wait_exit_reg [of "act (SigTerm v) h" "s_exits_term s" v] w by simp
  show ?thesis
  proof (cases b)
    case True
    with 1 w show ?thesis by (simp add: escalate_def)
  next
    case False
    have "reg_steps (h_reg h1)
        (h_reg (snd (wait_exit (s_exits_kill s) v (act (SigKill (- vm_pid (the_vm h1 v))) h1))))"
      using wait_exit_reg [of "act (SigKill (- vm_pid (the_vm h1 v))) h1"] by simp
    with 1 False w show ?thesis by (simp add: escalate_def)
  qed
qed

lemma escalate_frame [frame_simps, simp]:
  "h_base (escalate s v h) = h_base h" "h_files (escalate s v h) = h_files h"
  "h_stuck (escalate s v h) = h_stuck h" "h_net (escalate s v h) = h_net h"
proof -
  obtain b h1 where w: "wait_exit (s_exits_term s) v (act (SigTerm v) h) = (b, h1)" by force
  have 1: "h_base h1 = h_base h" "h_files h1 = h_files h" "h_stuck h1 = h_stuck h" "h_net h1 = h_net h"
    using wait_exit_frame [of "s_exits_term s" v "act (SigTerm v) h"] w by simp_all
  show "h_base (escalate s v h) = h_base h" "h_files (escalate s v h) = h_files h"
    "h_stuck (escalate s v h) = h_stuck h" "h_net (escalate s v h) = h_net h"
    using w 1 by (simp_all add: escalate_def split: bool.splits)
qed

lemma shutdown_cases:
  "shutdown s v prev h = h \<or>
   (\<exists>h1 b h2. h_reg h1 = h_reg h \<and> h_base h1 = h_base h \<and> h_files h1 = h_files h \<and>
      h_stuck h1 = h_stuck h \<and> h_net h1 = h_net h \<and>
      wait_exit (s_exits_graceful s) v h1 = (b, h2) \<and>
      shutdown s v prev h = (if b then h2 else escalate s v h2))"
proof (cases "vm_cmd (the_vm h v)")
  case False
  then show ?thesis by (simp add: shutdown_def)
next
  case True
  let ?h1 = "act (ActCtrlAltDel v)
    (if prev = Paused \<or> s_described_paused s then act (ActResume v) h else h)"
  obtain b h2 where w: "wait_exit (s_exits_graceful s) v ?h1 = (b, h2)" by force
  have "shutdown s v prev h = (if b then h2 else escalate s v h2)"
    using True w by (simp add: shutdown_def Let_def split: bool.splits)
  with w show ?thesis by (intro disjI2 exI [of _ ?h1] exI [of _ b] exI [of _ h2]) simp
qed

lemma shutdown_frame [frame_simps, simp]:
  "h_base (shutdown s v prev h) = h_base h" "h_files (shutdown s v prev h) = h_files h"
  "h_stuck (shutdown s v prev h) = h_stuck h" "h_net (shutdown s v prev h) = h_net h"
  using shutdown_cases [of s v prev h] wait_exit_frame [of "s_exits_graceful s" v]
  by (metis escalate_frame snd_conv)+

lemma shutdown_reg: "reg_steps (h_reg h) (h_reg (shutdown s v prev h))"
proof -
  from shutdown_cases [of s v prev h] show ?thesis
  proof (elim disjE exE conjE)
    fix h1 b h2
    assume a: "h_reg h1 = h_reg h" "wait_exit (s_exits_graceful s) v h1 = (b, h2)"
      "shutdown s v prev h = (if b then h2 else escalate s v h2)"
    from wait_exit_reg [of h1 "s_exits_graceful s" v] a(1,2) have 1: "reg_steps (h_reg h) (h_reg h2)"
      by simp
    from rtranclp_trans [OF 1 escalate_reg] 1 a(3) show ?thesis by simp
  qed simp
qed

lemma reap_frame [frame_simps, simp]:
  "h_base (reap s v h) = h_base h" "h_files (reap s v h) = h_files h"
  "h_stuck (reap s v h) = h_stuck h" "h_net (reap s v h) = h_net h"
  by (simp_all add: reap_def Let_def)

lemma reap_reg: "reg_steps (h_reg h) (h_reg (reap s v h))"
  using wait_exit_reg [of "act (SigKill (- vm_pid (the_vm h v))) h"]
  by (simp add: reap_def Let_def)

lemma prepare_reg: "reg_steps (h_reg h) (h_reg (snd (prepare_workspace e v h)))"
proof -
  have "reg_step r (upd_vm v (\<lambda>m. m\<lparr>ws_new := True\<rparr>) r)" for r
    by (rule rs_edit) (simp_all add: keeps_identity_def)
  then show ?thesis by (auto simp: prepare_workspace_def Let_def)
qed

lemma write_state_frame [frame_simps, simp]:
  "h_reg (write_state_file e v h) = h_reg h" "h_base (write_state_file e v h) = h_base h"
  "h_stuck (write_state_file e v h) = h_stuck h"
  by (simp_all add: write_state_file_def)

lemma spawn_reg: "reg_steps (h_reg h) (h_reg (snd (spawn e v h)))"
proof -
  have "reg_step r (upd_vm v (\<lambda>m. m\<lparr>vm_cmd := True, vm_pid := pid, vm_console := True\<rparr>) r)" for pid r
    by (rule rs_edit) (simp_all add: keeps_identity_def)
  then show ?thesis by (auto simp: spawn_def Let_def split: option.splits)
qed

lemma write_config_frame [frame_simps, simp]:
  "h_reg (snd (write_config_json e v h)) = h_reg h" "h_base (snd (write_config_json e v h)) = h_base h"
  "h_stuck (snd (write_config_json e v h)) = h_stuck h"
  by (simp_all add: write_config_json_def Let_def)

lemma begin_stop_reg:
  assumes "allocated h v"
  shows "reg_steps (h_reg h) (h_reg (snd (begin_stop v h)))"
proof -
  have 1: "reg_step (h_reg h) (snd (set_state v Stopping (h_reg h)))"
    using assms by (auto simp: allocated_def intro: rs_state)
  have 2: "reg_step r (upd_vm v (\<lambda>m. m\<lparr>vm_stopping := True\<rparr>) r)" for r
    by (rule rs_edit) (simp_all add: keeps_identity_def)
  obtain o1 h1 where h: "h_set_state v Stopping h = (o1, h1)" by force
  with h_set_state_simps(1) [of v Stopping h] have "h_reg h1 = snd (set_state v Stopping (h_reg h))"
    by simp
  with 1 2 [of "h_reg h1"] h show ?thesis
    by (cases o1) (auto simp: begin_stop_def Let_def)
qed

lemma cleanup_locked_reg [frame_simps, simp]:
  "h_reg (snd (cleanup_locked ip v purge h)) = release_locked v (h_reg h)"
  "h_base (snd (cleanup_locked ip v purge h)) = h_base h"
  by (simp_all add: cleanup_locked_def Let_def)

lemma purge_frame [frame_simps, simp]:
  "h_reg (snd (purge_workspace i h)) = h_reg h" "h_base (snd (purge_workspace i h)) = h_base h"
  by (auto simp: purge_workspace_def os_remove_def)

text \<open>
  The refinement: an atomic phase of the lifecycle acts on the registry as a sequence of registry
  operations.
\<close>

lemma host_step_reg: "host_step ip h h' \<Longrightarrow> reg_steps (h_reg h) (h_reg h')"
proof (induction rule: host_step.induct)
  case (hs_begin_stop h v)
  then show ?case by (rule begin_stop_reg)
next
  case (hs_cleanup h v purge)
  then show ?case by (auto simp: allocated_def intro: rs_release)
next
  case (hs_state h v to)
  then show ?case by (auto simp: allocated_def intro: rs_state)
next
  case (hs_allocate vid h now)
  then show ?case by (auto intro: rs_allocate)
qed (auto intro: prepare_reg spawn_reg shutdown_reg reap_reg reg_edit_done)

lemma host_steps_reg: "host_steps ip h h' \<Longrightarrow> reg_steps (h_reg h) (h_reg h')"
  by (induction rule: rtranclp_induct) (auto dest: host_step_reg)

definition empty_host :: "string \<Rightarrow> string \<Rightarrow> string set \<Rightarrow> string set \<Rightarrow> 'n \<Rightarrow> 'n host" where
  "empty_host base user files stuck net =
     \<lparr>h_base = base, h_user = user, h_reg = new_registry, h_files = files, h_stuck = stuck,
      h_net = net, h_acts = [], h_config = Map.empty\<rparr>"

definition reachable_host :: "'n ip_command \<Rightarrow> 'n host \<Rightarrow> bool" where
  "reachable_host ip h \<longleftrightarrow>
     (\<exists>base user files stuck net. host_steps ip (empty_host base user files stuck net) h)"

lemma reachable_reg:
  assumes "reachable_host ip h"
  shows "reg_inv (h_reg h)" and "\<And>i. r_byid (h_reg h) i \<noteq> None \<Longrightarrow> valid_id i"
proof -
  from assms obtain base user files stuck net
    where "host_steps ip (empty_host base user files stuck net) h"
    by (auto simp: reachable_host_def)
  then have steps: "reg_steps new_registry (h_reg h)"
    by (auto dest!: host_steps_reg simp: empty_host_def)
  show "reg_inv (h_reg h)" by (rule reg_steps_inv [OF steps reg_inv_new])
  have "\<forall>i. r_byid (h_reg h) i \<noteq> None \<longrightarrow> valid_id i"
    using steps
    by (induction rule: rtranclp_induct) (auto simp: new_registry_def dest: valid_ids_step)
  then show "\<And>i. r_byid (h_reg h) i \<noteq> None \<Longrightarrow> valid_id i" by blast
qed

text \<open>
  A small concrete host for the instances below: the network is a set of device names, and the
  \<^verbatim>\<open>ip\<close> program adds and deletes them as its manual says.
\<close>

definition demo_ip :: "string set ip_command" where
  "demo_ip args n =
     (if take 3 args = [''ip'', ''link'', ''del''] then
        (if last args \<in> n then (None, [], n - {last args})
         else (Some ''exit status 1'', ''Cannot find device'', n))
      else if take 3 args = [''ip'', ''tuntap'', ''add''] then (None, [], insert (args ! 3) n)
      else (None, [], n))"

definition demo_empty :: "string set host" where
  "demo_empty = empty_host ''/srv'' ''fc'' {} {} {}"

definition demo_two :: "string set host" where
  "demo_two = snd (h_allocate 0 ''b'' (snd (h_allocate 0 ''a'' demo_empty)))"

lemma reachable_step: "reachable_host ip h \<Longrightarrow> host_step ip h h' \<Longrightarrow> reachable_host ip h'"
  unfolding reachable_host_def by (blast intro: rtranclp.rtrancl_into_rtrancl)

lemma demo_empty_reachable: "reachable_host demo_ip demo_empty"
  unfolding reachable_host_def demo_empty_def by blast

lemma demo_ids: "valid_id ''a''" "valid_id ''b''"
  by (simp_all add: valid_id_def id_start_def)

lemma demo_two_reachable: "reachable_host demo_ip demo_two"
  unfolding demo_two_def
  by (intro reachable_step [OF _ hs_allocate] demo_empty_reachable demo_ids)

lemma demo_two_reg:
  "h_reg demo_two = \<lparr>r_slots = [Some 0, Some 1, None, None, None],
     r_byid = [''a'' \<mapsto> 0, ''b'' \<mapsto> 1],
     r_heap = (\<lambda>_. new_vm 0 [] 0)(0 := new_vm 0 ''a'' 0, 1 := new_vm 0 ''b'' 1), r_fresh = 2\<rparr>"
  by (simp add: demo_two_def demo_empty_def empty_host_def allocate_def new_registry_def
      free_slot_def max_vms_def numeral_eq_Suc Let_def)

section \<open>Isolation and capacity\<close>

lemma slot_mac_inj:
  assumes "s < max_vms" "t < max_vms" and "snd (snd (slot_addrs s)) = snd (snd (slot_addrs t))"
  shows "s = t"
proof -
  have "distinct (map (\<lambda>s. snd (snd (slot_addrs s))) [0..<max_vms])" by code_simp
  then have "inj_on (\<lambda>s. snd (snd (slot_addrs s))) {0..<max_vms}" by (simp add: distinct_map)
  from inj_onD [OF this assms(3)] assms(1,2) show ?thesis by simp
qed

lemma derived_okD:
  assumes "derived_ok m"
  shows "vm_tap m = tap_name (vm_slot m)" and "guest_ip m = fst (snd (slot_addrs (vm_slot m)))"
    and "vm_mac m = snd (snd (slot_addrs (vm_slot m)))"
  using assms unfolding derived_ok_def by (metis fst_conv snd_conv)+

lemma l_workspace_inj [simp]: "l_workspace base i = l_workspace base j \<longleftrightarrow> i = j"
  by (simp add: l_workspace_def path_join_def)

lemma l_paths_distinct [simp]:
  "l_workspace base i \<noteq> l_rootfs base" "l_workspace base i \<noteq> l_sock base j"
  "l_workspace base i \<noteq> l_run_dir base j" "l_workspace base i \<noteq> l_config base j"
  "l_workspace base i \<noteq> l_console base j" "l_workspace base i \<noteq> l_state_file base j"
  "l_rootfs base \<noteq> l_workspace base i" "l_sock base j \<noteq> l_workspace base i"
  "l_run_dir base j \<noteq> l_workspace base i"
  "\<not> prefix (l_run_dir base j @ ''/'') (l_workspace base i)"
  by (simp_all add: l_workspace_def l_rootfs_def l_sock_def l_run_dir_def l_config_def l_console_def
      l_state_file_def path_join_def)

text \<open>
  C1. Isolation: in every host reachable by any interleaving of allocations, boots, deletes,
  rollbacks, exits and purges, two live VMs differ in slot, tap, guest address and MAC, and the
  guest configurations built for them share no writable drive.
\<close>

theorem live_vms_isolated:
  assumes "reachable_host ip h" and "i \<noteq> j"
    and "r_byid (h_reg h) i = Some v" and "r_byid (h_reg h) j = Some w"
  shows "vm_slot (the_vm h v) \<noteq> vm_slot (the_vm h w) \<and> vm_tap (the_vm h v) \<noteq> vm_tap (the_vm h w) \<and>
    guest_ip (the_vm h v) \<noteq> guest_ip (the_vm h w) \<and> vm_mac (the_vm h v) \<noteq> vm_mac (the_vm h w) \<and>
    (\<forall>d \<in> set (fc_drives (build_config (the_vm h v) base)).
     \<forall>d' \<in> set (fc_drives (build_config (the_vm h w) base)).
       path_on_host d = path_on_host d' \<longrightarrow> is_read_only d \<and> is_read_only d')"
proof -
  note inv = reachable_reg(1) [OF assms(1)]
  note v = reg_inv_byidD [OF inv assms(3)] and w = reg_inv_byidD [OF inv assms(4)]
  have sv: "vm_slot (the_vm h v) < max_vms" "derived_ok (the_vm h v)"
    and sw: "vm_slot (the_vm h w) < max_vms" "derived_ok (the_vm h w)"
    using reg_inv_heapD [OF inv] v w by (auto simp: the_vm_def)
  have slot: "vm_slot (the_vm h v) \<noteq> vm_slot (the_vm h w)"
    using v w assms(2) unfolding the_vm_def by (metis option.inject)
  moreover have "guest_ip (the_vm h v) \<noteq> guest_ip (the_vm h w)"
  proof
    assume "guest_ip (the_vm h v) = guest_ip (the_vm h w)"
    then have "fst (snd (slot_addrs (vm_slot (the_vm h v)))) = fst (snd (slot_addrs (vm_slot (the_vm h w))))"
      using derived_okD(2) [OF sv(2)] derived_okD(2) [OF sw(2)] by (simp only:)
    then show False
      using slot_addrs_guest_inj [of "vm_slot (the_vm h v)" "vm_slot (the_vm h w)"] slot sv(1) sw(1)
      by (simp only: max_vms_def) simp
  qed
  moreover have "vm_mac (the_vm h v) \<noteq> vm_mac (the_vm h w)"
    using slot_mac_inj [OF sv(1) sw(1)] slot derived_okD(3) [OF sv(2)] derived_okD(3) [OF sw(2)]
    by (metis (no_types))
  moreover have "vm_tap (the_vm h v) \<noteq> vm_tap (the_vm h w)"
    using slot derived_okD(1) [OF sv(2)] derived_okD(1) [OF sw(2)] by (simp only: tap_name_inj not_False_eq_True)
  moreover have "vm_id (the_vm h v) \<noteq> vm_id (the_vm h w)" using v w assms(2) by (simp add: the_vm_def)
  ultimately show ?thesis by (simp add: build_config_def)
qed

theorem live_vms_isolated_witness:
  "vm_slot (the_vm demo_two 0) \<noteq> vm_slot (the_vm demo_two 1) \<and>
   path_on_host (fc_drives (build_config (the_vm demo_two 0) ''/srv'') ! 1) \<noteq>
   path_on_host (fc_drives (build_config (the_vm demo_two 1) ''/srv'') ! 1)"
  using live_vms_isolated [OF demo_two_reachable, of "''a''" "''b''" 0 1 "''/srv''"]
  by (auto simp: demo_two_reg build_config_def)

text \<open>The live VMs are counted exactly: by slot and by id alike.\<close>

definition live_slots :: "registry \<Rightarrow> nat set" where
  "live_slots r = {s. s < max_vms \<and> r_slots r ! s \<noteq> None}"

definition slot_id :: "registry \<Rightarrow> nat \<Rightarrow> string" where
  "slot_id r s = vm_id (r_heap r (the (r_slots r ! s)))"

lemma live_slotD:
  assumes "reg_inv r" and "s \<in> live_slots r"
  shows "\<exists>v. r_slots r ! s = Some v \<and> vm_slot (r_heap r v) = s \<and> r_byid r (slot_id r s) = Some v"
proof -
  from assms(2) obtain v where s: "s < max_vms" and v: "r_slots r ! s = Some v"
    by (auto simp: live_slots_def)
  from reg_inv_slotD [OF assms(1) s v] v show ?thesis by (auto simp: slot_id_def)
qed

lemma slot_id_bij:
  assumes "reg_inv r"
  shows "bij_betw (slot_id r) (live_slots r) (dom (r_byid r))"
proof (rule bij_betw_imageI)
  show "inj_on (slot_id r) (live_slots r)"
  proof (rule inj_onI)
    fix s t assume s: "s \<in> live_slots r" and t: "t \<in> live_slots r" and eq: "slot_id r s = slot_id r t"
    from live_slotD [OF assms s] live_slotD [OF assms t] eq show "s = t" by (metis option.inject)
  qed
  show "slot_id r ` live_slots r = dom (r_byid r)"
  proof (intro set_eqI iffI)
    fix i assume "i \<in> slot_id r ` live_slots r"
    then show "i \<in> dom (r_byid r)" using live_slotD [OF assms] by blast
  next
    fix i assume "i \<in> dom (r_byid r)"
    then obtain v where v: "r_byid r i = Some v" by auto
    note d = reg_inv_byidD [OF assms v]
    from d reg_inv_heapD [OF assms, of v] have "vm_slot (r_heap r v) \<in> live_slots r"
      by (simp add: live_slots_def)
    moreover from d have "slot_id r (vm_slot (r_heap r v)) = i" by (simp add: slot_id_def)
    ultimately show "i \<in> slot_id r ` live_slots r" by blast
  qed
qed

lemma live_card:
  assumes "reg_inv r"
  shows "length (filter (\<lambda>s. s \<noteq> None) (r_slots r)) = card (dom (r_byid r))"
proof -
  have "length (filter (\<lambda>s. s \<noteq> None) (r_slots r)) = card (live_slots r)"
    using reg_inv_length [OF assms] by (simp only: length_filter_conv_card live_slots_def)
  with bij_betw_same_card [OF slot_id_bij [OF assms]] show ?thesis by simp
qed

lemma live_card_le:
  assumes "reg_inv r"
  shows "card (dom (r_byid r)) \<le> max_vms"
  using length_filter_le [of "\<lambda>s. s \<noteq> None" "r_slots r"] live_card [OF assms] reg_inv_length [OF assms]
  by simp

lemma free_slot_iff:
  assumes "reg_inv r"
  shows "free_slot r = None \<longleftrightarrow> card (dom (r_byid r)) = max_vms"
proof -
  have "free_slot r = None \<longleftrightarrow> (\<forall>s \<in> set (r_slots r). s \<noteq> None)"
    unfolding free_slot_def index_of_None by metis
  also have "\<dots> \<longleftrightarrow> length (filter (\<lambda>s. s \<noteq> None) (r_slots r)) = length (r_slots r)"
    using length_filter_less [of _ "r_slots r" "\<lambda>s. s \<noteq> None"] filter_True [of "r_slots r" "\<lambda>s. s \<noteq> None"]
    by (metis less_irrefl)
  finally show ?thesis using live_card [OF assms] reg_inv_length [OF assms] by simp
qed

text \<open>
  \<^verbatim>\<open>Allocate\<close> claims a slot exactly when the id is not in use and fewer than
  \<^verbatim>\<open>MaxVMs\<close> VMs live, it takes the lowest free slot, and \<^verbatim>\<open>Capacity\<close> counts the live VMs
  and never reports a negative remainder.
\<close>

theorem allocate_exact:
  assumes "reachable_host ip h"
  shows "((\<exists>v. fst (allocate now vid (h_reg h)) = Inr v) \<longleftrightarrow>
            r_byid (h_reg h) vid = None \<and> card (dom (r_byid (h_reg h))) < max_vms) \<and>
         (\<forall>v. fst (allocate now vid (h_reg h)) = Inr v \<longrightarrow>
            (\<forall>s < vm_slot (r_heap (snd (allocate now vid (h_reg h))) v). r_slots (h_reg h) ! s \<noteq> None)) \<and>
         slots_used (capacity (h_reg h)) = int (card (dom (r_byid (h_reg h)))) \<and>
         0 \<le> slots_free (capacity (h_reg h)) \<and> 0 \<le> mem_free (capacity (h_reg h))"
proof (intro conjI)
  note inv = reachable_reg(1) [OF assms]
  show "(\<exists>v. fst (allocate now vid (h_reg h)) = Inr v) \<longleftrightarrow>
      r_byid (h_reg h) vid = None \<and> card (dom (r_byid (h_reg h))) < max_vms"
    using free_slot_iff [OF inv] live_card_le [OF inv]
    by (auto simp: allocate_def Let_def split: option.splits)
  show "\<forall>v. fst (allocate now vid (h_reg h)) = Inr v \<longrightarrow>
      (\<forall>s < vm_slot (r_heap (snd (allocate now vid (h_reg h))) v). r_slots (h_reg h) ! s \<noteq> None)"
    by (auto simp: allocate_def Let_def free_slot_def split: option.splits if_splits dest: index_of_SomeD)
  show "slots_used (capacity (h_reg h)) = int (card (dom (r_byid (h_reg h))))"
    using live_card [OF inv] by (simp add: capacity_def Let_def)
  show "0 \<le> slots_free (capacity (h_reg h))" "0 \<le> mem_free (capacity (h_reg h))"
    using live_card [OF inv] live_card_le [OF inv]
    by (simp_all add: capacity_def Let_def max_vms_def host_mem_mib_def mem_mib_def)
qed

theorem allocate_exact_witness:
  "(\<exists>v. fst (allocate 7 ''c'' (h_reg demo_two)) = Inr v) \<and> slots_used (capacity (h_reg demo_two)) = 2"
  using allocate_exact [OF demo_two_reachable, of 7 "''c''"]
  by (simp add: demo_two_reg max_vms_def allocate_def free_slot_def Let_def capacity_def)

end
