(* ===== verification/VmSafety.thy ===== *)
theory VmSafety
  imports VmProps
begin

text \<open>
  Safety of the disks and processes of package \<^verbatim>\<open>internal/vm\<close>, the honesty of a purge, the
  rollback of a creation that fails, and three places where the code does not do what its comments
  say: a second delete of a VM does not conflict, a late rollback takes the tap of whatever VM holds
  its slot now, and a repair ended by a signal counts as a clean disk.
\<close>

lemma begin_stop_frame [frame_simps, simp]:
  "h_base (snd (begin_stop v h)) = h_base h" "h_files (snd (begin_stop v h)) = h_files h"
  "h_stuck (snd (begin_stop v h)) = h_stuck h" "h_net (snd (begin_stop v h)) = h_net h"
  by (simp_all add: begin_stop_def Let_def h_set_state_def split: prod.splits option.splits)

text \<open>Concrete environments and a host whose first VM has a disk, for the instances below.\<close>

definition demo_env :: "bool \<Rightarrow> boot_env" where
  "demo_env mkfs = \<lparr>e_mkdir_run = True, e_mkdir_ws = True, e_truncate = True, e_mkfs = mkfs,
     e_fsck = FsckExit 0, e_write_config = True, e_console = True, e_start = Some 42,
     e_write_state = True, e_polls = [PollRefused, PollUp]\<rparr>"

definition demo_stop :: stop_env where
  "demo_stop = \<lparr>s_described_paused = False, s_exits_graceful = False, s_exits_term = True, s_exits_kill = True\<rparr>"

definition demo_disk :: "string set host" where
  "demo_disk = snd (prepare_workspace (demo_env True) 0 demo_two)"

lemma demo_disk_eq:
  "h_reg demo_disk = upd_vm 0 (\<lambda>m. m\<lparr>ws_new := True\<rparr>) (h_reg demo_two)"
  "h_base demo_disk = ''/srv''" "h_stuck demo_disk = {}" "h_net demo_disk = {}"
  "h_files demo_disk = {l_workspace ''/srv'' ''a'', l_workspaces_dir ''/srv''}"
  by (simp_all add: demo_disk_def prepare_workspace_def demo_env_def Let_def the_vm_def demo_two_reg)
     (simp_all add: demo_two_def demo_empty_def empty_host_def h_allocate_def split: prod.splits)

lemma demo_disk_reachable: "reachable_host demo_ip demo_disk"
  unfolding demo_disk_def
  by (intro reachable_step [OF _ hs_prepare] demo_two_reachable) (simp add: allocated_def demo_two_reg)

section \<open>A live VM keeps its disk\<close>

lemma prepare_files:
  "p \<in> h_files h \<Longrightarrow> p \<in> h_files (snd (prepare_workspace e v h)) "
  by (auto simp: prepare_workspace_def Let_def os_remove_def)

lemma spawn_files:
  "l_workspace (h_base h) i \<in> h_files h \<Longrightarrow> l_workspace (h_base h) i \<in> h_files (snd (spawn e v h))"
  by (auto simp: spawn_def Let_def os_remove_files write_state_file_def split: option.splits)

lemma cleanup_files_other:
  assumes "l_workspace (h_base h) i \<in> h_files h"
    and "vm_id (the_vm h v) \<noteq> i \<or> r_byid (h_reg h) i \<noteq> Some v \<and> r_byid (h_reg h) i \<noteq> None"
  shows "l_workspace (h_base h) i \<in> h_files (snd (cleanup_locked ip v purge h))"
  using assms by (auto simp: cleanup_locked_def Let_def os_remove_files os_remove_all_def)



section \<open>A purge tells the truth\<close>

lemma cleanup_purged:
  assumes "cleanup_locked ip v True h = (None, k)"
  shows "l_workspace (h_base k) (vm_id (the_vm k v)) \<notin> h_files k"
proof -
  have "k = snd (cleanup_locked ip v True h)" using assms by simp
  then have b: "h_base k = h_base h" "the_vm k v = the_vm h v" by (simp_all add: the_vm_def)
  from assms show ?thesis unfolding b by (auto simp: cleanup_locked_def Let_def os_remove_def split: if_splits)
qed

lemma delete_purged:
  "delete_vm ip s v True h = (None, k) \<Longrightarrow> l_workspace (h_base k) (vm_id (the_vm k v)) \<notin> h_files k"
  by (auto simp: delete_vm_def cleanup_def split: prod.splits sum.splits dest: cleanup_purged)

lemma purge_purged: "purge_workspace i h = (None, k) \<Longrightarrow> l_workspace (h_base k) i \<notin> h_files k"
  by (auto simp: purge_workspace_def os_remove_def split: if_splits)

text \<open>
  When \<^verbatim>\<open>Delete\<close> with purge, or \<^verbatim>\<open>PurgeWorkspace\<close> of a stopped VM, reports success, the
  workspace is gone; when the id was taken over by a newer machine, \<^verbatim>\<open>cleanup\<close> with purge is an
  error and removes nothing.
\<close>

theorem purge_honest:
  "(delete_vm ip s v True h = (None, h') \<longrightarrow>
      l_workspace (h_base h') (vm_id (the_vm h' v)) \<notin> h_files h') \<and>
   (purge_workspace i h = (None, h') \<longrightarrow> l_workspace (h_base h') i \<notin> h_files h') \<and>
   (r_byid (h_reg h) (vm_id (the_vm h v)) = Some w \<and> w \<noteq> v \<longrightarrow>
      fst (cleanup_locked ip v True h) \<noteq> None \<and>
      h_files (snd (cleanup_locked ip v True h)) = h_files h)"
  by (auto simp: cleanup_locked_def Let_def dest: delete_purged purge_purged)

theorem purge_honest_witness:
  "\<exists>h'. delete_vm demo_ip demo_stop 0 True demo_disk = (None, h') \<and>
     l_workspace (h_base h') (vm_id (the_vm h' 0)) \<notin> h_files h'"
proof -
  have "fst (delete_vm demo_ip demo_stop 0 True demo_disk) = None"
    by (simp add: delete_vm_def begin_stop_def h_set_state_def set_state_def snapshot_def can_transition_def
        shutdown_def cleanup_def reap_def cleanup_locked_def os_remove_def os_remove_all_def
        demo_disk_eq demo_two_reg the_vm_def Let_def)
  then obtain h' where "delete_vm demo_ip demo_stop 0 True demo_disk = (None, h')"
    by (metis prod.collapse)
  with purge_honest [of demo_ip demo_stop 0 demo_disk h' "''a''" 1] show ?thesis by blast
qed

section \<open>State changes\<close>

text \<open>
  C40. Whatever operations run, the state of an allocated VM only ever moves along
  \<^verbatim>\<open>legalTransitions\<close>, and a VM that is stopping never leaves that state.
\<close>

theorem state_changes_legal:
  assumes "host_steps ip h h'" and "allocated h v"
  shows "can_transition\<^sup>*\<^sup>* (vm_st (the_vm h v)) (vm_st (the_vm h' v)) \<and>
    (vm_st (the_vm h v) = Stopping \<longrightarrow> vm_st (the_vm h' v) = Stopping)"
proof -
  have "can_transition\<^sup>*\<^sup>* (vm_st (the_vm h v)) (vm_st (the_vm h' v))"
    using reg_steps_legal [OF host_steps_reg [OF assms(1)]] assms(2)
    by (simp add: the_vm_def allocated_def)
  then show ?thesis using stopping_final by metis
qed

theorem state_changes_legal_witness:
  "can_transition\<^sup>*\<^sup>* Creating (vm_st (the_vm (snd (begin_stop 0 demo_disk)) 0))"
proof -
  have "host_steps demo_ip demo_disk (snd (begin_stop 0 demo_disk))"
    by (intro r_into_rtranclp hs_begin_stop) (simp add: allocated_def demo_disk_eq demo_two_reg)
  from state_changes_legal [OF this, of 0] show ?thesis
    by (simp add: allocated_def the_vm_def demo_disk_eq demo_two_reg)
qed

section \<open>A creation that fails is rolled back\<close>

text \<open>What every phase of boot leaves alone: the two tables, and the identity of the VM.\<close>

definition same_tables :: "'n host \<Rightarrow> 'n host \<Rightarrow> bool" where
  "same_tables h h' \<longleftrightarrow> r_slots (h_reg h') = r_slots (h_reg h) \<and> r_byid (h_reg h') = r_byid (h_reg h) \<and>
     r_fresh (h_reg h') = r_fresh (h_reg h) \<and> h_base h' = h_base h \<and> h_stuck h' = h_stuck h \<and>
     (\<forall>v. vm_id (the_vm h' v) = vm_id (the_vm h v) \<and> vm_slot (the_vm h' v) = vm_slot (the_vm h v))"

lemma same_tables_refl [simp]: "same_tables h h"
  by (simp add: same_tables_def)

lemma same_tables_trans: "same_tables h k \<Longrightarrow> same_tables k l \<Longrightarrow> same_tables h l"
  by (simp add: same_tables_def)

lemma same_tables_add [simp]: "same_tables h (add_path p h)"
  by (simp add: same_tables_def the_vm_def)

lemma same_tables_prepare: "same_tables h (snd (prepare_workspace e v h))"
  by (auto simp: same_tables_def the_vm_def prepare_workspace_def Let_def)

lemma same_tables_tap: "same_tables h (snd (h_create_tap ip v h))"
  by (simp add: same_tables_def the_vm_def)

lemma same_tables_config: "same_tables h (snd (write_config_json e v h))"
  by (simp add: same_tables_def the_vm_def)

lemma same_tables_spawn: "same_tables h (snd (spawn e v h))"
  by (auto simp: same_tables_def the_vm_def spawn_def Let_def split: option.splits)

lemma same_tables_wait: "same_tables h (snd (wait_exit x v h))"
  by (auto simp: same_tables_def the_vm_def wait_exit_def)

lemma same_tables_act [simp]: "same_tables h (act a h)"
  by (simp add: same_tables_def the_vm_def)

lemma same_tables_reap: "same_tables h (reap s v h)"
  using same_tables_trans [OF same_tables_act
      same_tables_wait [of "act (SigKill (- vm_pid (the_vm h v))) h" "s_exits_kill s" v]]
  by (simp add: reap_def Let_def)

lemma same_tables_state: "same_tables h (snd (h_set_state v to h))"
  by (auto simp: same_tables_def the_vm_def set_state_def Let_def)

text \<open>
  The disk of the VM being booted: after any of the phases it exists exactly if it existed before
  or this boot made it, and in the latter case the VM is marked as having a new workspace.
\<close>

definition ws_tracked :: "bool \<Rightarrow> vptr \<Rightarrow> 'n host \<Rightarrow> bool" where
  "ws_tracked before v h \<longleftrightarrow>
     (l_workspace (h_base h) (vm_id (the_vm h v)) \<in> h_files h \<longleftrightarrow> before \<or> ws_new (the_vm h v)) \<and>
     (before \<longrightarrow> \<not> ws_new (the_vm h v)) \<and>
     l_workspace (h_base h) (vm_id (the_vm h v)) \<notin> h_stuck h"

lemma ws_tracked_run_dir: "ws_tracked b v h \<Longrightarrow> ws_tracked b v (add_path (l_run_dir (h_base h) i) h)"
  by (simp add: ws_tracked_def the_vm_def)

lemma ws_tracked_prepare:
  assumes "ws_tracked b v h" "\<not> ws_new (the_vm h v)"
  shows "ws_tracked b v (snd (prepare_workspace e v h))"
proof -
  have "l_workspace (h_base h) i \<noteq> l_workspaces_dir (h_base h)" for i
    by (simp add: l_workspaces_dir_def l_workspace_def path_join_def)
  with assms show ?thesis
    by (auto simp: ws_tracked_def prepare_workspace_def Let_def the_vm_def os_remove_files)
qed

lemma ws_tracked_tap: "ws_tracked b v h \<Longrightarrow> ws_tracked b v (snd (h_create_tap ip v h))"
  by (simp add: ws_tracked_def the_vm_def)

lemma ws_tracked_config: "ws_tracked b v h \<Longrightarrow> ws_tracked b v (snd (write_config_json e v h))"
  by (simp add: ws_tracked_def the_vm_def write_config_json_def Let_def)

lemma ws_tracked_spawn: "ws_tracked b v h \<Longrightarrow> ws_tracked b v (snd (spawn e v h))"
  by (auto simp: ws_tracked_def the_vm_def spawn_def Let_def os_remove_files write_state_file_def
      split: option.splits)

lemmas same_tables_phases = same_tables_prepare same_tables_tap same_tables_config same_tables_spawn
lemmas ws_tracked_phases = ws_tracked_tap ws_tracked_config ws_tracked_spawn

lemma boot_tracked:
  assumes "ws_tracked b v h" and "\<not> ws_new (the_vm h v)"
  shows "same_tables h (snd (boot ip e v h)) \<and> ws_tracked b v (snd (boot ip e v h))"
proof (cases "e_mkdir_run e")
  case False
  with assms show ?thesis by (simp add: boot_def)
next
  case True
  let ?h1 = "add_path (l_run_dir (h_base h) (vm_id (the_vm h v))) h"
  obtain r2 h2 where 2: "prepare_workspace e v ?h1 = (r2, h2)" by force
  obtain r3 h3 where 3: "h_create_tap ip v h2 = (r3, h3)" by force
  obtain r4 h4 where 4: "write_config_json e v h3 = (r4, h4)" by force
  obtain r5 h5 where 5: "spawn e v h4 = (r5, h5)" by force
  have s: "same_tables h h2" "same_tables h2 h3" "same_tables h3 h4" "same_tables h4 h5"
    using same_tables_trans [OF same_tables_add same_tables_prepare [of ?h1 e v]]
      same_tables_tap [of h2 ip v] same_tables_config [of h3 e v] same_tables_spawn [of h4 e v] 2 3 4 5
    by simp_all
  have w1: "ws_tracked b v ?h1" and n1: "\<not> ws_new (the_vm ?h1 v)"
    using assms by (simp_all add: ws_tracked_run_dir the_vm_def)
  have w2: "ws_tracked b v h2" using ws_tracked_prepare [OF w1 n1, of e] 2 by simp
  have w3: "ws_tracked b v h3" using ws_tracked_tap [OF w2, of ip] 3 by simp
  have w4: "ws_tracked b v h4" using ws_tracked_config [OF w3, of e] 4 by simp
  have w5: "ws_tracked b v h5" using ws_tracked_spawn [OF w4, of e] 5 by simp
  have "snd (boot ip e v h) \<in> {h2, h3, h4, h5}"
    using True 2 3 4 5 by (simp add: boot_def Let_def split: option.splits)
  with s w2 w3 w4 w5 show ?thesis by (auto intro: same_tables_trans)
qed

lemma ws_tracked_state: "ws_tracked b v h \<Longrightarrow> ws_tracked b v (snd (h_set_state v to h))"
  by (auto simp: ws_tracked_def the_vm_def set_state_def Let_def)

lemma ws_new_reap: "ws_new (the_vm (reap s v h) v) = ws_new (the_vm h v)"
  by (auto simp: reap_def Let_def the_vm_def wait_exit_def)

text \<open>The rollback itself: cleanup of the VM just allocated undoes the allocation and the disk.\<close>

lemma cleanup_undoes:
  assumes "ws_tracked b v k" and reg: "r_byid (h_reg k) (vm_id (the_vm k v)) = Some v"
    and slot: "r_slots (h_reg k) ! vm_slot (the_vm k v) = Some v"
  shows "let k' = snd (cleanup ip s v (ws_new (the_vm k v)) k) in
     r_slots (h_reg k') = (r_slots (h_reg k))[vm_slot (the_vm k v) := None] \<and>
     r_byid (h_reg k') = (r_byid (h_reg k))(vm_id (the_vm k v) := None) \<and>
     (l_workspace (h_base k') (vm_id (the_vm k v)) \<in> h_files k' \<longleftrightarrow> b)"
proof -
  let ?k = "reap s v k"
  have t: "same_tables k ?k" by (rule same_tables_reap)
  then have eq: "vm_id (the_vm ?k v) = vm_id (the_vm k v)" "vm_slot (the_vm ?k v) = vm_slot (the_vm k v)"
    "r_byid (h_reg ?k) = r_byid (h_reg k)" "r_slots (h_reg ?k) = r_slots (h_reg k)"
    by (simp_all add: same_tables_def)
  have tab: "r_slots (release_locked v (h_reg ?k)) = (r_slots (h_reg k))[vm_slot (the_vm k v) := None]"
    "r_byid (release_locked v (h_reg ?k)) = (r_byid (h_reg k))(vm_id (the_vm k v) := None)"
    using reg slot eq by (simp_all add: release_locked_def Let_def the_vm_def)
  have files: "l_workspace (h_base k) (vm_id (the_vm k v)) \<in>
      h_files (snd (cleanup_locked ip v (ws_new (the_vm k v)) ?k)) \<longleftrightarrow> b"
    using assms(1) reg eq
    by (auto simp: cleanup_locked_def Let_def ws_tracked_def os_remove_files os_remove_all_def)
  show ?thesis using tab files by (simp add: cleanup_def Let_def)
qed

lemma claimed_boot_undone:
  assumes al: "h_allocate now vid h = (Inr v, h1)" and inv: "reg_inv (h_reg h)"
    and c: "create_vm ip e s now vid h = (Inl err, h')" and free: "l_workspace (h_base h) vid \<notin> h_stuck h"
  shows "r_slots (h_reg h') = r_slots (h_reg h) \<and> r_byid (h_reg h') = r_byid (h_reg h) \<and>
    (l_workspace (h_base h') vid \<in> h_files h' \<longleftrightarrow> l_workspace (h_base h) vid \<in> h_files h)"
proof -
  let ?b = "l_workspace (h_base h) vid \<in> h_files h"
  from al have h1: "h_reg h1 = snd (allocate now vid (h_reg h))" "h_files h1 = h_files h"
    "h_base h1 = h_base h" "h_stuck h1 = h_stuck h" and "fst (allocate now vid (h_reg h)) = Inr v"
    using h_allocate_simps [of now vid h] by simp_all
  then obtain t where none: "r_byid (h_reg h) vid = None" and t: "free_slot (h_reg h) = Some t" and v: "v = r_fresh (h_reg h)"
    by (auto simp: allocate_def Let_def split: if_splits option.splits)
  note ft = free_slot_SomeD [OF inv t]
  have tabs: "r_slots (h_reg h1) = (r_slots (h_reg h))[t := Some v]"
    "r_byid (h_reg h1) = (r_byid (h_reg h))(vid \<mapsto> v)" "the_vm h1 v = new_vm now vid t"
    using none t v by (simp_all add: h1 allocate_def Let_def the_vm_def)
  have fresh: "\<not> ws_new (the_vm h1 v)" unfolding tabs by (simp add: new_vm_def split: prod.splits)
  have tr: "ws_tracked ?b v h1" using free fresh tabs(3) by (simp add: ws_tracked_def h1)
  obtain o2 h2 where bt: "boot ip e v h1 = (o2, h2)" by force
  obtain o3 h3 where st: "h_set_state v Running h2 = (o3, h3)" by force
  have k2: "same_tables h1 h2 \<and> ws_tracked ?b v h2" using boot_tracked [OF tr fresh, of ip e] bt by simp
  then have k3: "same_tables h1 h3 \<and> ws_tracked ?b v h3"
    using same_tables_state [of h2 v Running] ws_tracked_state [of _ v h2 Running] st by (auto intro: same_tables_trans)
  have "\<exists>k. same_tables h1 k \<and> ws_tracked ?b v k \<and> h' = snd (cleanup ip s v (ws_new (the_vm k v)) k)"
    using c al bt st k2 k3 by (auto simp: create_vm_def split: option.splits)
  then obtain k where k: "same_tables h1 k" "ws_tracked ?b v k" and h': "h' = snd (cleanup ip s v (ws_new (the_vm k v)) k)" by blast
  from k(1) tabs ft reg_inv_length [OF inv]
  have kv: "vm_id (the_vm k v) = vid" "vm_slot (the_vm k v) = t"
    "r_byid (h_reg k) = (r_byid (h_reg h))(vid \<mapsto> v)" "r_slots (h_reg k) = (r_slots (h_reg h))[t := Some v]"
    by (simp_all add: same_tables_def)
  have "(r_slots (h_reg h))[t := None] = r_slots (h_reg h)" using ft by (metis list_update_id)
  with cleanup_undoes [OF k(2)] kv ft reg_inv_length [OF inv] none show ?thesis
    by (simp add: h' Let_def fun_upd_idem)
qed

lemma unclaimed_unchanged:
  "h_allocate now vid h = (Inl x, h1) \<Longrightarrow> h_reg h1 = h_reg h \<and> h_files h1 = h_files h \<and> h_base h1 = h_base h"
  by (auto simp: h_allocate_def allocate_def Let_def split: prod.splits if_splits option.splits)

lemma failed_create_undone:
  assumes "reachable_host ip h" and "create_vm ip e s now vid h = (Inl err, h')" and "l_workspace (h_base h) vid \<notin> h_stuck h"
  shows "r_slots (h_reg h') = r_slots (h_reg h) \<and> r_byid (h_reg h') = r_byid (h_reg h) \<and>
    (l_workspace (h_base h') vid \<in> h_files h' \<longleftrightarrow> l_workspace (h_base h) vid \<in> h_files h)"
proof (cases "h_allocate now vid h")
  case (Pair a h1)
  show ?thesis
  proof (cases a)
    case (Inl x)
    with assms(2) Pair unclaimed_unchanged [of now vid h x h1] show ?thesis by (simp add: create_vm_def)
  next
    case (Inr v)
    with Pair show ?thesis using claimed_boot_undone [OF _ reachable_reg(1) [OF assms(1)] assms(2,3)] by simp
  qed
qed

text \<open>
  When \<^verbatim>\<open>Create\<close> fails, at whatever step, the registry is as it was (the slot and the id are
  free again) and the workspace exists exactly if it existed before: a new disk is taken away with
  the failed boot, a person's existing disk stays.
\<close>

theorem create_rolls_back:
  assumes "reachable_host ip h" and "create_vm ip e s now vid h = (Inl err, h')"
    and "l_workspace (h_base h) vid \<notin> h_stuck h"
  shows "r_slots (h_reg h') = r_slots (h_reg h) \<and> r_byid (h_reg h') = r_byid (h_reg h) \<and>
    (l_workspace (h_base h') vid \<in> h_files h' \<longleftrightarrow> l_workspace (h_base h) vid \<in> h_files h)"
  by (rule failed_create_undone [OF assms])

theorem create_rolls_back_witness:
  "\<exists>err h'. create_vm demo_ip (demo_env False) demo_stop 0 ''c'' demo_disk = (Inl err, h') \<and>
     r_slots (h_reg h') = r_slots (h_reg demo_disk) \<and> l_workspace (h_base h') ''c'' \<notin> h_files h'"
proof -
  have ne: "l_workspace ''/srv'' ''c'' \<noteq> l_workspaces_dir ''/srv''"
    by (simp add: l_workspace_def l_workspaces_dir_def path_join_def)
  have "\<exists>err. fst (create_vm demo_ip (demo_env False) demo_stop 0 ''c'' demo_disk) = Inl err"
    by (simp add: create_vm_def h_allocate_def allocate_def free_slot_def boot_def prepare_workspace_def
        demo_env_def the_vm_def demo_disk_eq demo_two_reg Let_def ne)
  then obtain err h' where c: "create_vm demo_ip (demo_env False) demo_stop 0 ''c'' demo_disk = (Inl err, h')"
    by (metis prod.collapse)
  have "l_workspace ''/srv'' ''c'' \<notin> h_files demo_disk"
    by (simp add: demo_disk_eq ne)
  with create_rolls_back [OF demo_disk_reachable c] c show ?thesis by (simp add: demo_disk_eq)
qed

section \<open>Processes\<close>

text \<open>
  The teardown ladder, exactly: nothing without a process; a paused VM is resumed first; then
  Ctrl-Alt-Del, SIGTERM only if that was not enough in time, SIGKILL to the group only after it.
  And on every exit path \<^verbatim>\<open>cleanup\<close> leaves no process it has not seen end or killed.
\<close>

theorem teardown_ladder:
  "h_acts (shutdown s v prev h) =
     h_acts h @
     (if \<not> vm_cmd (the_vm h v) then []
      else (if prev = Paused \<or> s_described_paused s then [ActResume v] else []) @ [ActCtrlAltDel v] @
        (if vm_done (the_vm h v) \<or> s_exits_graceful s then []
         else SigTerm v # (if s_exits_term s then [] else [SigKill (- vm_pid (the_vm h v))]))) \<and>
   (vm_cmd (the_vm h v) \<and> 0 < vm_pid (the_vm h v) \<longrightarrow>
      vm_done (the_vm h v) \<or> SigKill (- vm_pid (the_vm h v)) \<in> set (h_acts (snd (cleanup ip s v purge h))))"
proof (intro conjI impI)
  have acts: "h_acts (snd (cleanup_locked ip v purge k)) = h_acts k" for k :: "'a host"
    by (simp add: cleanup_locked_def Let_def)
  show "vm_done (the_vm h v) \<or> SigKill (- vm_pid (the_vm h v)) \<in> set (h_acts (snd (cleanup ip s v purge h)))"
    if "vm_cmd (the_vm h v) \<and> 0 < vm_pid (the_vm h v)"
    using that by (auto simp: cleanup_def acts reap_def Let_def)
qed (auto simp: shutdown_def escalate_def wait_exit_def the_vm_def Let_def)

definition demo_running :: "string set host" where
  "demo_running = on_reg (upd_vm 0 (\<lambda>m. m\<lparr>vm_cmd := True, vm_pid := 42\<rparr>)) demo_two"

theorem teardown_ladder_witness:
  "h_acts (shutdown demo_stop 0 Paused demo_running) = [ActResume 0, ActCtrlAltDel 0, SigTerm 0] \<and>
   SigKill (-42) \<in> set (h_acts (snd (cleanup demo_ip demo_stop 0 False demo_running)))"
proof -
  have d: "vm_cmd (the_vm demo_running 0)" "\<not> vm_done (the_vm demo_running 0)"
    "vm_pid (the_vm demo_running 0) = 42"
    by (simp_all add: demo_running_def the_vm_def demo_two_reg)
  have a: "h_acts demo_running = []"
    by (simp add: demo_running_def demo_two_def demo_empty_def empty_host_def)
  show ?thesis
    using teardown_ladder [of demo_stop 0 Paused demo_running demo_ip False] d a
    by (simp add: demo_stop_def)
qed

section \<open>Where the code and its comments part\<close>

text \<open>
  \<^verbatim>\<open>beginStop\<close> is said to make concurrent deletes conflict. It does not: \<^verbatim>\<open>SetState\<close> answers
  a change to the state already held with success, so a second \<^verbatim>\<open>beginStop\<close> on the same VM
  succeeds too and its delete walks the ladder and cleans up again.
\<close>

theorem second_delete_no_conflict:
  assumes "begin_stop v h = (Inr prev, h1)"
  shows "begin_stop v h1 = (Inr Stopping, h1)"
proof -
  obtain o1 k where k: "h_set_state v Stopping h = (o1, k)" by force
  with assms have o1: "o1 = None" and h1: "h1 = on_reg (upd_vm v (\<lambda>m. m\<lparr>vm_stopping := True\<rparr>)) k"
    by (auto simp: begin_stop_def Let_def split: option.splits)
  from k o1 have "vm_st (r_heap (h_reg k) v) = Stopping"
    by (auto simp: h_set_state_def set_state_def Let_def split: if_splits)
  then show ?thesis
    unfolding h1
    by (simp add: begin_stop_def Let_def h_set_state_def set_state_def snapshot_def on_reg_def
        upd_vm_def fun_upd_idem)
qed

theorem second_delete_no_conflict_witness:
  "\<exists>h1. begin_stop 0 demo_two = (Inr Creating, h1) \<and> begin_stop 0 h1 = (Inr Stopping, h1)"
proof -
  have "\<exists>h1. begin_stop 0 demo_two = (Inr Creating, h1)"
    by (simp add: begin_stop_def Let_def h_set_state_def set_state_def snapshot_def demo_two_reg
        can_transition_def)
  then show ?thesis using second_delete_no_conflict by blast
qed

lemma demo_delete_tap [simp]: "snd (delete_tap demo_ip name n) = n - {name}"
  by (simp add: delete_tap_def demo_ip_def split: prod.splits if_splits)

lemma demo_create_tap [simp]: "snd (create_tap demo_ip name host user n) = insert name n"
  by (auto simp: create_tap_def delete_tap_def run_ip_def demo_ip_def wrap_err_def
      split: prod.splits if_splits option.splits)

lemma h_create_tap_net [simp]:
  "h_net (snd (h_create_tap ip v h)) =
     snd (create_tap ip (vm_tap (the_vm h v)) (host_ip (the_vm h v)) (h_user h) (h_net h))"
  by (simp add: h_create_tap_def split: prod.splits)

definition demo_stale :: "string set host" where
  "demo_stale =
     (let h1 = snd (h_create_tap demo_ip 0 (snd (h_allocate 0 ''a'' demo_empty)));
          h2 = snd (cleanup_locked demo_ip 0 False (snd (begin_stop 0 h1)));
          h3 = snd (h_create_tap demo_ip 1 (snd (h_allocate 0 ''b'' h2)))
      in snd (h_set_state 1 Running h3))"

lemma begin_stop_reg_eq:
  "h_reg (snd (begin_stop v h)) =
     (if fst (set_state v Stopping (h_reg h)) = None
      then upd_vm v (\<lambda>m. m\<lparr>vm_stopping := True\<rparr>) (snd (set_state v Stopping (h_reg h)))
      else snd (set_state v Stopping (h_reg h)))"
  by (simp add: begin_stop_def Let_def h_set_state_def split: prod.splits option.splits)

lemma cleanup_locked_net:
  "r_byid (h_reg h) (vm_id (the_vm h v)) \<in> {None, Some v} \<Longrightarrow>
   h_net (snd (cleanup_locked ip v purge h)) = snd (delete_tap ip (vm_tap (the_vm h v)) (h_net h))"
  by (auto simp: cleanup_locked_def Let_def)

lemma h_allocate_net [simp]: "h_net (snd (h_allocate now vid h)) = h_net h"
  by (simp add: h_allocate_def split: prod.splits)

lemma h_set_state_net [simp]: "h_net (snd (h_set_state v to h)) = h_net h"
  by (simp add: h_set_state_def split: prod.splits)

text \<open>The registry of the run below, phase by phase.\<close>

definition demo_h1 :: "string set host" where
  "demo_h1 = snd (h_create_tap demo_ip 0 (snd (h_allocate 0 ''a'' demo_empty)))"

definition demo_h2 :: "string set host" where
  "demo_h2 = snd (cleanup_locked demo_ip 0 False (snd (begin_stop 0 demo_h1)))"

lemma demo_h1_reg:
  "h_reg demo_h1 = \<lparr>r_slots = [Some 0, None, None, None, None], r_byid = [''a'' \<mapsto> 0],
     r_heap = (\<lambda>_. new_vm 0 [] 0)(0 := new_vm 0 ''a'' 0), r_fresh = 1\<rparr>"
  "h_net demo_h1 = {tap_name 0}"
  by (simp_all add: demo_h1_def demo_empty_def empty_host_def allocate_def new_registry_def
      free_slot_def max_vms_def numeral_eq_Suc Let_def the_vm_def)

lemma demo_h2_reg:
  "h_reg demo_h2 = \<lparr>r_slots = [None, None, None, None, None], r_byid = Map.empty,
     r_heap = (\<lambda>_. new_vm 0 [] 0)(0 := (new_vm 0 ''a'' 0)\<lparr>vm_st := Stopping, vm_stopping := True\<rparr>),
     r_fresh = 1\<rparr>"
  "h_net demo_h2 = {}"
  by (simp_all add: demo_h2_def cleanup_locked_net begin_stop_reg_eq demo_h1_reg set_state_def
      can_transition_def upd_vm_def release_locked_def Let_def the_vm_def)

lemma demo_stale_eq:
  "demo_stale = snd (h_set_state 1 Running (snd (h_create_tap demo_ip 1 (snd (h_allocate 0 ''b'' demo_h2)))))"
  by (simp add: demo_stale_def demo_h2_def demo_h1_def Let_def)

lemma demo_stale_reg:
  "h_reg demo_stale = \<lparr>r_slots = [Some 1, None, None, None, None], r_byid = [''b'' \<mapsto> 1],
     r_heap = (\<lambda>_. new_vm 0 [] 0)(0 := (new_vm 0 ''a'' 0)\<lparr>vm_st := Stopping, vm_stopping := True\<rparr>,
       1 := (new_vm 0 ''b'' 0)\<lparr>vm_st := Running\<rparr>), r_fresh = 2\<rparr>"
  "h_net demo_stale = {tap_name 0}"
  by (simp_all add: demo_stale_eq demo_h2_reg set_state_def can_transition_def upd_vm_def
      allocate_def free_slot_def Let_def the_vm_def)

lemma demo_stale_reachable: "reachable_host demo_ip demo_stale"
proof -
  have 1: "reachable_host demo_ip demo_h1"
    unfolding demo_h1_def
    by (intro reachable_step [OF _ hs_tap] reachable_step [OF _ hs_allocate] demo_empty_reachable demo_ids)
       (simp add: allocated_def demo_empty_def empty_host_def allocate_def new_registry_def free_slot_def
         max_vms_def numeral_eq_Suc Let_def)
  have 2: "reachable_host demo_ip demo_h2"
    unfolding demo_h2_def
    by (intro reachable_step [OF _ hs_cleanup] reachable_step [OF _ hs_begin_stop] 1)
       (simp_all add: allocated_def demo_h1_reg begin_stop_reg_eq)
  show ?thesis
    unfolding demo_stale_eq
    by (intro reachable_step [OF _ hs_state] reachable_step [OF _ hs_tap] reachable_step [OF _ hs_allocate]
        2 demo_ids)
       (simp_all add: allocated_def demo_h2_reg allocate_def free_slot_def Let_def)
qed

text \<open>
  \<^verbatim>\<open>cleanup\<close> guards what is addressed by id, and not what is addressed by slot. A host is
  reachable in which \<^verbatim>\<open>a\<close> was deleted while it booted, \<^verbatim>\<open>b\<close> was given its slot and is
  running on its tap, and the rollback of \<^verbatim>\<open>a\<close>'s creation then deletes the tap of \<^verbatim>\<open>b\<close>,
  which stays registered and running.
\<close>

theorem stale_cleanup_takes_tap:
  "reachable_host demo_ip demo_stale \<and>
   r_byid (h_reg demo_stale) ''b'' = Some 1 \<and> vm_st (the_vm demo_stale 1) = Running \<and>
   vm_tap (the_vm demo_stale 1) \<in> h_net demo_stale \<and>
   (let h' = snd (cleanup_locked demo_ip 0 False demo_stale) in
      r_byid (h_reg h') ''b'' = Some 1 \<and> vm_st (the_vm h' 1) = Running \<and>
      vm_tap (the_vm h' 1) \<notin> h_net h')"
  using demo_stale_reachable
  by (simp add: demo_stale_reg cleanup_locked_net the_vm_def Let_def release_locked_def)

text \<open>
  \<^verbatim>\<open>fsckWorkspace\<close> takes exit codes below 4 for a clean or repaired disk. A repair that a
  signal ended has exit code -1 in Go, so it counts as one too.
\<close>

lemma fsck_killed_passes:
  "fsck_workspace FsckSignalled path = None \<and> fsck_workspace FsckNotStarted path \<noteq> None \<and>
   (fsck_workspace (FsckExit n) path = None \<longleftrightarrow> n < 4)"
  by (auto simp: fsck_workspace_def fsck_exit_code_def)

end
