(* ===== verification/VmHostProps.thy ===== *)
theory VmHostProps
  imports VmHost VmSafety
begin

text \<open>
  What a drain and a sweep leave behind, what the console file can grow to, and that a process's name cannot confuse the reader of
  its processor time.
\<close>

section \<open>The drain\<close>

lemma same_tables_done [simp]: "same_tables h (mark_done v h)"
  by (simp add: same_tables_def the_vm_def mark_done_def)

lemma same_tables_waiting: "same_tables h k \<Longrightarrow> same_tables h (snd (wait_exit x v (act a k)))"
  by (blast intro: same_tables_trans same_tables_act same_tables_wait)

lemma same_tables_escalate: "same_tables h k \<Longrightarrow> same_tables h (escalate s v k)"
  using same_tables_waiting[of h k "s_exits_term s" v "SigTerm v"]
  by (cases "wait_exit (s_exits_term s) v (act (SigTerm v) k)") (auto simp: escalate_def intro: same_tables_waiting split: bool.split)

lemma same_tables_shutdown: "same_tables h (shutdown s v prev h)"
proof -
  let ?k = "if prev = Paused \<or> s_described_paused s then act (ActResume v) h else h"
  have "same_tables h (snd (wait_exit (s_exits_graceful s) v (act (ActCtrlAltDel v) ?k)))"
    by (rule same_tables_waiting) simp
  then show ?thesis
    by (cases "wait_exit (s_exits_graceful s) v (act (ActCtrlAltDel v) ?k)")
      (auto simp: shutdown_def Let_def intro: same_tables_escalate split: bool.split)
qed

lemma set_state_stopping: "fst (set_state v Stopping r) = None"
  by (cases "vm_st (r_heap r v)") (simp_all add: set_state_def can_transition_def)

lemma begin_stop_works:
  obtains k where "begin_stop v h = (Inr (snapshot v (h_reg h)), k)" and "same_tables h k" and "h_files k = h_files h"
proof -
  obtain k where k: "h_set_state v Stopping h = (None, k)"
    using set_state_stopping[of v "h_reg h"] by (cases "set_state v Stopping (h_reg h)") (simp add: h_set_state_def)
  let ?k = "on_reg (upd_vm v (\<lambda>m. m\<lparr>vm_stopping := True\<rparr>)) k"
  have "same_tables h k" using same_tables_state[of h v Stopping] k by simp
  moreover have "same_tables k ?k" by (auto simp: same_tables_def the_vm_def)
  ultimately have "same_tables h ?k" by (rule same_tables_trans)
  moreover have "h_files ?k = h_files h" using h_set_state_simps(3)[of v Stopping h] k by (simp add: on_reg_simps)
  moreover have "begin_stop v h = (Inr (snapshot v (h_reg h)), ?k)" using k by (simp add: begin_stop_def)
  ultimately show ?thesis by (rule that[rotated])
qed

text \<open>A VM's slot, while it is in the table, is the one it stands in.\<close>

definition in_slots :: "'n host \<Rightarrow> bool" where
  "in_slots h \<longleftrightarrow> (\<forall>s v. s < length (r_slots (h_reg h)) \<longrightarrow> r_slots (h_reg h) ! s = Some v \<longrightarrow> vm_slot (the_vm h v) = s)"

definition emptied :: "vptr set \<Rightarrow> vptr option list \<Rightarrow> vptr option list" where
  "emptied vs slots = List.map (\<lambda>x. if x \<in> Some ` vs then None else x) slots"

lemma emptied_again: "emptied vs (emptied ws slots) = emptied (ws \<union> vs) slots"
  by (auto simp: emptied_def)

lemma in_slots_same: "same_tables h k \<Longrightarrow> in_slots h \<Longrightarrow> in_slots k"
  by (auto simp: in_slots_def same_tables_def)

lemma release_empties:
  assumes "in_slots h"
  shows "r_slots (release_locked v (h_reg h)) = emptied {v} (r_slots (h_reg h))"
proof (rule nth_equalityI)
  show "length (r_slots (release_locked v (h_reg h))) = length (emptied {v} (r_slots (h_reg h)))"
    by (simp add: release_locked_def Let_def emptied_def)
next
  fix i assume "i < length (r_slots (release_locked v (h_reg h)))"
  then have "i < length (r_slots (h_reg h))" by (simp add: release_locked_def Let_def split: if_splits)
  with assms show "r_slots (release_locked v (h_reg h)) ! i = emptied {v} (r_slots (h_reg h)) ! i"
    by (cases "vm_slot (the_vm h v) = i") (auto simp: release_locked_def Let_def emptied_def in_slots_def the_vm_def)
qed

lemma same_empties:
  assumes "same_tables h k" and "in_slots h" and "h_files k = h_files h"
  shows "r_slots (h_reg (snd (cleanup ip s v False k))) = emptied {v} (r_slots (h_reg h)) \<and> in_slots (snd (cleanup ip s v False k))"
proof -
  have k: "same_tables h (reap s v k)" using assms(1) same_tables_trans same_tables_reap by blast
  then have i: "in_slots (reap s v k)" using assms(2) in_slots_same by blast
  have "r_slots (h_reg (snd (cleanup ip s v False k))) = emptied {v} (r_slots (h_reg (reap s v k)))"
    using release_empties[OF i] by (simp add: cleanup_def)
  moreover have "in_slots (snd (cleanup ip s v False k))"
    using i calculation by (auto simp: in_slots_def emptied_def cleanup_def the_vm_def split: if_splits)
  ultimately show ?thesis using k by (simp add: same_tables_def)
qed

lemma workspace_not_running:
  "l_workspace base i \<noteq> l_sock base j" "\<not> prefix (l_run_dir base j @ ''/'') (l_workspace base i)" "l_workspace base i \<noteq> l_run_dir base j"
  by (auto simp: l_workspace_def l_sock_def l_run_dir_def path_join_def)

lemma cleanup_keeps_workspaces:
  "l_workspace (h_base h) i \<in> h_files h \<Longrightarrow> l_workspace (h_base h) i \<in> h_files (snd (cleanup ip s v False h))"
  by (auto simp: cleanup_def cleanup_locked_def Let_def os_remove_files os_remove_all_def workspace_not_running)

text \<open>One machine taken down: its slot is free, the others are as they were, and no workspace is gone.\<close>

definition taken_down :: "vptr set \<Rightarrow> 'n host \<Rightarrow> 'n host \<Rightarrow> bool" where
  "taken_down vs h k \<longleftrightarrow> r_slots (h_reg k) = emptied vs (r_slots (h_reg h)) \<and> in_slots k \<and> h_base k = h_base h \<and>
     (\<forall>i. l_workspace (h_base h) i \<in> h_files h \<longrightarrow> l_workspace (h_base h) i \<in> h_files k)"

lemma delete_takes_down:
  assumes "in_slots h"
  shows "taken_down {v} h (snd (delete_vm ip s v False h))"
proof -
  obtain k where k: "begin_stop v h = (Inr (snapshot v (h_reg h)), k)" "same_tables h k" "h_files k = h_files h"
    by (rule begin_stop_works)
  let ?k = "shutdown s v (snapshot v (h_reg h)) k"
  have t: "same_tables h ?k" using k(2) same_tables_trans same_tables_shutdown by blast
  have f: "h_files ?k = h_files h" "h_base ?k = h_base h" using k by (simp_all add: same_tables_def)
  have d: "delete_vm ip s v False h = cleanup ip s v False ?k" using k(1) by (simp add: delete_vm_def)
  show ?thesis
    unfolding taken_down_def d
    using same_empties[OF t assms f(1), of ip s v] cleanup_keeps_workspaces[of ?k _ ip s v] f by (auto simp: cleanup_def)
qed

lemma taken_down_trans: "taken_down vs h k \<Longrightarrow> taken_down ws k l \<Longrightarrow> taken_down (vs \<union> ws) h l"
  by (auto simp: taken_down_def emptied_again)

lemma taken_down_same: "taken_down vs h k \<Longrightarrow> same_tables k l \<Longrightarrow> h_files l = h_files k \<Longrightarrow> taken_down vs h l"
  using in_slots_same[of k l] by (auto simp: taken_down_def same_tables_def)

lemma taken_down_none: "in_slots h \<Longrightarrow> taken_down {} h h"
  by (simp add: taken_down_def emptied_def)

lemma takes_down_all:
  assumes "\<And>v k. in_slots k \<Longrightarrow> taken_down {v} k (f v k)" and "in_slots h"
  shows "taken_down (set vs) h (fold f vs h)"
  using assms(2)
proof (induction vs arbitrary: h)
  case Nil then show ?case by (simp add: taken_down_none)
next
  case (Cons v vs)
  have "taken_down {v} h (f v h)" using assms(1) Cons.prems .
  moreover from this have "taken_down (set vs) (f v h) (fold f vs (f v h))" using Cons.IH taken_down_def by blast
  ultimately show ?case using taken_down_trans by fastforce
qed

lemma kill_takes_down:
  assumes "in_slots h"
  shows "taken_down {v} h (snd (cleanup ip s v False (if vm_pid (the_vm h v) > 0 then act (SigKill (- vm_pid (the_vm h v))) h else h)))"
proof -
  let ?k = "if vm_pid (the_vm h v) > 0 then act (SigKill (- vm_pid (the_vm h v))) h else h"
  have t: "same_tables h ?k" and f: "h_files ?k = h_files h" "h_base ?k = h_base h" by simp_all
  show ?thesis
    unfolding taken_down_def using same_empties[OF t assms f(1), of ip s v] cleanup_keeps_workspaces[of ?k _ ip s v] f
    by (auto simp: cleanup_def)
qed

lemma none_listed: "set (List.map_filter id slots) \<subseteq> vs \<Longrightarrow> set (emptied vs slots) \<subseteq> {None}"
proof (induction slots)
  case (Cons x slots)
  then show ?case by (cases x) (auto simp: emptied_def map_filter_simps)
qed (simp add: emptied_def)

lemma no_slot_no_vm: "set slots \<subseteq> {None} \<Longrightarrow> List.map_filter id slots = []"
  by (induction slots) (auto simp: map_filter_def)

text \<open>
  C19. A shutdown leaves no machine behind and touches no data: whatever the machines answer and however many of the deletes are through
  when the budget ends, after \<^verbatim>\<open>DrainAll\<close> no VM is registered and every workspace there was is there.
\<close>

theorem drain_leaves_none:
  assumes "reachable_host ip h"
  shows "list_vms (h_reg (drain_all ip env s finished h)) = [] \<and>
         (\<forall>i. l_workspace (h_base h) i \<in> h_files h \<longrightarrow> l_workspace (h_base h) i \<in> h_files (drain_all ip env s finished h))"
proof -
  have i: "in_slots h"
    using reachable_reg(1)[OF assms] by (auto simp: in_slots_def reg_inv_length the_vm_def dest: reg_inv_slotD)
  let ?vs = "list_vms (h_reg h)" and ?d = "drain_some ip env (take finished (list_vms (h_reg h))) h"
  obtain k where k: "snd (begin_stop (?vs ! finished) ?d) = k" "same_tables ?d k" "h_files k = h_files ?d"
    by (metis begin_stop_works snd_conv)
  have some: "taken_down (set vs) h (drain_some ip env vs h)" for vs
    unfolding drain_some_def by (rule takes_down_all[OF delete_takes_down i])
  have begun: "taken_down (set (take finished ?vs)) h k" by (rule taken_down_same[OF some k(2,3)])
  have rest: "taken_down (set (list_vms (h_reg k))) k (kill_remaining ip s k)"
    unfolding kill_remaining_def by (rule takes_down_all[OF kill_takes_down]) (use begun in \<open>simp_all add: taken_down_def\<close>)
  have clear: "list_vms (h_reg l) = []" if "taken_down (set (list_vms (h_reg k))) k l" for k l :: "'a host"
    using that none_listed[of "r_slots (h_reg k)" "set (list_vms (h_reg k))"] no_slot_no_vm
    by (simp add: taken_down_def list_vms_def)
  have "taken_down (set (take finished ?vs) \<union> set (list_vms (h_reg k))) h (kill_remaining ip s k)"
    using begun rest by (rule taken_down_trans)
  with clear[OF rest] clear[OF some[of ?vs]] some[of ?vs] show ?thesis
    by (auto simp: drain_all_def Let_def taken_down_def k(1))
qed

theorem drain_leaves_none_witness:
  "list_vms (h_reg (drain_all demo_ip (\<lambda>_. demo_stop) demo_stop 1 demo_disk)) = []"
  using drain_leaves_none[OF demo_disk_reachable] by blast

section \<open>The sweep\<close>

lemma workspace_not_run_root: "\<not> prefix (l_run_root base @ ''/'') (l_workspace base i)" "l_workspace base i \<noteq> l_run_root base"
  by (auto simp: l_workspace_def l_run_root_def path_join_def)

lemma killed_ours: "a \<in> set (kill_if_ours cmdline pid i) \<Longrightarrow>
   \<exists>b. a = SigKill (- pid) \<and> pid > 0 \<and> cmdline pid = Some b \<and>
     contains_str (List.map (\<lambda>c. if c = CHR 0x00 then CHR '' '' else c) b) ''firecracker''"
  by (cases "cmdline pid") (auto simp: kill_if_ours_def Let_def split: if_splits)

text \<open>
  The sweep at start spares the data and kills no stranger: every workspace is there after it, what is gone lay under the run
  directory, and a process is killed only if a state file names it and its command line names firecracker and the id of that file.
\<close>

theorem sweep_spares:
  assumes k_def: "k = sweep_host ip cmdline files h"
  shows "(\<forall>i. l_workspace (h_base h) i \<in> h_files h \<longrightarrow> l_workspace (h_base h) i \<in> h_files k) \<and>
         (\<forall>f \<in> h_files h - h_files k. prefix (l_run_root (h_base h) @ ''/'') f) \<and>
         (\<exists>new. h_acts k = h_acts h @ new \<and>
           (\<forall>a \<in> set new. \<exists>s b. Some s \<in> set files \<and> a = SigKill (- sf_pid s) \<and> cmdline (sf_pid s) = Some b \<and>
              contains_str (List.map (\<lambda>c. if c = CHR 0x00 then CHR '' '' else c) b) ''firecracker''))"
proof (intro conjI)
  show "\<forall>i. l_workspace (h_base h) i \<in> h_files h \<longrightarrow> l_workspace (h_base h) i \<in> h_files k"
    by (auto simp: k_def sweep_host_def Let_def os_remove_all_def add_path_def workspace_not_run_root)
  show "\<forall>f \<in> h_files h - h_files k. prefix (l_run_root (h_base h) @ ''/'') f"
    by (auto simp: k_def sweep_host_def Let_def os_remove_all_def add_path_def)
  have "h_acts k = h_acts h @ sweep_run_dirs cmdline files"
    by (simp add: k_def sweep_host_def Let_def os_remove_all_def add_path_def)
  moreover have "\<exists>s b. Some s \<in> set files \<and> a = SigKill (- sf_pid s) \<and> cmdline (sf_pid s) = Some b \<and>
      contains_str (List.map (\<lambda>c. if c = CHR 0x00 then CHR '' '' else c) b) ''firecracker''"
    if "a \<in> set (sweep_run_dirs cmdline files)" for a
    using that by (auto simp: sweep_run_dirs_def split: option.splits dest!: killed_ours)
  ultimately show "\<exists>new. h_acts k = h_acts h @ new \<and>
      (\<forall>a \<in> set new. \<exists>s b. Some s \<in> set files \<and> a = SigKill (- sf_pid s) \<and> cmdline (sf_pid s) = Some b \<and>
         contains_str (List.map (\<lambda>c. if c = CHR 0x00 then CHR '' '' else c) b) ''firecracker'')"
    by blast
qed

theorem sweep_spares_witness:
  "l_workspace ''/srv'' ''a'' \<in> h_files (sweep_host demo_ip (\<lambda>_. None) [] demo_disk)"
  using sweep_spares[OF refl, of demo_disk demo_ip "\<lambda>_. None" "[]"] by (simp add: demo_disk_eq)

text \<open>The guard against a reused process number is as strong as the id: a short id is in almost any command line.\<close>

lemma short_id_no_guard:
  "kill_if_ours (\<lambda>_. Some ''tail-f/root/firecracker-server/README'') 7 ''a'' = [SigKill (-7)]"
  by code_simp

text \<open>A machine whose state file was not written is not found: its process runs on over a disk the next machine of that id opens.\<close>

lemma unrecorded_survives: "h_acts (sweep_host ip cmdline [] h) = h_acts h"
  by (simp add: sweep_host_def sweep_run_dirs_def Let_def os_remove_all_def add_path_def)

section \<open>The console file\<close>

fun write_all :: "(nat \<times> string) list \<Rightarrow> capped \<Rightarrow> (nat \<times> bool) list \<times> capped" where
  "write_all [] c = ([], c)"
| "write_all ((n, p) # ps) c = (case write_capped n p c of (a, c1) \<Rightarrow> (case write_all ps c1 of (as, c2) \<Rightarrow> (a # as, c2)))"

lemma write_capped_cases:
  obtains a q where "write_capped n p c = ((length p, a), c\<lparr>cw_file := cw_file c @ q, cw_written := cw_written c + int (length q)\<rparr>)"
    and "length q \<le> nat (cw_limit c - cw_written c)"
    and "length p \<le> n \<longrightarrow> a \<and> q = take (nat (cw_limit c - cw_written c)) p"
proof (cases "cw_limit c - cw_written c \<le> 0")
  case True
  then show ?thesis by (intro that[of True "[]"]) (simp_all add: write_capped_def)
next
  case False
  define m where "m = (if int (length p) < cw_limit c - cw_written c then length p else nat (cw_limit c - cw_written c))"
  have m: "m \<le> length p" "m \<le> nat (cw_limit c - cw_written c)" "take m p = take (nat (cw_limit c - cw_written c)) p"
    using False by (auto simp: m_def)
  have "write_capped n p c =
      ((length p, min n m = m), c\<lparr>cw_file := cw_file c @ take (min n m) p, cw_written := cw_written c + int (min n m)\<rparr>)"
    using False by (simp add: write_capped_def Let_def m_def)
  with m show ?thesis by (intro that[of "min n m = m" "take (min n m) p"]) auto
qed

lemma write_all_grows:
  "\<lbrakk>write_all ps c = (as, c'); cw_written c \<le> cw_limit c\<rbrakk> \<Longrightarrow>
   List.map fst as = List.map (length \<circ> snd) ps \<and>
   (\<exists>q. cw_file c' = cw_file c @ q \<and> length q \<le> nat (cw_limit c - cw_written c) \<and>
     ((\<forall>(n, p) \<in> set ps. length p \<le> n) \<longrightarrow> q = take (nat (cw_limit c - cw_written c)) (concat (List.map snd ps)) \<and> (\<forall>a \<in> set as. snd a)))"
proof (induction ps arbitrary: c as)
  case Nil then show ?case by simp
next
  case (Cons np ps)
  obtain n p where np: "np = (n, p)" by force
  obtain a q where q: "write_capped n p c = ((length p, a), c\<lparr>cw_file := cw_file c @ q, cw_written := cw_written c + int (length q)\<rparr>)"
    and room: "length q \<le> nat (cw_limit c - cw_written c)"
    and whole: "length p \<le> n \<longrightarrow> a \<and> q = take (nat (cw_limit c - cw_written c)) p"
    by (rule write_capped_cases[of n p c])
  let ?c = "c\<lparr>cw_file := cw_file c @ q, cw_written := cw_written c + int (length q)\<rparr>"
  obtain bs where bs: "write_all ps ?c = (bs, c')" "as = (length p, a) # bs"
    using Cons.prems(1) q by (auto simp: np split: prod.splits)
  have le: "cw_written ?c \<le> cw_limit ?c" using room Cons.prems(2) by simp
  have left: "nat (cw_limit ?c - cw_written ?c) = nat (cw_limit c - cw_written c) - length q" using room by simp
  from Cons.IH[OF bs(1) le] obtain t where t: "cw_file c' = cw_file ?c @ t" "length t \<le> nat (cw_limit ?c - cw_written ?c)"
    "(\<forall>(n, p) \<in> set ps. length p \<le> n) \<Longrightarrow>
      t = take (nat (cw_limit ?c - cw_written ?c)) (concat (List.map snd ps)) \<and> (\<forall>a \<in> set bs. snd a)"
    "List.map fst bs = List.map (length \<circ> snd) ps" by blast
  have "q @ t = take (nat (cw_limit c - cw_written c)) (concat (List.map snd (np # ps))) \<and> (\<forall>a \<in> set as. snd a)"
    if "\<forall>(n, p) \<in> set (np # ps). length p \<le> n"
    using that whole t(3) left bs(2) by (auto simp: np min_def)
  moreover have "cw_file c' = cw_file c @ (q @ t)" "length (q @ t) \<le> nat (cw_limit c - cw_written c)"
    using t(1,2) left room by simp_all
  ultimately show ?case using t(4) bs(2) by (intro conjI exI[of _ "q @ t"]) (simp_all add: np)
qed

text \<open>
  A guest cannot fill the disk through its console: whatever it writes and however the writes go, the file grows by at most the
  limit, every write is reported as taken whole, and while no write fails the file holds exactly the first \<open>limit\<close> bytes.
\<close>

theorem console_bounded:
  assumes "0 \<le> limit" and "write_all ps (new_capped present limit) = (as, c)"
  shows "length (cw_file c) \<le> length present + nat limit \<and> List.map fst as = List.map (length \<circ> snd) ps \<and>
         ((\<forall>(n, p) \<in> set ps. length p \<le> n) \<longrightarrow>
            cw_file c = present @ take (nat limit) (concat (List.map snd ps)) \<and> (\<forall>a \<in> set as. snd a))"
  using write_all_grows[OF assms(2)] assms(1) by (auto simp: new_capped_def)

theorem console_bounded_witness:
  "cw_file (snd (write_all [(9, ''boot ''), (9, ''panic'')] (new_capped [] 8))) = ''boot pan''"
  using console_bounded[of 8 "[(9, ''boot ''), (9, ''panic'')]" "[]", OF _ prod.collapse[symmetric]] by simp

section \<open>Processor time\<close>

lemma after_paren_last: "CHR '')'' \<notin> set r \<Longrightarrow> after_paren (s @ CHR '')'' # r) = Some r"
  by (simp add: after_paren_def takeWhile_append)

text \<open>
  A process cannot lie about its processor time by its name: whatever bytes the name has, blanks and parentheses included, the
  reader finds the eleventh and twelfth field after it and adds them.
\<close>

theorem name_cannot_shift:
  assumes "13 \<le> length fs" and "\<forall>f \<in> set fs. f \<noteq> [] \<and> (\<forall>c \<in> set f. \<not> is_space c \<and> c \<noteq> CHR '')'')"
    and "fs ! 11 = dec u" "fs ! 12 = dec k" and "u < 2 ^ 64" "k < 2 ^ 64"
  shows "parse_stat_jiffies (dec pid @ '' ('' @ name @ '') '' @ join_with '' '' fs) = Some (of_nat (u + k))"
proof -
  have join: "c \<in> set (join_with '' '' ws) \<Longrightarrow> c = CHR '' '' \<or> (\<exists>w \<in> set ws. c \<in> set w)" for c ws
    by (induction "'' ''" ws rule: join_with.induct) auto
  have "CHR '')'' \<notin> set (CHR '' '' # join_with '' '' fs)" using join[of "CHR '')''" fs] assms(2) by auto
  then have "after_paren (dec pid @ '' ('' @ name @ '') '' @ join_with '' '' fs) = Some (CHR '' '' # join_with '' '' fs)"
    using after_paren_last[of "CHR '' '' # join_with '' '' fs" "dec pid @ '' ('' @ name"] by simp
  moreover have "fields_of (CHR '' '' # join_with '' '' fs) = fs" using assms(2) by (simp add: fields_of_join)
  moreover have "parse_uint (dec n) = Some (of_nat n)" if "n < 2 ^ 64" for n
    using that dec_digits[of _ n] by (simp add: parse_uint_def list_all_iff)
  ultimately show ?thesis using assms(1,3-6) by (simp add: parse_stat_jiffies_def Let_def)
qed

theorem name_cannot_shift_witness:
  "parse_stat_jiffies (dec 7 @ '' ('' @ ''we ird) (name'' @ '') '' @ join_with '' ''
     [''S'', ''1'', ''7'', ''7'', ''0'', ''-1'', ''0'', ''0'', ''0'', ''0'', ''0'', ''11'', ''22'']) = Some (of_nat (11 + 22))"
  by (rule name_cannot_shift) (simp_all add: is_space_def dec.simps digit_char_def nth_Cons')

end
