(* ===== verification/ControlApiProps.thy ===== *)
theory ControlApiProps
  imports ControlApi VmHostProps
begin

text \<open>
  What the control plane's replies say: of a creation, of a request passed on to a guest, and of the token that comes back as a
  cookie.
\<close>

section \<open>Creating\<close>

lemma prepare_fails_io: "prepare_workspace e v h = (Some err, k) \<Longrightarrow> \<exists>t. err = ErrIO t"
  by (auto simp: prepare_workspace_def fsck_workspace_def Let_def split: if_splits option.splits)

lemma tap_fails_io: "h_create_tap ip v h = (Some err, k) \<Longrightarrow> \<exists>t. err = ErrIO t"
  by (auto simp: h_create_tap_def split: prod.splits)

lemma config_fails_io: "write_config_json e v h = (Some err, k) \<Longrightarrow> \<exists>t. err = ErrIO t"
  by (auto simp: write_config_json_def Let_def split: if_splits)

lemma spawn_fails_io: "spawn e v h = (Some err, k) \<Longrightarrow> \<exists>t. err = ErrIO t"
  by (auto simp: spawn_def Let_def split: if_splits option.splits)

lemma wait_fails_io: "wait_for_agent ps = Some err \<Longrightarrow> \<exists>t. err = ErrIO t"
  by (induction ps rule: wait_for_agent.induct) auto

lemma boot_fails_io:
  assumes "boot ip e v h = (Some err, k)"
  shows "\<exists>t. err = ErrIO t"
proof (cases "e_mkdir_run e")
  case False
  with assms show ?thesis by (auto simp: boot_def)
next
  case True
  with assms show ?thesis unfolding boot_def Let_def
    by (auto split: prod.splits option.splits dest: prepare_fails_io tap_fails_io config_fails_io spawn_fails_io wait_fails_io)
qed

lemma same_tables_boot: "same_tables h (snd (boot ip e v h))"
proof -
  obtain r2 h2 where 2: "prepare_workspace e v (add_path (l_run_dir (h_base h) (vm_id (the_vm h v))) h) = (r2, h2)" by force
  obtain r3 h3 where 3: "h_create_tap ip v h2 = (r3, h3)" by force
  obtain r4 h4 where 4: "write_config_json e v h3 = (r4, h4)" by force
  obtain r5 h5 where 5: "spawn e v h4 = (r5, h5)" by force
  have s: "same_tables h h2" using same_tables_trans[OF same_tables_add same_tables_prepare] 2 by (metis snd_conv)
  have t: "same_tables h h3" using same_tables_trans[OF s same_tables_tap[of h2 ip v]] 3 by simp
  have u: "same_tables h h4" using same_tables_trans[OF t same_tables_config[of h3 e v]] 4 by simp
  have v: "same_tables h h5" using same_tables_trans[OF u same_tables_spawn[of h4 e v]] 5 by simp
  from s t u v 2 3 4 5 show ?thesis by (simp add: boot_def Let_def split: option.splits)
qed

lemma created_runs:
  assumes "create_vm ip e s now i h = (Inr v, k)"
  shows "r_byid (h_reg k) i = Some v \<and> snapshot v (h_reg k) = Running"
proof -
  obtain h1 where al: "h_allocate now i h = (Inr v, h1)" using assms by (auto simp: create_vm_def split: prod.splits sum.splits option.splits)
  obtain o2 h2 where bt: "boot ip e v h1 = (o2, h2)" by force
  from assms al bt have k: "o2 = None" "h_set_state v Running h2 = (None, k)" by (auto simp: create_vm_def split: prod.splits option.splits)
  have "r_byid (h_reg h1) i = Some v"
    using h_allocate_simps[of now i h] al by (auto simp: allocate_def Let_def split: if_splits option.splits)
  moreover have "same_tables h1 k"
    using same_tables_trans[OF same_tables_boot[of h1 ip e v] same_tables_state[of "snd (boot ip e v h1)" v Running]] bt k by simp
  moreover have "snapshot v (h_reg k) = Running"
    using h_set_state_simps(1)[of v Running h2] h_set_state_simps(6)[of v Running h2] k(2)
    by (auto simp: snapshot_def set_state_def Let_def split: if_splits)
  ultimately show ?thesis by (simp add: same_tables_def)
qed

lemma no_slot_error:
  assumes "create_vm ip e s now i h = (Inl (ErrNoSlots a b), k)"
  shows "free_slot (h_reg h) = None"
proof (cases "h_allocate now i h")
  case (Pair r h1)
  show ?thesis
  proof (cases r)
    case (Inl x)
    then show ?thesis using assms Pair h_allocate_simps[of now i h]
      by (auto simp: create_vm_def allocate_def Let_def split: if_splits option.splits)
  next
    case (Inr v)
    have "h_set_state v Running h2 \<noteq> (Some (ErrNoSlots a b), h3)" for h2 h3 :: "'a host"
      by (auto simp: h_set_state_def set_state_def Let_def split: if_splits)
    with assms Pair Inr boot_fails_io[of ip e v h1 "ErrNoSlots a b"] show ?thesis
      by (auto simp: create_vm_def split: prod.splits option.splits)
  qed
qed



section \<open>Requests to a guest\<close>

text \<open>
  A guest is sent no credential in a header: what is passed on to a machine goes to a running machine at its own address, on the
  port asked for, under a rooted path, with neither the token's header nor its cookie.
\<close>

theorem guest_headers_clean:
  assumes "handle_proxy port kind i path query headers a = Inr g"
  shows "(\<exists>v. r_byid (h_reg (sv_host a)) i = Some v \<and> snapshot v (h_reg (sv_host a)) = Running \<and> gq_host g = guest_ip (the_vm (sv_host a) v)) \<and>
         gq_port g = port \<and> (\<exists>rest. gq_path g = CHR ''/'' # rest) \<and>
         (\<forall>(k, x) \<in> set (gq_headers g). k \<noteq> ''Authorization'' \<and> k \<noteq> ''Cookie'' \<and> (k, x) \<in> set headers)"
proof -
  have "\<exists>rest. trim_prefix p q = CHR ''/'' # rest" for p q
    by (cases "if prefix q p then drop (length q) p else p") (auto simp: trim_prefix_def Let_def)
  with assms show ?thesis by (auto simp: handle_proxy_def get_vm_def Let_def split: if_splits option.splits)
qed

definition demo_running :: "string set api" where
  "demo_running = \<lparr>sv_host = snd (h_set_state 0 Running demo_two), sv_usage = Map.empty, sv_seq = 0\<rparr>"

lemma demo_proxied:
  "handle_proxy 7070 ''agent'' ''a'' ''/vms/a/agent/files'' [(''token'', ''fleet'')] [(''Authorization'', ''x''), (''Accept'', ''y'')] demo_running =
     Inr \<lparr>gq_host = guest_ip (new_vm 0 ''a'' 0), gq_port = 7070, gq_path = ''/files'', gq_query = [(''token'', ''fleet'')],
          gq_headers = [(''Accept'', ''y'')]\<rparr>"
  by (simp add: handle_proxy_def get_vm_def demo_running_def demo_two_reg set_state_def can_transition_def new_vm_def slot_addrs_def
      snapshot_def the_vm_def upd_vm_def trim_prefix_def Let_def)

theorem guest_headers_clean_witness: "\<exists>g. handle_proxy 7070 ''agent'' ''a'' ''/vms/a/agent/files'' [(''token'', ''fleet'')]
    [(''Authorization'', ''x''), (''Accept'', ''y'')] demo_running = Inr g \<and> gq_port g = 7070"
  using guest_headers_clean[OF demo_proxied] demo_proxied by auto

text \<open>The token of a link is passed on: a guest opened with it in the address reads it there.\<close>

lemma link_token_reaches_guest:
  "guard_request ''fleet'' True ''a'' \<lparr>cr_header = [], cr_query = ''fleet'', cr_cookie = None\<rparr> = Inr (Some ''/vms/a/'') \<and>
   (\<exists>g. handle_proxy 7070 ''agent'' ''a'' ''/vms/a/agent/files'' [(''token'', ''fleet'')] [(''Authorization'', ''x''), (''Accept'', ''y'')]
      demo_running = Inr g \<and> (''token'', ''fleet'') \<in> set (gq_query g))"
  by (simp add: guard_request_def extract_token_def cookie_path_def demo_proxied)

section \<open>The cookie\<close>

text \<open>
  The routes of one machine confine the token's cookie to that machine; three routes without a machine set it for the whole origin,
  guests' pages included.
\<close>

definition cookie_of :: "string \<Rightarrow> route_guard \<Rightarrow> string option" where
  "cookie_of pattern g =
     (case guard_request ''fleet'' (g = GuardedCookie) (route_id pattern ''a'') \<lparr>cr_header = [], cr_query = ''fleet'', cr_cookie = None\<rparr> of
        Inr c \<Rightarrow> (if g = Unguarded then None else c) | Inl _ \<Rightarrow> None)"

lemma fleet_cookie_at_root:
  "List.map fst (filter (\<lambda>(p, g). cookie_of p g = Some ''/'') api_routes) = [''GET /capacity'', ''POST /vms'', ''GET /vms'']"
  by code_simp

end
