(* ===== verification/AppPolicyProps.thy ===== *)
theory AppPolicyProps
  imports AppPolicy
begin

text \<open>
  What the settings of connected apps promise: nothing runs that neither the provider's annotation, nor a standing setting, nor an
  answer to a card allows; what is switched off does not run, whatever consent is still standing; the answer pushed to a machine fits,
  and what does not fit asks; a session is only ever used at the address the machine was last told.
\<close>

section \<open>The pushed answer\<close>

lemma flatten_kinds:
  "map_of (fold (\<lambda>(slug, capability). AList.update slug (action_for capability (policy_at policy app capability))) ks out) s = Some a \<Longrightarrow>
   map_of out s = Some a \<or> (\<exists>capability. (s, capability) \<in> set ks \<and> a = action_for capability (policy_at policy app capability))"
  by (induction ks arbitrary: out) (fastforce simp: update_conv' split: if_splits)+

lemma flatten_source:
  assumes "map_of (flatten held policy) s = Some a"
  shows "\<exists>app ks capability. (app, ks) \<in> set held \<and> (s, capability) \<in> set ks \<and> a = action_for capability (policy_at policy app capability)"
proof -
  have "map_of (fold (\<lambda>(app, ks) out. fold (\<lambda>(slug, capability). AList.update slug (action_for capability (policy_at policy app capability))) ks out)
      xs out) s = Some a \<Longrightarrow> set xs \<subseteq> set held \<Longrightarrow>
    map_of out s = Some a \<or> (\<exists>app ks capability. (app, ks) \<in> set held \<and> (s, capability) \<in> set ks \<and> a = action_for capability (policy_at policy app capability))"
    for xs out
  proof (induction xs arbitrary: out)
    case (Cons x xs)
    obtain app ks where x: "x = (app, ks)" by fastforce
    show ?case using Cons.IH[of "fold (\<lambda>(slug, capability). AList.update slug (action_for capability (policy_at policy app capability))) ks out"]
        Cons.prems flatten_kinds[of policy app ks out s a] unfolding x by auto
  qed simp
  from this[of held "[]"] assms show ?thesis by (auto simp: flatten_def)
qed

lemma budgeted_subset: "set (budgeted held) \<subseteq> set held"
proof (induction held rule: budgeted.induct)
  case (1 held)
  have "set (AList.delete (largest held) held) \<subseteq> set held" by (auto simp: AList.delete_eq)
  then show ?case using 1 by (subst budgeted.simps) auto
qed

lemma budgeted_fits: "push_bytes (budgeted held) \<le> apps_action_bytes"
  by (induction held rule: budgeted.induct) (subst budgeted.simps, simp)

text \<open>The only action that runs by itself is a read, or a write or deletion the person set so; the only one refused is one they set so.\<close>

lemma action_for_auto:
  "action_for capability chosen = action_auto \<Longrightarrow>
   capability = cap_read \<or> ((capability = cap_write \<or> capability = cap_delete) \<and> chosen = action_auto)"
  by (auto simp: action_for_def action_auto_def action_never_def action_ask_def split: if_splits)

lemma needs_known: "needs actions s = action_auto \<or> needs actions s = action_never \<Longrightarrow> map_of actions s = Some (needs actions s)"
  by (auto simp: needs_def action_ask_def action_auto_def action_never_def split: option.splits if_splits)

section \<open>A batch\<close>

lemma permit_all_keeps: "permit_all actions gate cs yes = (r, yes') \<Longrightarrow> set yes \<subseteq> set yes'"
  by (induction cs arbitrary: yes) (fastforce simp: Let_def split: if_splits sum.splits)+

lemma permit_all_allows:
  "permit_all actions gate cs yes = (Inr u, yes') \<Longrightarrow> c \<in> set cs \<Longrightarrow>
   needs actions (ac_slug c) = action_auto \<or> (needs actions (ac_slug c) = action_ask \<and> ac_slug c \<in> set yes')"
proof (induction cs arbitrary: yes)
  case (Cons x xs)
  have ask: "needs actions (ac_slug x) = action_ask" if "needs actions (ac_slug x) \<noteq> action_auto" "needs actions (ac_slug x) \<noteq> action_never"
    using that by (auto simp: needs_def split: option.splits if_splits)
  show ?case
  proof (cases "c \<in> set xs")
    case True
    then show ?thesis using Cons.IH Cons.prems(1) by (auto simp: Let_def split: if_splits sum.splits)
  next
    case False
    then have "c = x" using Cons.prems(2) by simp
    then show ?thesis using Cons.prems(1) ask permit_all_keeps[of actions gate xs "yes @ [ac_slug x]" "Inr u" yes']
      by (auto simp: Let_def split: if_splits sum.splits)
  qed
qed simp

lemma permit_all_asked:
  "permit_all actions gate cs yes = (r, yes') \<Longrightarrow> s \<in> set yes' \<Longrightarrow> s \<in> set yes \<or> (\<exists>n u. gate n s = Inr u \<and> needs actions s \<noteq> action_never)"
  by (induction cs arbitrary: yes) (fastforce simp: Let_def split: if_splits sum.splits)+


definition demo_held :: "(string \<times> kinds) list" where
  "demo_held = [(''gmail'', [(''GMAIL_READ'', cap_read), (''GMAIL_SEND'', cap_write)])]"

definition demo_batch :: "(string \<times> json) list" where
  "demo_batch = [(''tools'', JList [JObj [(''tool_slug'', JText ''GMAIL_READ'')], JObj [(''tool_slug'', JText ''GMAIL_SEND'')]])]"

lemma demo_budget: "budgeted demo_held = demo_held"
  by (subst budgeted.simps) (simp add: push_bytes_def demo_held_def apps_action_bytes_def cap_read_def cap_write_def)

lemma demo_run:
  "run_call (flatten (budgeted demo_held) []) (\<lambda>n s. Inr ()) apps_exec_tool demo_batch =
    (Inr [\<lparr>ac_slug = ''GMAIL_READ'', ac_args = []\<rparr>, \<lparr>ac_slug = ''GMAIL_SEND'', ac_args = []\<rparr>], [''GMAIL_SEND''])"
  unfolding demo_budget by code_simp


text \<open>
  C12. What is switched off does not run, whatever consent is still standing: a batch that names an action the person set to never is
  refused, nothing of it runs, and the gate is never asked about that action, so no consent can be spent on it.
\<close>

theorem never_means_never:
  assumes "calls_in name args = Some cs" and "c \<in> set cs" and "map_of actions (ac_slug c) = Some action_never"
  shows "\<exists>e yes. run_call actions gate name args = (Inl e, yes) \<and> ac_slug c \<notin> set yes"
proof -
  have never: "needs actions (ac_slug c) = action_never" using assms(3) by (simp add: needs_def)
  then have bad: "needs actions (ac_slug c) \<noteq> action_auto" "needs actions (ac_slug c) \<noteq> action_ask"
    by (simp_all add: action_auto_def action_never_def action_ask_def)
  obtain r yes where run: "permit_all actions gate cs [] = (r, yes)" by fastforce
  then obtain e where "r = Inl e" using permit_all_allows[OF _ assms(2)] bad by (cases r) auto
  moreover have "ac_slug c \<notin> set yes" using permit_all_asked[OF run, of "ac_slug c"] never by auto
  ultimately show ?thesis using run assms(1) by (simp add: run_call_def)
qed

theorem never_means_never_witness:
  "\<exists>e yes. run_call [(''GMAIL_SEND'', action_never)] (\<lambda>n s. Inr ()) apps_exec_tool demo_batch = (Inl e, yes) \<and> ''GMAIL_SEND'' \<notin> set yes"
proof -
  have "calls_in apps_exec_tool demo_batch = Some [\<lparr>ac_slug = ''GMAIL_READ'', ac_args = []\<rparr>, \<lparr>ac_slug = ''GMAIL_SEND'', ac_args = []\<rparr>]"
    by code_simp
  from never_means_never[OF this, of "\<lparr>ac_slug = ''GMAIL_SEND'', ac_args = []\<rparr>"] show ?thesis by simp
qed

section \<open>The push fits\<close>

definition known_kinds :: "(string \<times> kinds) list \<Rightarrow> bool" where
  "known_kinds held \<longleftrightarrow> (\<forall>(app, ks)\<in>set held. \<forall>(slug, capability)\<in>set ks. capability \<in> {cap_read, cap_write, cap_delete})"

text \<open>What the answer costs on the wire: per entry a quoted slug, a colon, a quoted word and a comma.\<close>

definition encoded_bytes :: "(string \<times> string) list \<Rightarrow> nat" where
  "encoded_bytes actions = sum_list (List.map (\<lambda>(slug, a). length slug + length a + 6) actions)"

lemma encoded_update: "encoded_bytes (AList.update s a xs) \<le> encoded_bytes xs + (length s + 6) + length a"
  by (induction xs) (auto simp: encoded_bytes_def)

lemma action_short: "length (action_for capability chosen) \<le> 5"
  by (auto simp: action_for_def action_auto_def action_ask_def action_never_def)

lemma entry_cost: "x \<le> y + (s + 6) + a \<Longrightarrow> a \<le> 5 \<Longrightarrow> 3 \<le> c \<Longrightarrow> 9 * x \<le> 9 * y + 11 * (s + c + (6::nat))"
  by simp

lemma encoded_kinds:
  assumes "\<forall>(slug, capability)\<in>set ks. capability \<in> {cap_read, cap_write, cap_delete}"
  shows "9 * encoded_bytes (fold (\<lambda>(slug, capability). AList.update slug (action_for capability (policy_at policy app capability))) ks out) \<le>
    9 * encoded_bytes out + 11 * sum_list (List.map (\<lambda>(slug, capability). length slug + length capability + 6) ks)"
  using assms
proof (induction ks arbitrary: out)
  case (Cons k ks)
  obtain slug capability where k: "k = (slug, capability)" by fastforce
  let ?a = "action_for capability (policy_at policy app capability)"
  have "3 \<le> length capability" using Cons.prems k by (auto simp: cap_read_def cap_write_def cap_delete_def)
  then have "9 * encoded_bytes (AList.update slug ?a out) \<le> 9 * encoded_bytes out + 11 * (length slug + length capability + 6)"
    by (intro entry_cost[OF encoded_update action_short])
  then show ?case using Cons.IH[of "AList.update slug ?a out"] Cons.prems k by auto
qed simp

text \<open>
  A push is never refused for its size: whatever somebody connected and however it is annotated, the resolved answer, with whole apps
  dropped largest first until it fits the host's budget, is under 240,300 bytes on the wire, which leaves the guest's limit of 256 KiB
  some twenty thousand for the session beside it.
\<close>

theorem push_fits:
  assumes "known_kinds held"
  shows "encoded_bytes (flatten (budgeted held) policy) \<le> 240300"
proof -
  have "9 * encoded_bytes (fold (\<lambda>(app, ks) out.
      fold (\<lambda>(slug, capability). AList.update slug (action_for capability (policy_at policy app capability))) ks out) xs out) \<le>
    9 * encoded_bytes out + 11 * push_bytes xs" if "set xs \<subseteq> set held" for xs out
    using that
  proof (induction xs arbitrary: out)
    case (Cons x xs)
    obtain app ks where x: "x = (app, ks)" by fastforce
    have "\<forall>(slug, capability)\<in>set ks. capability \<in> {cap_read, cap_write, cap_delete}"
      using Cons.prems x assms by (auto simp: known_kinds_def)
    from encoded_kinds[OF this, of policy app out] Cons.IH[of "fold (\<lambda>(slug, capability). AList.update slug (action_for capability (policy_at policy app capability))) ks out"]
      Cons.prems x show ?case by (simp add: push_bytes_def)
  qed (simp add: push_bytes_def)
  from this[OF budgeted_subset, of "[]"] have "9 * encoded_bytes (flatten (budgeted held) policy) \<le> 11 * push_bytes (budgeted held)"
    by (simp add: flatten_def encoded_bytes_def)
  then show ?thesis using budgeted_fits[of held] by (simp add: apps_action_bytes_def)
qed

theorem push_fits_witness: "encoded_bytes (flatten (budgeted demo_held) []) \<le> 240300"
  by (rule push_fits) (simp add: known_kinds_def demo_held_def)

end
