(* ===== verification/AppsGateProps.thy ===== *)
theory AppsGateProps
  imports AppsGate AppPolicyProps
begin

text \<open>
  What the brokers promise: an account has one machine and a machine one account; a ticket opens the session of the person whose machine
  it was last minted for, from that machine's address and nowhere else, and the provider's key goes to the provider alone. And a way a
  person's setting is not heard.
\<close>

section \<open>One machine each\<close>

definition no_hyphen :: "char \<Rightarrow> bool" where
  "no_hyphen c \<longleftrightarrow> c \<noteq> CHR ''-''"

lemma hex_no_hyphen: "hex_lower_char c \<Longrightarrow> no_hyphen c"
  by (auto simp: hex_lower_char_def no_hyphen_def is_digit_def)

lemma shape_nth: "uuid_shape s \<Longrightarrow> n < 36 \<Longrightarrow> if n \<in> {8, 13, 18, 23} then s ! n = CHR ''-'' else hex_lower_char (s ! n)"
  by (simp add: uuid_shape_def list_all_iff)

text \<open>A segment between two hyphens, and what dropping the hyphens makes of the whole.\<close>

definition segment :: "nat \<Rightarrow> nat \<Rightarrow> 'a list \<Rightarrow> 'a list" where
  "segment i n s = take n (drop i s)"

lemma segment_length: "length s = 36 \<Longrightarrow> i + n \<le> 36 \<Longrightarrow> length (segment i n s) = n"
  by (simp add: segment_def)

lemma segment_hex:
  assumes "uuid_shape s" and "i + n \<le> 36" and "\<forall>k. i \<le> k \<and> k < i + n \<longrightarrow> k \<notin> {8, 13, 18, 23}"
  shows "\<forall>c\<in>set (segment i n s). hex_lower_char c"
proof
  fix c assume "c \<in> set (segment i n s)"
  moreover have "length s = 36" using assms(1) by (simp add: uuid_shape_def)
  ultimately obtain k where "k < n" "c = s ! (i + k)"
    using assms(2) by (auto simp: segment_def in_set_conv_nth)
  then show "hex_lower_char c" using shape_nth[OF assms(1), of "i + k"] assms(2,3) by (auto split: if_splits)
qed

lemma shape_parts:
  assumes "uuid_shape s"
  shows "s = segment 0 8 s @ CHR ''-'' # segment 9 4 s @ CHR ''-'' # segment 14 4 s @ CHR ''-'' # segment 19 4 s @ CHR ''-'' # segment 24 12 s"
    (is "s = ?t")
proof (rule nth_equalityI)
  have len: "length s = 36" using assms by (simp add: uuid_shape_def)
  show "length s = length ?t" using len by (simp add: segment_length)
  have hyphens: "s ! 8 = CHR ''-''" "s ! 13 = CHR ''-''" "s ! 18 = CHR ''-''" "s ! 23 = CHR ''-''"
    using shape_nth[OF assms, of 8] shape_nth[OF assms, of 13] shape_nth[OF assms, of 18] shape_nth[OF assms, of 23] by simp_all
  fix n assume "n < length s"
  then have n: "n < 36" by (simp add: len)
  show "s ! n = ?t ! n"
    using n hyphens len
    by (cases "n = 13"; cases "n = 18"; cases "n = 23") (auto simp: nth_append nth_Cons' segment_def min_def not_less)
qed

definition bare :: "string \<Rightarrow> string" where
  "bare s = segment 0 8 s @ segment 9 4 s @ segment 14 4 s @ segment 19 4 s @ segment 24 12 s"

lemma bare_is_filtered:
  assumes "uuid_shape s" shows "filter (\<lambda>c. c \<noteq> CHR ''-'') s = bare s"
proof -
  have keep: "filter (\<lambda>c. c \<noteq> CHR ''-'') xs = xs" if "\<forall>c\<in>set xs. hex_lower_char c" for xs
    using that hex_no_hyphen by (auto simp: no_hyphen_def filter_id_conv)
  have "\<forall>c\<in>set (segment 0 8 s). hex_lower_char c" "\<forall>c\<in>set (segment 9 4 s). hex_lower_char c"
    "\<forall>c\<in>set (segment 14 4 s). hex_lower_char c" "\<forall>c\<in>set (segment 19 4 s). hex_lower_char c" "\<forall>c\<in>set (segment 24 12 s). hex_lower_char c"
    by (rule segment_hex[OF assms]; auto)+
  then show ?thesis by (subst shape_parts[OF assms]) (simp add: bare_def keep)
qed

lemma bare_determines:
  assumes "uuid_shape s" and "uuid_shape t" and "bare s = bare t" shows "s = t"
proof -
  have len: "length s = 36" "length t = 36" using assms by (simp_all add: uuid_shape_def)
  then have "segment 0 8 s = segment 0 8 t" "segment 9 4 s = segment 9 4 t" "segment 14 4 s = segment 14 4 t"
    "segment 19 4 s = segment 19 4 t" "segment 24 12 s = segment 24 12 t"
    using assms(3) by (simp_all add: bare_def segment_length append_eq_append_conv)
  then show ?thesis using shape_parts[OF assms(1)] shape_parts[OF assms(2)] by metis
qed

lemma bare_valid:
  assumes "uuid_shape s" shows "valid_id (bare s)"
proof -
  have len: "length s = 36" using assms by (simp add: uuid_shape_def)
  have hex: "\<forall>c\<in>set (bare s). hex_lower_char c"
    using segment_hex[OF assms, of 0 8] segment_hex[OF assms, of 9 4] segment_hex[OF assms, of 14 4] segment_hex[OF assms, of 19 4]
      segment_hex[OF assms, of 24 12] by (auto simp: bare_def)
  have "length (bare s) = 32" using len by (simp add: bare_def segment_length)
  then show ?thesis using hex by (cases "bare s") (auto simp: valid_id_def id_start_def hex_lower_char_def is_digit_def list_all_iff)
qed

text \<open>
  C9. Every account has a machine and no two share one: a user id has a machine exactly when it has the shape of a UUID, the machine's id is
  one the control plane takes, and ids that differ in more than the case of their letters name different machines.
\<close>

theorem one_machine_each:
  "(machine_for u \<noteq> [] \<longleftrightarrow> uuid_shape (List.map to_lower u)) \<and>
   (machine_for u \<noteq> [] \<longrightarrow> valid_id (machine_for u)) \<and>
   (machine_for u \<noteq> [] \<and> machine_for u = machine_for v \<longrightarrow> List.map to_lower u = List.map to_lower v)"
proof -
  have eq: "machine_for w = (if uuid_shape (List.map to_lower w) then bare (List.map to_lower w) else [])" for w
    by (simp add: machine_for_def Let_def bare_is_filtered bare_valid)
  have ne: "bare s \<noteq> []" if "uuid_shape s" for s using bare_valid[OF that] by (auto simp: valid_id_def)
  show ?thesis using bare_determines by (auto simp: eq ne bare_valid split: if_splits)
qed

definition demo_user :: string where "demo_user = ''0a1b2c3d-0000-4000-8000-00000000000F''"

theorem one_machine_each_witness:
  "machine_for demo_user = ''0a1b2c3d00004000800000000000000f'' \<and>
   \<not> (machine_for demo_user = machine_for ''0a1b2c3d-0000-4000-8000-00000000000e'')"
proof -
  have "machine_for demo_user = ''0a1b2c3d00004000800000000000000f''" by code_simp
  moreover have "List.map to_lower demo_user \<noteq> List.map to_lower ''0a1b2c3d-0000-4000-8000-00000000000e''" by code_simp
  ultimately have "machine_for demo_user \<noteq> machine_for ''0a1b2c3d-0000-4000-8000-00000000000e''"
    using one_machine_each[of demo_user "''0a1b2c3d-0000-4000-8000-00000000000e''"] by auto
  then show ?thesis using \<open>machine_for demo_user = ''0a1b2c3d00004000800000000000000f''\<close> by simp
qed

section \<open>Tickets\<close>

datatype gate_op =
    GPush "string option" string string nat "app_session option" "connection list option" "string list \<Rightarrow> app_policy \<Rightarrow> (string \<times> string) list"
  | GForget string

text \<open>A push is for a person, whose machine is at the address given.\<close>

fun gate_do :: "url_reader \<Rightarrow> gate_op \<Rightarrow> apps_gw \<Rightarrow> apps_gw" where
  "gate_do read (GPush ticket user guest slot row conns decide) g =
     snd (push_apps read ticket (machine_for user) guest slot row conns decide g)"
| "gate_do read (GForget machine) g = forget_route machine g"

fun minted :: "url_reader \<Rightarrow> gate_op \<Rightarrow> (string \<times> apps_route) option" where
  "minted read (GPush (Some t) user guest slot (Some row) (Some conns) decide) =
     (if guest \<noteq> [] \<and> valid_upstream read (se_url row)
      then Some (t, \<lparr>ar_machine = machine_for user, ar_guest = guest, ar_upstream = se_url row\<rparr>) else None)"
| "minted read _ = None"

text \<open>What takes a route away: another of its machine or of its address, or its machine created anew or erased.\<close>

definition displaces :: "url_reader \<Rightarrow> apps_route \<Rightarrow> gate_op \<Rightarrow> bool" where
  "displaces read r x =
     (case x of
        GForget m \<Rightarrow> ar_machine r = m
      | GPush _ _ _ _ _ _ _ \<Rightarrow>
          (case minted read x of None \<Rightarrow> False | Some (t, r') \<Rightarrow> ar_machine r' = ar_machine r \<or> ar_guest r' = ar_guest r))"

lemma minted_inverts:
  "minted read x = Some tr \<Longrightarrow> \<exists>t user guest slot row conns decide. x = GPush (Some t) user guest slot (Some row) (Some conns) decide \<and>
     guest \<noteq> [] \<and> valid_upstream read (se_url row) \<and>
     tr = (t, \<lparr>ar_machine = machine_for user, ar_guest = guest, ar_upstream = se_url row\<rparr>)"
  by (cases "(read, x)" rule: minted.cases) (auto split: if_splits)

lemma update_member: "e \<in> set (AList.update k v xs) \<Longrightarrow> e = (k, v) \<or> e \<in> set xs"
  by (induction xs) (auto split: if_splits)

lemma evict_subset: "set (evict_to n m) \<subseteq> set m"
  by (simp add: evict_to_def set_drop_subset)

lemma evict_bound: "0 < n \<Longrightarrow> length (evict_to n m) < n"
  by (simp add: evict_to_def)

lemma evict_distinct: "distinct (List.map fst m) \<Longrightarrow> distinct (List.map fst (evict_to n m))"
  by (simp add: evict_to_def flip: drop_map)

lemma drop_routes_distinct: "distinct (List.map fst m) \<Longrightarrow> distinct (List.map fst (drop_routes a b m))"
  by (simp add: drop_routes_def distinct_map_filter)

lemma register_mints:
  assumes "valid_upstream read (se_url row)" and "guest \<noteq> []"
  shows "snd (push_apps read (Some t) machine guest slot (Some row) (Some conns) decide g) =
    g\<lparr>gw_routes := AList.update t \<lparr>ar_machine = machine, ar_guest = guest, ar_upstream = se_url row\<rparr>
      (evict_to apps_route_cap (drop_routes machine guest (gw_routes g)))\<rparr>"
  using assms by (simp add: push_apps_def Let_def register_route_def valid_upstream_def)

lemma push_unminted:
  assumes "minted read (GPush ticket user guest slot row conns decide) = None"
  shows "snd (push_apps read ticket (machine_for user) guest slot row conns decide g) = g"
  using assms
  by (cases ticket; cases row; cases conns)
    (auto simp: push_apps_def Let_def register_route_def valid_upstream_def split: if_splits option.splits)

text \<open>The routes of a broker are those minted and not displaced since.\<close>

definition earned :: "url_reader \<Rightarrow> gate_op list \<Rightarrow> string \<times> apps_route \<Rightarrow> bool" where
  "earned read ops tr \<longleftrightarrow> (\<exists>xs x ys. ops = xs @ x # ys \<and> minted read x = Some tr \<and> (\<forall>y\<in>set ys. \<not> displaces read (snd tr) y))"

lemma earned_kept: "earned read ops tr \<Longrightarrow> \<not> displaces read (snd tr) x \<Longrightarrow> earned read (ops @ [x]) tr"
proof -
  assume "earned read ops tr" and not: "\<not> displaces read (snd tr) x"
  then obtain xs y ys where "ops = xs @ y # ys" "minted read y = Some tr" "\<forall>z\<in>set ys. \<not> displaces read (snd tr) z"
    by (auto simp: earned_def)
  then show ?thesis unfolding earned_def using not by (intro exI[of _ xs] exI[of _ y] exI[of _ "ys @ [x]"]) auto
qed

lemma earned_new: "minted read x = Some tr \<Longrightarrow> earned read (ops @ [x]) tr"
  unfolding earned_def by (intro exI[of _ ops] exI[of _ x] exI[of _ "[]"]) simp

definition gate_sound :: "url_reader \<Rightarrow> gate_op list \<Rightarrow> apps_gw \<Rightarrow> bool" where
  "gate_sound read ops g \<longleftrightarrow> distinct (List.map fst (gw_routes g)) \<and> (\<forall>tr\<in>set (gw_routes g). earned read ops tr)"

lemma gate_do_key: "gw_key (gate_do read x g) = gw_key g"
  by (cases x) (auto simp: push_apps_def Let_def register_route_def forget_route_def split: option.splits)

lemma gate_do_sound:
  assumes "gate_sound read ops g" shows "gate_sound read (ops @ [x]) (gate_do read x g)"
proof (cases "minted read x")
  case (Some tr)
  then obtain t user guest slot row conns decide where x: "x = GPush (Some t) user guest slot (Some row) (Some conns) decide"
    and ok: "guest \<noteq> []" "valid_upstream read (se_url row)"
    and tr: "tr = (t, \<lparr>ar_machine = machine_for user, ar_guest = guest, ar_upstream = se_url row\<rparr>)"
    using minted_inverts[OF Some] by blast
  let ?old = "evict_to apps_route_cap (drop_routes (machine_for user) guest (gw_routes g))"
  have g': "gw_routes (gate_do read x g) = AList.update t (snd tr) ?old"
    unfolding x using register_mints[OF ok(2,1), of t] by (simp add: tr)
  have old: "earned read (ops @ [x]) e" if "e \<in> set ?old" for e
  proof -
    have e: "e \<in> set (gw_routes g)" "\<not> (ar_machine (snd e) = machine_for user \<or> ar_guest (snd e) = guest)"
      using that evict_subset[of apps_route_cap "drop_routes (machine_for user) guest (gw_routes g)"] ok(1)
      by (auto simp: drop_routes_def)
    then have "\<not> displaces read (snd e) x" using Some unfolding x by (auto simp: displaces_def tr)
    then show ?thesis using assms e(1) by (intro earned_kept) (auto simp: gate_sound_def)
  qed
  have "e \<in> set (AList.update t (snd tr) ?old) \<Longrightarrow> e = tr \<or> e \<in> set ?old" for e
    using update_member[of e t "snd tr" ?old] by (auto simp: tr)
  moreover have "distinct (List.map fst (AList.update t (snd tr) ?old))"
    using assms by (intro distinct_update evict_distinct drop_routes_distinct) (simp add: gate_sound_def)
  ultimately show ?thesis using old earned_new[OF Some] by (auto simp: gate_sound_def g')
next
  case None
  have kept: "earned read (ops @ [x]) e" if "e \<in> set (gw_routes g)" "\<not> displaces read (snd e) x" for e
    using assms that by (intro earned_kept) (auto simp: gate_sound_def)
  show ?thesis
  proof (cases x)
    case (GForget m)
    then show ?thesis using assms kept
      by (auto simp: gate_sound_def forget_route_def drop_routes_def displaces_def distinct_map_filter)
  next
    case (GPush ticket user guest slot row conns decide)
    then have "gate_do read x g = g" using push_unminted[of read ticket user guest slot row conns decide g] None by simp
    moreover have "\<not> displaces read r x" for r using None GPush by (simp add: displaces_def)
    ultimately show ?thesis using assms kept by (simp add: gate_sound_def)
  qed
qed

lemma gate_run_sound:
  assumes "gw_routes g = []" shows "gate_sound read ops (fold (gate_do read) ops g) \<and> gw_key (fold (gate_do read) ops g) = gw_key g"
proof (induction ops rule: rev_induct)
  case (snoc x xs)
  then show ?case using gate_do_sound by (simp add: gate_do_key)
qed (use assms in \<open>simp add: gate_sound_def\<close>)

text \<open>
  C6. A ticket opens one person's session: whatever pushes, re-pushes, erasures and evictions ran, a request the broker passes on came from
  the address of a machine to which this very ticket was minted for the person the machine belongs to, and nothing since was minted for that
  machine or address nor was the machine forgotten; it goes to that person's stored session at the provider's own origin, with the
  project's key added and none of the guest's making.
\<close>

theorem ticket_opens_own_session:
  assumes "gw_routes g = []" and "serve_apps (Some ip) path inn (fold (gate_do read) ops g) = Some (url, hs)"
  shows "\<exists>xs user slot row conns decide ys.
    ops = xs @ GPush (Some (ticket_in path)) user ip slot (Some row) (Some conns) decide # ys \<and>
    url = se_url row \<and> read url = Some (''https'', ''backend.composio.dev'', False) \<and>
    (\<forall>y\<in>set ys. \<not> displaces read \<lparr>ar_machine = machine_for user, ar_guest = ip, ar_upstream = url\<rparr> y) \<and>
    (\<forall>(k, v)\<in>set hs. k \<in> set forwarded_headers \<or> (k = ''X-Api-Key'' \<and> v = gw_key g))"
proof -
  let ?g = "fold (gate_do read) ops g"
  have sound: "gate_sound read ops ?g" and key: "gw_key ?g = gw_key g" using gate_run_sound[OF assms(1)] by simp_all
  obtain r where r: "route_for (ticket_in path) ip ?g = Some r"
    and out: "url = ar_upstream r" "hs = keep_headers inn forwarded_headers @ [(''X-Api-Key'', gw_key ?g)]"
    using assms(2) by (auto simp: serve_apps_def split: option.splits)
  then have "(ticket_in path, r) \<in> set (gw_routes ?g)" "ar_guest r = ip"
    by (auto simp: route_for_def dest: map_of_SomeD split: option.splits if_splits)
  then obtain xs x ys where x: "ops = xs @ x # ys" "minted read x = Some (ticket_in path, r)" "\<forall>y\<in>set ys. \<not> displaces read r y"
    using sound by (fastforce simp: gate_sound_def earned_def)
  from x(2) obtain user guest slot row conns decide where "x = GPush (Some (ticket_in path)) user guest slot (Some row) (Some conns) decide"
    and "valid_upstream read (se_url row)" and "r = \<lparr>ar_machine = machine_for user, ar_guest = guest, ar_upstream = se_url row\<rparr>"
    using minted_inverts[OF x(2)] by blast
  moreover have "\<forall>(k, v)\<in>set hs. k \<in> set forwarded_headers \<or> (k = ''X-Api-Key'' \<and> v = gw_key g)"
    by (auto simp: out(2) key keep_headers_def)
  ultimately show ?thesis using x(1,3) \<open>ar_guest r = ip\<close> out(1)
    by (intro exI[of _ xs] exI[of _ user] exI[of _ slot] exI[of _ row] exI[of _ conns] exI[of _ decide] exI[of _ ys])
      (simp add: valid_upstream_def)
qed

definition demo_gw :: apps_gw where
  "demo_gw = \<lparr>gw_port = ''8092'', gw_key = ''k'', gw_routes = []\<rparr>"

definition demo_row :: app_session where
  "demo_row = \<lparr>se_url = ''https://backend.composio.dev/s'', se_id = ''s'', se_policy = []\<rparr>"

definition demo_push :: gate_op where
  "demo_push = GPush (Some ''t1'') demo_user ''172.16.0.2'' 0 (Some demo_row) (Some []) (\<lambda>slugs policy. [])"

theorem ticket_opens_own_session_witness:
  "\<exists>xs user slot row conns decide ys.
    [demo_push] = xs @ GPush (Some ''t1'') user ''172.16.0.2'' slot (Some row) (Some conns) decide # ys \<and> se_url demo_row = se_url row"
proof -
  let ?read = "\<lambda>s. Some (''https'', ''backend.composio.dev'', False)"
  have "serve_apps (Some ''172.16.0.2'') ''/apps/t1/mcp'' [] (fold (gate_do ?read) [demo_push] demo_gw) =
      Some (se_url demo_row, [(''X-Api-Key'', ''k'')])"
    by (simp add: demo_push_def register_mints valid_upstream_def serve_apps_def route_for_def ticket_in_def apps_prefix_def
        demo_gw_def drop_routes_def evict_to_def keep_headers_def forwarded_headers_def apps_route_cap_def demo_row_def)
  from ticket_opens_own_session[OF _ this] have "\<exists>xs user slot row conns decide ys.
      [demo_push] = xs @ GPush (Some (ticket_in ''/apps/t1/mcp'')) user ''172.16.0.2'' slot (Some row) (Some conns) decide # ys \<and>
      se_url demo_row = se_url row"
    by (force simp: demo_gw_def)
  then show ?thesis by (simp add: ticket_in_def apps_prefix_def)
qed

section \<open>A setting that is not heard\<close>

text \<open>
  A person switches an action off while their machine's answer is being pushed: the mark that should make the push due again is only set
  on an answer that has landed, so the old answer lands after it and is good for its whole term. Until then no new push is made and the
  machine goes on letting the action run.
\<close>

theorem setting_waits_out_push:
  assumes "fst (claim_apps now machine cs)" and "later < til"
  shows "let cs1 = snd (claim_apps now machine cs);
             cs2 = stale_apps machine cs1;
             cs3 = done_apps machine til slugs cs2 in
         cs2 = cs1 \<and> \<not> fst (claim_apps later machine cs3)"
proof -
  have "\<exists>c cs'. snd (claim_apps now machine cs) = AList.update machine c cs' \<and> am_slugs c = None"
    using assms(1) by (auto simp: claim_apps_def Let_def split: if_splits)
  then have "stale_apps machine (snd (claim_apps now machine cs)) = snd (claim_apps now machine cs)"
    by (auto simp: stale_apps_def Let_def held_claim_def update_conv' settled_def)
  then show ?thesis using assms(2)
    by (simp add: Let_def done_apps_def claim_apps_def held_claim_def update_conv')
qed

theorem setting_waits_out_push_witness:
  "let cs1 = snd (claim_apps 0 ''m'' []);
       cs2 = stale_apps ''m'' cs1;
       cs3 = done_apps ''m'' app_caps_ttl [''gmail''] cs2 in
   cs2 = cs1 \<and> \<not> fst (claim_apps (59 * 60 * ns_per_sec) ''m'' cs3)"
  by (rule setting_waits_out_push)
    (simp_all add: claim_apps_def Let_def held_claim_def no_claim_def app_caps_ttl_def ns_per_sec_def)

text \<open>A failed push is recorded without making room: the table can pass its cap.\<close>

lemma failed_claim_uncounted:
  "map_of cs m = None \<Longrightarrow> length (fst (fail_apps now m (cs, g))) = Suc (length cs)"
proof -
  have "map_of cs m = None \<Longrightarrow> length (AList.update m v cs) = Suc (length cs)" for v
    by (induction cs) (auto split: if_splits)
  then show "map_of cs m = None \<Longrightarrow> length (fst (fail_apps now m (cs, g))) = Suc (length cs)" by (simp add: fail_apps_def)
qed

section \<open>The model broker\<close>

text \<open>
  The model key is lent for turns and nothing wider: a request goes upstream only from a guest's address on the grid the host hands out,
  as a POST of messages, and of what the guest said only the four headers of the allow list go with it; the credential is the host's.
\<close>

theorem model_key_for_turns_only:
  assumes "serve_llm key origin remote method path inn = Some hs"
  shows "(\<exists>slot. Option.bind remote slot_of = Some slot) \<and> method = ''POST'' \<and> path = llm_path \<and>
    (\<forall>(k, v)\<in>set hs. (k \<in> set llm_headers \<and> (k, v) \<in> set inn) \<or>
       (k, v) \<in> {(''Authorization'', ''Bearer '' @ key), (''HTTP-Referer'', origin), (''X-Title'', ''AutoBots'')})"
  using assms by (auto simp: serve_llm_def from_guest_def keep_headers_def split: if_splits option.splits)

theorem model_key_for_turns_only_witness:
  "\<exists>slot. Option.bind (Some (Addr4 172 16 0 2)) slot_of = Some slot"
proof -
  have "serve_llm ''k'' ''o'' (Some (Addr4 172 16 0 2)) ''POST'' llm_path [] =
      Some [(''Authorization'', ''Bearer k''), (''HTTP-Referer'', ''o''), (''X-Title'', ''AutoBots'')]"
    by (simp add: serve_llm_def from_guest_def slot_of_def keep_headers_def)
  from model_key_for_turns_only[OF this] show ?thesis by blast
qed

end
