(* ===== verification/AccountProps.thy ===== *)
theory AccountProps
  imports Account VmHostProps AppsGateProps
begin

text \<open>
  What an erased account leaves behind, that nothing is destroyed while a grant is still out, that nobody else is touched, and what
  the control plane's replies say.
\<close>

section \<open>What a purge leaves\<close>

definition erased_on_host :: "string \<Rightarrow> 'n api \<Rightarrow> bool" where
  "erased_on_host i a \<longleftrightarrow>
     l_workspace (h_base (sv_host a)) i \<notin> h_files (sv_host a) \<and> r_byid (h_reg (sv_host a)) i = None \<and> sv_usage a i = None"

lemma cleanup_purged_gone:
  assumes "cleanup_locked ip v True h = (None, k)"
  shows "r_byid (h_reg k) (vm_id (the_vm h v)) = None"
proof -
  from assms have "r_byid (h_reg h) (vm_id (the_vm h v)) \<in> {None, Some v}"
    by (cases "r_byid (h_reg h) (vm_id (the_vm h v))") (auto simp: cleanup_locked_def Let_def split: if_splits)
  moreover have "h_reg k = release_locked v (h_reg h)" using assms cleanup_locked_reg(1)[of ip v True h] by simp
  ultimately show ?thesis by (auto simp: release_locked_def Let_def the_vm_def)
qed

lemma delete_purged_gone:
  assumes "delete_vm ip s v True h = (None, k)"
  shows "l_workspace (h_base k) (vm_id (the_vm h v)) \<notin> h_files k \<and> r_byid (h_reg k) (vm_id (the_vm h v)) = None \<and>
         vm_id (the_vm k v) = vm_id (the_vm h v)"
proof -
  obtain l where l: "begin_stop v h = (Inr (snapshot v (h_reg h)), l)" "same_tables h l" by (rule begin_stop_works)
  let ?m = "reap s v (shutdown s v (snapshot v (h_reg h)) l)"
  have "same_tables h ?m" by (rule same_tables_trans[OF same_tables_trans[OF l(2) same_tables_shutdown] same_tables_reap])
  then have i: "vm_id (the_vm ?m v) = vm_id (the_vm h v)" by (simp add: same_tables_def)
  have c: "cleanup_locked ip v True ?m = (None, k)" using assms l(1) by (simp add: delete_vm_def cleanup_def)
  have "the_vm k v = the_vm ?m v" using cleanup_locked_reg(1)[of ip v True ?m] c by (simp add: the_vm_def)
  with cleanup_purged[OF c] cleanup_purged_gone[OF c] i show ?thesis by simp
qed

lemma write_vm_err_status: "rp_status (write_vm_err e) \<ge> 300"
  by (cases e) (simp_all add: write_vm_err_def write_err_def write_json_def)

lemma handle_delete_erases:
  assumes "reg_inv (h_reg (sv_host a))" and "handle_delete ip s i True a = (r, b)" and "rp_status r < 300"
  shows "erased_on_host i b"
proof (cases "get_vm i (h_reg (sv_host a))")
  case (Inl e)
  then have none: "r_byid (h_reg (sv_host a)) i = None" by (simp add: get_vm_def split: option.splits)
  obtain e h where p: "purge_workspace i (sv_host a) = (e, h)" by force
  with Inl assms(2,3) write_vm_err_status[of "the e"] have "e = None" and b: "b = forget_usage i (a\<lparr>sv_host := h\<rparr>)"
    by (auto simp: handle_delete_def write_err_def write_json_def split: if_splits option.splits)
  with p none purge_purged[of i "sv_host a" h] purge_frame(1)[of i "sv_host a"] show ?thesis
    by (simp add: erased_on_host_def forget_usage_def totals_forget_def)
next
  case (Inr v)
  then have v: "vm_id (the_vm (sv_host a) v) = i"
    using reg_inv_byidD[OF assms(1)] by (auto simp: get_vm_def the_vm_def split: option.splits)
  obtain e h where d: "delete_vm ip s v True (sv_host a) = (e, h)" by force
  with Inr assms(2,3) write_vm_err_status[of "the e"] have "e = None"
    and b: "b = forget_usage (vm_id (the_vm h v)) (a\<lparr>sv_host := h\<rparr>)"
    by (auto simp: handle_delete_def Let_def split: option.splits)
  with delete_purged_gone[of ip s v "sv_host a" h] d v show ?thesis
    by (simp add: erased_on_host_def forget_usage_def totals_forget_def)
qed

lemma control_delete_erases:
  assumes "reg_inv (h_reg (sv_host a))" and "control_delete wr ip s i a = (None, b)"
  shows "erased_on_host i b"
proof -
  obtain r c where h: "handle_delete ip s i True a = (r, c)" by force
  with assms(2) have "b = c" "status_error (rp_status r) = None"
    by (auto simp: control_delete_def over_def split: wire.splits)
  with handle_delete_erases[OF assms(1) h] show ?thesis by (simp add: status_error_def split: if_splits)
qed

section \<open>Forgetting the machine\<close>

definition forgotten :: "string \<Rightarrow> string \<Rightarrow> 'n world \<Rightarrow> bool" where
  "forgotten user machine w \<longleftrightarrow>
     (wd_store w \<longrightarrow> wd_rows w user = None) \<and> map_of (wd_bridges w) machine = None \<and> map_of (wd_claims w) machine = None \<and>
     (\<forall>(t, r) \<in> set (gw_routes (wd_gw w)). ar_machine r \<noteq> machine) \<and> (\<forall>now key. \<not> check_cap now key machine (wd_caps w))"

lemma revoked_check: "\<not> check_cap now key vm (revoke_caps vm c)"
proof
  assume "check_cap now key vm (revoke_caps vm c)"
  then obtain g where "map_of (cp_grants (revoke_caps vm c)) key = Some g" "vg_vm g = vm"
    by (auto simp: check_cap_def split: option.splits)
  with map_of_SomeD[OF this(1)] show False by (simp add: revoke_caps_def)
qed

lemma forget_session_fields [simp]:
  "wd_api (forget_session m w) = wd_api w" "wd_rows (forget_session m w) = wd_rows w" "wd_store (forget_session m w) = wd_store w"
  "wd_provider (forget_session m w) = wd_provider w" "wd_returned (forget_session m w) = wd_returned w"
  "wd_bridges (forget_session m w) = wd_bridges w" "wd_retired (forget_session m w) = wd_retired w"
  "wd_caps (forget_session m w) = wd_caps w" "wd_claims (forget_session m w) = AList.delete m (wd_claims w)"
  "wd_gw (forget_session m w) = forget_route m (wd_gw w)"
  by (simp_all add: forget_session_def forget_apps_def)

text \<open>What a successful \<^verbatim>\<open>forgetMachine\<close> makes of the world, in one equation.\<close>

lemma forget_machine_eq:
  assumes "forget_machine deleted user m w = (True, w')"
  shows "w' = w\<lparr>wd_rows := (if wd_store w then (wd_rows w)(user := None) else wd_rows w),
     wd_bridges := AList.delete m (wd_bridges w),
     wd_retired := wd_retired w @ (case map_of (wd_bridges w) m of None \<Rightarrow> [] | Some b \<Rightarrow> [close_bridge b]),
     wd_caps := revoke_caps m (wd_caps w), wd_claims := AList.delete m (wd_claims w), wd_gw := forget_route m (wd_gw w)\<rparr>"
  using assms by (auto simp: forget_machine_def drop_bridge_def forget_session_def forget_apps_def Let_def split: if_splits option.splits)

lemma forget_machine_forgets: "forget_machine deleted user m w = (True, w') \<Longrightarrow> forgotten user m w'"
  by (drule forget_machine_eq)
    (auto simp: forgotten_def delete_conv' revoked_check forget_route_def drop_routes_def)

lemma forget_machine_fails: "forget_machine deleted user m w = (False, w') \<Longrightarrow> w' = w"
  by (simp add: forget_machine_def drop_bridge_def Let_def split: if_splits)

lemma revoke_apps_eq:
  assumes "revoke_apps listed accepts w = (ok, w')"
  obtains gone where "w' = w\<lparr>wd_returned := wd_returned w @ gone\<rparr>"
    and "ok \<and> wd_provider w \<longrightarrow> (\<exists>held. listed = Some held \<and> gone = List.map cx_id held \<and> (\<forall>c \<in> set held. accepts (cx_id c)))"
  using assms
  by (cases "wd_provider w"; cases listed)
    (auto simp: revoke_apps_def disconnect_all_def list_all_iff filter_id_conv intro: that[of "[]"] that split: if_splits)

section \<open>Erased means erased\<close>

text \<open>The ways a request to erase can go.\<close>

lemma delete_account_cases:
  assumes "delete_account wr ip s listed accepts deleted user w = (code, w')"
  obtains (nobody) "machine_for user = []" "code = 400" "w' = w"
  | (unrevoked) gone where "code = 502" "w' = w\<lparr>wd_returned := wd_returned w @ gone\<rparr>"
  | (undeleted) w1 e a where "revoke_apps listed accepts w = (True, w1)"
      "control_delete wr ip s (machine_for user) (wd_api w) = (Some e, a)" "code = 502" "w' = w1\<lparr>wd_api := a\<rparr>"
  | (unforgotten) w1 a where "revoke_apps listed accepts w = (True, w1)"
      "control_delete wr ip s (machine_for user) (wd_api w) = (None, a)" "code = 502" "w' = w1\<lparr>wd_api := a\<rparr>"
  | (erased) w1 a where "machine_for user \<noteq> []" "revoke_apps listed accepts w = (True, w1)"
      "control_delete wr ip s (machine_for user) (wd_api w) = (None, a)" "code = 204"
      "forget_machine deleted user (machine_for user) (w1\<lparr>wd_api := a\<rparr>) = (True, w')"
proof (cases "machine_for user = []")
  case True
  with assms show ?thesis by (intro nobody) (simp_all add: delete_account_def)
next
  case False
  obtain ok w1 where r: "revoke_apps listed accepts w = (ok, w1)" by force
  then obtain gone where g: "w1 = w\<lparr>wd_returned := wd_returned w @ gone\<rparr>" by (rule revoke_apps_eq)
  obtain e a where d: "control_delete wr ip s (machine_for user) (wd_api w) = (e, a)" by force
  obtain f w2 where f: "forget_machine deleted user (machine_for user) (w1\<lparr>wd_api := a\<rparr>) = (f, w2)" by force
  show ?thesis
  proof (cases ok)
    case False
    with assms r g \<open>machine_for user \<noteq> []\<close> show ?thesis by (intro unrevoked[of gone]) (simp_all add: delete_account_def)
  next
    case True
    show ?thesis
    proof (cases e)
      case (Some x)
      with assms r g d True False show ?thesis by (intro undeleted[of w1 x a]) (simp_all add: delete_account_def)
    next
      case None
      with assms r g d f True False forget_machine_fails[of deleted user "machine_for user" "w1\<lparr>wd_api := a\<rparr>" w2] show ?thesis
        by (cases f) (auto intro: unforgotten[of w1 a] erased[of w1 a] simp: delete_account_def)
    qed
  qed
qed

text \<open>
  C3. Erased means erased. When a person is told 204, their disk is gone and no machine runs under their id, every app account the
  provider listed was handed back, the pointer to their session, the claim, the tickets, the screen keys and the bridge of their
  machine are gone, and whoever still watches that bridge watches a closed one.
\<close>

theorem erased_means_erased:
  assumes "reachable_host hip (sv_host (wd_api w))"
    and "delete_account wr ip s listed accepts deleted user w = (204, w')"
  shows "erased_on_host (machine_for user) (wd_api w') \<and> forgotten user (machine_for user) w' \<and>
         (wd_provider w \<longrightarrow> (\<exists>held. listed = Some held \<and> wd_returned w' = wd_returned w @ List.map cx_id held \<and>
            (\<forall>c \<in> set held. accepts (cx_id c)))) \<and>
         (\<forall>b. map_of (wd_bridges w) (machine_for user) = Some b \<longrightarrow> close_bridge b \<in> set (wd_retired w'))"
  using assms(2)
proof (cases rule: delete_account_cases)
  case (erased w1 a)
  obtain gone where g: "w1 = w\<lparr>wd_returned := wd_returned w @ gone\<rparr>"
    and all: "wd_provider w \<longrightarrow> (\<exists>held. listed = Some held \<and> gone = List.map cx_id held \<and> (\<forall>c \<in> set held. accepts (cx_id c)))"
    using revoke_apps_eq[OF erased(2)] by metis
  from erased(5) have eq: "wd_api w' = a" "wd_returned w' = wd_returned w1"
    "wd_retired w' = wd_retired w1 @ (case map_of (wd_bridges w1) (machine_for user) of None \<Rightarrow> [] | Some b \<Rightarrow> [close_bridge b])"
    by (auto dest: forget_machine_eq)
  with control_delete_erases[OF reachable_reg(1)[OF assms(1)] erased(3)] forget_machine_forgets[OF erased(5)] g all
  show ?thesis by auto
qed simp_all

text \<open>
  C10. Nothing is destroyed while a key to it is out: if a request to erase changed anything at all beyond the grants it handed back,
  then every grant the provider listed was handed back before.
\<close>

theorem revoked_before_destroyed:
  assumes "delete_account wr ip s listed accepts deleted user w = (code, w')" and "wd_provider w"
    and "\<nexists>gone. w' = w\<lparr>wd_returned := wd_returned w @ gone\<rparr>"
  shows "\<exists>held. listed = Some held \<and> (\<forall>c \<in> set held. accepts (cx_id c) \<and> cx_id c \<in> set (wd_returned w'))"
proof -
  have given: "\<exists>held. listed = Some held \<and> (\<forall>c \<in> set held. accepts (cx_id c) \<and> cx_id c \<in> set (wd_returned w1))"
    if "revoke_apps listed accepts w = (True, w1)" for w1
    using that assms(2) by (auto elim!: revoke_apps_eq)
  from assms(1) show ?thesis
  proof (cases rule: delete_account_cases)
    case nobody
    with assms(3) have False by (metis append_Nil2 world.surjective world.update_convs(5))
    then show ?thesis ..
  next
    case (erased w1 a)
    with given[OF erased(2)] forget_machine_eq[OF erased(5)] show ?thesis by simp
  qed (use given assms(3) in auto)
qed

section \<open>Nobody else\<close>

definition spared :: "string \<Rightarrow> 'n api \<Rightarrow> 'n api \<Rightarrow> bool" where
  "spared i a b \<longleftrightarrow>
     h_base (sv_host b) = h_base (sv_host a) \<and> r_byid (h_reg (sv_host b)) i = r_byid (h_reg (sv_host a)) i \<and> sv_usage b i = sv_usage a i \<and>
     (l_workspace (h_base (sv_host a)) i \<in> h_files (sv_host a) \<longrightarrow> l_workspace (h_base (sv_host a)) i \<in> h_files (sv_host b))"

lemma spared_refl [simp]: "spared i a a"
  by (simp add: spared_def)

lemma delete_vm_spares:
  assumes "vm_id (the_vm h v) \<noteq> i" and "delete_vm ip s v p h = (e, k)"
  shows "h_base k = h_base h \<and> r_byid (h_reg k) i = r_byid (h_reg h) i \<and> vm_id (the_vm k v) = vm_id (the_vm h v) \<and>
         (l_workspace (h_base h) i \<in> h_files h \<longrightarrow> l_workspace (h_base h) i \<in> h_files k)"
proof -
  obtain l where l: "begin_stop v h = (Inr (snapshot v (h_reg h)), l)" "same_tables h l" "h_files l = h_files h" by (rule begin_stop_works)
  let ?m = "reap s v (shutdown s v (snapshot v (h_reg h)) l)"
  have t: "same_tables h ?m" by (rule same_tables_trans[OF same_tables_trans[OF l(2) same_tables_shutdown] same_tables_reap])
  then have m: "h_base ?m = h_base h" "r_byid (h_reg ?m) = r_byid (h_reg h)" "vm_id (the_vm ?m v) = vm_id (the_vm h v)"
    by (simp_all add: same_tables_def)
  have f: "h_files ?m = h_files h" using l(3) by simp
  have k: "k = snd (cleanup_locked ip v p ?m)" using assms(2) l(1) by (simp add: delete_vm_def cleanup_def)
  have "r_byid (h_reg k) i = r_byid (h_reg h) i"
    using m assms(1) unfolding k by (simp add: release_locked_def Let_def the_vm_def)
  moreover have "l_workspace (h_base h) i \<in> h_files k" if "l_workspace (h_base h) i \<in> h_files h"
    using cleanup_files_other[of ?m i v ip p] that m f assms(1) k by simp
  moreover have "h_base k = h_base h" unfolding k using m by simp
  moreover have "vm_id (the_vm k v) = vm_id (the_vm h v)" unfolding k using m by (simp add: the_vm_def)
  ultimately show ?thesis by simp
qed

lemma purge_spares:
  assumes "i \<noteq> j" and "purge_workspace j h = (e, k)"
  shows "h_base k = h_base h \<and> h_reg k = h_reg h \<and> (l_workspace (h_base h) i \<in> h_files h \<longrightarrow> l_workspace (h_base h) i \<in> h_files k)"
  using assms by (auto simp: purge_workspace_def os_remove_def split: if_splits)

lemma handle_delete_spares:
  assumes "reg_inv (h_reg (sv_host a))" and "i \<noteq> j"
  shows "spared i a (snd (handle_delete ip s j True a))"
proof (cases "get_vm j (h_reg (sv_host a))")
  case (Inl x)
  obtain e h where p: "purge_workspace j (sv_host a) = (e, h)" by force
  with Inl purge_spares[OF assms(2) p] assms(2) show ?thesis
    by (cases e) (auto simp: handle_delete_def spared_def forget_usage_def totals_forget_def)
next
  case (Inr v)
  then have v: "vm_id (the_vm (sv_host a) v) = j"
    using reg_inv_byidD[OF assms(1)] by (auto simp: get_vm_def the_vm_def split: option.splits)
  obtain e h where d: "delete_vm ip s v True (sv_host a) = (e, h)" by force
  with Inr delete_vm_spares[OF _ d, of i] v assms(2) show ?thesis
    by (cases e) (auto simp: handle_delete_def spared_def forget_usage_def totals_forget_def Let_def)
qed

lemma control_delete_spares:
  "reg_inv (h_reg (sv_host a)) \<Longrightarrow> i \<noteq> j \<Longrightarrow> control_delete wr ip s j a = (e, b) \<Longrightarrow> spared i a b"
  using handle_delete_spares[of a i j ip s]
  by (cases wr; cases "handle_delete ip s j True a") (auto simp: control_delete_def over_def)


section \<open>An erasure can be had\<close>

lemma delete_vm_succeeds:
  assumes "r_byid (h_reg h) (vm_id (the_vm h v)) = Some v" and "l_workspace (h_base h) (vm_id (the_vm h v)) \<notin> h_stuck h"
  shows "fst (delete_vm ip s v True h) = None"
proof -
  obtain l where l: "begin_stop v h = (Inr (snapshot v (h_reg h)), l)" "same_tables h l" by (rule begin_stop_works)
  let ?m = "reap s v (shutdown s v (snapshot v (h_reg h)) l)"
  have "same_tables h ?m" by (rule same_tables_trans[OF same_tables_trans[OF l(2) same_tables_shutdown] same_tables_reap])
  with assms have "r_byid (h_reg ?m) (vm_id (the_vm ?m v)) = Some v" "l_workspace (h_base ?m) (vm_id (the_vm ?m v)) \<notin> h_stuck ?m"
    by (simp_all add: same_tables_def)
  then have "fst (cleanup_locked ip v True ?m) = None"
    by (simp add: cleanup_locked_def Let_def os_remove_def os_remove_all_def)
  with l(1) show ?thesis by (simp add: delete_vm_def cleanup_def)
qed

lemma handle_delete_succeeds:
  assumes "reg_inv (h_reg (sv_host a))" and "valid_id i" and "l_workspace (h_base (sv_host a)) i \<notin> h_stuck (sv_host a)"
  shows "rp_status (fst (handle_delete ip s i True a)) = 200"
proof (cases "get_vm i (h_reg (sv_host a))")
  case (Inl x)
  then have "r_byid (h_reg (sv_host a)) i = None" by (simp add: get_vm_def split: option.splits)
  with assms(3) have "fst (purge_workspace i (sv_host a)) = None" by (simp add: purge_workspace_def os_remove_def)
  with Inl assms(2) show ?thesis
    by (cases "purge_workspace i (sv_host a)") (simp add: handle_delete_def write_json_def)
next
  case (Inr v)
  then have v: "r_byid (h_reg (sv_host a)) i = Some v" "vm_id (the_vm (sv_host a) v) = i"
    using reg_inv_byidD[OF assms(1)] by (auto simp: get_vm_def the_vm_def split: option.splits)
  with assms(3) have "fst (delete_vm ip s v True (sv_host a)) = None" by (intro delete_vm_succeeds) simp_all
  with Inr show ?thesis
    by (cases "delete_vm ip s v True (sv_host a)") (simp add: handle_delete_def write_json_def Let_def)
qed

lemma machine_for_valid: "machine_for user \<noteq> [] \<Longrightarrow> valid_id (machine_for user)"
  by (simp add: machine_for_def Let_def split: if_splits)

text \<open>
  C20. A person who asks again is served: with every call answered, every grant accepted back and the disk removable, the request is
  answered 204, whatever state earlier attempts left, a stopped or half-erased machine included.
\<close>

theorem erase_succeeds:
  assumes "reachable_host hip (sv_host (wd_api w))" and "machine_for user \<noteq> []"
    and "wd_provider w \<longrightarrow> (\<exists>held. listed = Some held \<and> (\<forall>c \<in> set held. accepts (cx_id c)))"
    and "l_workspace (h_base (sv_host (wd_api w))) (machine_for user) \<notin> h_stuck (sv_host (wd_api w))"
  shows "fst (delete_account CallAnswered ip s listed accepts True user w) = 204"
proof -
  let ?m = "machine_for user"
  have "fst (revoke_apps listed accepts w)"
    using assms(3) by (auto simp: revoke_apps_def disconnect_all_def list_all_iff)
  then obtain w1 where r: "revoke_apps listed accepts w = (True, w1)" by (metis prod.collapse)
  then have a: "wd_api w1 = wd_api w" by (auto elim: revoke_apps_eq)
  obtain rep b where h: "handle_delete ip s ?m True (wd_api w) = (rep, b)" by force
  with handle_delete_succeeds[OF reachable_reg(1)[OF assms(1)] machine_for_valid[OF assms(2)] assms(4), of ip s]
  have "control_delete CallAnswered ip s ?m (wd_api w) = (None, b)"
    by (simp add: control_delete_def over_def status_error_def)
  with r a assms(2) show ?thesis
    by (simp add: delete_account_def forget_machine_def drop_bridge_def Let_def)
qed

section \<open>An account with everything\<close>

text \<open>A stopped machine with a disk, a row, a claim, a ticket, a screen key, a bridge somebody watches, and one connected app.\<close>

definition demo_machine :: string where "demo_machine = ''0a1b2c3d00004000800000000000000f''"

lemma demo_machine_for: "machine_for demo_user = demo_machine"
  unfolding demo_machine_def by code_simp

definition demo_world :: "string set world" where
  "demo_world =
     \<lparr>wd_api = \<lparr>sv_host = empty_host ''/srv'' ''fc'' {l_workspace ''/srv'' demo_machine, l_workspace ''/srv'' ''b''} {} {},
                sv_usage = Map.empty, sv_seq = 0\<rparr>,
      wd_provider = True, wd_store = True, wd_rows = [demo_user \<mapsto> \<lparr>se_url = ''u'', se_id = ''s'', se_policy = []\<rparr>],
      wd_returned = [], wd_bridges = [(demo_machine, new_bridge demo_machine)], wd_retired = [],
      wd_caps = \<lparr>cp_origin = [], cp_grants = [(''k'', \<lparr>vg_vm = demo_machine, vg_expires = 9\<rparr>)], cp_minted = 1\<rparr>,
      wd_claims = [(demo_machine, no_claim)],
      wd_gw = \<lparr>gw_port = [], gw_key = [], gw_routes = [(''t'', \<lparr>ar_machine = demo_machine, ar_guest = ''g'', ar_upstream = ''u''\<rparr>)]\<rparr>\<rparr>"

definition demo_connection :: connection where
  "demo_connection = \<lparr>cx_id = ''c1'', cx_toolkit = ''gmail'', cx_status = ''ACTIVE''\<rparr>"

lemma demo_world_reachable: "reachable_host demo_ip (sv_host (wd_api demo_world))"
  unfolding reachable_host_def by (intro exI[of _ "''/srv''"] exI) (simp add: demo_world_def, rule rtranclp.rtrancl_refl)

definition demo_erase :: "int \<times> string set world" where
  "demo_erase = delete_account CallAnswered demo_ip demo_stop (Some [demo_connection]) (\<lambda>_. True) True demo_user demo_world"

theorem erase_succeeds_witness: "fst demo_erase = 204"
  unfolding demo_erase_def
  by (rule erase_succeeds[OF demo_world_reachable])
    (simp add: demo_machine_for demo_machine_def, simp, simp add: demo_world_def empty_host_def)

lemma demo_erase_done: "demo_erase = (204, snd demo_erase)"
proof -
  have "valid_id demo_machine" using machine_for_valid[of demo_user] by (simp add: demo_machine_for demo_machine_def)
  moreover have "demo_machine \<noteq> []" by (simp add: demo_machine_def)
  ultimately have "fst demo_erase = 204"
    by (simp add: demo_erase_def delete_account_def demo_machine_for revoke_apps_def disconnect_all_def control_delete_def over_def
        handle_delete_def get_vm_def purge_workspace_def os_remove_def demo_world_def empty_host_def new_registry_def write_json_def
        status_error_def forget_machine_def drop_bridge_def Let_def)
  then show ?thesis by (metis prod.collapse)
qed

theorem erased_means_erased_witness:
  "erased_on_host demo_machine (wd_api (snd demo_erase)) \<and> forgotten demo_user demo_machine (snd demo_erase) \<and>
   wd_returned (snd demo_erase) = [''c1''] \<and> close_bridge (new_bridge demo_machine) \<in> set (wd_retired (snd demo_erase))"
proof -
  note e = erased_means_erased[OF demo_world_reachable demo_erase_done[unfolded demo_erase_def], unfolded demo_machine_for, folded demo_erase_def]
  from e show ?thesis by (simp add: demo_world_def demo_connection_def)
qed

theorem revoked_before_destroyed_witness: "''c1'' \<in> set (wd_returned (snd demo_erase))"
proof -
  have "wd_rows (snd demo_erase) demo_user = None"
    using demo_erase_done by (auto simp: demo_erase_def delete_account_def demo_machine_for forget_machine_def drop_bridge_def Let_def
        demo_machine_def demo_world_def revoke_apps_def disconnect_all_def forget_session_def forget_apps_def split: prod.splits option.splits)
  moreover have "wd_rows demo_world demo_user \<noteq> None" by (simp add: demo_world_def)
  ultimately have "\<nexists>gone. snd demo_erase = demo_world\<lparr>wd_returned := wd_returned demo_world @ gone\<rparr>" by auto
  with revoked_before_destroyed[OF demo_erase_done[unfolded demo_erase_def], folded demo_erase_def] show ?thesis
    by (simp add: demo_world_def demo_connection_def)
qed


end
