(* ===== verification/ScheduleRunProps.thy ===== *)
theory ScheduleRunProps
  imports ScheduleRun
begin

text \<open>
  What the sweep, the roll-forward and the zone change do to every schedule, and what a create or
  a cancel leaves on the machine. The passes are instances of the snapshot pass; every property
  of a pass is a property of one step through it.
\<close>

section \<open>One step\<close>

abbreviation look :: "machine \<Rightarrow> string \<Rightarrow> schedule option" where
  "look m i \<equiv> look_schedule (m_store m) i"

definition ran :: "int \<Rightarrow> bool \<Rightarrow> schedule \<Rightarrow> schedule" where
  "ran now final x = x\<lparr>sc_last := Some now, sc_fires := sc_fires x + 1, sc_enabled := \<not> final\<rparr>"

definition turned_off :: "schedule \<Rightarrow> schedule" where
  "turned_off x = x\<lparr>sc_enabled := False\<rparr>"

lemma ran_simps [simp]:
  "sc_id (ran now f x) = sc_id x" "sc_next (ran now f x) = sc_next x"
  "sc_fires (ran now f x) = sc_fires x + 1" "sc_last (ran now f x) = Some now"
  "sc_enabled (ran now f x) = (\<not> f)" "sc_expr (ran now f x) = sc_expr x"
  by (simp_all add: ran_def)

lemma turned_off_simps [simp]:
  "sc_id (turned_off x) = sc_id x" "sc_next (turned_off x) = sc_next x"
  "sc_fires (turned_off x) = sc_fires x" "\<not> sc_enabled (turned_off x)"
  by (simp_all add: turned_off_def)

lemma on_store_simps [simp]:
  "m_store (on_store f m) = f (m_store m)" "m_zone (on_store f m) = m_zone m"
  "m_sent (on_store f m) = m_sent m"
  by (simp_all add: on_store_def)

lemma set_next_simps [simp]:
  "look (set_next w i a m) j = (if j = i then map_option (\<lambda>x. x\<lparr>sc_next := a\<rparr>) (look m i) else look m j)"
  "m_zone (set_next w i a m) = m_zone m" "m_sent (set_next w i a m) = m_sent m"
  by (simp_all add: set_next_def)

lemma disable_simps [simp]:
  "look (disable_schedule w sc m) j = (if j = sc_id sc then map_option turned_off (look m (sc_id sc)) else look m j)"
  "m_zone (disable_schedule w sc m) = m_zone m" "m_sent (disable_schedule w sc m) = m_sent m"
  by (simp_all add: disable_schedule_def turned_off_def [abs_def])

text \<open>A delivery ends one of three ways: the record alone, the record off, the message sent and counted.\<close>

lemma deliver_cases:
  obtains (idle) "deliver_schedule env w now final sc m = m"
  | (gone) "deliver_schedule env w now final sc m = disable_schedule w sc m"
  | (sent) "m_sent (deliver_schedule env w now final sc m) = m_sent m @ [(sc_agent sc, sc_name sc, sc_task sc)]"
      "m_zone (deliver_schedule env w now final sc m) = m_zone m"
      "m_store (deliver_schedule env w now final sc m) = update_schedule w (sc_id sc) (ran now final) (m_store m)"
  by (cases "de_known env (m_sent m) (sc_agent sc)"; cases "agent_idle env (sc_agent sc) m";
      cases "de_takes env (m_sent m) (sc_agent sc)")
    (auto simp: deliver_schedule_def ran_def [abs_def])

lemma deliver_frame [frame_simps]:
  "j \<noteq> sc_id sc \<Longrightarrow> look (deliver_schedule env w now final sc m) j = look m j"
  "m_zone (deliver_schedule env w now final sc m) = m_zone m"
  by (cases rule: deliver_cases [of env w now final sc m]; simp)+

definition machine_ok :: "string \<Rightarrow> machine \<Rightarrow> bool" where
  "machine_ok z m \<longleftrightarrow> store_ok (m_store m) \<and> m_zone m = z"

lemma machine_ok_set_next [inv_intros]: "machine_ok z m \<Longrightarrow> machine_ok z (set_next w i a m)"
  by (simp add: machine_ok_def set_next_def store_ok_update)

lemma machine_ok_disable [inv_intros]: "machine_ok z m \<Longrightarrow> machine_ok z (disable_schedule w sc m)"
  by (simp add: machine_ok_def disable_schedule_def store_ok_update)

lemma machine_ok_deliver [inv_intros]:
  "machine_ok z m \<Longrightarrow> machine_ok z (deliver_schedule env w now final sc m)"
  by (cases rule: deliver_cases [of env w now final sc m])
    (simp_all add: machine_ok_disable, simp add: machine_ok_def store_ok_update)

interpretation sweeping: snapshot_pass "machine_ok z" look sc_id "sweep_one tz env w now"
proof unfold_locales
  fix m j and v :: schedule assume "j \<noteq> sc_id v"
  then show "look (sweep_one tz env w now v m) j = look m j"
    by (auto simp: sweep_one_def fire_def deliver_frame split: sum.splits option.splits)
next
  fix m and v :: schedule assume "machine_ok z m"
  then show "machine_ok z (sweep_one tz env w now v m)"
    by (auto simp: sweep_one_def fire_def intro!: inv_intros split: sum.splits option.splits)
qed

interpretation rolling: snapshot_pass "machine_ok z" look sc_id "roll_one tz w now"
  by unfold_locales (auto simp: roll_one_def intro!: inv_intros split: sum.splits option.splits)

interpretation rezoning: snapshot_pass "machine_ok z" look sc_id "rezone_one tz w now loc"
  by unfold_locales (auto simp: rezone_one_def intro!: inv_intros split: sum.splits option.splits)

lemma listed:
  assumes "machine_ok z m" "look m i = Some sc"
  shows "sc \<in> set (list_schedules (m_store m))" "sc_id sc = i"
proof -
  from assms show "sc_id sc = i"
    using keyed_lookD [of sc_id "ss_by (m_store m)" i sc]
    by (simp add: machine_ok_def store_ok_def look_schedule_def)
  with assms show "sc \<in> set (list_schedules (m_store m))"
    using schedules.rows_look [of "m_store m" sc] by (simp add: machine_ok_def)
qed

lemmas snapshot_facts = schedules.rows_distinct schedules.rows_look

lemma sweep_step:
  assumes "machine_ok z m" "look m i = Some sc"
  shows "\<exists>t. machine_ok z t \<and> look t i = Some sc \<and> look (sweep tz env w now m) i = look (sweep_one tz env w now sc t) i"
  using sweeping.pass_own [OF assms(1), of "list_schedules (m_store m)" sc tz env w now] assms listed [OF assms]
    snapshot_facts [of "m_store m"]
  by (simp add: sweep_def machine_ok_def)

lemma roll_step:
  assumes "machine_ok z m" "look m i = Some sc"
  shows "\<exists>t. machine_ok z t \<and> look t i = Some sc \<and> look (roll_forward tz w now m) i = look (roll_one tz w now sc t) i"
  using rolling.pass_own [OF assms(1), of "list_schedules (m_store m)" sc tz w now] assms listed [OF assms]
    snapshot_facts [of "m_store m"]
  by (simp add: roll_forward_def machine_ok_def)

lemma rezone_step:
  assumes "machine_ok z m" "look m i = Some sc"
  shows "\<exists>t. machine_ok z t \<and> look t i = Some sc \<and>
    look (rezone tz w now m) i = look (rezone_one tz w now (load_zone tz m) sc t) i"
  using rezoning.pass_own [OF assms(1), of "list_schedules (m_store m)" sc tz w now "load_zone tz m"] assms listed [OF assms]
    snapshot_facts [of "m_store m"]
  by (simp add: rezone_def machine_ok_def)

lemma load_zone_ok: "machine_ok z m \<Longrightarrow> machine_ok z t \<Longrightarrow> load_zone tz t = load_zone tz m"
  by (simp only: machine_ok_def load_zone_def read_zone_file_def)

text \<open>A roll-forward moves a record into the future or leaves it; nothing else of it changes.\<close>

lemma look_roll:
  assumes "look m (sc_id sc) = Some sc"
  shows "look (roll_one tz w now sc m) (sc_id sc) = Some sc \<or>
    (\<exists>a > now. look (roll_one tz w now sc m) (sc_id sc) = Some (sc\<lparr>sc_next := a\<rparr>))"
  using assms next_run_SomeD(2) by (auto simp: roll_one_def split: sum.splits option.splits)

lemma look_rezone:
  assumes "look m (sc_id sc) = Some sc"
  shows "look (rezone_one tz w now loc sc m) (sc_id sc) =
    (if sc_enabled sc then
       (case parse_schedule tz (sc_expr sc) loc of
          Inr sp \<Rightarrow>
            if sp_every sp > 0 \<or> sp_pinned sp then Some sc
            else (case next_run sp now of Some a \<Rightarrow> Some (sc\<lparr>sc_next := a\<rparr>) | None \<Rightarrow> Some sc)
        | Inl _ \<Rightarrow> Some sc)
     else Some sc)"
  using assms by (auto simp: rezone_one_def split: sum.splits option.splits)

section \<open>A demonstration machine\<close>

definition demo_daemon :: daemon_env where
  "demo_daemon = \<lparr>de_known = (\<lambda>_ _. True), de_state = (\<lambda>_ _. Some ''idle''), de_takes = (\<lambda>_ _. True)\<rparr>"

definition demo_daily :: schedule where
  "demo_daily = \<lparr>sc_id = ''d'', sc_name = ''sweep'', sc_agent = ''boss'', sc_task = ''look'',
     sc_expr = ''daily at 09:00'', sc_next = 9 * hour_ns, sc_last = None, sc_fires = 0, sc_enabled = True\<rparr>"

definition demo_once :: schedule where
  "demo_once = demo_daily\<lparr>sc_id := ''o'', sc_expr := ''once on 1970-01-01 at 09:00''\<rparr>"

definition demo_done :: schedule where
  "demo_done = demo_once\<lparr>sc_id := ''x'', sc_enabled := False\<rparr>"

definition demo_board :: machine where
  "demo_board = \<lparr>m_store = \<lparr>ss_by = [(''d'', demo_daily), (''o'', demo_once), (''x'', demo_done)], ss_file = []\<rparr>,
     m_zone = ''UTC'', m_tz = [], m_sent = []\<rparr>"

definition demo_nine :: "clock list" where
  "demo_nine = [\<lparr>c_hour = 9, c_minute = 0\<rparr>]"

lemma demo_board_ok [simp]: "store_ok (m_store demo_board)"
  by (simp add: demo_board_def store_ok_def keyed_def demo_daily_def demo_once_def demo_done_def)

lemma demo_board_look [simp]:
  "look demo_board ''d'' = Some demo_daily" "look demo_board ''o'' = Some demo_once"
  "look demo_board ''x'' = Some demo_done"
  by (simp_all add: demo_board_def look_schedule_def)

lemma demo_daily_parse:
  "parse_schedule demo_tz (sc_expr demo_daily) (load_zone demo_tz demo_board) = Inr (no_spec\<lparr>sp_times := demo_nine\<rparr>)"
  "next_run (no_spec\<lparr>sp_times := demo_nine\<rparr>) (9 * hour_ns) = Some (33 * hour_ns)"
  by code_simp+

lemma demo_once_parse:
  "parse_schedule demo_tz (sc_expr demo_once) (load_zone demo_tz demo_board) =
     Inr (no_spec\<lparr>sp_once := True, sp_at := Some (9 * hour_ns)\<rparr>)"
  "next_run (no_spec\<lparr>sp_once := True, sp_at := Some (9 * hour_ns)\<rparr>) (12 * hour_ns) = None"
  by code_simp+

section \<open>Repeating schedules and last runs\<close>

lemma look_deliver:
  assumes "look m (sc_id sc) = Some x"
  shows "look (deliver_schedule env w now final sc m) (sc_id sc) \<in> {Some x, Some (turned_off x), Some (ran now final x)}"
  using assms by (cases rule: deliver_cases [of env w now final sc m]) simp_all



text \<open>
  The last run of a schedule is not spent on a busy agent: within an hour of its time the sweep
  leaves the record exactly as it is, or turns it off because its agent is gone, or runs it once
  and turns it off; after that hour it turns it off without running it.
\<close>

theorem last_run_kept:
  assumes "store_ok (m_store m)" "look m i = Some sc" "sc_enabled sc" "sc_next sc \<le> now"
    and "parse_schedule tz (sc_expr sc) (load_zone tz m) = Inr sp" "next_run sp now = None"
  shows "if now - sc_next sc > one_shot_grace
    then look (sweep tz env w now m) i = Some (turned_off sc)
    else look (sweep tz env w now m) i \<in> {Some sc, Some (turned_off sc), Some (ran now True sc)}"
proof -
  have ok: "machine_ok (m_zone m) m" using assms(1) by (simp add: machine_ok_def)
  from sweep_step [OF ok assms(2), of tz env w now] obtain t where t: "machine_ok (m_zone m) t"
    "look t i = Some sc" and e: "look (sweep tz env w now m) i = look (sweep_one tz env w now sc t) i" by blast
  have i: "sc_id sc = i" by (rule listed(2) [OF ok assms(2)])
  have s: "sweep_one tz env w now sc t =
      (if now - sc_next sc > one_shot_grace then disable_schedule w sc t else deliver_schedule env w now True sc t)"
    using assms(3-6) load_zone_ok [OF ok t(1), of tz] i by (simp add: sweep_one_def fire_def)
  from look_deliver [of t sc sc env w now True] t(2) i show ?thesis by (simp add: e s)
qed

theorem last_run_kept_witness:
  "look (sweep demo_tz demo_daemon False (12 * hour_ns) demo_board) ''o'' = Some (turned_off demo_once)"
proof -
  have "sc_enabled demo_once" "sc_next demo_once \<le> 12 * hour_ns"
    "12 * hour_ns - sc_next demo_once > one_shot_grace"
    by (simp_all add: demo_once_def demo_daily_def hour_ns_def ns_per_sec_def one_shot_grace_def)
  with last_run_kept [OF demo_board_ok demo_board_look(2) this(1,2) demo_once_parse, of demo_daemon False]
  show ?thesis by simp
qed

section \<open>Turned off is off\<close>

datatype clock_step =
    OpSweep daemon_env bool int
  | OpRollForward bool int
  | OpRememberZone bool bool int string

fun run_op :: "(string \<Rightarrow> location option) \<Rightarrow> clock_step \<Rightarrow> machine \<Rightarrow> machine" where
  "run_op tz (OpSweep env w now) m = sweep tz env w now m"
| "run_op tz (OpRollForward w now) m = roll_forward tz w now m"
| "run_op tz (OpRememberZone wrote w now z) m = snd (remember_zone tz wrote w now z m)"

lemma remember_zone_cases:
  "snd (remember_zone tz wrote w now z m) = m \<or>
   snd (remember_zone tz wrote w now z m) = rezone tz w now (m\<lparr>m_zone := z, m_tz := z\<rparr>)"
  by (simp add: remember_zone_def remember_zone_file_def)

lemma run_op_ok: "store_ok (m_store m) \<Longrightarrow> store_ok (m_store (run_op tz op m))"
proof -
  assume "store_ok (m_store m)"
  then have ok: "machine_ok (m_zone m) m" "machine_ok z (m\<lparr>m_zone := z, m_tz := z\<rparr>)" for z
    by (simp_all add: machine_ok_def)
  show ?thesis
  proof (cases op)
    case (OpSweep env w now)
    with sweeping.pass_ok [OF ok(1)] show ?thesis by (simp add: sweep_def machine_ok_def)
  next
    case (OpRollForward w now)
    with rolling.pass_ok [OF ok(1)] show ?thesis by (simp add: roll_forward_def machine_ok_def)
  next
    case (OpRememberZone wrote w now z)
    with remember_zone_cases [of tz wrote w now z m] rezoning.pass_ok [OF ok(2), of z] ok(1) show ?thesis
      by (auto simp: rezone_def machine_ok_def)
  qed
qed

text \<open>
  A schedule that is turned off stays turned off and never runs again, through any sequence of
  sweeps, roll-forwards and changes of zone: a one-off that was delivered is never delivered twice.
\<close>

theorem off_is_final:
  assumes "store_ok (m_store m)" "look m i = Some sc" "\<not> sc_enabled sc"
  shows "\<exists>sc'. look (fold (run_op tz) ops m) i = Some sc' \<and> \<not> sc_enabled sc' \<and>
    sc_fires sc' = sc_fires sc \<and> sc_last sc' = sc_last sc"
  using assms
proof (induction ops arbitrary: m sc)
  case (Cons op ops)
  have "\<exists>sc'. look (run_op tz op m) i = Some sc' \<and> \<not> sc_enabled sc' \<and>
      sc_fires sc' = sc_fires sc \<and> sc_last sc' = sc_last sc"
  proof (cases op)
    case (OpSweep env w now)
    have ok: "machine_ok (m_zone m) m" using Cons.prems by (simp add: machine_ok_def)
    with sweep_step [OF ok Cons.prems(2), of tz env w now] Cons.prems(3) OpSweep show ?thesis
      by (auto simp: sweep_one_def)
  next
    case (OpRollForward w now)
    have ok: "machine_ok (m_zone m) m" using Cons.prems by (simp add: machine_ok_def)
    from roll_step [OF ok Cons.prems(2), of tz w now] obtain t where "look t i = Some sc"
      "look (roll_forward tz w now m) i = look (roll_one tz w now sc t) i" by blast
    with look_roll [of t sc tz w now] listed(2) [OF ok Cons.prems(2)] Cons.prems(3) OpRollForward
    show ?thesis by auto
  next
    case (OpRememberZone wrote w now z)
    let ?m = "m\<lparr>m_zone := z, m_tz := z\<rparr>"
    have ok: "machine_ok z ?m" "look ?m i = Some sc" using Cons.prems by (simp_all add: machine_ok_def)
    from rezone_step [OF ok, of tz w now] Cons.prems(2,3) remember_zone_cases [of tz wrote w now z m] OpRememberZone
    show ?thesis by (auto simp: rezone_one_def)
  qed
  then obtain sc' where "look (run_op tz op m) i = Some sc'" "\<not> sc_enabled sc'"
    "sc_fires sc' = sc_fires sc" "sc_last sc' = sc_last sc" by blast
  with Cons.IH [of "run_op tz op m" sc'] run_op_ok [OF Cons.prems(1)] show ?case by simp
qed simp

theorem off_is_final_witness:
  "\<exists>sc'. look (fold (run_op demo_tz) [OpSweep demo_daemon True (9 * hour_ns), OpRollForward True (40 * hour_ns)] demo_board) ''x'' =
     Some sc' \<and> sc_fires sc' = 0"
  using off_is_final [OF demo_board_ok demo_board_look(3),
      of demo_tz "[OpSweep demo_daemon True (9 * hour_ns), OpRollForward True (40 * hour_ns)]"]
  by (fastforce simp: demo_done_def demo_once_def demo_daily_def)

section \<open>After a sleep and after a move\<close>

text \<open>
  A machine that wakes up sends nothing for what it missed: the roll-forward delivers no
  message, and every record is as it was or has its next run in the future, nothing else changed;
  one that was due and repeats is never left due.
\<close>

theorem roll_forward_skips:
  assumes "store_ok (m_store m)" "look m i = Some sc"
  shows "m_sent (roll_forward tz w now m) = m_sent m \<and>
    (look (roll_forward tz w now m) i = Some sc \<or>
     (\<exists>a > now. look (roll_forward tz w now m) i = Some (sc\<lparr>sc_next := a\<rparr>))) \<and>
    (\<forall>sp a. parse_schedule tz (sc_expr sc) (load_zone tz m) = Inr sp \<and> next_run sp now = Some a \<and>
       sc_next sc \<le> now \<longrightarrow> look (roll_forward tz w now m) i = Some (sc\<lparr>sc_next := a\<rparr>))"
proof -
  have ok: "machine_ok (m_zone m) m" using assms(1) by (simp add: machine_ok_def)
  have i: "sc_id sc = i" by (rule listed(2) [OF ok assms(2)])
  from roll_step [OF ok assms(2), of tz w now] obtain t where t: "machine_ok (m_zone m) t" "look t i = Some sc"
    and e: "look (roll_forward tz w now m) i = look (roll_one tz w now sc t) i" by blast
  have "m_sent (fold (roll_one tz w now) scs k) = m_sent k" for scs k
    by (induction scs arbitrary: k) (auto simp: roll_one_def split: sum.splits option.splits)
  moreover have "look (roll_one tz w now sc t) i = Some (sc\<lparr>sc_next := a\<rparr>)"
    if "parse_schedule tz (sc_expr sc) (load_zone tz m) = Inr sp" "next_run sp now = Some a" "sc_next sc \<le> now" for sp a
    using that t i load_zone_ok [OF ok t(1), of tz] by (simp add: roll_one_def)
  ultimately show ?thesis
    using look_roll [of t sc tz w now] t i e by (auto simp: roll_forward_def)
qed

theorem roll_forward_skips_witness:
  "m_sent (roll_forward demo_tz True (9 * hour_ns) demo_board) = [] \<and>
   look (roll_forward demo_tz True (9 * hour_ns) demo_board) ''d'' = Some (demo_daily\<lparr>sc_next := 33 * hour_ns\<rparr>)"
proof -
  have "sc_next demo_daily \<le> 9 * hour_ns" "m_sent demo_board = []" by (simp_all add: demo_daily_def demo_board_def)
  with roll_forward_skips [OF demo_board_ok demo_board_look(1), of demo_tz True "9 * hour_ns"] demo_daily_parse
  show ?thesis by simp
qed

text \<open>
  Adopting a new zone moves exactly the schedules that follow the person: an enabled clock form
  or one-off that names no zone of its own gets its next firing in the new zone (if it has one);
  intervals, pinned and disabled schedules, and every other field, stay as they were.
\<close>

theorem rezone_moves_clocks:
  assumes "store_ok (m_store m)" "look m i = Some sc"
  shows "look (rezone tz w now m) i =
    (if sc_enabled sc then
       (case parse_schedule tz (sc_expr sc) (load_zone tz m) of
          Inr sp \<Rightarrow>
            if sp_every sp > 0 \<or> sp_pinned sp then Some sc
            else (case next_run sp now of Some a \<Rightarrow> Some (sc\<lparr>sc_next := a\<rparr>) | None \<Rightarrow> Some sc)
        | Inl _ \<Rightarrow> Some sc)
     else Some sc)"
proof -
  have ok: "machine_ok (m_zone m) m" using assms(1) by (simp add: machine_ok_def)
  have i: "sc_id sc = i" by (rule listed(2) [OF ok assms(2)])
  from rezone_step [OF ok assms(2), of tz w now] obtain t where "look t i = Some sc"
    "look (rezone tz w now m) i = look (rezone_one tz w now (load_zone tz m) sc t) i" by blast
  with look_rezone [of t sc] i show ?thesis by simp
qed

theorem rezone_moves_clocks_witness:
  "look (rezone demo_tz True (9 * hour_ns) demo_board) ''d'' = Some (demo_daily\<lparr>sc_next := 33 * hour_ns\<rparr>)"
  using rezone_moves_clocks [OF demo_board_ok demo_board_look(1), of demo_tz True "9 * hour_ns"] demo_daily_parse
  by (simp add: demo_daily_def no_spec_def)

section \<open>Cancelling and booking\<close>

text \<open>
  A cancellation says what happened: success means the schedule is gone from memory and from
  the file, a failed write means memory is as before, and an agent can cancel only its own.
\<close>

theorem cancel_honest:
  assumes "store_ok (m_store m)" "cancel_schedule w self i m = (r, m')"
  shows "(r = Cancelled \<longrightarrow> look m' i = None \<and> i \<notin> sc_id ` set (ss_file (m_store m')) \<and>
      (\<exists>sc. look m i = Some sc \<and> sc_agent sc = self)) \<and>
    (r \<noteq> Cancelled \<longrightarrow> (\<forall>j. look m' j = look m j) \<and> ss_file (m_store m') = ss_file (m_store m)) \<and>
    (\<forall>j. j \<noteq> i \<longrightarrow> look m' j = look m j)"
proof (cases "owner i (m_store m) = Some self")
  case False
  with assms(2) show ?thesis by (auto simp: cancel_schedule_def)
next
  case True
  then obtain sc where sc: "look m i = Some sc" "sc_agent sc = self" by (auto simp: owner_def)
  have k: "keyed sc_id (AList.delete i (ss_by (m_store m)))" "sc_id sc = i"
    using assms(1) sc(1) keyed_delete keyed_lookD by (auto simp: store_ok_def look_schedule_def)
  have "i \<notin> sc_id ` set (sorted_rows sc_id (AList.delete i (ss_by (m_store m))))"
    using set_sorted_rows [OF k(1)] by (auto simp: delete_conv')
  with True sc assms(2) k(2) show ?thesis
    by (cases w) (auto simp: cancel_schedule_def delete_schedule_def save_schedules_def look_schedule_def
        list_schedules_def delete_conv' update_conv')
qed

theorem cancel_honest_witness:
  "look (snd (cancel_schedule True ''boss'' ''o'' demo_board)) ''o'' = None"
proof -
  have "fst (cancel_schedule True ''boss'' ''o'' demo_board) = Cancelled" by code_simp
  then have "cancel_schedule True ''boss'' ''o'' demo_board = (Cancelled, snd (cancel_schedule True ''boss'' ''o'' demo_board))"
    by (metis prod.collapse)
  from cancel_honest [OF demo_board_ok this] show ?thesis by blast
qed

definition demo_machine :: machine where
  "demo_machine = \<lparr>m_store = \<lparr>ss_by = [], ss_file = []\<rparr>, m_zone = ''UTC'', m_tz = [], m_sent = []\<rparr>"

text \<open>
  A booking that the write failed for is not undone: \<^verbatim>\<open>Add\<close> reports the error with the schedule
  still in the map, so a client told "not saved" has a schedule that is listed and fires until the
  daemon restarts. (\<^verbatim>\<open>Delete\<close> puts its record back in the same situation.)
\<close>

theorem unsaved_booking_fires:
  "let (r, m) = handle_create_schedule demo_tz (\<lambda>_. True) [7] False 0 ''sweep'' [] ''look around'' ''every 1h'' demo_machine;
       m' = sweep demo_tz demo_daemon False hour_ns m
   in r = NotSaved WriteFailed \<and> ss_file (m_store m) = [] \<and>
      List.map sc_id (list_schedules (m_store m)) = [''sch-000007''] \<and>
      m_sent m' = [(''boss'', ''sweep'', ''look around'')]"
  by code_simp

end
