(* ===== verification/AnswersProps.thy ===== *)
theory AnswersProps
  imports Answers GateProps
begin

text \<open>
  What the way of an answer guarantees, from the button to the gate: a sentence typed on the phone never passes a
  gated call, a card's button sends what the card says, a batch consent is never larger than the
  card's. And where the way loses the answer's sense.
\<close>

section \<open>From the phone\<close>

lemma find_askD:
  assumes "find_ask es mid = Some e"
  shows "e \<in> set es" "is_ask e" "ev_approval e \<noteq> []" "atoi mid = Some (ev_id e)"
proof -
  obtain n where n: "atoi mid = Some n" "List.find (\<lambda>e. ev_id e = n \<and> is_ask e) es = Some e" "ev_approval e \<noteq> []"
    using assms by (auto simp: find_ask_def split: option.splits if_splits)
  then show "e \<in> set es" "is_ask e" "ev_approval e \<noteq> []" "atoi mid = Some (ev_id e)"
    by (auto simp: find_Some_iff)
qed

lemma answer_askD:
  assumes "answer_ask told mid r = SendOn apid d"
  obtains es e where "told = Some es" "find_ask es mid = Some e" "apid = ev_approval e" "decision_body (ask_ui_of e) r = Some d"
  using assms by (auto simp: answer_ask_def split: option.splits)

lemma decision_bodyD:
  assumes "decision_body u r = Some d"
  shows "aq_verdict r = ''approved'' \<or> aq_verdict r = ''denied''" "d_scope d = []"
    "d_answer d \<in> set [[], ''yes'', ''no'', ''done'', ''not now''] \<or> d_answer d = aq_answer r \<and> ak_kind u \<in> set [''text'', ''choice'']"
    "ak_kind u = ''choice'' \<Longrightarrow> aq_verdict r = ''approved'' \<Longrightarrow> d_answer d \<in> set (ak_options u)"
    "ak_kind u = ''approval'' \<Longrightarrow> aq_answer r = [] \<and> d_answer d = [] \<and> d_decision d = (if aq_verdict r = ''approved'' then ''allow'' else ''deny'')"
  using assms by (auto simp: decision_body_def deny_body_def allow_body_def blank_decision_def split: if_splits)

text \<open>
  C21. Nothing typed on a phone lets a gated call through. What is sent on for an answer goes to the id of an ask that is on the
  log under the message named; it carries no batch consent; a gated call gets no text, and what the guest makes of the
  answer is to allow it exactly when the verdict was \<open>approved\<close>; and only a question that wants words gets
  the client's, which for a choice are one of those offered.
\<close>

theorem typed_text_never_consents:
  assumes "answer_ask (Some es) mid r = SendOn apid d"
  shows "\<exists>e \<in> set es. is_ask e \<and> apid = ev_approval e \<and> atoi mid = Some (ev_id e) \<and> d_scope (normalise d) = [] \<and>
    (ev_type e = ''approval_required'' \<longrightarrow>
       aq_answer r = [] \<and> d_answer (normalise d) = [] \<and> (d_decision (normalise d) = ''allow'' \<longleftrightarrow> aq_verdict r = ''approved'')) \<and>
    (d_answer (normalise d) \<in> set [[], ''yes'', ''no'', ''done'', ''not now''] \<or>
       d_answer (normalise d) = aq_answer r \<and> ak_kind (ask_ui_of e) \<in> set [''text'', ''choice'']) \<and>
    (ak_kind (ask_ui_of e) = ''choice'' \<and> aq_verdict r = ''approved'' \<longrightarrow> d_answer (normalise d) \<in> set (ak_options (ask_ui_of e)))"
proof -
  obtain e where e: "find_ask es mid = Some e" "apid = ev_approval e" and b: "decision_body (ask_ui_of e) r = Some d"
    using answer_askD [OF assms] by auto
  have n: "d_answer (normalise d) = d_answer d" "d_scope (normalise d) = d_scope d" by (simp_all add: normalise_def)
  have k: "ev_type e = ''approval_required'' \<Longrightarrow> ak_kind (ask_ui_of e) = ''approval''" by (simp add: ask_ui_of_def)
  note f = find_askD [OF e(1)] and g = decision_bodyD [OF b]
  have "d_decision (normalise d) = ''allow'' \<longleftrightarrow> aq_verdict r = ''approved''" if "ev_type e = ''approval_required''"
    using g(5) [OF k [OF that]] by (simp add: normalise_def)
  then show ?thesis using f e(2) g(2,3,4) g(5) [OF k] unfolding n by (intro bexI [of _ e] conjI) simp_all
qed

definition demo_gated :: event where
  "demo_gated = (check_event ''Bash'' ''rm x'' '''')\<lparr>ev_id := 4, ev_approval := ''boss.ap_001''\<rparr>"

theorem typed_text_never_consents_witness:
  "\<exists>d. answer_ask (Some [demo_gated]) ''4'' \<lparr>aq_verdict = ''approved'', aq_answer = []\<rparr> = SendOn ''boss.ap_001'' d \<and>
     d_scope (normalise d) = []"
proof -
  let ?d = "blank_decision\<lparr>d_decision := ''allow''\<rparr>"
  have a: "answer_ask (Some [demo_gated]) ''4'' \<lparr>aq_verdict = ''approved'', aq_answer = []\<rparr> = SendOn ''boss.ap_001'' ?d"
    by code_simp
  from typed_text_never_consents [OF a] show ?thesis using a by (intro exI [of _ ?d]) blast
qed

section \<open>Buttons\<close>

lemma card_fields [simp]:
  "cd_kind (c\<lparr>cd_agent := a, cd_since := n\<rparr>) = cd_kind c" "cd_bodies (c\<lparr>cd_agent := a, cd_since := n\<rparr>) = cd_bodies c"
  "cd_options (c\<lparr>cd_agent := a, cd_since := n\<rparr>) = cd_options c"
  by simp_all

lemma choice_id_inj [simp]: "choice_id m = choice_id n \<longleftrightarrow> m = n"
  by (simp add: choice_id_def)

lemma choice_bodies: "map_of (snd (choice_options ls)) (choice_id n) = (if n < length ls then Some (blank_decision\<lparr>d_answer := ls ! n\<rparr>) else None)"
proof -
  have "map_of (List.map (\<lambda>(k, l). (choice_id k, f l)) (List.enumerate m ls)) (choice_id n) =
      (if m \<le> n \<and> n < m + length ls then Some (f (ls ! (n - m))) else None)" for m and f :: "string \<Rightarrow> decision"
  proof (induction ls arbitrary: m)
    case (Cons l ls)
    show ?case using Cons.IH [of "Suc m"] by (auto simp: nth_Cons split: nat.splits intro!: arg_cong [where f = "\<lambda>k. f (ls ! k)"])
  qed simp
  from this [of "\<lambda>l. blank_decision\<lparr>d_answer := l\<rparr>" 0] show ?thesis by (simp add: choice_options_def case_prod_unfold)
qed

text \<open>
  On the operator's page a gated call can be answered in three ways and no other: whatever option and text come back, what is
  sent is the consent to this call, the consent to ten calls within the hour, or the refusal, and the text is not in it.
  With the second the gate gains one grant of ten uses and one hour, with the others none.
\<close>

theorem gated_card_answers:
  assumes "ra_kind r = ''approval_required''" "card_body (build_card r) opt text = Some d"
  shows "opt \<in> set [''once'', ''batch'', ''deny''] \<and> d_answer d = [] \<and>
    (d_decision (normalise d) = ''allow'' \<longleftrightarrow> opt \<noteq> ''deny'') \<and>
    apply_scope now tool (normalise d) grants =
      (if opt = ''batch'' \<and> tool \<noteq> []
       then grants @ [\<lparr>gr_tool = tool, gr_remaining = 10, gr_expires = now + 3600 * ns_per_sec\<rparr>] else grants)"
proof -
  have ttl: "ttl_ns 3600 = 3600 * ns_per_sec" by code_simp
  have d: "opt = ''once'' \<and> d = blank_decision\<lparr>d_decision := ''allow''\<rparr> \<or>
    opt = ''batch'' \<and> d = blank_decision\<lparr>d_decision := ''allow'', d_scope := ''batch'', d_max_uses := batch_uses, d_ttl := 3600\<rparr> \<or>
    opt = ''deny'' \<and> d = refusal"
    using assms by (auto simp: build_card_def confirm_card_def card_body_def split: if_splits)
  then show ?thesis
    by (elim disjE conjE)
      (simp_all add: normalise_def blank_decision_def refusal_def apply_scope_def batch_uses_def or_zero_def ttl)
qed

definition demo_raised :: raised where
  "demo_raised = raised_from ''boss.ap_001'' ''boss'' demo_gated"

theorem gated_card_answers_witness:
  "apply_scope 0 ''Bash'' (normalise (the (card_body (build_card demo_raised) ''batch'' ''yes''))) [] =
     [\<lparr>gr_tool = ''Bash'', gr_remaining = 10, gr_expires = 3600 * ns_per_sec\<rparr>]"
proof -
  have "ra_kind demo_raised = ''approval_required''"
    "card_body (build_card demo_raised) ''batch'' ''yes'' = Some (the (card_body (build_card demo_raised) ''batch'' ''yes''))"
    by code_simp+
  from gated_card_answers [OF this, of 0 "''Bash''" "[]"] show ?thesis by simp
qed

text \<open>
  Every button of every card does something: each option a card shows has an answer behind it, a typed one with the
  text it is given; and the button of a choice answers with the label it shows.
\<close>

theorem every_button_answers:
  "(\<forall>b \<in> set (cd_options (build_card r)). \<exists>d. card_body (build_card r) (co_id b) (x # xs) = Some d) \<and>
   (ui_kind_of r = ''choice'' \<and> ra_kind r \<noteq> ''approval_required'' \<and> n < length (choice_labels r) \<longrightarrow>
      co_label (cd_options (build_card r) ! n) = choice_labels r ! n \<and>
      card_body (build_card r) (co_id (cd_options (build_card r) ! n)) text = Some (blank_decision\<lparr>d_answer := choice_labels r ! n\<rparr>))"
proof -
  have b: "co_id (button i l t) = i" "co_label (button i l t) = l" for i l t by (simp_all add: button_def)
  have ct: "choice_id k \<noteq> ''text''" for k by (simp add: choice_id_def)
  have body: "card_body (build_card r) i t = map_of (snd (choice_options (choice_labels r))) i"
    and opts: "cd_options (build_card r) = fst (choice_options (choice_labels r))"
    if "ui_kind_of r = ''choice''" "ra_kind r \<noteq> ''approval_required''" "i \<noteq> ''text''" for i t
    using that by (simp_all add: build_card_def question_card_def Let_def card_body_def)
  have second: "co_label (cd_options (build_card r) ! n) = choice_labels r ! n \<and>
      card_body (build_card r) (co_id (cd_options (build_card r) ! n)) text = Some (blank_decision\<lparr>d_answer := choice_labels r ! n\<rparr>)"
    if k: "ui_kind_of r = ''choice''" "ra_kind r \<noteq> ''approval_required''" and n: "n < length (choice_labels r)"
  proof -
    have o: "cd_options (build_card r) ! n = button (choice_id n) (choice_labels r ! n) ''ok''"
      using n by (simp add: opts [OF k ct] choice_options_def case_prod_unfold nth_enumerate_eq length_enumerate)
    show ?thesis unfolding o b body [OF k ct] using n by (simp add: choice_bodies)
  qed
  have first: "\<forall>b \<in> set (cd_options (build_card r)). \<exists>d. card_body (build_card r) (co_id b) (x # xs) = Some d"
  proof (cases "ra_kind r \<noteq> ''approval_required'' \<and> ui_kind_of r = ''choice''")
    case True
    show ?thesis
    proof
      fix o' assume "o' \<in> set (cd_options (build_card r))"
      then obtain k where "k < length (choice_labels r)" "co_id o' = choice_id k"
        using True by (auto simp: opts [OF _ _ ct] choice_options_def case_prod_unfold b in_set_conv_nth nth_enumerate_eq length_enumerate)
      then show "\<exists>d. card_body (build_card r) (co_id o') (x # xs) = Some d"
        using True body [OF _ _ ct] choice_bodies by auto
    qed
  next
    case False
    then show ?thesis
      by (auto simp: build_card_def question_card_def confirm_card_def Let_def card_body_def button_def)
  qed
  from first second show ?thesis by blast
qed

definition demo_choice :: raised where
  "demo_choice = raised_from ''boss.q_002'' ''boss'' (ask_event [] ''Which?'' \<lparr>ui_kind = ''choice'', ui_options = [''Oslo'', ''Rome''], ui_url = []\<rparr>)"

theorem every_button_answers_witness:
  "card_body (build_card demo_choice) (co_id (cd_options (build_card demo_choice) ! 1)) [] = Some (blank_decision\<lparr>d_answer := ''Rome''\<rparr>)"
proof -
  have "ui_kind_of demo_choice = ''choice'' \<and> ra_kind demo_choice \<noteq> ''approval_required'' \<and> 1 < length (choice_labels demo_choice)"
    "choice_labels demo_choice ! 1 = ''Rome''" by code_simp+
  with every_button_answers [of demo_choice "CHR ''x''" "[]" 1 "[]"] show ?thesis by simp
qed

section \<open>What is lost on the way\<close>

text \<open>
  A No that reads as a Yes. The person denies a confirm question; the host sends the guest the answer \<open>no\<close>, which the
  guest, reading any answer as consent, takes and logs as \<open>allow\<close>; and the card in the conversation, which
  goes by the log, is from then on shown as approved. The same holds for \<open>not now\<close>.
\<close>

theorem no_shown_as_yes:
  "let q = (ask_event [] ''Send it?'' \<lparr>ui_kind = ''confirm'', ui_options = [], ui_url = []\<rparr>)\<lparr>ev_id := 1, ev_approval := ''boss.q_001''\<rparr> in
   \<exists>d. answer_ask (Some [q]) ''1'' \<lparr>aq_verdict = ''denied'', aq_answer = []\<rparr> = SendOn ''boss.q_001'' d \<and>
     List.map ms_verdict (th_messages (build_thread (\<lambda>_. None) ''boss'' [q, (decision_event ''boss.q_001'' (normalise d))\<lparr>ev_id := 2\<rparr>] []))
       = [''approved'']"
proof -
  let ?q = "(ask_event [] ''Send it?'' \<lparr>ui_kind = ''confirm'', ui_options = [], ui_url = []\<rparr>)\<lparr>ev_id := 1, ev_approval := ''boss.q_001''\<rparr>"
  let ?d = "blank_decision\<lparr>d_answer := ''no''\<rparr>"
  have "answer_ask (Some [?q]) ''1'' \<lparr>aq_verdict = ''denied'', aq_answer = []\<rparr> = SendOn ''boss.q_001'' ?d"
    "List.map ms_verdict (th_messages (build_thread (\<lambda>_. None) ''boss'' [?q, (decision_event ''boss.q_001'' (normalise ?d))\<lparr>ev_id := 2\<rparr>] []))
       = [''approved'']" by code_simp+
  then show ?thesis unfolding Let_def by (intro exI [of _ ?d] conjI)
qed

end
