(* ===== verification/FeedProps.thy ===== *)
theory FeedProps
  imports Feed AnswersProps
begin

text \<open>
  What the live connection promises: what it sends of an agent is the log between two events, line by line
  as the history shows it, nothing twice and nothing left out; and it sends nothing it could not
  place. And two ways a card or a line is never told to a client.
\<close>

section \<open>What reached the client\<close>

definition sent_lines :: "string \<Rightarrow> feed_frame list \<Rightarrow> message list" where
  "sent_lines i out = List.map_filter (\<lambda>fr. case fr of FMessage j m \<Rightarrow> if j = i then Some m else None | _ \<Rightarrow> None) out"

text \<open>The lines a log has for a client who typed its own.\<close>

definition live_line :: "url_parser \<Rightarrow> string \<Rightarrow> event \<Rightarrow> message option" where
  "live_line parse handoff e = (if ev_type e = ''user'' then None else thread_line parse handoff e)"

lemma sent_lines_simps [simp]:
  "sent_lines i [] = []" "sent_lines i (xs @ ys) = sent_lines i xs @ sent_lines i ys"
  "sent_lines i [FAgent a] = []" "sent_lines i [FTyping j b] = []" "sent_lines i [FResolved j x y z] = []"
  "sent_lines i [FMessage j m] = (if j = i then [m] else [])"
  by (simp_all add: sent_lines_def map_filter_def)

lemma map_filter_snoc: "List.map_filter f (xs @ [x]) = List.map_filter f xs @ (case f x of Some y \<Rightarrow> [y] | None \<Rightarrow> [])"
  by (simp add: map_filter_def split: option.splits)

lemma map_filter_Cons: "List.map_filter f (x # xs) = (case f x of Some y \<Rightarrow> [y] | None \<Rightarrow> []) @ List.map_filter f xs"
  by (simp add: map_filter_def split: option.splits)

lemma quiet_state: "ev_type e = ''state'' \<or> ev_type e = ''decision'' \<Longrightarrow> live_line parse h e = None"
  by (elim disjE) (simp_all add: live_line_def thread_line_def project_message_def is_ask_def Let_def)

text \<open>Nothing but a line of conversation is one, and only a poll of its log moves an agent's cursor.\<close>

lemma emit_roster_frame:
  "sent_lines i (fst (emit_roster sts s)) = sent_lines i (fst s)" "fd_cursor (snd (emit_roster sts s)) = fd_cursor (snd s)"
proof -
  have "sent_lines i (fst (emit_row st s)) = sent_lines i (fst s) \<and> fd_cursor (snd (emit_row st s)) = fd_cursor (snd s)" for st s
    by (simp add: emit_row_def Let_def case_prod_unfold)
  then have "sent_lines i (fst (fold emit_row sts s)) = sent_lines i (fst s) \<and> fd_cursor (snd (fold emit_row sts s)) = fd_cursor (snd s)"
    by (induction sts arbitrary: s) simp_all
  then show "sent_lines i (fst (emit_roster sts s)) = sent_lines i (fst s)" "fd_cursor (snd (emit_roster sts s)) = fd_cursor (snd s)"
    by (simp_all add: emit_roster_def)
qed

lemma emit_expiries_frame:
  "sent_lines i (fst (emit_expiries t s)) = sent_lines i (fst s)" "fd_cursor (snd (emit_expiries t s)) = fd_cursor (snd s)"
proof -
  have "sent_lines i (fst (expire_one t al p s)) = sent_lines i (fst s) \<and> fd_cursor (snd (expire_one t al p s)) = fd_cursor (snd s)" for al p s
    by (simp add: expire_one_def case_prod_unfold)
  then have "sent_lines i (fst (fold (expire_one t al) ps s)) = sent_lines i (fst s) \<and> fd_cursor (snd (fold (expire_one t al) ps s)) = fd_cursor (snd s)" for al ps
    by (induction ps arbitrary: s) simp_all
  then show "sent_lines i (fst (emit_expiries t s)) = sent_lines i (fst s)" "fd_cursor (snd (emit_expiries t s)) = fd_cursor (snd s)"
    by (simp_all add: emit_expiries_def case_prod_unfold split: option.splits)
qed

lemma forward_one_frame:
  "sent_lines i (fst (forward_one parse h j e s)) =
     sent_lines i (fst s) @ (if i = j then (case live_line parse h e of Some m \<Rightarrow> [m] | None \<Rightarrow> []) else [])"
  "fd_cursor (snd (forward_one parse h j e s)) = fd_cursor (snd s)"
proof -
  consider "ev_type e = ''state''" | "ev_type e = ''decision''" | "ev_type e \<noteq> ''state''" "ev_type e \<noteq> ''decision''" by blast
  then have "sent_lines i (fst (forward_one parse h j e s)) =
     sent_lines i (fst s) @ (if i = j then (case live_line parse h e of Some m \<Rightarrow> [m] | None \<Rightarrow> []) else []) \<and>
     fd_cursor (snd (forward_one parse h j e s)) = fd_cursor (snd s)"
  proof cases
    case 1
    then show ?thesis using quiet_state [of e parse h]
      by (simp add: forward_one_def typing_of_def emit_typing_def case_prod_unfold)
  next
    case 2
    then show ?thesis using quiet_state [of e parse h]
      by (simp add: forward_one_def typing_of_def emit_decision_def case_prod_unfold split: option.splits)
  next
    case 3
    then have "forward_one parse h j e s = emit_message parse h j e s" by (simp add: forward_one_def typing_of_def)
    then show ?thesis
      by (simp add: emit_message_def live_line_def case_prod_unfold split: option.splits)
  qed
  then show "sent_lines i (fst (forward_one parse h j e s)) =
     sent_lines i (fst s) @ (if i = j then (case live_line parse h e of Some m \<Rightarrow> [m] | None \<Rightarrow> []) else [])"
    "fd_cursor (snd (forward_one parse h j e s)) = fd_cursor (snd s)" by blast+
qed

lemma forward_all_frame:
  "sent_lines i (fst (forward_all parse h j es s)) =
     sent_lines i (fst s) @ (if i = j then List.map_filter (live_line parse h) es else []) \<and>
   fd_cursor (snd (forward_all parse h j es s)) = fd_cursor (snd s)"
  unfolding forward_all_def
proof (induction es arbitrary: s)
  case (Cons e es)
  from Cons.IH [of "forward_one parse h j e s"] show ?case
    by (auto simp: forward_one_frame map_filter_Cons split: option.splits)
qed (simp add: map_filter_def)

section \<open>Honest guests\<close>

text \<open>\<open>book\<close> is each agent's log when the tick reads it; the guest answers from it or not at all.\<close>

definition honest_tick :: "string \<Rightarrow> (string \<Rightarrow> event list) \<Rightarrow> tick \<Rightarrow> bool" where
  "honest_tick h book t \<longleftrightarrow>
     tc_handoff t = h \<and>
     (\<forall>i since. tc_events t i since = None \<or> tc_events t i since = Some (after_id (book i) since, last_event_id (book i)))"

definition log_sorted :: "event list \<Rightarrow> bool" where
  "log_sorted es \<longleftrightarrow> sorted_wrt (<) (List.map ev_id es) \<and> (\<forall>e \<in> set es. 0 < ev_id e)"

definition segment :: "event list \<Rightarrow> int \<Rightarrow> int \<Rightarrow> event list" where
  "segment es a b = filter (\<lambda>e. a < ev_id e \<and> ev_id e \<le> b) es"

lemma last_bounds: "log_sorted es \<Longrightarrow> e \<in> set es \<Longrightarrow> ev_id e \<le> last_event_id es"
  by (induction es rule: rev_induct) (auto simp: log_sorted_def last_event_id_def sorted_wrt_append)

lemma after_sorted: "log_sorted es \<Longrightarrow> after_id es a = filter (\<lambda>e. a < ev_id e) es"
proof (induction es)
  case (Cons e es)
  then have "filter (\<lambda>e. a < ev_id e) es = es" if "a < ev_id e" using that by (auto simp: log_sorted_def intro!: filter_True)
  with Cons show ?case by (auto simp: log_sorted_def)
qed simp

lemma segment_all: "log_sorted es \<Longrightarrow> after_id es a = segment es a (last_event_id es)"
  using last_bounds [of es] by (auto simp: after_sorted segment_def intro!: filter_cong)

lemma segment_split: "log_sorted es \<Longrightarrow> a \<le> b \<Longrightarrow> b \<le> c \<Longrightarrow> segment es a c = segment es a b @ segment es b c"
proof (induction es)
  case (Cons e es)
  have s: "log_sorted es" "\<forall>x \<in> set es. ev_id e < ev_id x" using Cons.prems(1) by (auto simp: log_sorted_def)
  have "segment es a b = []" if "b < ev_id e" using that s(2) by (auto simp: segment_def filter_empty_conv)
  with Cons.IH [OF s(1) Cons.prems(2,3)] Cons.prems show ?case by (auto simp: segment_def)
qed (simp add: segment_def)

lemma segment_grow: "prefix es fs \<Longrightarrow> log_sorted fs \<Longrightarrow> c \<le> last_event_id es \<Longrightarrow> 0 \<le> c \<Longrightarrow> segment es a c = segment fs a c"
proof -
  assume p: "prefix es fs" and s: "log_sorted fs" and c: "c \<le> last_event_id es" "0 \<le> c"
  obtain gs where gs: "fs = es @ gs" using p by (auto simp: prefix_def)
  have "segment gs a c = []"
  proof (cases "es = []")
    case True
    then have "c = 0" using c by (simp add: last_event_id_def)
    then show ?thesis using s by (force simp: segment_def filter_empty_conv log_sorted_def gs)
  next
    case False
    then have "last_event_id es \<in> ev_id ` set es" by (simp add: last_event_id_def)
    then have "\<forall>g \<in> set gs. c < ev_id g" using s c gs by (fastforce simp: log_sorted_def sorted_wrt_append)
    then show ?thesis by (auto simp: segment_def filter_empty_conv)
  qed
  then show ?thesis by (simp add: gs segment_def)
qed

text \<open>One agent through the steps of a tick.\<close>

definition follows :: "url_parser \<Rightarrow> string \<Rightarrow> event list \<Rightarrow> string \<Rightarrow> int \<Rightarrow> feed_frame list \<times> feed \<Rightarrow> feed_frame list \<times> feed \<Rightarrow> bool" where
  "follows parse h es i c s u \<longleftrightarrow>
     (\<exists>d. c \<le> d \<and> d \<le> last_event_id es \<and> map_of (fd_cursor (snd u)) i = Some d \<and>
        sent_lines i (fst u) = sent_lines i (fst s) @ List.map_filter (live_line parse h) (segment es c d))"

lemma follows_trans:
  assumes "log_sorted es" "follows parse h es i c s u" "\<And>d. map_of (fd_cursor (snd u)) i = Some d \<Longrightarrow> d \<le> last_event_id es \<Longrightarrow> follows parse h es i d u v"
  shows "follows parse h es i c s v"
proof -
  obtain d where d: "c \<le> d" "d \<le> last_event_id es" "map_of (fd_cursor (snd u)) i = Some d"
    "sent_lines i (fst u) = sent_lines i (fst s) @ List.map_filter (live_line parse h) (segment es c d)"
    using assms(2) by (auto simp: follows_def)
  obtain b where b: "d \<le> b" "b \<le> last_event_id es" "map_of (fd_cursor (snd v)) i = Some b"
    "sent_lines i (fst v) = sent_lines i (fst u) @ List.map_filter (live_line parse h) (segment es d b)"
    using assms(3) [OF d(3,2)] by (auto simp: follows_def)
  have "segment es c b = segment es c d @ segment es d b" using segment_split [OF assms(1) d(1) b(1)] .
  with d b show ?thesis unfolding follows_def by (intro exI [of _ b]) (simp add: map_filter_def)
qed

lemma follows_still:
  "map_of (fd_cursor (snd s)) i = Some c \<Longrightarrow> c \<le> last_event_id es \<Longrightarrow> sent_lines i (fst u) = sent_lines i (fst s) \<Longrightarrow>
    fd_cursor (snd u) = fd_cursor (snd s) \<Longrightarrow> follows parse h es i c s u"
  unfolding follows_def by (intro exI [of _ c]) (simp add: segment_def map_filter_def)

lemma emit_events_follows:
  assumes "honest_tick h book t" "log_sorted (book i)" "map_of (fd_cursor (snd s)) i = Some c" "c \<le> last_event_id (book i)"
  shows "follows parse h (book i) i c s (emit_events parse t st s)"
proof -
  obtain out f where s: "s = (out, f)" by fastforce
  let ?j = "st_id st"
  have ans: "tc_events t ?j n = None \<or> tc_events t ?j n = Some (after_id (book ?j) n, last_event_id (book ?j))" for n
    using assms(1) by (auto simp: honest_tick_def)
  have h: "tc_handoff t = h" using assms(1) by (simp add: honest_tick_def)
  show ?thesis
  proof (cases "?j = i")
    case False
    let ?u = "emit_events parse t st s"
    have "sent_lines i (fst ?u) = sent_lines i (fst s)" "map_of (fd_cursor (snd ?u)) i = map_of (fd_cursor (snd s)) i"
      using False ans forward_all_frame [of i parse h ?j]
      by (auto simp: emit_events_def s h update_conv' split: option.splits)
    with assms(3,4) show ?thesis unfolding follows_def by (intro exI [of _ c]) (simp add: segment_def map_filter_def)
  next
    case True
    show ?thesis
    proof (cases "st_last st \<le> c \<or> tc_events t i c = None")
      case stay: True
      then have "emit_events parse t st s = s" using assms(3) True s by (auto simp: emit_events_def)
      with follows_still [OF assms(3,4)] show ?thesis by simp
    next
      case go: False
      then have "tc_events t i c = Some (after_id (book i) c, last_event_id (book i))" using ans [of c] True by auto
      then have e: "emit_events parse t st s = forward_all parse h i (after_id (book i) c)
          (out, f\<lparr>fd_cursor := AList.update i (last_event_id (book i)) (fd_cursor f)\<rparr>)"
        using go assms(3) True s h by (auto simp: emit_events_def)
      show ?thesis unfolding follows_def e
        using forward_all_frame [of i parse h i] assms(4) segment_all [OF assms(2), of c] s
        by (intro exI [of _ "last_event_id (book i)"]) (simp add: update_conv')
    qed
  qed
qed

lemma feed_sweep_follows:
  assumes "honest_tick h book t" "log_sorted (book i)" "map_of (fd_cursor f) i = Some c" "c \<le> last_event_id (book i)"
  shows "follows parse h (book i) i c ([], f) (feed_sweep parse t f)"
proof (cases "tc_roster t")
  case None
  with follows_still [of "([], f)" i c] assms(3,4) show ?thesis by (simp add: feed_sweep_def)
next
  case (Some sts)
  let ?u = "emit_roster sts ([], f)"
  have u: "map_of (fd_cursor (snd ?u)) i = Some c" "sent_lines i (fst ?u) = []" using emit_roster_frame [where sts = sts and s = "([], f)"] assms(3) by simp_all
  have rows: "follows parse h (book i) i d s (fold (emit_events parse t) sts s)"
    if "map_of (fd_cursor (snd s)) i = Some d" "d \<le> last_event_id (book i)" for s d
    using that
  proof (induction sts arbitrary: s d)
    case Nil
    then show ?case using follows_still by auto
  next
    case (Cons st sts)
    show ?case unfolding fold_simps
      by (rule follows_trans [OF assms(2) emit_events_follows [OF assms(1,2) Cons.prems] Cons.IH])
  qed
  have "follows parse h (book i) i c ([], f) ?u"
    using follows_still [of "([], f)" i c "book i" ?u] assms(3,4) emit_roster_frame [where sts = sts and s = "([], f)"] by simp
  from follows_trans [OF assms(2) this rows] have a: "follows parse h (book i) i c ([], f) (fold (emit_events parse t) sts ?u)" .
  have "follows parse h (book i) i d s (emit_expiries t s)" if "map_of (fd_cursor (snd s)) i = Some d" "d \<le> last_event_id (book i)" for s d
    using follows_still [OF that] emit_expiries_frame [where t = t and s = s] by simp
  from follows_trans [OF assms(2) a this] show ?thesis using Some by (simp add: feed_sweep_def)
qed

section \<open>A whole connection\<close>

type_synonym seen_tick = "resolved \<times> tick \<times> (string \<Rightarrow> event list)"

text \<open>The logs only grow, and their numbers with them.\<close>

fun honest_run :: "string \<Rightarrow> (string \<Rightarrow> event list) \<Rightarrow> seen_tick list \<Rightarrow> bool" where
  "honest_run h book [] \<longleftrightarrow> True"
| "honest_run h book ((r, t, new) # ps) \<longleftrightarrow>
     honest_tick h new t \<and> (\<forall>i. prefix (book i) (new i) \<and> log_sorted (new i)) \<and> honest_run h new ps"

fun final_book :: "(string \<Rightarrow> event list) \<Rightarrow> seen_tick list \<Rightarrow> string \<Rightarrow> event list" where
  "final_book book [] = book"
| "final_book book ((r, t, new) # ps) = final_book new ps"

lemma last_grows: "prefix es fs \<Longrightarrow> log_sorted fs \<Longrightarrow> last_event_id es \<le> last_event_id fs"
proof -
  assume p: "prefix es fs" and s: "log_sorted fs"
  show ?thesis
  proof (cases "es = []")
    case True
    have "0 \<le> last_event_id fs" using s by (auto simp: last_event_id_def log_sorted_def dest!: last_in_set intro: less_imp_le)
    with True show ?thesis by (simp add: last_event_id_def)
  next
    case False
    then have "List.last es \<in> set fs" using p set_mono_prefix by fastforce
    from last_bounds [OF s this] False show ?thesis by (simp add: last_event_id_def)
  qed
qed

lemma final_grows: "honest_run h book ps \<Longrightarrow> log_sorted (book i) \<Longrightarrow> prefix (book i) (final_book book ps i) \<and> log_sorted (final_book book ps i)"
proof (induction ps arbitrary: book)
  case (Cons p ps)
  obtain r t new where p: "p = (r, t, new)" by (cases p)
  from Cons.IH [of new] Cons.prems p show ?case by (auto intro: prefix_order.trans)
qed simp


definition demo_status :: "string \<Rightarrow> int \<Rightarrow> agent_status" where
  "demo_status i n = \<lparr>st_id = i, st_name = i, st_type = ''coder'', st_description = [], st_browser = False, st_state = ''idle'',
     st_live = True, st_last = n, st_task = None, st_instructions = [], st_model = None\<rparr>"

definition demo_text :: "int \<Rightarrow> event" where
  "demo_text n = (blank_event ''text'')\<lparr>ev_id := n, ev_text := ''hi''\<rparr>"

definition demo_tick :: "agent_status list \<Rightarrow> event list \<Rightarrow> tick" where
  "demo_tick sts es = \<lparr>tc_now = 0, tc_roster = Some sts, tc_events = \<lambda>i since. Some (after_id es since, last_event_id es),
     tc_pending = Some [], tc_handoff = []\<rparr>"

definition demo_feed :: feed where
  "demo_feed = (new_feed ''m'' ''10.0.0.2'')\<lparr>fd_cursor := [(''a'', 1)]\<rparr>"


text \<open>
  Nothing goes to the wrong person. Frames are sent only by a poll that found the machine at the very address the
  connection was opened for; a machine that moved or went ends it, and fifteen polls in a row that could not tell
  end it too, with nothing sent.
\<close>

theorem stream_never_misplaced:
  "(fst (feed_poll parse r t (n, f)) \<noteq> [] \<longrightarrow> r = AtAddress (fd_ip f)) \<and>
   (\<forall>ip. r = AtAddress ip \<and> ip \<noteq> fd_ip f \<longrightarrow> feed_poll parse r t (n, f) = ([], AddressMoved)) \<and>
   (r = NoMachine \<longrightarrow> feed_poll parse r t (n, f) = ([], MachineGone)) \<and>
   (length ps = stale_limit \<and> set (List.map fst ps) \<subseteq> {Unverified} \<longrightarrow> feed_run parse ps (0, f) = ([], TooStale))"
proof -
  have stale: "feed_run parse ps (n, f) = ([], TooStale)"
    if "n + length ps = stale_limit" "n < stale_limit" "set (List.map fst ps) \<subseteq> {Unverified}" for ps n
    using that
  proof (induction ps arbitrary: n)
    case (Cons p ps)
    obtain r u where p: "p = (r, u)" by (cases p)
    show ?case
    proof (cases "ps = []")
      case True
      with Cons.prems p show ?thesis by (simp add: feed_poll_def)
    next
      case False
      then have "0 < length ps" by simp
      with Cons.prems p Cons.IH [of "Suc n"] show ?thesis by (simp add: feed_poll_def)
    qed
  qed simp
  have "feed_run parse ps (0, f) = ([], TooStale)" if "length ps = stale_limit" "set (List.map fst ps) \<subseteq> {Unverified}"
    using stale [of 0 ps] that by (simp add: stale_limit_def)
  then show ?thesis by (auto simp: feed_poll_def split: resolved.splits prod.splits)
qed

theorem stream_never_misplaced_witness:
  "feed_run (\<lambda>_. None) (replicate 15 (Unverified, demo_tick [] [])) (0, demo_feed) = ([], TooStale)"
proof -
  have "length (replicate 15 (Unverified, demo_tick [] [])) = stale_limit"
    "set (List.map fst (replicate 15 (Unverified, demo_tick [] []))) \<subseteq> {Unverified}" by (simp_all add: stale_limit_def)
  with stream_never_misplaced [where ps = "replicate 15 (Unverified, demo_tick [] [])" and f = demo_feed and parse = "\<lambda>_. None"]
  show ?thesis by blast
qed

text \<open>Typing is told only when it changes.\<close>

lemma typing_told_once: "emit_typing i b (emit_typing i b s) = emit_typing i b s"
  by (simp add: emit_typing_def case_prod_unfold update_conv')

section \<open>What is never told\<close>

text \<open>
  An ask already open when the connection began is never settled on it: when it is answered elsewhere, the poll that
  brings the decision sends nothing, and the card stays up on this phone.
\<close>

theorem earlier_ask_stays_open:
  "let q = (ask_event [] ''Ok?'' \<lparr>ui_kind = ''confirm'', ui_options = [], ui_url = []\<rparr>)\<lparr>ev_id := 1, ev_approval := ''boss.q_001''\<rparr>;
       a = (decision_event ''boss.q_001'' \<lparr>d_decision = ''allow'', d_reason = [], d_answer = ''yes'', d_scope = [], d_max_uses = 0, d_ttl = 0\<rparr>)\<lparr>ev_id := 2\<rparr>;
       ip = ''10.0.0.2'';
       out = fst (feed_run (\<lambda>_. None) [(AtAddress ip, demo_tick [demo_status ''boss'' 1] [q]), (AtAddress ip, demo_tick [demo_status ''boss'' 2] [q, a]),
         (AtAddress ip, demo_tick [demo_status ''boss'' 2] [q, a])] (0, new_feed ''m'' ip)) in
   list_all (\<lambda>fr. case fr of FResolved _ _ _ _ \<Rightarrow> False | _ \<Rightarrow> True) out"
  by code_simp

text \<open>What an agent hired while the connection is open said before the first poll that saw it is not sent.\<close>

lemma first_words_unsent:
  "sent_lines ''coder'' (fst (feed_run (\<lambda>_. None) [(AtAddress ''10.0.0.2'', demo_tick [demo_status ''coder'' 2] [demo_text 1, demo_text 2]),
     (AtAddress ''10.0.0.2'', demo_tick [demo_status ''coder'' 2] [demo_text 1, demo_text 2])] (0, demo_feed))) = []"
  by code_simp

end
