(* ===== verification/Endpoint.thy ===== *)
theory Endpoint
  imports Roster
begin

text \<open>
  Where an agent's model calls go (\<^verbatim>\<open>endpoint.go\<close>): a key of the process's own, a broker named in the environment, or
  the host on the other end of the guest's own tap, found in the kernel's routing table. Which model is called is the
  agent's. The HTTP client is not modelled.
\<close>

section \<open>The routing table\<close>

definition hex_digit :: "char \<Rightarrow> nat option" where
  "hex_digit c =
     (let n = of_char c in
      if 48 \<le> n \<and> n \<le> 57 then Some (n - 48)
      else if 97 \<le> n \<and> n \<le> 102 then Some (n - 87)
      else if 65 \<le> n \<and> n \<le> 70 then Some (n - 55)
      else None)"

text \<open>\<^verbatim>\<open>hex.DecodeString\<close>, and \<^verbatim>\<open>strconv.ParseUint(s, 16, 32)\<close>.\<close>

fun hex_bytes :: "string \<Rightarrow> nat list option" where
  "hex_bytes [] = Some []"
| "hex_bytes [c] = None"
| "hex_bytes (c # d # s) =
     (case (hex_digit c, hex_digit d, hex_bytes s) of
        (Some a, Some b, Some bs) \<Rightarrow> Some ((16 * a + b) # bs)
      | _ \<Rightarrow> None)"

fun hex_value :: "nat \<Rightarrow> string \<Rightarrow> nat option" where
  "hex_value acc [] = Some acc"
| "hex_value acc (c # s) = (case hex_digit c of None \<Rightarrow> None | Some a \<Rightarrow> hex_value (16 * acc + a) s)"

definition parse_hex32 :: "string \<Rightarrow> nat option" where
  "parse_hex32 s =
     (if s = [] then None else (case hex_value 0 s of None \<Rightarrow> None | Some n \<Rightarrow> if n < 2 ^ 32 then Some n else None))"

definition hex_ipv4 :: "string \<Rightarrow> string option" where
  "hex_ipv4 h = (case hex_bytes h of Some [a, b, c, d] \<Rightarrow> Some (dotted d c b a) | _ \<Rightarrow> None)"

definition default_gateway :: "string \<Rightarrow> string option" where
  "default_gateway line =
     (case fields_of line of
        iface # dest # gw # flags # rest \<Rightarrow>
          if dest \<noteq> ''00000000'' then None
          else (case parse_hex32 flags of
                  None \<Rightarrow> None
                | Some n \<Rightarrow> if (n div 2) mod 2 = 0 then None else hex_ipv4 gw)
      | _ \<Rightarrow> None)"

fun first_gateway :: "string list \<Rightarrow> string option" where
  "first_gateway [] = None"
| "first_gateway (w # ws) = (case default_gateway w of Some ip \<Rightarrow> Some ip | None \<Rightarrow> first_gateway ws)"

definition parse_route :: "string \<Rightarrow> string option" where
  "parse_route table = first_gateway (tl (split_on newline table))"

text \<open>The table cannot be read, or its bytes.\<close>

definition gateway_ip :: "string + string \<Rightarrow> string + string" where
  "gateway_ip routes =
     (case routes of
        Inl e \<Rightarrow> Inl e
      | Inr table \<Rightarrow>
          (case parse_route table of None \<Rightarrow> Inl ''no default route in /proc/net/route'' | Some gw \<Rightarrow> Inr gw))"

section \<open>Endpoints\<close>

record endpoint =
  ep_base :: string
  ep_key :: string
  ep_model :: string
  ep_thinking :: string
  ep_bearer :: bool
  ep_err :: "string option"

definition broker_port :: string where "broker_port = ''8092''"
definition broker_key :: string where "broker_key = ''brokered''"
definition open_router_base :: string where "open_router_base = ''https://openrouter.ai/api''"

definition reached_at :: "string \<Rightarrow> string \<Rightarrow> bool \<Rightarrow> endpoint" where
  "reached_at url key bearer =
     \<lparr>ep_base = url, ep_key = key, ep_model = [], ep_thinking = [], ep_bearer = bearer, ep_err = None\<rparr>"

definition default_endpoint :: "string \<Rightarrow> string \<Rightarrow> string + string \<Rightarrow> endpoint" where
  "default_endpoint own_key named_broker routes =
     (if own_key \<noteq> [] then reached_at open_router_base own_key True
      else if named_broker \<noteq> [] then reached_at named_broker broker_key False
      else (case gateway_ip routes of
              Inl e \<Rightarrow> (reached_at [] [] False)\<lparr>ep_err := Some e\<rparr>
            | Inr gw \<Rightarrow> reached_at (''http://'' @ gw @ '':'' @ broker_port) broker_key False))"

definition for_agent :: "string \<Rightarrow> model_config option \<Rightarrow> endpoint \<Rightarrow> endpoint" where
  "for_agent model own ep =
     (case own of
        None \<Rightarrow> ep\<lparr>ep_model := model\<rparr>
      | Some m \<Rightarrow> ep\<lparr>ep_model := mc_model m, ep_thinking := mc_thinking m\<rparr>)"

definition describe_endpoint :: "endpoint \<Rightarrow> string" where
  "describe_endpoint ep =
     (case ep_err ep of
        Some e \<Rightarrow> ''no broker ('' @ e @ ''); every turn will fail''
      | None \<Rightarrow> if ep_bearer ep then ep_base ep @ '' on this process's own key'' else ''the broker at '' @ ep_base ep)"

section \<open>A guest finds its host\<close>

text \<open>The kernel prints an address with its bytes backwards, two hexadecimal digits each.\<close>

definition hex_pair :: "nat \<Rightarrow> string" where
  "hex_pair n = [digit_char (n div 16), digit_char (n mod 16)]"

definition kernel_addr :: "nat \<Rightarrow> nat \<Rightarrow> nat \<Rightarrow> nat \<Rightarrow> string" where
  "kernel_addr a b c d = hex_pair d @ hex_pair c @ hex_pair b @ hex_pair a"

lemma hex_digit_char: "n < 16 \<Longrightarrow> hex_digit (digit_char n) = Some n"
proof -
  assume "n < 16"
  then have "n < 10 \<or> n = 10 \<or> n = 11 \<or> n = 12 \<or> n = 13 \<or> n = 14 \<or> n = 15" by arith
  then show ?thesis by (elim disjE) (auto dest!: less_ten_cases simp: hex_digit_def digit_char_def)
qed

lemma hex_ipv4_kernel: "a < 256 \<Longrightarrow> b < 256 \<Longrightarrow> c < 256 \<Longrightarrow> d < 256 \<Longrightarrow> hex_ipv4 (kernel_addr a b c d) = Some (dotted a b c d)"
  by (simp add: hex_ipv4_def kernel_addr_def hex_pair_def hex_digit_char)

lemma first_gateway_skips: "\<forall>w\<in>set ws. default_gateway w = None \<Longrightarrow> first_gateway (ws @ vs) = first_gateway vs"
  by (induction ws) auto

text \<open>
  A guest without a credential of its own dials the host end of its own tap: whatever routes stand before the default one, the
  address the kernel prints for the host of a slot is read back as that address, with the broker's port and no key.
\<close>

theorem guest_dials_its_host:
  assumes "slot < 16384" and "\<forall>w\<in>set ws. default_gateway w = None" and "\<forall>w\<in>set (header # ws @ line # vs). newline \<notin> set w"
    and "fields_of line = iface # ''00000000'' # kernel_addr 172 16 ((4 * slot + 1) div 256) ((4 * slot + 1) mod 256) # ''0003'' # rest"
  shows "default_endpoint [] [] (Inr (join_with [newline] (header # ws @ line # vs))) =
    reached_at (''http://'' @ fst (slot_addrs slot) @ '':8092'') ''brokered'' False"
proof -
  have "(4 * slot + 1) div 256 < 256" using assms(1) by auto
  then have "default_gateway line = Some (fst (slot_addrs slot))"
    using assms(4) by (simp add: default_gateway_def parse_hex32_def hex_digit_def hex_ipv4_kernel slot_addrs_def Let_def)
  moreover have "split_on newline (join_with [newline] (header # ws @ line # vs)) = header # ws @ line # vs"
    using assms(3) by (intro split_join) simp_all
  ultimately have "parse_route (join_with [newline] (header # ws @ line # vs)) = Some (fst (slot_addrs slot))"
    using first_gateway_skips[OF assms(2)] by (simp add: parse_route_def)
  then show ?thesis by (simp add: default_endpoint_def gateway_ip_def broker_port_def broker_key_def)
qed

theorem guest_dials_its_host_witness:
  "default_endpoint [] [] (Inr (join_with [newline]
     [''Iface Destination Gateway Flags'', ''eth0 040010AC 00000000 0001'', ''eth0 00000000 050010AC 0003 0''])) =
   reached_at (''http://'' @ fst (slot_addrs 1) @ '':8092'') ''brokered'' False"
proof -
  have line: "fields_of ''eth0 00000000 050010AC 0003 0'' = [''eth0'', ''00000000'', ''050010AC'', ''0003'', ''0'']"
    using fields_of_join[of "[''eth0'', ''00000000'', ''050010AC'', ''0003'', ''0'']"] by (simp add: is_space_def)
  have device: "fields_of ''eth0 040010AC 00000000 0001'' = [''eth0'', ''040010AC'', ''00000000'', ''0001'']"
    using fields_of_join[of "[''eth0'', ''040010AC'', ''00000000'', ''0001'']"] by (simp add: is_space_def)
  have addr: "kernel_addr 172 16 ((4 * 1 + 1) div 256) ((4 * 1 + 1) mod 256) = ''050010AC''"
    by (simp add: kernel_addr_def hex_pair_def digit_char_def)
  show ?thesis
    using guest_dials_its_host[of 1 "[''eth0 040010AC 00000000 0001'']" "''Iface Destination Gateway Flags''"
        "''eth0 00000000 050010AC 0003 0''" "[]" "''eth0''" "[''0'']"] line addr device
    by (simp add: default_gateway_def newline_def)
qed

end
