(* ===== verification/Conversation.thy ===== *)
theory Conversation
  imports FileTools Team Endpoint
begin

text \<open>
  An agent's conversation with the model (\<^verbatim>\<open>repair.go\<close>, \<^verbatim>\<open>compact.go\<close> and the
  history half of \<^verbatim>\<open>loop.go\<close>): adopting a turn or rolling it back, answering calls that
  never ran, summarising the oldest part away, keeping it all on disk. The SDK's runner and the
  summariser are choices of how a step ends; a history's size on disk is a function of it.
\<close>

section \<open>Messages\<close>

datatype result_part = RText string | ROther

datatype block =
    BText string
  | BUse string string string
  | BResult string "result_part list" bool
  | BImage
  | BRedacted string
  | BOther

datatype chat_role = RUser | RAssistant

record chat_msg =
  cm_role :: chat_role
  cm_blocks :: "block list"

definition stopped_note :: string where
  "stopped_note = ''This did not run. The turn stopped before it could.''"

fun use_id :: "block \<Rightarrow> string option" where
  "use_id (BUse i name input) = Some i"
| "use_id _ = None"

fun is_result :: "block \<Rightarrow> bool" where
  "is_result (BResult i ps err) = True"
| "is_result _ = False"

definition dangling_uses :: "chat_msg list \<Rightarrow> string list" where
  "dangling_uses ms =
     (if ms = [] \<or> cm_role (List.last ms) \<noteq> RAssistant then [] else List.map_filter use_id (cm_blocks (List.last ms)))"

definition repair_tail :: "chat_msg list \<Rightarrow> chat_msg list" where
  "repair_tail ms =
     (let ids = dangling_uses ms in
      if ids = [] then ms
      else ms @ [\<lparr>cm_role = RUser, cm_blocks = List.map (\<lambda>i. BResult i [RText stopped_note] True) ids\<rparr>])"

definition has_tool_result :: "chat_msg \<Rightarrow> bool" where
  "has_tool_result m = list_ex is_result (cm_blocks m)"

text \<open>A model that is not Anthropic's is not shown what only its author can read.\<close>

definition anthropic_model :: "string \<Rightarrow> bool" where
  "anthropic_model model = prefix ''anthropic/'' model"

definition without_opaque :: "chat_msg list \<Rightarrow> chat_msg list" where
  "without_opaque ms =
     List.map (\<lambda>m. if cm_role m = RAssistant
       then m\<lparr>cm_blocks := filter (\<lambda>b. case b of BRedacted _ \<Rightarrow> False | _ \<Rightarrow> True) (cm_blocks m)\<rparr> else m) ms"

section \<open>A request\<close>

definition thinking_budget :: "string \<Rightarrow> int" where
  "thinking_budget level = (case map_of thinking_budgets level of Some n \<Rightarrow> n | None \<Rightarrow> 0)"

definition max_iterations :: nat where "max_iterations = 100"
definition max_tokens :: int where "max_tokens = 8192"

record clearing =
  cl_trigger :: int
  cl_keep :: int
  cl_at_least :: int
  cl_exclude :: "string list"

definition context_management :: clearing where
  "context_management = \<lparr>cl_trigger = 30000, cl_keep = 5, cl_at_least = 5000, cl_exclude = [''ask_human'']\<rparr>"

definition betas_for :: "bool \<Rightarrow> string list" where
  "betas_for thinking =
     ''context-management-2025-06-27'' # (if thinking then [''interleaved-thinking-2025-05-14''] else [])"

record request =
  rq_model :: string
  rq_max :: int
  rq_system :: string
  rq_messages :: "chat_msg list"
  rq_thinking :: "int option"
  rq_clearing :: clearing
  rq_betas :: "string list"
  rq_ceiling :: nat

definition params :: "endpoint \<Rightarrow> string \<Rightarrow> chat_msg list \<Rightarrow> request" where
  "params ep system ms =
     (let budget = thinking_budget (ep_thinking ep) in
      \<lparr>rq_model = ep_model ep,
       rq_max = (if budget > 0 then max_tokens + budget else max_tokens),
       rq_system = system,
       rq_messages = (if anthropic_model (ep_model ep) then ms else without_opaque ms),
       rq_thinking = (if budget > 0 then Some budget else None),
       rq_clearing = context_management,
       rq_betas = betas_for (budget > 0),
       rq_ceiling = max_iterations\<rparr>)"

section \<open>What is logged of a turn\<close>

definition result_cap :: int where "result_cap = 2000"

definition result_text :: "result_part list \<Rightarrow> string" where
  "result_text ps =
     (let out = List.concat (List.map (\<lambda>p. case p of RText s \<Rightarrow> s | ROther \<Rightarrow> ''[non-text result]'') ps) in
      if int (length out) \<le> result_cap then out else take (nat result_cap) out @ [newline] @ ''[truncated]'')"

definition result_events :: "chat_msg \<Rightarrow> event list" where
  "result_events m =
     List.map_filter (\<lambda>b. case b of
       BResult i ps err \<Rightarrow> Some ((blank_event ''tool_result'')\<lparr>ev_text := result_text ps, ev_error := err\<rparr>)
     | _ \<Rightarrow> None) (cm_blocks m)"

text \<open>What the endpoint says a call cost; on a call billed to one's own account the two figures add up.\<close>

record cost_block =
  cb_cost :: rat
  cb_byok :: bool
  cb_upstream :: rat

definition reported_cost :: "cost_block option \<Rightarrow> rat" where
  "reported_cost c =
     (case c of None \<Rightarrow> 0 | Some r \<Rightarrow> if cb_byok r then cb_cost r + cb_upstream r else cb_cost r)"

record reply =
  ry_model :: string
  ry_blocks :: "block list"
  ry_input :: i64
  ry_output :: i64
  ry_created :: i64
  ry_read :: i64
  ry_cost :: "cost_block option"
  ry_edits :: "(i64 \<times> i64) list"

definition applied_edits :: "reply \<Rightarrow> i64 \<times> i64" where
  "applied_edits r = (sum_list (List.map fst (ry_edits r)), sum_list (List.map snd (ry_edits r)))"

definition usage_of :: "reply \<Rightarrow> usage" where
  "usage_of r =
     Usage (fst (applied_edits r)) (snd (applied_edits r)) (ry_input r) (ry_output r) (ry_created r) (ry_read r)
       (reported_cost (ry_cost r))"

definition usage_event :: "string \<Rightarrow> usage \<Rightarrow> event" where
  "usage_event model u = (blank_event ''usage'')\<lparr>ev_model := model, ev_usage := Some u\<rparr>"

text \<open>
  What a turn leaves behind as it goes: events, what is booked on the meter, the last text said and
  the input size of the last call.
\<close>

record turn_notes =
  tn_events :: "event list"
  tn_booked :: "(string \<times> usage) list"
  tn_text :: string
  tn_input :: i64

definition record_results :: "chat_msg list \<Rightarrow> nat \<Rightarrow> turn_notes \<Rightarrow> nat \<times> turn_notes" where
  "record_results ms seen g =
     (length ms, g\<lparr>tn_events := tn_events g @ List.concat (List.map result_events (drop (min seen (length ms)) ms))\<rparr>)"

definition record_block :: "block \<Rightarrow> turn_notes \<Rightarrow> turn_notes" where
  "record_block b g =
     (case b of
        BText s \<Rightarrow> g\<lparr>tn_text := s, tn_events := tn_events g @ [(blank_event ''text'')\<lparr>ev_text := s\<rparr>]\<rparr>
      | BUse i name input \<Rightarrow>
          g\<lparr>tn_events := tn_events g @ [(blank_event ''tool_use'')\<lparr>ev_tool := name, ev_input := input\<rparr>]\<rparr>
      | _ \<Rightarrow> g)"

definition book_usage :: "string \<Rightarrow> usage \<Rightarrow> turn_notes \<Rightarrow> turn_notes" where
  "book_usage model u g = g\<lparr>tn_events := tn_events g @ [usage_event model u], tn_booked := tn_booked g @ [(model, u)]\<rparr>"

definition record_reply :: "reply \<Rightarrow> turn_notes \<Rightarrow> turn_notes" where
  "record_reply r g = book_usage (ry_model r) (usage_of r) ((fold record_block (ry_blocks r) g)\<lparr>tn_input := ry_input r\<rparr>)"

section \<open>Pumping the runner\<close>

text \<open>
  The runner is the SDK's: \<open>run i ms\<close> is what its \<open>i\<close>-th call makes of the history \<open>ms\<close> it holds, an error, a
  reply, or nothing more to say, each with the history after it.
\<close>

datatype pumped = PumpFailed "chat_msg list" string | PumpReply "chat_msg list" reply | PumpOver "chat_msg list"

type_synonym runner = "nat \<Rightarrow> chat_msg list \<Rightarrow> pumped"

datatype drained = DrainFailed string | DrainDone "chat_msg list" nat

fun drain :: "nat \<Rightarrow> runner \<Rightarrow> bool \<Rightarrow> nat \<Rightarrow> chat_msg list \<Rightarrow> nat \<Rightarrow> turn_notes \<Rightarrow> (drained \<times> turn_notes) option" where
  "drain 0 run opaque i ms seen g = None"
| "drain (Suc fuel) run opaque i ms seen g =
     (case run i ms of
        PumpFailed later e \<Rightarrow> Some (DrainFailed e, snd (record_results later seen g))
      | PumpOver later \<Rightarrow> Some (DrainDone later i, snd (record_results later seen g))
      | PumpReply later r \<Rightarrow>
          (case record_results later seen g of
             (seen', g') \<Rightarrow>
               drain fuel run opaque (Suc i) (if opaque then later else without_opaque later) seen' (record_reply r g')))"

section \<open>The conversation\<close>

text \<open>\<open>cn_file\<close> and \<open>cn_prev\<close> are the histories on disk.\<close>

record conversation =
  cn_messages :: "chat_msg list"
  cn_last_input :: i64
  cn_bytes :: int
  cn_file :: "chat_msg list option"
  cn_prev :: "chat_msg list option"

datatype conv_read = ConvMissing | ConvUnreadable | ConvGarbled int | ConvBytes int "chat_msg list"

definition load_conv :: "conv_read \<Rightarrow> (chat_msg list \<times> int) option" where
  "load_conv d =
     (case d of
        ConvMissing \<Rightarrow> Some ([], 0)
      | ConvUnreadable \<Rightarrow> None
      | ConvGarbled n \<Rightarrow> None
      | ConvBytes n ms \<Rightarrow> Some (repair_tail ms, n))"

text \<open>A save can fail writing the copy beside, or renaming it over the file.\<close>

datatype save_step = SaveFine | SaveNotWritten string | SaveNotRenamed string

definition save_conv :: "(chat_msg list \<Rightarrow> int) \<Rightarrow> save_step \<Rightarrow> conversation \<Rightarrow> string option \<times> conversation" where
  "save_conv sz st c =
     (case st of
        SaveNotWritten e \<Rightarrow> (Some e, c)
      | SaveNotRenamed e \<Rightarrow> (Some e, c\<lparr>cn_bytes := sz (cn_messages c)\<rparr>)
      | SaveFine \<Rightarrow> (None, c\<lparr>cn_bytes := sz (cn_messages c), cn_file := Some (cn_messages c)\<rparr>))"

text \<open>What a turn starts from.\<close>

definition candidate :: "inbound \<Rightarrow> conversation \<Rightarrow> chat_msg list" where
  "candidate m c = cn_messages c @ [\<lparr>cm_role = RUser, cm_blocks = [BText (frame m)]\<rparr>]"

definition note_stop :: "nat \<Rightarrow> bool \<Rightarrow> event list" where
  "note_stop iterations repaired =
     (if iterations \<ge> max_iterations then [(blank_event ''error'')\<lparr>ev_message := ''stopped at the step limit for one turn''\<rparr>] else []) @
     (if repaired then [(blank_event ''error'')\<lparr>ev_message := ''answered a tool call the turn never ran''\<rparr>] else [])"

text \<open>
  \<^verbatim>\<open>adopt\<close> and the save of a turn that came through. A failed one leaves the messages and the file alone,
  but what its calls were billed is measured and booked.
\<close>

definition settle_turn ::
  "(chat_msg list \<Rightarrow> int) \<Rightarrow> save_step \<Rightarrow> drained \<times> turn_notes \<Rightarrow> conversation \<Rightarrow> turn_notes \<times> conversation" where
  "settle_turn sz st d c =
     (let g = snd d; c1 = c\<lparr>cn_last_input := tn_input g\<rparr> in
      case fst d of
        DrainFailed e \<Rightarrow> (g, c1)
      | DrainDone ms iterations \<Rightarrow>
          (let fixed = repair_tail ms in
           (g\<lparr>tn_events := tn_events g @ note_stop iterations (length fixed \<noteq> length ms)\<rparr>,
            snd (save_conv sz st (c1\<lparr>cn_messages := fixed\<rparr>)))))"

definition chat_turn ::
  "(chat_msg list \<Rightarrow> int) \<Rightarrow> nat \<Rightarrow> endpoint \<Rightarrow> string \<Rightarrow> runner \<Rightarrow> save_step \<Rightarrow> inbound \<Rightarrow> conversation \<Rightarrow>
   (turn_notes \<times> conversation) option" where
  "chat_turn sz fuel ep system run st m c =
     (let cand = candidate m c; rq = params ep system cand;
          g = \<lparr>tn_events = [], tn_booked = [], tn_text = [], tn_input = cn_last_input c\<rparr> in
      map_option (\<lambda>d. settle_turn sz st d c)
        (drain fuel run (anthropic_model (ep_model ep)) 0 (rq_messages rq) (length cand) g))"

section \<open>Compaction\<close>

definition compact_at_tokens :: int where "compact_at_tokens = 60000"
definition compact_at_bytes :: int where "compact_at_bytes = 8 * 2 ^ 20"
definition keep_divisor :: nat where "keep_divisor = 4"
definition render_cap :: int where "render_cap = 1000"

definition ack_summary :: string where
  "ack_summary = ''Understood -- I have the earlier context above and will continue from there.''"

definition needs_compaction :: "conversation \<Rightarrow> bool" where
  "needs_compaction c \<longleftrightarrow> sint (cn_last_input c) > compact_at_tokens \<or> cn_bytes c > compact_at_bytes"

definition may_begin :: "chat_msg \<Rightarrow> bool" where
  "may_begin m \<longleftrightarrow> cm_role m = RUser \<and> \<not> has_tool_result m"

definition cut_point :: "chat_msg list \<Rightarrow> nat \<Rightarrow> nat option" where
  "cut_point ms target = List.find (\<lambda>i. may_begin (ms ! i)) [target..<length ms]"

definition synth_pair :: "string \<Rightarrow> nat \<Rightarrow> chat_msg list" where
  "synth_pair summary covered =
     [\<lparr>cm_role = RUser, cm_blocks = [BText (''[Earlier conversation -- '' @ dec covered @ '' messages -- summarized]'' @ blank_line @ summary)]\<rparr>,
      \<lparr>cm_role = RAssistant, cm_blocks = [BText ack_summary]\<rparr>]"

definition role_name :: "chat_role \<Rightarrow> string" where
  "role_name r = (case r of RUser \<Rightarrow> ''user'' | RAssistant \<Rightarrow> ''assistant'')"

definition render_block :: "block \<Rightarrow> string" where
  "render_block b =
     (case b of
        BText s \<Rightarrow> cap_text_at s render_cap @ [newline]
      | BUse i name input \<Rightarrow> ''(called '' @ name @ '')'' @ [newline]
      | BResult i ps err \<Rightarrow> cap_text_at (result_text ps) render_cap @ [newline]
      | BImage \<Rightarrow> ''(screenshot)'' @ [newline]
      | _ \<Rightarrow> [])"

definition render_for_summary :: "chat_msg list \<Rightarrow> string" where
  "render_for_summary ms =
     List.concat (List.map (\<lambda>m. [newline] @ ''['' @ role_name (cm_role m) @ '']'' @ [newline] @
       List.concat (List.map render_block (cm_blocks m))) ms)"

text \<open>
  The call to the cheap model: what it was billed is booked whether or not its text, the text blocks joined,
  has anything in it.
\<close>

definition summary_model :: string where "summary_model = ''anthropic/claude-haiku-4.5''"
definition summary_max_tokens :: int where "summary_max_tokens = 2048"

definition summary_ask :: string where
  "summary_ask =
     ''The transcript above is the earlier part of your own conversation, which is about to be replaced by your summary of it. '' @
     ''Write that summary as notes to yourself.'' @ blank_line @
     ''Cover: what the person asked for and why, decisions made and the reasoning behind them, standing preferences they expressed, '' @
     ''work still open, file paths and identifiers you will need again, and how any scheduled runs turned out. '' @
     ''Leave out tool output you could get again by re-running the tool. Be specific -- names, paths and numbers, not '' @
     [CHR 34] @ ''various files'' @ [CHR 34] @ ''. Write prose, no preamble.''"

definition summary_request :: "chat_msg list \<Rightarrow> string \<times> int \<times> string" where
  "summary_request ms = (summary_model, summary_max_tokens, render_for_summary ms @ blank_line @ summary_ask)"

definition reply_text :: "reply \<Rightarrow> string" where
  "reply_text r = List.concat (List.map (\<lambda>b. case b of BText s \<Rightarrow> s | _ \<Rightarrow> []) (ry_blocks r))"

definition billed_usage :: "reply \<Rightarrow> usage" where
  "billed_usage r = Usage 0 0 (ry_input r) (ry_output r) (ry_created r) (ry_read r) (reported_cost (ry_cost r))"

definition call_summary :: "string + reply \<Rightarrow> turn_notes \<Rightarrow> (string + string) \<times> turn_notes" where
  "call_summary answer g =
     (case answer of
        Inl e \<Rightarrow> (Inl e, g)
      | Inr r \<Rightarrow>
          (if trim_with is_space (reply_text r) = [] then Inl ''the summarizer returned no text'' else Inr (reply_text r),
           book_usage (ry_model r) (billed_usage r) g))"

definition note_event :: "string \<Rightarrow> string \<Rightarrow> turn_notes \<Rightarrow> turn_notes" where
  "note_event type text g = g\<lparr>tn_events := tn_events g @ [(blank_event type)\<lparr>ev_message := text\<rparr>]\<rparr>"

text \<open>\<open>backed\<close>: the file could be read and copied aside, when there is one.\<close>

definition apply_compaction ::
  "(chat_msg list \<Rightarrow> int) \<Rightarrow> (string option) \<Rightarrow> save_step \<Rightarrow> nat \<Rightarrow> string \<Rightarrow> turn_notes \<Rightarrow> conversation \<Rightarrow>
   turn_notes \<times> conversation" where
  "apply_compaction sz unbacked st n summary g c =
     (case (if cn_file c = None then None else unbacked) of
        Some e \<Rightarrow> (note_event ''error'' (''could not keep a pre-compaction copy: '' @ e) g, c)
      | None \<Rightarrow>
        (let c1 = c\<lparr>cn_prev := (case cn_file c of None \<Rightarrow> cn_prev c | Some f \<Rightarrow> Some f)\<rparr>;
             c2 = c1\<lparr>cn_messages := synth_pair summary n @ drop n (cn_messages c1), cn_last_input := 0\<rparr> in
         case save_conv sz st c2 of
           (Some e, c3) \<Rightarrow> (note_event ''error'' (''could not save the compacted conversation: '' @ e) g, c3)
         | (None, c3) \<Rightarrow>
             (note_event ''compaction'' (''summarized '' @ dec n @ '' of '' @ dec (length (cn_messages c)) @
                '' messages; conversation '' @ signed_dec (cn_bytes c) @ '' -> '' @ signed_dec (cn_bytes c3) @ '' bytes'') g, c3)))"

definition state_note :: "string \<Rightarrow> turn_notes \<Rightarrow> turn_notes" where
  "state_note s g = g\<lparr>tn_events := tn_events g @ [(blank_event ''state'')\<lparr>ev_session := s\<rparr>]\<rparr>"

definition compact_if_needed ::
  "(chat_msg list \<Rightarrow> int) \<Rightarrow> (string + reply) \<Rightarrow> string option \<Rightarrow> save_step \<Rightarrow> turn_notes \<Rightarrow> conversation \<Rightarrow>
   turn_notes \<times> conversation" where
  "compact_if_needed sz answer unbacked st g c =
     (if \<not> needs_compaction c then (g, c)
      else
        (let k = length (cn_messages c) in
         case cut_point (cn_messages c) (k - k div keep_divisor) of
           None \<Rightarrow> (g, c)
         | Some n \<Rightarrow>
             if n = 0 then (g, c)
             else (case call_summary answer (state_note ''working'' g) of
                     (Inl e, g') \<Rightarrow> (state_note ''idle'' (note_event ''error'' (''could not compact: '' @ e) g'), c)
                   | (Inr s, g') \<Rightarrow>
                       (case apply_compaction sz unbacked st n s g' c of (g'', c') \<Rightarrow> (state_note ''idle'' g'', c')))))"

section \<open>The life of a conversation\<close>

text \<open>\<open>New\<close> loads it; from then on turns and, between them, compactions; a recycled agent loads it again.\<close>

definition open_conv :: "conv_read \<Rightarrow> conversation option" where
  "open_conv d =
     map_option (\<lambda>(ms, n). \<lparr>cn_messages = ms, cn_last_input = 0, cn_bytes = n,
       cn_file = (case d of ConvBytes _ f \<Rightarrow> Some f | _ \<Rightarrow> None), cn_prev = None\<rparr>) (load_conv d)"

datatype conv_op =
    OpTurn endpoint string runner save_step inbound
  | OpCompact "string + reply" "string option" save_step
  | OpRestart

definition empty_notes :: turn_notes where
  "empty_notes = \<lparr>tn_events = [], tn_booked = [], tn_text = [], tn_input = 0\<rparr>"

fun conv_step :: "(chat_msg list \<Rightarrow> int) \<Rightarrow> conv_op \<Rightarrow> conversation \<Rightarrow> conversation" where
  "conv_step sz (OpTurn ep system run st m) c =
     (case chat_turn sz (Suc max_iterations) ep system run st m c of None \<Rightarrow> c | Some (_, c') \<Rightarrow> c')"
| "conv_step sz (OpCompact answer unbacked st) c = snd (compact_if_needed sz answer unbacked st empty_notes c)"
| "conv_step sz OpRestart c =
     (case load_conv (case cn_file c of None \<Rightarrow> ConvMissing | Some f \<Rightarrow> ConvBytes (sz f) f) of
        None \<Rightarrow> c
      | Some (ms, n) \<Rightarrow> c\<lparr>cn_messages := ms, cn_bytes := n, cn_last_input := 0\<rparr>)"

end
