(* ===== verification/ConversationProps.thy ===== *)
theory ConversationProps
  imports Conversation
begin

text \<open>
  What an agent's history promises: the next request always answers every tool call that went
  before it, whatever turns, failures, compactions and restarts led to it; a turn ends; a
  compaction replaces a prefix and touches nothing else; every billed call is in both books.
\<close>

section \<open>Calls and their answers\<close>

fun result_id :: "block \<Rightarrow> string option" where
  "result_id (BResult i ps err) = Some i"
| "result_id _ = None"

definition asks :: "chat_msg \<Rightarrow> string list" where
  "asks m = (if cm_role m = RAssistant then List.map_filter use_id (cm_blocks m) else [])"

definition answers :: "chat_msg \<Rightarrow> string list" where
  "answers m = List.map_filter result_id (cm_blocks m)"

text \<open>
  The calls a history leaves open, after \<open>ids\<close> were: each message answers exactly what the one before it asked.
  \<open>None\<close> is a history the API refuses.
\<close>

fun opened :: "string list \<Rightarrow> chat_msg list \<Rightarrow> string list option" where
  "opened ids [] = Some ids"
| "opened ids (m # ms) =
     (if set (answers m) = set ids \<and> (ids = [] \<or> cm_role m = RUser) then opened (asks m) ms else None)"

lemma opened_append: "opened ids (xs @ ys) = Option.bind (opened ids xs) (\<lambda>j. opened j ys)"
  by (induction xs arbitrary: ids) auto

lemma opened_last: "opened ids (xs @ [m]) = Some j \<Longrightarrow> j = asks m"
  by (auto simp: opened_append bind_eq_Some_conv split: if_splits)

lemma dangling_is_open:
  assumes "opened [] ms = Some j" shows "dangling_uses ms = j"
proof (cases ms rule: rev_cases)
  case (snoc xs m)
  then show ?thesis using opened_last[of "[]" xs m j] assms by (auto simp: dangling_uses_def asks_def split: if_splits)
qed (use assms in \<open>simp add: dangling_uses_def\<close>)

lemma answers_none: "\<not> has_tool_result m \<Longrightarrow> answers m = []"
proof -
  assume none: "\<not> has_tool_result m"
  have gone: "result_id b = None" if "\<not> is_result b" for b using that by (cases b) simp_all
  show ?thesis using none gone
    by (auto simp: answers_def has_tool_result_def list_ex_iff map_filter_def filter_empty_conv)
qed

lemma results_answer: "List.map_filter result_id (List.map (\<lambda>i. BResult i ps err) ids) = ids"
  by (induction ids) (simp_all add: map_filter_def)

lemma repair_closes:
  assumes "opened [] ms \<noteq> None" shows "opened [] (repair_tail ms) = Some []"
proof -
  obtain j where j: "opened [] ms = Some j" using assms by blast
  show ?thesis using j dangling_is_open[OF j]
    by (simp add: repair_tail_def Let_def opened_append answers_def results_answer asks_def)
qed

lemma opaque_same_uses:
  "List.map_filter use_id (filter (\<lambda>b. case b of BRedacted _ \<Rightarrow> False | _ \<Rightarrow> True) bs) = List.map_filter use_id bs"
  "List.map_filter result_id (filter (\<lambda>b. case b of BRedacted _ \<Rightarrow> False | _ \<Rightarrow> True) bs) = List.map_filter result_id bs"
  by (induction bs) (auto simp: map_filter_def split: block.splits)

lemma opaque_same_open: "opened ids (without_opaque ms) = opened ids ms"
  by (induction ms arbitrary: ids) (auto simp: without_opaque_def answers_def asks_def opaque_same_uses)

lemma plain_user: "asks \<lparr>cm_role = RUser, cm_blocks = bs\<rparr> = []" "answers \<lparr>cm_role = r, cm_blocks = [BText s]\<rparr> = []"
  "asks \<lparr>cm_role = r, cm_blocks = [BText s]\<rparr> = []"
  by (simp_all add: asks_def answers_def map_filter_def)

lemma candidate_open: "opened [] (cn_messages c) = Some [] \<Longrightarrow> opened [] (candidate m c) = Some []"
  by (simp add: candidate_def opened_append plain_user)

section \<open>The runner\<close>

text \<open>
  What the SDK documents of its runner: a call appends the results of the pending tools, when there are any, and
  then the reply; it refuses to go past the ceiling; when it has nothing more to say it leaves the history as it is,
  or with the results of the pending tools.
\<close>

definition pending_results :: "chat_msg list \<Rightarrow> chat_msg list \<Rightarrow> bool" where
  "pending_results ms res \<longleftrightarrow>
     (if dangling_uses ms = [] then res = []
      else (\<exists>bs. res = [\<lparr>cm_role = RUser, cm_blocks = bs\<rparr>] \<and> set (List.map_filter result_id bs) = set (dangling_uses ms)))"

definition documented_pump :: "nat \<Rightarrow> chat_msg list \<Rightarrow> pumped \<Rightarrow> bool" where
  "documented_pump i ms p =
     (case p of
        PumpFailed later e \<Rightarrow> True
      | PumpOver later \<Rightarrow> later = ms \<or> (\<exists>res. pending_results ms res \<and> later = ms @ res)
      | PumpReply later r \<Rightarrow> i < max_iterations \<and> list_all (\<lambda>b. \<not> is_result b) (ry_blocks r) \<and>
          (\<exists>res. pending_results ms res \<and> later = ms @ res @ [\<lparr>cm_role = RAssistant, cm_blocks = ry_blocks r\<rparr>]))"

definition documented_runner :: "runner \<Rightarrow> bool" where
  "documented_runner run \<longleftrightarrow> (\<forall>i ms. documented_pump i ms (run i ms))"

lemma pending_closes:
  assumes "opened [] ms = Some j" and "pending_results ms res" shows "opened [] (ms @ res) = Some []"
  using assms dangling_is_open[OF assms(1)]
  by (auto simp: pending_results_def opened_append answers_def asks_def split: if_splits)

lemma reply_opens:
  assumes "opened [] ms = Some []" and "list_all (\<lambda>b. \<not> is_result b) bs"
  shows "opened [] (ms @ [\<lparr>cm_role = r, cm_blocks = bs\<rparr>]) \<noteq> None"
  using assms answers_none[of "\<lparr>cm_role = r, cm_blocks = bs\<rparr>"]
  by (simp add: opened_append has_tool_result_def list_ex_iff list_all_iff)

lemma pumped_stays_open:
  assumes "documented_runner run" and "opened [] ms \<noteq> None"
  shows "case run i ms of PumpFailed later e \<Rightarrow> True | PumpOver later \<Rightarrow> opened [] later \<noteq> None
    | PumpReply later r \<Rightarrow> i < max_iterations \<and> opened [] later \<noteq> None"
proof -
  obtain j where j: "opened [] ms = Some j" using assms(2) by blast
  have d: "documented_pump i ms (run i ms)" using assms(1) by (simp add: documented_runner_def)
  show ?thesis
  proof (cases "run i ms")
    case (PumpReply later r)
    then obtain res where "pending_results ms res" "i < max_iterations" "list_all (\<lambda>b. \<not> is_result b) (ry_blocks r)"
      "later = (ms @ res) @ [\<lparr>cm_role = RAssistant, cm_blocks = ry_blocks r\<rparr>]"
      using d by (auto simp: documented_pump_def)
    then show ?thesis using PumpReply reply_opens[OF pending_closes[OF j]] by simp
  next
    case (PumpOver later)
    then show ?thesis using d j pending_closes[OF j] by (auto simp: documented_pump_def)
  qed simp
qed

lemma drained_stays_open:
  assumes "documented_runner run"
  shows "opened [] ms \<noteq> None \<Longrightarrow> drain fuel run op i ms seen g = Some (DrainDone done_ms n, g') \<Longrightarrow> opened [] done_ms \<noteq> None"
proof (induction fuel arbitrary: i ms seen g)
  case (Suc fuel)
  show ?case
  proof (cases "run i ms")
    case (PumpReply now r)
    have "opened [] now \<noteq> None" using pumped_stays_open[OF assms Suc.prems(1), of i] PumpReply by simp
    then have later: "opened [] (if op then now else without_opaque now) \<noteq> None" by (simp add: opaque_same_open)
    have "drain fuel run op (Suc i) (if op then now else without_opaque now) (fst (record_results now seen g))
        (record_reply r (snd (record_results now seen g))) = Some (DrainDone done_ms n, g')"
      using Suc.prems(2) PumpReply by (simp add: split_beta)
    then show ?thesis by (rule Suc.IH[OF later])
  qed (use Suc.prems pumped_stays_open[OF assms Suc.prems(1), of i] in auto)
qed simp

lemma drain_returns:
  assumes "documented_runner run"
  shows "opened [] ms \<noteq> None \<Longrightarrow> max_iterations < fuel + i \<Longrightarrow> drain fuel run op i ms seen g \<noteq> None \<or> max_iterations < i"
proof (induction fuel arbitrary: i ms seen g)
  case (Suc fuel)
  show ?case
  proof (cases "run i ms")
    case (PumpReply now r)
    have "opened [] now \<noteq> None" "i < max_iterations" using pumped_stays_open[OF assms Suc.prems(1), of i] PumpReply by simp_all
    then show ?thesis using Suc.IH[of "if op then now else without_opaque now" "Suc i"] Suc.prems(2) PumpReply
      by (auto simp: opaque_same_open split: prod.splits)
  qed auto
qed simp

section \<open>Every step\<close>

definition sound_conv :: "conversation \<Rightarrow> bool" where
  "sound_conv c \<longleftrightarrow> opened [] (cn_messages c) = Some [] \<and> (\<forall>f. cn_file c = Some f \<longrightarrow> opened [] f \<noteq> None)"

definition documented_op :: "conv_op \<Rightarrow> bool" where
  "documented_op x = (case x of OpTurn ep system run st m \<Rightarrow> documented_runner run | _ \<Rightarrow> True)"

lemma save_sound: "sound_conv c \<Longrightarrow> sound_conv (snd (save_conv sz st c))"
  by (cases st) (auto simp: save_conv_def sound_conv_def)

lemma save_adopted:
  assumes "opened [] ms = Some []" and "\<forall>f. cn_file c = Some f \<longrightarrow> opened [] f \<noteq> None"
  shows "sound_conv (snd (save_conv sz st (c\<lparr>cn_messages := ms\<rparr>)))"
  using assms by (intro save_sound) (simp add: sound_conv_def)

lemma settle_sound:
  assumes "sound_conv c" and "\<And>ms n. fst d = DrainDone ms n \<Longrightarrow> opened [] ms \<noteq> None"
  shows "sound_conv (snd (settle_turn sz st d c))"
proof (cases "fst d")
  case (DrainFailed e)
  then show ?thesis using assms(1) by (simp add: settle_turn_def Let_def sound_conv_def)
next
  case (DrainDone ms n)
  let ?c = "c\<lparr>cn_last_input := tn_input (snd d)\<rparr>"
  have "sound_conv (snd (save_conv sz st (?c\<lparr>cn_messages := repair_tail ms\<rparr>)))"
    using assms(1) repair_closes[OF assms(2)[OF DrainDone]] by (intro save_adopted) (simp_all add: sound_conv_def)
  then show ?thesis using DrainDone by (simp add: settle_turn_def Let_def)
qed

lemma turn_sound:
  assumes "sound_conv c" and "documented_runner run" and "chat_turn sz fuel ep system run st m c = Some (g, c')"
  shows "sound_conv c'"
proof -
  let ?ms = "rq_messages (params ep system (candidate m c))"
  have "opened [] ?ms \<noteq> None"
    using assms(1) candidate_open[of c m] by (simp add: params_def Let_def opaque_same_open sound_conv_def)
  note base = this
  obtain d where d: "drain fuel run (anthropic_model (ep_model ep)) 0 ?ms (length (candidate m c))
      \<lparr>tn_events = [], tn_booked = [], tn_text = [], tn_input = cn_last_input c\<rparr> = Some d"
    "settle_turn sz st d c = (g, c')"
    using assms(3) unfolding chat_turn_def Let_def map_option_eq_Some by blast
  have "opened [] ms \<noteq> None" if "fst d = DrainDone ms n" for ms n
    using drained_stays_open[OF assms(2) base] d(1) that by (cases d) auto
  then have "sound_conv (snd (settle_turn sz st d c))"
    using assms(1) by (intro settle_sound) simp_all
  then show ?thesis using d(2) by simp
qed

lemma cut_point_found:
  assumes "cut_point ms t = Some n"
  shows "t \<le> n" "n < length ms" "may_begin (ms ! n)"
  using assms by (auto simp: cut_point_def find_Some_iff)

lemma cut_leaves_open:
  assumes "opened [] ms = Some []" and "n < length ms" and "may_begin (ms ! n)"
  shows "opened [] (drop n ms) = Some []"
proof -
  obtain j where j: "opened [] (take n ms) = Some j" "opened j (drop n ms) = Some []"
    using assms(1) opened_append[of "[]" "take n ms" "drop n ms"] by (cases "opened [] (take n ms)") simp_all
  have "drop n ms = ms ! n # drop (Suc n) ms" using assms(2) by (simp add: Cons_nth_drop_Suc)
  moreover have "answers (ms ! n) = []" using assms(3) by (simp add: may_begin_def answers_none)
  ultimately have "j = []" using j(2) by (auto split: if_splits)
  then show ?thesis using j by simp
qed

lemma pair_open: "opened [] (synth_pair s n @ ms) = opened [] ms"
  by (simp add: synth_pair_def plain_user)

text \<open>What a compaction does to the conversation: nothing, or the prefix is exchanged for its summary.\<close>

lemma compaction_cases:
  assumes "compact_if_needed sz answer unbacked st g c = (g', c')"
  obtains "c' = c"
  | n s where "length (cn_messages c) - length (cn_messages c) div keep_divisor \<le> n" "n < length (cn_messages c)"
      "may_begin (cn_messages c ! n)" "n \<noteq> 0"
      "c' = snd (save_conv sz st (c\<lparr>cn_prev := (case cn_file c of None \<Rightarrow> cn_prev c | Some f \<Rightarrow> Some f),
        cn_messages := synth_pair s n @ drop n (cn_messages c), cn_last_input := 0\<rparr>))"
      "\<exists>r. answer = Inr r \<and> s = reply_text r \<and> trim_with is_space s \<noteq> []"
      "cn_file c = None \<or> unbacked = None"
proof -
  let ?t = "length (cn_messages c) - length (cn_messages c) div keep_divisor"
  consider "c' = c" | n s g1 where "cut_point (cn_messages c) ?t = Some n" "n \<noteq> 0"
      "call_summary answer (state_note ''working'' g) = (Inr s, g1)" "snd (apply_compaction sz unbacked st n s g1 c) = c'"
    using assms by (auto simp: compact_if_needed_def Let_def split: if_splits option.splits sum.splits prod.splits)
  then show ?thesis
  proof cases
    case 2
    have s: "\<exists>r. answer = Inr r \<and> s = reply_text r \<and> trim_with is_space s \<noteq> []"
      using 2(3) by (auto simp: call_summary_def split: sum.splits if_splits)
    show ?thesis
    proof (cases "cn_file c = None \<or> unbacked = None")
      case True
      then show ?thesis
        using 2 s cut_point_found[OF 2(1)]
        by (intro that(2)[of n s]) (auto simp: apply_compaction_def Let_def split: prod.splits option.splits)
    next
      case False
      then show ?thesis using 2 that(1) by (auto simp: apply_compaction_def)
    qed
  qed (rule that(1))
qed

lemma compaction_sound:
  assumes "sound_conv c" shows "sound_conv (snd (compact_if_needed sz answer unbacked st g c))"
proof -
  obtain g' c' where e: "compact_if_needed sz answer unbacked st g c = (g', c')" by fastforce
  from e have "sound_conv c'"
  proof (cases rule: compaction_cases)
    case (2 n s)
    have "opened [] (synth_pair s n @ drop n (cn_messages c)) = Some []"
      using assms 2 by (simp add: pair_open cut_leaves_open sound_conv_def)
    then show ?thesis unfolding 2(5) using assms by (intro save_sound) (simp add: sound_conv_def)
  qed (use assms in simp)
  then show ?thesis using e by simp
qed

lemma step_sound:
  assumes "sound_conv c" and "documented_op x" shows "sound_conv (conv_step sz x c)"
proof (cases x)
  case (OpTurn ep system run st m)
  then show ?thesis using assms turn_sound[OF assms(1)] by (auto simp: documented_op_def split: option.splits)
next
  case (OpCompact answer unbacked st)
  then show ?thesis using compaction_sound[OF assms(1)] by simp
next
  case OpRestart
  then show ?thesis using assms(1) by (auto simp: load_conv_def sound_conv_def repair_closes split: option.splits)
qed

lemma open_sound:
  assumes "open_conv d = Some c" and "\<And>n f. d = ConvBytes n f \<Longrightarrow> opened [] f \<noteq> None"
  shows "sound_conv c"
  using assms by (auto simp: open_conv_def load_conv_def sound_conv_def repair_closes split: conv_read.splits)

lemma life_sound:
  assumes "sound_conv c" and "\<forall>x\<in>set ops. documented_op x" shows "sound_conv (fold (conv_step sz) ops c)"
  using assms by (induction ops arbitrary: c) (simp_all add: step_sound)

section \<open>Both books\<close>

definition billed :: "event list \<Rightarrow> (string \<times> usage) list" where
  "billed es = List.map_filter (\<lambda>e. if ev_type e = ''usage'' then map_option (Pair (ev_model e)) (ev_usage e) else None) es"

definition balanced :: "turn_notes \<Rightarrow> bool" where
  "balanced g \<longleftrightarrow> billed (tn_events g) = tn_booked g"

lemma billed_append [simp]: "billed (xs @ ys) = billed xs @ billed ys" "billed [] = []"
  by (simp_all add: billed_def map_filter_def)

lemma billed_one:
  "ev_type e \<noteq> ''usage'' \<Longrightarrow> billed [e] = []" "billed [usage_event m u] = [(m, u)]"
  by (simp_all add: billed_def map_filter_def usage_event_def blank_event_def)

lemma billed_results: "billed (result_events m) = []"
proof -
  have "List.map_filter result (bs :: block list) = [] \<or> (\<forall>e\<in>set (List.map_filter result bs). ev_type e = ''tool_result'')"
    if "\<And>b e. result b = Some e \<Longrightarrow> ev_type e = ''tool_result''" for result bs
    using that by (auto simp: map_filter_def)
  then have "\<forall>e\<in>set (result_events m). ev_type e = ''tool_result''"
    by (auto simp: result_events_def map_filter_def blank_event_def split: block.splits)
  then show ?thesis by (auto simp: billed_def map_filter_def filter_empty_conv)
qed

lemma billed_concat: "\<forall>x\<in>set xs. billed x = [] \<Longrightarrow> billed (List.concat xs) = []"
  by (induction xs) auto

lemma balanced_results: "balanced (snd (record_results ms seen g)) \<longleftrightarrow> balanced g"
  by (simp add: balanced_def record_results_def billed_concat billed_results)

lemma balanced_block: "balanced (record_block b g) \<longleftrightarrow> balanced g"
  by (auto simp: balanced_def record_block_def billed_one(1) blank_event_def split: block.splits)

lemma balanced_book: "balanced (book_usage m u g) \<longleftrightarrow> balanced g"
  by (simp add: balanced_def book_usage_def billed_one(2))

lemma balanced_blocks: "balanced (fold record_block bs g) \<longleftrightarrow> balanced g"
  by (induction bs arbitrary: g) (simp_all add: balanced_block)

lemma balanced_input: "balanced (g\<lparr>tn_input := n\<rparr>) \<longleftrightarrow> balanced g"
  by (simp add: balanced_def)

lemma balanced_reply: "balanced (record_reply r g) \<longleftrightarrow> balanced g"
  by (simp add: record_reply_def balanced_book balanced_blocks balanced_input)

lemma balanced_drain:
  assumes "balanced g" and "drain fuel run op i ms seen g = Some (d, g')" shows "balanced g'"
  using assms
  by (induction fuel run op i ms seen g rule: drain.induct)
    (auto simp: balanced_results split: pumped.splits prod.splits,
     metis balanced_reply balanced_results snd_conv)

lemma booked_block: "tn_booked (record_block b g) = tn_booked g"
  by (cases b) (simp_all add: record_block_def)

lemma booked_blocks: "tn_booked (fold record_block bs g) = tn_booked g"
  by (induction bs arbitrary: g) (simp_all add: booked_block)

lemma booked_reply: "tn_booked (record_reply r g) = tn_booked g @ [(ry_model r, usage_of r)]"
  by (simp add: record_reply_def book_usage_def booked_blocks)

lemma booked_results: "tn_booked (snd (record_results ms seen g)) = tn_booked g"
  by (simp add: record_results_def)

text \<open>Each call is booked, and the ceiling bounds the calls.\<close>

lemma drain_calls:
  assumes "documented_runner run"
  shows "opened [] ms \<noteq> None \<Longrightarrow> i \<le> max_iterations \<Longrightarrow> drain fuel run op i ms seen g = Some (d, g') \<Longrightarrow>
    length (tn_booked g') + i \<le> length (tn_booked g) + max_iterations"
proof (induction fuel arbitrary: i ms seen g)
  case (Suc fuel)
  show ?case
  proof (cases "run i ms")
    case (PumpReply now r)
    have now: "opened [] now \<noteq> None" "i < max_iterations"
      using pumped_stays_open[OF assms Suc.prems(1), of i] PumpReply by simp_all
    then have later: "opened [] (if op then now else without_opaque now) \<noteq> None" by (simp add: opaque_same_open)
    have "drain fuel run op (Suc i) (if op then now else without_opaque now) (fst (record_results now seen g))
        (record_reply r (snd (record_results now seen g))) = Some (d, g')"
      using Suc.prems(3) PumpReply by (simp add: split_beta)
    from Suc.IH[OF later _ this] now show ?thesis by (simp add: booked_reply booked_results)
  qed (use Suc.prems in \<open>auto simp: booked_results\<close>)
qed simp

lemma settle_balanced: "balanced (snd d) \<Longrightarrow> balanced (fst (settle_turn sz st d c))"
  by (auto simp: settle_turn_def Let_def balanced_def note_stop_def billed_one(1) blank_event_def split: drained.splits)

lemma settle_booked: "tn_booked (fst (settle_turn sz st d c)) = tn_booked (snd d)"
  by (auto simp: settle_turn_def Let_def split: drained.splits)

lemma compaction_balanced: "balanced g \<Longrightarrow> balanced (fst (compact_if_needed sz answer unbacked st g c))"
proof -
  assume g: "balanced g"
  have told: "balanced (note_event t x h) \<longleftrightarrow> balanced h" if "t \<noteq> ''usage''" for t x h
    using that by (simp add: balanced_def note_event_def billed_one(1) blank_event_def)
  have state: "balanced (state_note x h) \<longleftrightarrow> balanced h" for x h
    by (simp add: balanced_def state_note_def billed_one(1) blank_event_def)
  have call: "balanced (snd (call_summary answer h)) \<longleftrightarrow> balanced h" for h
    by (simp add: call_summary_def balanced_book split: sum.splits)
  have app: "balanced (fst (apply_compaction sz unbacked st n s h c)) \<longleftrightarrow> balanced h" for n s h
    by (auto simp: apply_compaction_def Let_def told split: option.splits prod.splits)
  show ?thesis
  proof (cases "call_summary answer (state_note ''working'' g)")
    case (Pair x h)
    then have "balanced h" using call[of "state_note ''working'' g"] state g by simp
    then show ?thesis using Pair g app
      by (auto simp: compact_if_needed_def Let_def state told split: option.splits sum.splits prod.splits)
        (metis fst_conv state)+
  qed
qed

section \<open>The properties\<close>

text \<open>
  C4. Whatever happened to a conversation since it was loaded (turns that ended well, at the ceiling, on a refusal or in an
  error, compactions that came through or failed, saves that failed, restarts), the request its next turn sends is one the
  API takes: every tool call before it is answered by the message right after it, and no answer is left without its call.
  A file from before the repair, with a call open at its end, is no exception.
\<close>

theorem history_stays_answered:
  assumes "open_conv d = Some c" and "case d of ConvBytes n f \<Rightarrow> opened [] f \<noteq> None | _ \<Rightarrow> True"
    and "\<forall>x\<in>set ops. documented_op x"
  shows "opened [] (rq_messages (params ep system (candidate m (fold (conv_step sz) ops c)))) = Some []"
proof -
  have "sound_conv c" using assms(1,2) by (intro open_sound) auto
  then have "opened [] (cn_messages (fold (conv_step sz) ops c)) = Some []"
    using life_sound[OF _ assms(3)] by (simp add: sound_conv_def)
  then show ?thesis using candidate_open by (simp add: params_def Let_def opaque_same_open)
qed


definition demo_reply :: reply where
  "demo_reply = \<lparr>ry_model = ''anthropic/m'', ry_blocks = [BText ''Let me look.'', BUse ''t2'' ''bash'' ''ls''], ry_input = 70000, ry_output = 20,
     ry_created = 0, ry_read = 0, ry_cost = None, ry_edits = []\<rparr>"

text \<open>One call, which asks for a tool, and then nothing more: the ceiling of a turn that was cut short.\<close>

definition demo_run :: runner where
  "demo_run i ms =
     (if i = 0 \<and> dangling_uses ms = []
      then PumpReply (ms @ [\<lparr>cm_role = RAssistant, cm_blocks = ry_blocks demo_reply\<rparr>]) demo_reply else PumpOver ms)"

definition demo_legacy :: "chat_msg list" where
  "demo_legacy = [\<lparr>cm_role = RUser, cm_blocks = [BText ''hi'']\<rparr>, \<lparr>cm_role = RAssistant, cm_blocks = [BUse ''t1'' ''bash'' ''ls'']\<rparr>]"

lemma demo_documented: "documented_runner demo_run"
  by (auto simp: documented_runner_def documented_pump_def demo_run_def pending_results_def max_iterations_def demo_reply_def)

theorem history_stays_answered_witness:
  "\<exists>c. open_conv (ConvBytes 90 demo_legacy) = Some c \<and>
     opened [] (rq_messages (params (for_agent ''anthropic/m'' None (reached_at ''http://172.16.0.1:8092'' broker_key False)) [] (candidate (said_by_person ''and now?'' None)
       (fold (conv_step (\<lambda>ms. int (length ms)))
         [OpTurn (for_agent ''anthropic/m'' None (reached_at ''http://172.16.0.1:8092'' broker_key False)) [] demo_run SaveFine (said_by_person ''go on'' None), OpRestart] c)))) = Some []"
proof -
  obtain c where c: "open_conv (ConvBytes 90 demo_legacy) = Some c" by (simp add: open_conv_def load_conv_def)
  have old: "case ConvBytes 90 demo_legacy of ConvBytes n f \<Rightarrow> opened [] f \<noteq> None | _ \<Rightarrow> True"
    by (simp add: demo_legacy_def answers_def asks_def map_filter_def)
  show ?thesis
    by (intro exI[of _ c] conjI c history_stays_answered[OF c old]) (simp add: documented_op_def demo_documented)
qed


text \<open>Four lines of a person and a limit passed.\<close>

definition demo_line :: chat_msg where
  "demo_line = \<lparr>cm_role = RUser, cm_blocks = [BText ''a'']\<rparr>"

definition demo_long :: conversation where
  "demo_long = \<lparr>cn_messages = replicate 4 demo_line, cn_last_input = 60001, cn_bytes = 9,
     cn_file = Some (replicate 4 demo_line), cn_prev = None\<rparr>"

lemma demo_long_run:
  "snd (compact_if_needed sz (Inr demo_reply) None (SaveNotWritten []) empty_notes demo_long) =
     demo_long\<lparr>cn_prev := Some (replicate 4 demo_line), cn_messages := synth_pair ''Let me look.'' 3 @ [demo_line], cn_last_input := 0\<rparr>"
proof -
  have needs: "needs_compaction demo_long" by (simp add: demo_long_def needs_compaction_def compact_at_tokens_def)
  have "may_begin demo_line" by (simp add: demo_line_def may_begin_def has_tool_result_def)
  then have cut_at: "cut_point (cn_messages demo_long) (length (cn_messages demo_long) - length (cn_messages demo_long) div keep_divisor) = Some 3"
    by (simp add: demo_long_def cut_point_def keep_divisor_def upt_rec)
  have summed: "call_summary (Inr demo_reply) (state_note ''working'' empty_notes) =
      (Inr ''Let me look.'', book_usage (ry_model demo_reply) (billed_usage demo_reply) (state_note ''working'' empty_notes))"
    by (simp add: call_summary_def demo_reply_def reply_text_def trim_with_def is_space_def)
  show ?thesis
    unfolding compact_if_needed_def Let_def cut_at summed using needs
    by (simp add: apply_compaction_def save_conv_def Let_def) (simp add: demo_long_def numeral_eq_Suc)
qed

lemma demo_long_shorter: "synth_pair ''Let me look.'' 3 @ [demo_line] \<noteq> replicate 4 demo_line"
  by (simp add: synth_pair_def numeral_eq_Suc)

text \<open>
  C39. A compaction does nothing at all, or it replaces a prefix, and that only when a limit was passed: what it keeps is kept word for
  word and begins with something a history can begin with, it is at most a quarter of the messages, in their place stands one
  exchange that says how many they were, the file from before is kept aside, and the next check waits for a new measurement.
\<close>

theorem compaction_exact:
  "(let c' = snd (compact_if_needed sz answer unbacked st g c); k = length (cn_messages c) in
    c' = c \<or>
    (needs_compaction c \<and> cn_last_input c' = 0 \<and> (cn_file c \<noteq> None \<longrightarrow> cn_prev c' = cn_file c) \<and>
     (\<exists>n s. n < k \<and> 4 * (k - n) \<le> k \<and> may_begin (cn_messages c ! n) \<and> trim_with is_space s \<noteq> [] \<and>
       cn_messages c' = synth_pair s n @ drop n (cn_messages c))))"
proof -
  obtain g' c' where e: "compact_if_needed sz answer unbacked st g c = (g', c')" by fastforce
  from e show ?thesis
  proof (cases rule: compaction_cases)
    case (2 n s)
    have "needs_compaction c \<or> c' = c" using e by (cases "needs_compaction c") (simp_all add: compact_if_needed_def)
    moreover have "4 * (length (cn_messages c) - n) \<le> length (cn_messages c)"
      using 2(1,2) by (simp add: keep_divisor_def)
    moreover have "cn_last_input c' = 0" "cn_messages c' = synth_pair s n @ drop n (cn_messages c)"
      "cn_prev c' = (case cn_file c of None \<Rightarrow> cn_prev c | Some f \<Rightarrow> Some f)"
      unfolding 2(5) by (simp_all add: save_conv_def split: save_step.splits)
    ultimately show ?thesis using 2(2,3,6) e by (auto simp: Let_def)
  qed (use e in simp)
qed

theorem compaction_exact_witness:
  "\<exists>n s. cn_messages (snd (compact_if_needed (\<lambda>ms. int (length ms)) (Inr demo_reply) None (SaveNotWritten []) empty_notes demo_long)) =
     synth_pair s n @ drop n (cn_messages demo_long)"
proof -
  have "snd (compact_if_needed (\<lambda>ms. int (length ms)) (Inr demo_reply) None (SaveNotWritten []) empty_notes demo_long) \<noteq> demo_long"
    unfolding demo_long_run using demo_long_shorter by (auto simp: demo_long_def)
  with compaction_exact[of "\<lambda>ms. int (length ms)" "Inr demo_reply" None "SaveNotWritten []" empty_notes demo_long] show ?thesis
    unfolding Let_def by blast
qed

text \<open>Less than four messages, or a last quarter that is one long turn: nowhere to cut, however large they are.\<close>

lemma short_uncompacted:
  assumes "length (cn_messages c) < keep_divisor"
  shows "compact_if_needed sz answer unbacked st g c = (g, c)"
  using assms by (simp add: compact_if_needed_def Let_def cut_point_def keep_divisor_def)

text \<open>
  A compaction whose save failed is not undone, and the file is then from before it: the conversation in memory and the one a
  restart brings back differ.
\<close>

theorem unsaved_compaction_stays:
  "\<exists>c answer st. let c' = snd (compact_if_needed (\<lambda>ms. int (length ms)) answer None st empty_notes c) in
     sound_conv c \<and> cn_file c = Some (cn_messages c) \<and> st \<noteq> SaveFine \<and> cn_messages c' \<noteq> cn_messages c \<and> cn_file c' = cn_file c \<and>
     cn_messages (conv_step (\<lambda>ms. int (length ms)) OpRestart c') = cn_messages c"
proof -
  have "sound_conv demo_long" by (simp add: demo_long_def demo_line_def sound_conv_def plain_user numeral_eq_Suc)
  moreover have "repair_tail (replicate 4 demo_line) = replicate 4 demo_line"
    by (simp add: repair_tail_def dangling_uses_def demo_line_def numeral_eq_Suc)
  ultimately show ?thesis using demo_long_run demo_long_shorter
    by (intro exI[of _ demo_long] exI[of _ "Inr demo_reply"] exI[of _ "SaveNotWritten []"]) (simp add: Let_def, simp add: demo_long_def load_conv_def)
qed

end
