(* ===== verification/BridgeProps.thy ===== *)
theory BridgeProps
  imports Bridge GateProps
begin

text \<open>
  What the operator's page promises: its cards are the hub's raised hands; a page shows the log in order, once; somebody
  who watches an open bridge is always fed. And two ways it does not keep them.
\<close>

section \<open>Cards and hands\<close>

definition card_ids :: "bridge \<Rightarrow> string set" where
  "card_ids b = dom (map_of (br_cards b))"

definition hand_ids :: "hub \<Rightarrow> string set" where
  "hand_ids h = dom (map_of (hb_raised h))"

definition told_change :: "pending_change \<Rightarrow> string set \<Rightarrow> string set" where
  "told_change c s = (case c of HandUp r \<Rightarrow> insert (ra_id r) s | HandDown i \<Rightarrow> s - {i})"

lemma card_keeps_id [simp]: "cd_id (build_card r) = ra_id r"
  by (simp add: build_card_def confirm_card_def question_card_def Let_def)

lemma emit_cards [simp]: "br_cards (emit f b) = br_cards b" "br_id (emit f b) = br_id b" "br_last (emit f b) = br_last b"
  by (simp_all add: emit_def)

lemma emit_ids [simp]: "card_ids (emit f b) = card_ids b"
  by (simp add: card_ids_def)

lemma update_dom: "dom (map_of (AList.update k v xs)) = insert k (dom (map_of xs))"
  by (simp add: update_conv')

lemma delete_dom: "dom (map_of (AList.delete k xs)) = dom (map_of xs) - {k}"
  by (auto simp: delete_conv')

lemma show_card_ids: "card_ids (fst (show_card keys t r bk)) = insert (ra_id r) (card_ids (fst bk))"
proof (cases "known_card (ra_id r) (fst bk)")
  case True
  then show ?thesis by (auto simp: show_card_def known_card_def card_ids_def)
next
  case False
  then show ?thesis
    by (simp add: show_card_def card_for_def Let_def card_ids_def update_dom split: prod.splits)
qed

lemma forgot_ids: "card_ids (forget_card i b) = card_ids b - {i}"
  by (simp add: forget_card_def card_ids_def delete_dom)

lemma on_pending_ids: "card_ids (fst (on_pending keys t c bk)) = told_change c (card_ids (fst bk))"
  by (cases c) (simp_all add: on_pending_def told_change_def show_card_ids forgot_ids)

lemma shown_ids: "card_ids (fst (fold (show_card keys t) rs bk)) = ra_id ` set rs \<union> card_ids (fst bk)"
  by (induction rs arbitrary: bk) (auto simp: show_card_ids)

lemma stream_ids: "card_ids (fst (fold (on_pending keys t) cs bk)) = fold told_change cs (card_ids (fst bk))"
  by (induction cs arbitrary: bk) (simp_all add: on_pending_ids)

lemma resolved_ids: "card_ids (fold (\<lambda>i. emit (resolved_frame i)) is b) = card_ids b"
  by (induction "is" arbitrary: b) simp_all

lemma kept_dom: "dom (map_of (filter (\<lambda>(i, c). i \<in> s) xs)) = dom (map_of xs) \<inter> s"
  by (force simp: dom_map_of_conv_image_fst)

lemma dropped_ids: "card_ids (snd (drop_missing keep b)) = card_ids b \<inter> set keep"
  by (simp add: drop_missing_def card_ids_def kept_dom)

lemma resync_ids: "card_ids (fst (resync keys t up bk)) = ra_id ` set up"
proof -
  have "card_ids (fst (resync keys t up bk)) = ra_id ` set up \<union> card_ids (snd (drop_missing (List.map ra_id up) (fst bk)))"
    by (simp add: resync_def shown_ids resolved_ids split: prod.splits)
  then show ?thesis by (auto simp: dropped_ids)
qed

section \<open>The hub's own channel\<close>

datatype hub_op = HubRaise int raised | HubClear string

fun hub_do :: "hub_op \<Rightarrow> hub \<Rightarrow> hub" where
  "hub_do (HubRaise now r) h = raise_hand now r h"
| "hub_do (HubClear i) h = clear_hand i h"

definition sound_hub :: "hub \<Rightarrow> bool" where
  "sound_hub h \<longleftrightarrow> distinct (List.map fst (hb_raised h)) \<and> (\<forall>(i, r)\<in>set (hb_raised h). ra_id r = i)"

lemma offered: "map_of (offer cap x subs) c = map_option (\<lambda>q. if length q < cap then q @ [x] else q) (map_of subs c)"
  by (induction subs) (auto simp: offer_def)

lemma listed_ids: "sound_hub h \<Longrightarrow> ra_id ` set (list_hands h) = hand_ids h"
  by (force simp: list_hands_def sound_hub_def hand_ids_def dom_map_of_conv_image_fst)

lemma hub_do_told:
  assumes "map_of (hb_subs h) c = Some q" and "length q < hub_queue"
  shows "\<exists>ps. length ps \<le> 1 \<and> map_of (hb_subs (hub_do x h)) c = Some (q @ ps) \<and>
    hand_ids (hub_do x h) = fold told_change ps (hand_ids h)"
proof (cases x)
  case (HubRaise now r)
  then show ?thesis using assms
    by (intro exI[of _ "[HandUp (r\<lparr>ra_since := now\<rparr>)]"])
      (simp add: raise_hand_def publish_def Let_def offered hand_ids_def update_dom told_change_def)
next
  case (HubClear i)
  show ?thesis
  proof (cases "map_of (hb_raised h) i")
    case None
    then show ?thesis using HubClear assms
      by (intro exI[of _ "[]"]) (auto simp: clear_hand_def Let_def hand_ids_def delete_dom)
  next
    case (Some r)
    then show ?thesis using HubClear assms
      by (intro exI[of _ "[HandDown i]"])
        (simp add: clear_hand_def publish_def Let_def offered hand_ids_def delete_dom told_change_def)
  qed
qed

lemma hub_run_told:
  "map_of (hb_subs h) c = Some q \<Longrightarrow> length q + length xs \<le> hub_queue \<Longrightarrow>
   \<exists>ps. map_of (hb_subs (fold hub_do xs h)) c = Some (q @ ps) \<and> hand_ids (fold hub_do xs h) = fold told_change ps (hand_ids h)"
proof (induction xs arbitrary: h q)
  case (Cons x xs)
  then obtain ps where ps: "length ps \<le> 1" "map_of (hb_subs (hub_do x h)) c = Some (q @ ps)"
    "hand_ids (hub_do x h) = fold told_change ps (hand_ids h)"
    using hub_do_told[of h c q x] by auto
  then have "length (q @ ps) + length xs \<le> hub_queue" using Cons.prems(2) by simp
  from Cons.IH[OF ps(2) this] ps(3) show ?case by force
qed simp

lemma subscribed_hub: "map_of (hb_subs (hub_subscribe c h)) c = Some []" "hand_ids (hub_subscribe c h) = hand_ids h"
  "list_hands (hub_subscribe c h) = list_hands h"
  by (simp_all add: hub_subscribe_def subscribe_def hand_ids_def list_hands_def update_conv')

lemma raised_again: "fold told_change (List.map HandUp rs) s = ra_id ` set rs \<union> s"
  by (induction rs arbitrary: s) (auto simp: told_change_def)


definition demo_hand :: raised where
  "demo_hand = \<lparr>ra_id = ''a-1'', ra_agent = ''a'', ra_kind = ''question'', ra_tool = [], ra_preview = [], ra_input = [],
     ra_question = ''which?'', ra_ui = None, ra_shot = [], ra_since = 0\<rparr>"

definition demo_caps :: caps where
  "demo_caps = \<lparr>cp_origin = ''https://v'', cp_grants = [], cp_minted = 0\<rparr>"

lemma new_hub_sound: "sound_hub new_hub"
  by (simp add: sound_hub_def new_hub_def)

lemma demo_hub_sound: "sound_hub (raise_hand 1 demo_hand new_hub)"
  by (simp add: sound_hub_def new_hub_def raise_hand_def publish_def demo_hand_def Let_def)


text \<open>
  A hand lowered between the read of the set and the start of the stream is told by neither: its card stays on the page though
  nobody is asking, until the connection is made again.
\<close>

theorem late_clear_keeps_card:
  "\<exists>h0 xs. let h1 = fold hub_do xs h0 in
     sound_hub h0 \<and> hand_ids h1 = {} \<and>
     card_ids (fst (fold (on_pending keys t) (List.map HandUp (list_hands h1)) (resync keys t (list_hands h0) (new_bridge i, k)))) \<noteq> {}"
proof -
  let ?h1 = "clear_hand ''a-1'' (raise_hand 1 demo_hand new_hub)"
  have "hand_ids ?h1 = {}" "list_hands ?h1 = []"
    by (simp_all add: clear_hand_def raise_hand_def publish_def new_hub_def demo_hand_def hand_ids_def list_hands_def Let_def)
  moreover have "ra_id ` set (list_hands (raise_hand 1 demo_hand new_hub)) \<noteq> {}"
    by (simp add: raise_hand_def publish_def new_hub_def list_hands_def demo_hand_def Let_def)
  ultimately show ?thesis
    by (intro exI[of _ "raise_hand 1 demo_hand new_hub"] exI[of _ "[HubClear ''a-1'']"])
      (simp add: Let_def demo_hub_sound resync_ids)
qed

section \<open>A page and the log\<close>

definition sent_ids :: "frame_out list \<Rightarrow> frame_out list" where
  "sent_ids fs = filter (\<lambda>f. fo_id f > 0) fs"

definition framed :: "(string \<Rightarrow> string) \<Rightarrow> event list \<Rightarrow> frame_out list" where
  "framed path_of es = List.map_filter (frame_for path_of) es"

lemma framed_append [simp]: "framed p (xs @ ys) = framed p xs @ framed p ys"
  by (simp add: framed_def map_filter_def)

lemma framed_cases: "framed p [] = []" "framed p (e # es) = (case frame_for p e of Some f \<Rightarrow> f # framed p es | None \<Rightarrow> framed p es)"
  by (simp_all add: framed_def map_filter_def split: option.splits)

lemma frame_keeps_id: "frame_for p e = Some f \<Longrightarrow> fo_id f = ev_id e"
  by (auto simp: frame_for_def tool_beat_def new_frame_def Let_def split: if_splits prod.splits)

lemma framed_ids: "f \<in> set (framed p es) \<Longrightarrow> \<exists>e\<in>set es. fo_id f = ev_id e"
  by (induction es) (auto simp: framed_cases dest: frame_keeps_id split: option.splits)

lemma framed_filter: "framed p (filter (\<lambda>e. P (ev_id e)) es) = filter (\<lambda>f. P (fo_id f)) (framed p es)"
  by (induction es) (auto simp: framed_cases dest: frame_keeps_id split: option.splits)

lemma framed_sorted: "sorted_wrt (<) (List.map ev_id es) \<Longrightarrow> sorted_wrt (<) (List.map fo_id (framed p es))"
proof (induction es)
  case (Cons e es)
  then show ?case
    by (auto simp: framed_cases dest!: framed_ids frame_keeps_id split: option.splits)
qed (simp add: framed_cases)

text \<open>A strictly growing run of frames: what is past the mark is written, all of it.\<close>

lemma emit_run:
  "sorted_wrt (<) (List.map fo_id fs) \<Longrightarrow> \<forall>f\<in>set fs. fo_id f > 0 \<Longrightarrow>
   fold emit_frame fs (w, s) = (w @ filter (\<lambda>f. fo_id f > s) fs, fold (\<lambda>f. max (fo_id f)) fs s)"
proof (induction fs arbitrary: w s)
  case (Cons f fs)
  show ?case
  proof (cases "fo_id f \<le> s")
    case True
    then show ?thesis using Cons by (simp add: emit_frame_def)
  next
    case False
    have "filter (\<lambda>g. fo_id g > max (fo_id f) s) fs = filter (\<lambda>g. fo_id g > s) fs"
      using Cons.prems(1) False by (intro filter_cong) auto
    then show ?thesis using Cons False by (simp add: emit_frame_def)
  qed
qed simp

lemma emit_unnumbered:
  "\<forall>f\<in>set fs. fo_id f = 0 \<Longrightarrow> 0 \<le> s \<Longrightarrow>
   sent_ids (fst (fold emit_frame fs (w, s))) = sent_ids w \<and> snd (fold emit_frame fs (w, s)) = s"
  by (induction fs arbitrary: w) (auto simp: emit_frame_def sent_ids_def)

lemma pump_drains: "pump_loop (length q) (OpenChan q) ws = fold emit_frame q ws"
  by (induction q arbitrary: ws) simp_all

lemma mark_of_run:
  "sorted_wrt (<) (List.map fo_id fs) \<Longrightarrow> \<forall>f\<in>set fs. fo_id f > s \<Longrightarrow>
   fold (\<lambda>f. max (fo_id f)) fs s = (if fs = [] then s else fo_id (List.last fs))"
proof (induction fs arbitrary: s)
  case (Cons f fs)
  have "max (fo_id f) s = fo_id f" using Cons.prems(2) by simp
  then show ?case using Cons by auto
qed simp

lemma newest_sorted: "sorted_wrt P xs \<Longrightarrow> sorted_wrt P (newest n xs)"
  by (simp add: newest_def sorted_wrt_drop)

lemma newest_subset: "set (newest n xs) \<subseteq> set xs"
  by (simp add: newest_def set_drop_subset)

lemma newest_last: "n > 0 \<Longrightarrow> xs \<noteq> [] \<Longrightarrow> newest n xs \<noteq> [] \<and> List.last (newest n xs) = List.last xs"
  by (cases xs) (auto simp: newest_def last_drop)

lemma pending_unnumbered:
  "\<exists>cs. fst (with_pending keys t out bk) = out @ cs \<and> (\<forall>f\<in>set cs. fo_id f = 0)"
proof -
  have "\<exists>cs. fst (fold (\<lambda>c (fs, k). case link_for keys t i c k of (url, k') \<Rightarrow> (fs @ [card_frame url c], k')) xs (out, k)) = out @ cs \<and>
      (\<forall>f\<in>set cs. fo_id f = 0)" for xs k i out
  proof (induction xs arbitrary: out k)
    case (Cons x xs)
    obtain url k' where e: "link_for keys t i x k = (url, k')" by fastforce
    from Cons.IH[of "out @ [card_frame url x]" k'] show ?case using e by (auto simp: card_frame_def new_frame_def)
  qed simp
  then show ?thesis by (simp add: with_pending_def)
qed

text \<open>What a page's channel holds after a run of events.\<close>

lemma on_event_queue:
  assumes "map_of (br_subs b) c = Some q" and "length (q @ framed p es) \<le> page_queue"
  shows "map_of (br_subs (fold (on_event p) es b)) c = Some (q @ framed p es)"
  using assms
proof (induction es arbitrary: b q)
  case (Cons e es)
  show ?case
  proof (cases "frame_for p e")
    case None
    then show ?thesis using Cons by (simp add: on_event_def Let_def framed_cases)
  next
    case (Some f)
    have "map_of (br_subs (on_event p e b)) c = Some (q @ [f])"
      using Some Cons.prems by (simp add: on_event_def Let_def emit_def offered framed_cases)
    from Cons.IH[OF this] show ?thesis using Some Cons.prems(2) by (simp add: framed_cases)
  qed
qed (simp add: framed_cases)

lemma sorted_le_last: "sorted_wrt (<) (List.map fo_id fs) \<Longrightarrow> f \<in> set fs \<Longrightarrow> fo_id f \<le> fo_id (List.last fs)"
proof (induction fs)
  case (Cons a fs)
  show ?case
  proof (cases "fs = []")
    case False
    then have "fo_id a < fo_id (List.last fs)" using Cons.prems(1) last_in_set[OF False] by simp
    then have "f = a \<Longrightarrow> ?thesis" using False by simp
    then show ?thesis using Cons.IH Cons.prems False by (cases "f = a") simp_all
  qed (use Cons.prems in simp)
qed simp

text \<open>What the mark leaves of the frames waiting: nothing of the history a second time, everything after it.\<close>

lemma waiting_frames:
  assumes "sorted_wrt (<) (List.map fo_id fs)" and "l \<le> m"
    and h: "h = filter (\<lambda>f. from < fo_id f \<and> fo_id f \<le> m) fs" and mark: "mark = (if h = [] then from else fo_id (List.last h))"
  shows "filter (\<lambda>f. mark < fo_id f) (filter (\<lambda>f. l < fo_id f \<and> fo_id f \<le> n) fs) =
    filter (\<lambda>f. max from m < fo_id f \<and> fo_id f \<le> n) fs"
proof -
  have h_sorted: "sorted_wrt (<) (List.map fo_id h)"
    using assms(1) unfolding h sorted_wrt_map by (rule sorted_wrt_filter)
  have last_in: "from < fo_id (List.last h) \<and> fo_id (List.last h) \<le> m" if "h \<noteq> []"
    using that last_in_set[OF that] unfolding h by simp
  have "(mark < fo_id f \<and> l < fo_id f \<and> fo_id f \<le> n) = (max from m < fo_id f \<and> fo_id f \<le> n)" if f: "f \<in> set fs" for f
  proof
    assume *: "mark < fo_id f \<and> l < fo_id f \<and> fo_id f \<le> n"
    then have "from < fo_id f" using last_in by (auto simp: mark split: if_splits)
    moreover have "m < fo_id f"
    proof (rule ccontr)
      assume "\<not> m < fo_id f"
      then have "f \<in> set h" using \<open>from < fo_id f\<close> f by (simp add: h)
      then have "fo_id f \<le> mark" using sorted_le_last[OF h_sorted] by (auto simp: mark)
      then show False using * by simp
    qed
    ultimately show "max from m < fo_id f \<and> fo_id f \<le> n" using * by simp
  next
    assume "max from m < fo_id f \<and> fo_id f \<le> n"
    then show "mark < fo_id f \<and> l < fo_id f \<and> fo_id f \<le> n"
      using assms(2) last_in by (auto simp: mark)
  qed
  then show ?thesis by (simp add: filter_filter conj_commute cong: filter_cong)
qed


text \<open>A log of three lines: the page resumes after the first, subscribes when two are there, and reads three.\<close>

definition demo_line :: "int \<Rightarrow> string \<Rightarrow> event" where
  "demo_line i s = (blank_event ''text'')\<lparr>ev_id := i, ev_text := s\<rparr>"


section \<open>Who is fed\<close>

inductive bridge_step :: "bridge \<Rightarrow> bridge \<Rightarrow> bool" where
  bs_event: "br_running b \<Longrightarrow> bridge_step b (on_event p e b)"
| bs_pending: "br_running b \<Longrightarrow> on_pending keys t ch (b, k) = (b', k') \<Longrightarrow> bridge_step b b'"
| bs_resync: "br_running b \<Longrightarrow> resync keys t up (b, k) = (b', k') \<Longrightarrow> bridge_step b b'"
| bs_state: "bridge_step b (emit f b)"
| bs_subscribe: "bridge_step b (snd (subscribe_page c b))"
| bs_unsubscribe: "bridge_step b (unsubscribe_page c b)"
| bs_timer: "bridge_step b (stop_if_empty b)"
| bs_close: "bridge_step b (close_bridge b)"

definition fed :: "bridge \<Rightarrow> bool" where
  "fed b \<longleftrightarrow> (br_closed b \<longrightarrow> \<not> br_running b) \<and> (\<not> br_closed b \<and> br_subs b \<noteq> [] \<longrightarrow> br_running b)"

text \<open>Nothing a consumer does starts or stops it, or adds or removes a page.\<close>

definition same_watch :: "bridge \<Rightarrow> bridge \<Rightarrow> bool" where
  "same_watch b b' \<longleftrightarrow> br_closed b' = br_closed b \<and> br_running b' = br_running b \<and> List.map fst (br_subs b') = List.map fst (br_subs b)"

lemma same_watch_refl [simp]: "same_watch b b"
  by (simp add: same_watch_def)

lemma same_watch_trans: "same_watch a b \<Longrightarrow> same_watch b c \<Longrightarrow> same_watch a c"
  by (simp add: same_watch_def)

lemma watch_emit: "same_watch b (emit f b)"
  by (simp add: same_watch_def emit_def offer_def split_beta comp_def)

lemma watch_cards: "same_watch b (b\<lparr>br_cards := cs\<rparr>)" "same_watch b (b\<lparr>br_last := n\<rparr>)"
  by (simp_all add: same_watch_def)

lemma watch_event: "same_watch b (on_event p e b)"
  using watch_cards(2) same_watch_trans[OF watch_cards(2) watch_emit] by (auto simp: on_event_def Let_def split: option.splits)

lemma watch_show: "same_watch (fst bk) (fst (show_card keys t r bk))"
  by (auto simp: show_card_def card_for_def Let_def intro: same_watch_trans[OF watch_cards(1) watch_emit] split: prod.splits)

lemma watch_pending: "same_watch (fst bk) (fst (on_pending keys t ch bk))"
  using watch_show same_watch_trans[OF watch_cards(1) watch_emit]
  by (auto simp: on_pending_def forget_card_def split: pending_change.splits)

lemma watch_fold: "(\<And>bk x. same_watch (fst bk) (fst (f x bk))) \<Longrightarrow> same_watch (fst bk) (fst (fold f xs bk))"
proof (induction xs arbitrary: bk)
  case (Cons x xs)
  show ?case using same_watch_trans[OF Cons.prems[of bk x] Cons.IH[OF Cons.prems, of "f x bk"]] by simp
qed simp

lemma watch_folded: "(\<And>b x. same_watch b (f x b)) \<Longrightarrow> same_watch b (fold f xs b)"
proof (induction xs arbitrary: b)
  case (Cons x xs)
  show ?case using same_watch_trans[OF Cons.prems[of b x] Cons.IH[OF Cons.prems, of "f x b"]] by simp
qed simp

lemma watch_resync: "same_watch (fst bk) (fst (resync keys t up bk))"
proof -
  obtain gone b where d: "drop_missing (List.map ra_id up) (fst bk) = (gone, b)" by fastforce
  then have "same_watch (fst bk) b" using watch_cards(1) by (auto simp: drop_missing_def)
  moreover have "same_watch b (fold (\<lambda>i. emit (resolved_frame i)) gone b)" by (rule watch_folded[OF watch_emit])
  ultimately show ?thesis
    using watch_fold[of "show_card keys t", OF watch_show, of "(fold (\<lambda>i. emit (resolved_frame i)) gone b, snd bk)" up] d
    by (simp add: resync_def) (blast intro: same_watch_trans)
qed

lemma fed_watch: "fed b \<Longrightarrow> same_watch b b' \<Longrightarrow> fed b'"
  by (auto simp: fed_def same_watch_def)

lemma step_fed: "bridge_step b b' \<Longrightarrow> fed b \<Longrightarrow> fed b'"
proof (induction rule: bridge_step.induct)
  case (bs_pending b keys t ch k b' k')
  then show ?case using watch_pending[of "(b, k)" keys t ch] fed_watch by simp
next
  case (bs_resync b keys t up k b' k')
  then show ?case using watch_resync[of "(b, k)" keys t up] fed_watch by simp
next
  case (bs_unsubscribe b c)
  then show ?case by (auto simp: fed_def unsubscribe_page_def Let_def)
qed (auto intro: fed_watch watch_event watch_emit simp: subscribe_page_def stop_if_empty_def close_bridge_def, auto simp: fed_def)

text \<open>
  Whoever watches is fed: over every interleaving of events, cards, pages coming and going, idle timers (even one that fires late) and
  the end of the machine, an open bridge with a page on it has its consumers running, and a closed one never runs again.
\<close>

theorem page_never_deaf:
  assumes "bridge_step\<^sup>*\<^sup>* (new_bridge i) b"
  shows "(br_closed b \<longrightarrow> \<not> br_running b) \<and> (\<not> br_closed b \<and> br_subs b \<noteq> [] \<longrightarrow> br_running b)"
proof -
  have "fed b" using assms by (induction rule: rtranclp_induct) (simp add: fed_def new_bridge_def, rule step_fed)
  then show ?thesis by (simp add: fed_def)
qed

theorem page_never_deaf_witness:
  "\<exists>b. b = snd (subscribe_page 0 (stop_if_empty (new_bridge ''vm''))) \<and>
     (br_closed b \<or> br_running b)"
proof -
  let ?b = "snd (subscribe_page 0 (stop_if_empty (new_bridge ''vm'')))"
  have "bridge_step\<^sup>*\<^sup>* (new_bridge ''vm'') ?b"
    using bs_timer[of "new_bridge ''vm''"] bs_subscribe[of "stop_if_empty (new_bridge ''vm'')" 0]
    by (meson r_into_rtranclp rtranclp.rtrancl_into_rtrancl)
  from page_never_deaf[OF this] show ?thesis
    by (simp add: subscribe_page_def stop_if_empty_def new_bridge_def)
qed

section \<open>A page on a machine that is gone\<close>

definition page_channel :: "nat \<Rightarrow> bridge \<Rightarrow> page_chan" where
  "page_channel c b = (if fst (subscribe_page c b) then OpenChan [] else ClosedChan)"

text \<open>
  A page that subscribes as its machine is deleted is not left in peace: the channel handed back is closed, receiving from it never
  waits, and the loop writes an empty frame each time round, however often it goes round.
\<close>

theorem closed_bridge_floods:
  "fst (pump n from [] (page_channel c (close_bridge b))) = replicate n zero_frame"
proof -
  have "fst (pump_loop n ClosedChan (w, s)) = w @ replicate n zero_frame" for w s
    by (induction n arbitrary: w s) (simp_all add: emit_frame_def zero_frame_def)
  then show ?thesis by (simp add: page_channel_def subscribe_page_def close_bridge_def pump_def)
qed

end
