(* ===== verification/Spec2Isabelle.thy ===== *)
theory Spec2Isabelle
  imports AppsCatalogProps NumberedProps GuestFilesProps GuestApiProps GuestWireProps EventStreamProps ControlApiProps AccountProps ScheduleRunProps MeterProps GateProps TeamProps FileToolsProps FeedProps ConversationProps BridgeProps AppsGateProps
begin

text \<open>
  Placeholder header.
\<close>

end
